(* ===== verification/Ecos_Prelude.thy ===== *)
theory Ecos_Prelude
  imports Main "HOL-Library.Word" "HOL-Library.AList"
begin

text \<open>
  What every component shares: the machine types of the Go code, the outcome of a call
  that may crash, the list lemmas used below, and the model of Go's
  \<^verbatim>\<open>map\<close> and \<^verbatim>\<open>sync.Map\<close> as an association list whose order is the
  (unspecified) iteration order.  The interface \<open>kv_store\<close> states the laws the stores
  of the program rely on; it is interpreted on the association-list operations.
\<close>

section \<open>Types\<close>

type_synonym u64 = "64 word"
type_synonym i32 = "32 word"
type_synonym byte = "8 word"
type_synonym bytes = "byte list"

text \<open>
  A call ends with a value, with a run-time panic (nil dereference, index out of range,
  close of a nil channel, explicit \<^verbatim>\<open>panic\<close>), with the process terminated by
  \<^verbatim>\<open>logger.Fatalf\<close>, or never, because it waits for something that cannot happen.
\<close>

datatype 'a exec = Ret 'a | Panic string | Fatal string | Blocks string

primrec exec_bind :: "'a exec \<Rightarrow> ('a \<Rightarrow> 'b exec) \<Rightarrow> 'b exec" where
  "exec_bind (Ret x) f = f x"
| "exec_bind (Panic m) f = Panic m"
| "exec_bind (Fatal m) f = Fatal m"
| "exec_bind (Blocks m) f = Blocks m"

text \<open>A loop over a list whose body may fail.\<close>

primrec exec_fold :: "('a \<Rightarrow> 's \<Rightarrow> 's exec) \<Rightarrow> 'a list \<Rightarrow> 's \<Rightarrow> 's exec" where
  "exec_fold f [] s = Ret s"
| "exec_fold f (x # xs) s = exec_bind (f x s) (exec_fold f xs)"

text \<open>Indexing of a Go slice: out of range is a panic, here \<open>None\<close>.\<close>

definition nth_opt :: "'a list \<Rightarrow> nat \<Rightarrow> 'a option" where
  "nth_opt xs i = (if i < length xs then Some (xs ! i) else None)"

text \<open>The conversion \<^verbatim>\<open>uint64(x)\<close> of a signed 32-bit value: sign extension, then wrap.\<close>

definition uint64_of_i32 :: "i32 \<Rightarrow> u64" where
  "uint64_of_i32 x = signed x"

section \<open>Collections of rules\<close>

named_theorems exec_simps \<open>evaluation of crashing computations\<close>
named_theorems store_simps \<open>lookup laws of the key-value stores\<close>

section \<open>Finite maps as association lists\<close>

type_synonym ('k, 'v) smap = "('k \<times> 'v) list"

definition sm_ok :: "('k, 'v) smap \<Rightarrow> bool" where
  "sm_ok m \<longleftrightarrow> distinct (map fst m)"

definition sm_load :: "('k, 'v) smap \<Rightarrow> 'k \<Rightarrow> 'v option" where
  "sm_load m k = map_of m k"

definition sm_store :: "'k \<Rightarrow> 'v \<Rightarrow> ('k, 'v) smap \<Rightarrow> ('k, 'v) smap" where
  "sm_store k v m = AList.update k v m"

definition sm_delete :: "'k \<Rightarrow> ('k, 'v) smap \<Rightarrow> ('k, 'v) smap" where
  "sm_delete k m = AList.delete k m"

section \<open>Lemmas\<close>

lemma exec_bind_simps [exec_simps, simp]:
  "exec_bind m f = Ret y \<longleftrightarrow> (\<exists>x. m = Ret x \<and> f x = Ret y)"
  by (cases m) auto

lemma exec_bind_assoc: "exec_bind (exec_bind m f) g = exec_bind m (\<lambda>x. exec_bind (f x) g)"
  by (cases m) simp_all

lemma nth_opt_Some [simp]: "nth_opt xs i = Some x \<longleftrightarrow> i < length xs \<and> xs ! i = x"
  by (simp add: nth_opt_def)

lemma nth_opt_None [simp]: "nth_opt xs i = None \<longleftrightarrow> length xs \<le> i"
  by (simp add: nth_opt_def)

lemma nth_opt_Cons_0 [simp]: "nth_opt (x # xs) 0 = Some x"
  by simp

lemma nth_opt_Cons_Suc [simp]: "nth_opt (x # xs) (Suc i) = nth_opt xs i"
  by (simp add: nth_opt_def)

lemma uint64_of_i32_nonneg:
  assumes "0 \<le> sint x"
  shows "unat (uint64_of_i32 x) = nat (sint x)"
proof -
  have lt: "sint x < 2 ^ 31"
    using sint_lt [of x] by simp
  have "uint (uint64_of_i32 x) = sint x mod 2 ^ 64"
    unfolding uint64_of_i32_def by transfer (simp add: take_bit_eq_mod)
  also have "\<dots> = sint x"
    using assms lt by (intro mod_pos_pos_trivial) auto
  finally show ?thesis
    by (simp add: unat_eq_nat_uint)
qed

lemma unat_word_of_nat64: "i < 2 ^ 64 \<Longrightarrow> unat (word_of_nat i :: u64) = i"
  by (simp add: unat_of_nat)

lemma unat_less_u64: "unat (x :: u64) < 2 ^ 64"
  using unsigned_less [of x, where ?'a = nat] by simp

lemma sint_ucast_i32:
  assumes "unat (x :: u64) < 2 ^ 31"
  shows "sint (ucast x :: i32) = int (unat x)"
proof -
  have x: "uint x < 2 ^ 31"
    using assms of_nat_less_iff [of "unat x" "2 ^ 31", where ?'a = int] by simp
  have "uint (ucast x :: i32) = uint x mod 2 ^ 32"
    by (simp add: unsigned_ucast_eq take_bit_eq_mod)
  also have "\<dots> = uint x"
    using x by (intro mod_pos_pos_trivial) auto
  finally have "sint (ucast x :: i32) = signed_take_bit 31 (uint x)"
    by (subst sint_uint) simp
  also have "\<dots> = uint x"
    using x by (intro signed_take_bit_int_eq_self) (auto intro: order_trans [OF _ uint_ge_0])
  finally show ?thesis by simp
qed

lemma sint_uint64_of_i32 [simp]: "sint (uint64_of_i32 x) = sint x"
  unfolding uint64_of_i32_def by transfer simp

lemma uint64_of_i32_pos:
  assumes "0 < sint x"
  shows "0 < uint64_of_i32 x" "unat (uint64_of_i32 x) \<le> 2 ^ 44"
  using assms sint_lt [of x] uint64_of_i32_nonneg [of x] by (simp_all add: word_less_nat_alt)

locale kv_store =
  fixes empty :: 's
    and load :: "'s \<Rightarrow> 'k \<Rightarrow> 'v option"
    and store :: "'k \<Rightarrow> 'v \<Rightarrow> 's \<Rightarrow> 's"
    and delete :: "'k \<Rightarrow> 's \<Rightarrow> 's"
    and ok :: "'s \<Rightarrow> bool"
  assumes empty_ok: "ok empty"
    and store_ok: "ok s \<Longrightarrow> ok (store k v s)"
    and delete_ok: "ok s \<Longrightarrow> ok (delete k s)"
    and load_empty: "load empty k = None"
    and load_store: "ok s \<Longrightarrow> load (store k v s) = (load s)(k \<mapsto> v)"
    and load_delete: "ok s \<Longrightarrow> load (delete k s) = (load s)(k := None)"
begin

lemma load_store_same: "ok s \<Longrightarrow> load (store k v s) k = Some v"
  by (simp add: load_store)

lemma load_store_other: "ok s \<Longrightarrow> k' \<noteq> k \<Longrightarrow> load (store k v s) k' = load s k'"
  by (simp add: load_store)

lemma load_store_twice: "ok s \<Longrightarrow> load (store k w (store k v s)) = load (store k w s)"
  by (simp add: load_store store_ok)

lemma load_delete_store: "ok s \<Longrightarrow> load s k = None \<Longrightarrow> load (delete k (store k v s)) = load s"
  by (simp add: load_store load_delete store_ok fun_upd_idem)

text \<open>A run of stores and deletes acts on the lookup function as on a partial map.\<close>

lemma ok_fold_store: "ok s \<Longrightarrow> ok (fold (\<lambda>(k, v). store k v) kvs s)"
  by (induction kvs arbitrary: s) (auto simp: store_ok)

lemma load_fold_store:
  "ok s \<Longrightarrow> load (fold (\<lambda>(k, v). store k v) kvs s) = load s ++ map_of (rev kvs)"
  by (induction kvs arbitrary: s) (auto simp: store_ok load_store map_add_upd_left)

end

interpretation sm: kv_store "[]" sm_load sm_store sm_delete sm_ok
  by unfold_locales
    (auto simp: sm_ok_def sm_load_def sm_store_def sm_delete_def distinct_update distinct_delete
      update_conv' delete_conv' fun_eq_iff)

lemmas sm_laws [store_simps] =
  sm.empty_ok sm.store_ok sm.delete_ok sm.load_empty sm.load_store sm.load_delete

lemma sm_load_set: "sm_ok m \<Longrightarrow> sm_load m k = Some v \<longleftrightarrow> (k, v) \<in> set m"
  by (simp add: sm_ok_def sm_load_def)

lemma sm_load_None: "sm_load m k = None \<longleftrightarrow> k \<notin> fst ` set m"
  by (simp add: sm_load_def map_of_eq_None_iff)


lemma set_sm_store: "sm_ok m \<Longrightarrow> kv \<in> set (sm_store k v m) \<longleftrightarrow> kv = (k, v) \<or> (kv \<in> set m \<and> fst kv \<noteq> k)"
  using sm_load_set [OF sm.store_ok [of m k v], of "fst kv" "snd kv"] sm_load_set [of m "fst kv" "snd kv"]
  by (cases kv) (auto simp: sm_laws split: if_splits)

lemma set_sm_delete: "sm_ok m \<Longrightarrow> kv \<in> set (sm_delete k m) \<longleftrightarrow> kv \<in> set m \<and> fst kv \<noteq> k"
  using sm_load_set [OF sm.delete_ok [of m k], of "fst kv" "snd kv"] sm_load_set [of m "fst kv" "snd kv"]
  by (cases kv) (auto simp: sm_laws split: if_splits)

lemma sm_keys_store: "fst ` set (sm_store k v m) = insert k (fst ` set m)"
  by (simp add: sm_store_def dom_update)

end
