(* ===== verification/Go_Strings.thy ===== *)
theory Go_Strings
  imports Ecos_Prelude
begin

text \<open>
  The parts of Go's standard library on strings that the program calls: \<^verbatim>\<open>strings\<close>
  (\<open>split_on\<close> is \<^verbatim>\<open>strings.Split\<close> and \<open>split_n\<close> is \<^verbatim>\<open>strings.SplitN\<close> for a one-byte
  separator), \<^verbatim>\<open>strconv\<close> in base ten, \<^verbatim>\<open>path.Clean\<close> and \<^verbatim>\<open>path.Join\<close>, and the
  conversion of a rune to a string.  A Go string is a list of bytes, here characters.
  The lemmas are the round trips the identifiers of buckets, objects and placement
  groups depend on.
\<close>

section \<open>strings\<close>

primrec split_on :: "'a \<Rightarrow> 'a list \<Rightarrow> 'a list list" where
  "split_on c [] = [[]]"
| "split_on c (x # xs) =
     (if x = c then [] # split_on c xs
      else (x # hd (split_on c xs)) # tl (split_on c xs))"

primrec split_n :: "nat \<Rightarrow> 'a \<Rightarrow> 'a list \<Rightarrow> 'a list list" where
  "split_n 0 c s = []"
| "split_n (Suc n) c s =
     (if n = 0 \<or> c \<notin> set s then [s]
      else takeWhile (\<lambda>x. x \<noteq> c) s # split_n n c (tl (dropWhile (\<lambda>x. x \<noteq> c) s)))"

fun join_with :: "'a \<Rightarrow> 'a list list \<Rightarrow> 'a list" where
  "join_with c [] = []"
| "join_with c [x] = x"
| "join_with c (x # y # zs) = x @ c # join_with c (y # zs)"

primrec has_prefix :: "'a list \<Rightarrow> 'a list \<Rightarrow> bool" where
  "has_prefix s [] = True"
| "has_prefix s (p # ps) = (case s of [] \<Rightarrow> False | x # xs \<Rightarrow> x = p \<and> has_prefix xs ps)"

definition trim_prefix :: "'a list \<Rightarrow> 'a list \<Rightarrow> 'a list" where
  "trim_prefix s p = (if has_prefix s p then drop (length p) s else s)"

primrec contains :: "'a list \<Rightarrow> 'a list \<Rightarrow> bool" where
  "contains [] p = (p = [])"
| "contains (x # xs) p = (has_prefix (x # xs) p \<or> contains xs p)"

text \<open>\<^verbatim>\<open>strings.Trim\<close> with a one-byte cutset.\<close>

definition trim_char :: "'a \<Rightarrow> 'a list \<Rightarrow> 'a list" where
  "trim_char c s = rev (dropWhile (\<lambda>x. x = c) (rev (dropWhile (\<lambda>x. x = c) s)))"

section \<open>strconv\<close>

definition digit_char :: "nat \<Rightarrow> char" where
  "digit_char d = char_of (48 + d)"

definition char_digit :: "char \<Rightarrow> nat option" where
  "char_digit c = (let n = (of_char c :: nat) in if 48 \<le> n \<and> n \<le> 57 then Some (n - 48) else None)"

fun show_nat :: "nat \<Rightarrow> string" where
  "show_nat n = (if n < 10 then [digit_char n] else show_nat (n div 10) @ [digit_char (n mod 10)])"

declare show_nat.simps [simp del]

definition FormatUint :: "u64 \<Rightarrow> string" where
  "FormatUint x = show_nat (unat x)"

definition Itoa :: "int \<Rightarrow> string" where
  "Itoa i = (if i < 0 then CHR ''-'' # show_nat (nat (- i)) else show_nat (nat i))"

primrec read_digits :: "nat \<Rightarrow> string \<Rightarrow> nat option" where
  "read_digits acc [] = Some acc"
| "read_digits acc (c # cs) =
     (case char_digit c of None \<Rightarrow> None | Some d \<Rightarrow> read_digits (acc * 10 + d) cs)"

text \<open>\<open>None\<close> is the error return: empty string, a non-digit, or a value out of range.\<close>

definition ParseUint :: "string \<Rightarrow> u64 option" where
  "ParseUint s =
     (if s = [] then None
      else case read_digits 0 s of
        None \<Rightarrow> None
      | Some n \<Rightarrow> if n < 2 ^ 64 then Some (word_of_nat n) else None)"

definition ParseInt :: "string \<Rightarrow> int option" where
  "ParseInt s =
     (let neg = (s \<noteq> [] \<and> hd s = CHR ''-'');
          body = (if s \<noteq> [] \<and> (hd s = CHR ''-'' \<or> hd s = CHR ''+'') then tl s else s)
      in if body = [] then None
         else case read_digits 0 body of
           None \<Rightarrow> None
         | Some n \<Rightarrow>
             if neg then (if n \<le> 2 ^ 63 then Some (- int n) else None)
             else (if n < 2 ^ 63 then Some (int n) else None))"

section \<open>path\<close>

text \<open>
  \<open>clean_comps\<close> walks the components the way \<^verbatim>\<open>path.Clean\<close> walks the bytes; the
  accumulator is the output so far, reversed, and a leading run of \<^verbatim>\<open>..\<close> is kept only
  when the path is not rooted.
\<close>

fun clean_comps :: "bool \<Rightarrow> string list \<Rightarrow> string list \<Rightarrow> string list" where
  "clean_comps rooted acc [] = rev acc"
| "clean_comps rooted acc (c # cs) =
     (if c = [] \<or> c = ''.'' then clean_comps rooted acc cs
      else if c = ''..'' then
        (if acc \<noteq> [] \<and> hd acc \<noteq> ''..'' then clean_comps rooted (tl acc) cs
         else if rooted then clean_comps rooted acc cs
         else clean_comps rooted (c # acc) cs)
      else clean_comps rooted (c # acc) cs)"

definition rooted :: "string \<Rightarrow> bool" where
  "rooted s \<longleftrightarrow> s \<noteq> [] \<and> hd s = CHR ''/''"

definition path_clean :: "string \<Rightarrow> string" where
  "path_clean s =
     (let cs = clean_comps (rooted s) [] (split_on (CHR ''/'') s)
      in if rooted s then CHR ''/'' # join_with (CHR ''/'') cs
         else if cs = [] then ''.'' else join_with (CHR ''/'') cs)"

definition path_join :: "string list \<Rightarrow> string" where
  "path_join es =
     (if (\<forall>e\<in>set es. e = []) then []
      else path_clean (join_with (CHR ''/'') (dropWhile (\<lambda>e. e = []) es)))"

text \<open>A component that \<^verbatim>\<open>path.Clean\<close> leaves alone.\<close>

definition good_comp :: "string \<Rightarrow> bool" where
  "good_comp c \<longleftrightarrow> c \<noteq> [] \<and> c \<noteq> ''.'' \<and> c \<noteq> ''..'' \<and> CHR ''/'' \<notin> set c"

section \<open>The conversion of a rune to a string\<close>

definition utf8 :: "nat \<Rightarrow> string" where
  "utf8 r =
     (if r < 128 then [char_of r]
      else if r < 2048 then [char_of (192 + r div 64), char_of (128 + r mod 64)]
      else if r < 65536 \<and> \<not> (55296 \<le> r \<and> r \<le> 57343) then
        [char_of (224 + r div 4096), char_of (128 + r div 64 mod 64), char_of (128 + r mod 64)]
      else if 65536 \<le> r \<and> r \<le> 1114111 then
        [char_of (240 + r div 262144), char_of (128 + r div 4096 mod 64),
         char_of (128 + r div 64 mod 64), char_of (128 + r mod 64)]
      else [char_of (239 :: nat), char_of (191 :: nat), char_of (189 :: nat)])"

section \<open>Lemmas on splitting and joining\<close>

lemma split_on_ne [simp]: "split_on c s \<noteq> []"
  by (cases s) auto

lemma split_on_no_sep: "c \<notin> set x \<Longrightarrow> split_on c x = [x]"
  by (induction x) auto

lemma split_on_append_sep: "c \<notin> set x \<Longrightarrow> split_on c (x @ c # s) = x # split_on c s"
  by (induction x) auto

lemma split_on_join:
  "xs \<noteq> [] \<Longrightarrow> \<forall>x\<in>set xs. c \<notin> set x \<Longrightarrow> split_on c (join_with c xs) = xs"
  by (induction c xs rule: join_with.induct) (auto simp: split_on_no_sep split_on_append_sep)

lemma split_on_parts: "x \<in> set (split_on c s) \<Longrightarrow> c \<notin> set x"
proof (induction s arbitrary: x)
  case (Cons a s)
  have "hd (split_on c s) \<in> set (split_on c s)"
    by (rule hd_in_set) simp
  moreover have "set (tl (split_on c s)) \<subseteq> set (split_on c s)"
    by (rule list.set_sel(2) [THEN subsetI]) auto
  ultimately show ?case
    using Cons by (auto split: if_splits)
qed simp

lemma join_with_Cons: "xs \<noteq> [] \<Longrightarrow> join_with c (x # xs) = x @ c # join_with c xs"
  by (cases xs) auto

lemma join_split: "join_with c (split_on c s) = s"
proof (induction s)
  case (Cons a s)
  obtain y ys where y: "split_on c s = y # ys"
    by (cases "split_on c s") (use split_on_ne in auto)
  show ?case
    using Cons y by (cases ys) auto
qed simp

lemma split_n_append_sep:
  "c \<notin> set x \<Longrightarrow> 0 < n \<Longrightarrow> split_n (Suc n) c (x @ c # s) = x # split_n n c s"
proof -
  assume c: "c \<notin> set x" and n: "0 < n"
  have "takeWhile (\<lambda>y. y \<noteq> c) (x @ c # s) = x"
    using c by (induction x) auto
  moreover have "dropWhile (\<lambda>y. y \<noteq> c) (x @ c # s) = c # s"
    using c by (induction x) auto
  ultimately show ?thesis
    using n by simp
qed

lemma has_prefix_iff: "has_prefix s p \<longleftrightarrow> (\<exists>t. s = p @ t)"
  by (induction p arbitrary: s) (auto split: list.splits)

lemma has_prefix_take: "has_prefix s p \<longleftrightarrow> length p \<le> length s \<and> take (length p) s = p"
  by (auto simp: has_prefix_iff) (metis append_take_drop_id)


lemma sep_eq_iff:
  "c \<notin> set a \<Longrightarrow> c \<notin> set b \<Longrightarrow> a @ c # s = b @ c # t \<longleftrightarrow> a = b \<and> s = t"
proof (induction a arbitrary: b)
  case Nil
  then show ?case
    by (cases b) auto
next
  case (Cons x a)
  then show ?case
    by (cases b) auto
qed

lemma contains_single:
  "c \<notin> set x \<Longrightarrow> c \<notin> set y \<Longrightarrow> contains (x @ c # y) (c # q) \<longleftrightarrow> has_prefix y q"
proof (induction x)
  case Nil
  have "c \<notin> set y \<Longrightarrow> \<not> contains y (c # q)"
    by (induction y) auto
  with Nil show ?case
    by simp
qed auto

lemma contains_append: "has_prefix y p \<Longrightarrow> contains (x @ y) p"
proof (induction x)
  case Nil
  then show ?case
    by (cases y) (auto simp: has_prefix_iff)
qed simp

lemma trim_prefix_append [simp]: "trim_prefix (p @ s) p = s"
  by (auto simp: trim_prefix_def has_prefix_iff)

section \<open>Lemmas on decimal numbers\<close>

lemma char_digit_digit_char [simp]: "d < 10 \<Longrightarrow> char_digit (digit_char d) = Some d"
  by (simp add: char_digit_def digit_char_def)

lemma show_nat_ne [simp]: "show_nat n \<noteq> []"
  by (subst show_nat.simps) simp

lemma show_nat_digits: "c \<in> set (show_nat n) \<Longrightarrow> char_digit c \<noteq> None"
proof (induction n rule: show_nat.induct)
  case (1 n)
  then show ?case
    by (subst (asm) (2) show_nat.simps) (auto split: if_splits)
qed

lemma notin_show_nat: "char_digit c = None \<Longrightarrow> c \<notin> set (show_nat n)"
  using show_nat_digits by blast

lemma slash_notin_show_nat [simp]: "CHR ''/'' \<notin> set (show_nat n)"
  by (rule notin_show_nat) (simp add: char_digit_def)

lemma dot_notin_show_nat [simp]: "CHR ''.'' \<notin> set (show_nat n)"
  by (rule notin_show_nat) (simp add: char_digit_def)

lemma read_digits_append:
  "read_digits acc (xs @ ys) = Option.bind (read_digits acc xs) (\<lambda>a. read_digits a ys)"
  by (induction xs arbitrary: acc) (auto split: option.splits)

lemma read_digits_show: "read_digits 0 (show_nat n) = Some n"
proof (induction n rule: show_nat.induct)
  case (1 n)
  show ?case
  proof (cases "n < 10")
    case True
    then show ?thesis
      by (subst show_nat.simps) simp
  next
    case False
    then have "read_digits 0 (show_nat (n div 10)) = Some (n div 10)"
      using 1 by simp
    then show ?thesis
      using False by (subst show_nat.simps) (simp add: read_digits_append)
  qed
qed

lemma show_nat_inject [simp]: "show_nat m = show_nat n \<longleftrightarrow> m = n"
  using read_digits_show by (metis option.inject)

lemma ParseUint_FormatUint [simp]: "ParseUint (FormatUint x) = Some x"
  using unsigned_less [of x, where ?'a = nat] by (simp add: ParseUint_def FormatUint_def read_digits_show)

lemma FormatUint_inject [simp]: "FormatUint x = FormatUint y \<longleftrightarrow> x = y"
  using ParseUint_FormatUint by (metis option.inject)

lemma good_comp_show_nat [simp]: "good_comp (show_nat n)"
proof -
  have "show_nat n \<noteq> ''.''" "show_nat n \<noteq> ''..''"
    using dot_notin_show_nat [of n] by (metis list.set_intros(1))+
  then show ?thesis
    by (simp add: good_comp_def)
qed

section \<open>Lemmas on paths\<close>

lemma clean_comps_good:
  "\<forall>c\<in>set cs. good_comp c \<Longrightarrow> clean_comps r acc cs = rev acc @ cs"
  by (induction cs arbitrary: acc) (auto simp: good_comp_def)

lemma not_rooted_join:
  assumes "cs \<noteq> []" "\<forall>c\<in>set cs. c \<noteq> [] \<and> CHR ''/'' \<notin> set c"
  shows "\<not> rooted (join_with (CHR ''/'') cs)"
proof -
  obtain x d ds where "cs = (x # d) # ds" "x \<noteq> CHR ''/''"
    using assms by (cases cs; cases "hd cs") auto
  then show ?thesis
    by (cases ds) (auto simp: rooted_def)
qed

lemma path_clean_join:
  assumes "cs \<noteq> []" "\<forall>c\<in>set cs. good_comp c"
  shows "path_clean (join_with (CHR ''/'') cs) = join_with (CHR ''/'') cs"
proof -
  have "\<not> rooted (join_with (CHR ''/'') cs)"
    using assms by (intro not_rooted_join) (auto simp: good_comp_def)
  then show ?thesis
    using assms by (auto simp: path_clean_def split_on_join clean_comps_good good_comp_def)
qed

lemma path_clean_rooted_join:
  assumes "\<forall>c\<in>set cs. good_comp c"
  shows "path_clean (CHR ''/'' # join_with (CHR ''/'') cs) = CHR ''/'' # join_with (CHR ''/'') cs"
proof (cases "cs = []")
  case False
  then have "split_on (CHR ''/'') (join_with (CHR ''/'') cs) = cs"
    using assms by (intro split_on_join) (auto simp: good_comp_def)
  then show ?thesis
    using assms by (simp add: path_clean_def rooted_def clean_comps_good)
qed (simp add: path_clean_def rooted_def)

lemma clean_comps_form:
  assumes "\<forall>c\<in>set cs. CHR ''/'' \<notin> set c" "\<forall>g\<in>set gs. good_comp g" "r \<longrightarrow> k = 0"
  shows "\<exists>k' ds. clean_comps r (gs @ replicate k ''..'') cs = replicate k' ''..'' @ ds
           \<and> (\<forall>d\<in>set ds. good_comp d) \<and> (r \<longrightarrow> k' = 0)"
  using assms
proof (induction cs arbitrary: gs k)
  case Nil
  then show ?case
    by (intro exI [of _ k] exI [of _ "rev gs"]) simp
next
  case (Cons c cs)
  note IH = Cons.IH [OF _ _ _]
  consider "c = [] \<or> c = ''.''" | "c = ''..''" "gs \<noteq> []" | "c = ''..''" "gs = []" | "good_comp c"
    using Cons.prems(1) by (auto simp: good_comp_def)
  then show ?case
  proof cases
    case 1
    then show ?thesis
      using Cons by auto
  next
    case 2
    then obtain g gs' where g: "gs = g # gs'"
      by (cases gs) auto
    then show ?thesis
      using Cons.IH [of gs' k] Cons.prems 2 by (auto simp: good_comp_def)
  next
    case 3
    show ?thesis
    proof (cases r)
      case True
      then show ?thesis
        using Cons.IH [of "[]" 0] Cons.prems 3 by simp
    next
      case False
      then have "clean_comps r (gs @ replicate k ''..'') (c # cs) = clean_comps r ([] @ replicate (Suc k) ''..'') cs"
        using 3 by (cases k) auto
      then show ?thesis
        using Cons.IH [of "[]" "Suc k"] Cons.prems False by simp
    qed
  next
    case 4
    then show ?thesis
      using Cons.IH [of "c # gs" k] Cons.prems by (auto simp: good_comp_def)
  qed
qed

lemma clean_comps_dotdots:
  assumes "\<forall>d\<in>set ds. good_comp d"
  shows "clean_comps False (replicate j ''..'') (replicate k ''..'' @ ds) = replicate (j + k) ''..'' @ ds"
proof (induction k arbitrary: j)
  case 0
  then show ?case
    using assms by (simp add: clean_comps_good)
next
  case (Suc k)
  have "clean_comps False (replicate j ''..'') (replicate (Suc k) ''..'' @ ds)
      = clean_comps False (replicate (Suc j) ''..'') (replicate k ''..'' @ ds)"
    by (cases j) auto
  then show ?case
    using Suc [of "Suc j"] by simp
qed

lemma path_clean_cases:
  obtains (abs) cs where "rooted s" "path_clean s = CHR ''/'' # join_with (CHR ''/'') cs"
      "\<forall>c\<in>set cs. good_comp c"
    | (dot) "\<not> rooted s" "path_clean s = ''.''"
    | (rel) k ds where "\<not> rooted s" "replicate k ''..'' @ ds \<noteq> []" "\<forall>c\<in>set ds. good_comp c"
      "path_clean s = join_with (CHR ''/'') (replicate k ''..'' @ ds)"
proof -
  obtain k ds where k: "clean_comps (rooted s) [] (split_on (CHR ''/'') s) = replicate k ''..'' @ ds"
    "\<forall>d\<in>set ds. good_comp d" "rooted s \<longrightarrow> k = 0"
    using clean_comps_form [of "split_on (CHR ''/'') s" "[]" "rooted s" 0] by (auto simp: split_on_parts)
  show thesis
  proof (cases "rooted s")
    case True
    then have "path_clean s = CHR ''/'' # join_with (CHR ''/'') ds"
      using k by (simp add: path_clean_def)
    then show thesis
      by (rule abs [OF True _ k(2)])
  next
    case False
    show thesis
    proof (cases "replicate k ''..'' @ ds = []")
      case True
      with False k(1) have "path_clean s = ''.''"
        by (simp only: path_clean_def Let_def if_False if_True simp_thms)
      with False show thesis
        by (rule dot)
    next
      case ne: False
      with False k(1) have "path_clean s = join_with (CHR ''/'') (replicate k ''..'' @ ds)"
        by (simp only: path_clean_def Let_def if_False simp_thms)
      with False ne k(2) show thesis
        by (rule rel)
    qed
  qed
qed

lemma path_clean_dot: "path_clean ''.'' = ''.''"
  by code_simp

lemma path_clean_rel:
  assumes "replicate k ''..'' @ ds \<noteq> []" "\<forall>c\<in>set ds. good_comp c"
  shows "path_clean (join_with (CHR ''/'') (replicate k ''..'' @ ds)) = join_with (CHR ''/'') (replicate k ''..'' @ ds)"
    (is "path_clean (join_with _ ?cs) = _")
proof -
  have sl: "\<forall>c\<in>set ?cs. c \<noteq> [] \<and> CHR ''/'' \<notin> set c"
    using assms(2) by (simp add: good_comp_def ball_Un)
  have "\<not> rooted (join_with (CHR ''/'') ?cs)"
    using assms(1) sl by (rule not_rooted_join)
  moreover have "split_on (CHR ''/'') (join_with (CHR ''/'') ?cs) = ?cs"
    using assms(1) sl by (intro split_on_join) simp_all
  moreover have "clean_comps False [] ?cs = ?cs"
    using clean_comps_dotdots [OF assms(2), of 0 k] by simp
  ultimately show ?thesis
    using assms(1) by (simp only: path_clean_def Let_def if_False)
qed

lemma path_clean_idem [simp]: "path_clean (path_clean s) = path_clean s"
  by (rule path_clean_cases [of s])
    (simp_all only: path_clean_rooted_join path_clean_dot path_clean_rel not_False_eq_True)

text \<open>The last component of a joined path is the file name.\<close>

lemma clean_comps_snoc: "good_comp c \<Longrightarrow> clean_comps r acc (cs @ [c]) = clean_comps r acc cs @ [c]"
  by (induction r acc cs rule: clean_comps.induct) (auto simp: good_comp_def)

lemma join_with_snoc: "join_with c (xs @ [x]) = (if xs = [] then x else join_with c xs @ c # x)"
  by (induction c xs rule: join_with.induct) auto

lemma split_on_snoc: "c \<notin> set y \<Longrightarrow> split_on c (x @ c # y) = split_on c x @ [y]"
  by (induction x) (auto simp: split_on_no_sep)

lemma path_join_file:
  assumes "good_comp c"
  obtains pre where "path_join [base, c] = pre @ c" "pre = [] \<or> last pre = CHR ''/''"
proof (cases "base = []")
  case True
  then have "path_join [base, c] = c"
    using assms path_clean_join [of "[c]"] by (simp add: path_join_def good_comp_def)
  then show ?thesis
    using that [of "[]"] by simp
next
  case False
  let ?s = "base @ CHR ''/'' # c" and ?cs = "clean_comps (rooted base) [] (split_on (CHR ''/'') base)"
  have r: "rooted ?s = rooted base"
    using False by (cases base) (simp_all add: rooted_def)
  have "clean_comps (rooted ?s) [] (split_on (CHR ''/'') ?s) = ?cs @ [c]"
    using assms by (simp add: r split_on_snoc clean_comps_snoc good_comp_def)
  then have "path_join [base, c]
      = (if rooted base then [CHR ''/''] else []) @ (if ?cs = [] then [] else join_with (CHR ''/'') ?cs @ [CHR ''/'']) @ c"
    using False by (simp add: path_join_def path_clean_def r join_with_snoc)
  then show ?thesis
    using that [of "(if rooted base then [CHR ''/''] else []) @ (if ?cs = [] then [] else join_with (CHR ''/'') ?cs @ [CHR ''/''])"]
    by (auto split: if_splits)
qed

lemma path_join_inject:
  assumes "good_comp c" "good_comp c'" "path_join [base, c] = path_join [base', c']"
  shows "c = c'"
proof -
  have fin: "rev (takeWhile (\<lambda>x. x \<noteq> CHR ''/'') (rev (path_join [b, d]))) = d" if d: "good_comp d" for b d
  proof -
    obtain pre where pre: "path_join [b, d] = pre @ d" "pre = [] \<or> last pre = CHR ''/''"
      using path_join_file [OF d] by blast
    have "takeWhile (\<lambda>x. x \<noteq> CHR ''/'') (rev pre) = []"
      using pre(2) by (cases pre rule: rev_cases) auto
    then have "takeWhile (\<lambda>x. x \<noteq> CHR ''/'') (rev d @ rev pre) = rev d"
      using d by (subst takeWhile_append2) (auto simp: good_comp_def)
    then show ?thesis
      by (simp add: pre(1))
  qed
  show ?thesis
    using fin [OF assms(1), of base] fin [OF assms(2), of base'] assms(3) by simp
qed

end
