(* ===== verification/Errno.thy ===== *)
theory Errno
  imports Go_Strings
begin

text \<open>
  The error values of \<^verbatim>\<open>utils/errno/errno.go\<close>: one constructor per variable, with its
  code and message, and the error interface the other components return.  The client
  recognises a stale term by the text of the error, since the code is lost on the wire;
  the lemmas show when that recognition is exact and which codes are shared.
\<close>

section \<open>Codes\<close>

definition AlayaError :: int where "AlayaError = (1 + 0) * 1000"
definition GaiaError :: int where "GaiaError = (1 + 1) * 1000"
definition MoonError :: int where "MoonError = (1 + 2) * 1000"
definition SunError :: int where "SunError = (1 + 3) * 1000"
definition ClientError :: int where "ClientError = (1 + 4) * 1000"
definition GatewayError :: int where "GatewayError = (1 + 5) * 1000"
definition CommonError :: int where "CommonError = (1 + 6) * 1000"
definition SystemError :: int where "SystemError = 77 * 1000"

datatype errno =
    PGNotExist
  | MetaNotExist
  | MetaStorageNotExist
  | TermNotExist
  | ConnectSunFail
  | MoonRaftNotReady
  | InfoTypeNotSupport
  | InfoNotFound
  | TermNotMatch
  | PgNotMatch
  | RaftNodeNotFound
  | IncompatibleSize
  | IllegalStatus
  | RepeatedClose
  | MethodNotAllowed
  | InvalidArgument
  | JobNotExist
  | ConnectionIssue
  | ClusterInfoErr
  | BlockOperationTimeout
  | NoSuchBucket
  | MissingBucket
  | MissingKey
  | EmptyField
  | MissingUploadId
  | InvalidUploadId
  | InvalidPartId
  | FileTooLarge
  | EntityTooSmall
  | InvalidPart
  | InvalidPartOrder
  | NoSuchUpload
  | ObjectNotFound
  | InvalidObjectState
  | SignatureDoesNotMatch
  | PoolClosed
  | ZeroSize
  | ClusterNotOK
  | NoTransporterErr
  | TransporterWriteFail
  | GaiaClosedErr
  | RemoteGaiaFail

primrec errno_code :: "errno \<Rightarrow> int" where
  "errno_code PGNotExist = AlayaError + 0"
| "errno_code MetaNotExist = AlayaError + 1"
| "errno_code MetaStorageNotExist = AlayaError + 2"
| "errno_code TermNotExist = AlayaError + 1"
| "errno_code ConnectSunFail = MoonError + 0"
| "errno_code MoonRaftNotReady = MoonError + 1"
| "errno_code InfoTypeNotSupport = MoonError + 2"
| "errno_code InfoNotFound = MoonError + 3"
| "errno_code TermNotMatch = MoonError + 4"
| "errno_code PgNotMatch = MoonError + 5"
| "errno_code RaftNodeNotFound = MoonError + 6"
| "errno_code IncompatibleSize = ClientError + 0"
| "errno_code IllegalStatus = ClientError + 2"
| "errno_code RepeatedClose = ClientError + 3"
| "errno_code MethodNotAllowed = ClientError + 4"
| "errno_code InvalidArgument = ClientError + 5"
| "errno_code JobNotExist = ClientError + 6"
| "errno_code ConnectionIssue = ClientError + 7"
| "errno_code ClusterInfoErr = ClientError + 8"
| "errno_code BlockOperationTimeout = ClientError + 9"
| "errno_code NoSuchBucket = GatewayError + 1"
| "errno_code MissingBucket = GatewayError + 2"
| "errno_code MissingKey = GatewayError + 3"
| "errno_code EmptyField = GatewayError + 4"
| "errno_code MissingUploadId = GatewayError + 5"
| "errno_code InvalidUploadId = GatewayError + 6"
| "errno_code InvalidPartId = GatewayError + 7"
| "errno_code FileTooLarge = GatewayError + 8"
| "errno_code EntityTooSmall = GatewayError + 9"
| "errno_code InvalidPart = GatewayError + 10"
| "errno_code InvalidPartOrder = GatewayError + 11"
| "errno_code NoSuchUpload = GatewayError + 12"
| "errno_code ObjectNotFound = GatewayError + 13"
| "errno_code InvalidObjectState = GatewayError + 14"
| "errno_code SignatureDoesNotMatch = GatewayError + 15"
| "errno_code PoolClosed = CommonError + 0"
| "errno_code ZeroSize = CommonError + 1"
| "errno_code ClusterNotOK = CommonError + 2"
| "errno_code NoTransporterErr = GaiaError + 0"
| "errno_code TransporterWriteFail = GaiaError + 1"
| "errno_code GaiaClosedErr = GaiaError + 2"
| "errno_code RemoteGaiaFail = GaiaError + 3"

primrec errno_message :: "errno \<Rightarrow> string" where
  "errno_message PGNotExist = ''place group not exist''"
| "errno_message MetaNotExist = ''meta data not exist''"
| "errno_message MetaStorageNotExist = ''meta data storage not exist''"
| "errno_message TermNotExist = ''term not exist''"
| "errno_message ConnectSunFail = ''connect sun fail''"
| "errno_message MoonRaftNotReady = ''moon raft not ready''"
| "errno_message InfoTypeNotSupport = ''info type not support''"
| "errno_message InfoNotFound = ''info not found''"
| "errno_message TermNotMatch = ''term not match''"
| "errno_message PgNotMatch = ''place group not match''"
| "errno_message RaftNodeNotFound = ''raft node not found''"
| "errno_message IncompatibleSize = ''incompatible size''"
| "errno_message IllegalStatus = ''block illegal status''"
| "errno_message RepeatedClose = ''block repeated close''"
| "errno_message MethodNotAllowed = ''method not allowed''"
| "errno_message InvalidArgument = ''invalid argument''"
| "errno_message JobNotExist = ''job not exist''"
| "errno_message ConnectionIssue = ''connect to edge node failed''"
| "errno_message ClusterInfoErr = ''get cluster info failed''"
| "errno_message BlockOperationTimeout = ''block operation timeout''"
| "errno_message NoSuchBucket = ''bucket not found''"
| "errno_message MissingBucket = ''missing bucket name''"
| "errno_message MissingKey = ''missing key''"
| "errno_message EmptyField = ''empty field''"
| "errno_message MissingUploadId = ''missing upload id''"
| "errno_message InvalidUploadId = ''invalid upload id''"
| "errno_message InvalidPartId = ''invalid part id''"
| "errno_message FileTooLarge = ''file too large''"
| "errno_message EntityTooSmall = ''entity too small''"
| "errno_message InvalidPart = ''invalid part''"
| "errno_message InvalidPartOrder = ''invalid part order''"
| "errno_message NoSuchUpload = ''no such upload''"
| "errno_message ObjectNotFound = ''object not found''"
| "errno_message InvalidObjectState = ''invalid object state''"
| "errno_message SignatureDoesNotMatch = ''signature does not match''"
| "errno_message PoolClosed = ''pool has closed''"
| "errno_message ZeroSize = ''0 for uint size''"
| "errno_message ClusterNotOK = ''cluster not ok''"
| "errno_message NoTransporterErr = ''no transporter available''"
| "errno_message TransporterWriteFail = ''transporter write fail''"
| "errno_message GaiaClosedErr = ''gaia context done''"
| "errno_message RemoteGaiaFail = ''remote gaia fail''"

section \<open>The error interface\<close>

text \<open>
  \<open>Err\<close> is an \<^verbatim>\<open>Errno\<close> made by \<^verbatim>\<open>newErr\<close>, \<open>Wrapped\<close> one made by \<^verbatim>\<open>WrapError\<close> around
  another error, \<open>ErrText\<close> any other error value with its text, \<open>EOF\<close> is \<^verbatim>\<open>io.EOF\<close>.
\<close>

datatype go_error = Err errno | Wrapped go_error int string | ErrText string | EOF

type_synonym 'a result = "go_error + 'a"

primrec Error :: "go_error \<Rightarrow> string" where
  "Error (Err e) = ''['' @ Itoa (errno_code e) @ ''] '' @ errno_message e"
| "Error (Wrapped r c m) = ''['' @ Itoa c @ ''] '' @ m @ '', raw: '' @ Error r"
| "Error (ErrText s) = s"
| "Error EOF = ''EOF''"

definition WrapError :: "go_error \<Rightarrow> int \<Rightarrow> string \<Rightarrow> go_error" where
  "WrapError err code message = Wrapped err code message"

text \<open>An error returned by a gRPC handler as the caller sees it.\<close>

definition rpc_error :: "go_error \<Rightarrow> go_error" where
  "rpc_error e = ErrText (''rpc error: code = Unknown desc = '' @ Error e)"

section \<open>Lemmas\<close>

lemmas errno_bases =
  AlayaError_def GaiaError_def MoonError_def SunError_def ClientError_def GatewayError_def
  CommonError_def SystemError_def

text \<open>Codes identify errors, with one exception: \<open>TermNotExist\<close> reuses the code of \<open>MetaNotExist\<close>.\<close>

lemma errno_code_eq_iff:
  "errno_code a = errno_code b \<longleftrightarrow>
     a = b \<or> (a = MetaNotExist \<and> b = TermNotExist) \<or> (a = TermNotExist \<and> b = MetaNotExist)"
  by (cases a; cases b) (simp_all add: errno_bases)

lemma errno_message_plain: "CHR ''['' \<notin> set (errno_message e)"
  by (cases e) simp_all

lemma Itoa_errno_code: "Itoa (errno_code e) = show_nat (nat (errno_code e))" "0 < errno_code e"
  by (cases e; simp add: errno_bases Itoa_def)+

text \<open>
  The text of an error is found in the text of no other error of the package as it arrives from a server,
  unless another error has its code.
\<close>

lemma rpc_error_text:
  assumes "e' \<noteq> MetaNotExist" "e' \<noteq> TermNotExist"
  shows "contains (Error (rpc_error (Err e))) (Error (Err e')) \<longleftrightarrow> e = e'"
proof
  let ?n = "\<lambda>e. show_nat (nat (errno_code e))"
  assume "contains (Error (rpc_error (Err e))) (Error (Err e'))"
  then have "has_prefix (?n e @ CHR '']'' # CHR '' '' # errno_message e) (?n e' @ CHR '']'' # CHR '' '' # errno_message e')"
    using contains_single [of "CHR ''[''" "''rpc error: code = Unknown desc = ''"
        "?n e @ CHR '']'' # CHR '' '' # errno_message e" "?n e' @ CHR '']'' # CHR '' '' # errno_message e'"]
    by (simp add: rpc_error_def Itoa_errno_code errno_message_plain notin_show_nat char_digit_def
        del: errno_message.simps errno_code.simps)
  then have "?n e = ?n e'"
    by (auto simp: has_prefix_iff sep_eq_iff notin_show_nat char_digit_def
        simp del: errno_message.simps errno_code.simps)
  then have "errno_code e = errno_code e'"
    using Itoa_errno_code(2) [of e] Itoa_errno_code(2) [of e'] by simp
  then show "e = e'"
    using assms by (simp only: errno_code_eq_iff) simp
next
  assume "e = e'"
  then show "contains (Error (rpc_error (Err e))) (Error (Err e'))"
    by (auto simp: rpc_error_def contains_append has_prefix_iff)
qed

lemma term_not_match_text: "contains (Error (rpc_error (Err e))) (Error (Err TermNotMatch)) \<longleftrightarrow> e = TermNotMatch"
  by (rule rpc_error_text) simp_all

section \<open>Properties\<close>

text \<open>
  two errors of the package have the same code exactly when they are the same error, with
  the single exception of the two errors for a missing term and a missing metadata.
\<close>

theorem errno_codes_distinct:
  "errno_code a = errno_code b \<longleftrightarrow> a = b \<or> {a, b} = {MetaNotExist, TermNotExist}"
  by (auto simp: errno_code_eq_iff doubleton_eq_iff simp del: errno_code.simps)

text \<open>
  a caller that looks for the text of the stale-term error in the text of an error received
  through a remote call finds it for that error and for no other error of the package.
\<close>

theorem stale_term_recognised:
  "contains (Error (rpc_error (Err e))) (Error (Err TermNotMatch)) \<longleftrightarrow> e = TermNotMatch"
  by (rule term_not_match_text)

end
