(* ===== verification/Infos.thy ===== *)
theory Infos
  imports Errno
begin

text \<open>
  The cluster information replicated by the moon component: the messages of
  \<^verbatim>\<open>edge-node/infos/infos.pb.go\<close> as records, the \<^verbatim>\<open>Information\<close> interface as the sum of
  its implementations, the in-memory storage with its update callbacks, and the register
  that dispatches on the information type.  A callback is an element of \<open>'f\<close>; an update
  returns the calls it makes, in iteration order, and the component that installed the
  callback gives them their effect.
\<close>

section \<open>Data\<close>

datatype InfoType =
  INVALID | NODE_INFO | BUCKET_INFO | CLUSTER_INFO | USER_INFO | GROUP_INFO | VOLUME_INFO | ACCESS_INFO

datatype NodeState = UNKNOWN | ONLINE | OFFLINE | ERROR

datatype HashType = OFF | SHA256 | MURMUR3_128 | MURMUR3_32

record Timestamp =
  Seconds :: int
  Nanos :: int

record NodeInfo =
  RaftId :: u64
  Uuid :: string
  IpAddr :: string
  RpcPort :: u64
  Capacity :: u64
  State :: NodeState

record ClusterInfo =
  Term :: u64
  LeaderInfo :: "NodeInfo option"
  NodesInfo :: "NodeInfo list"
  UpdateTimestamp :: "Timestamp option"
  MetaPgNum :: i32
  MetaPgSize :: i32
  BlockPgNum :: i32
  BlockPgSize :: i32
  LastTerm :: u64

record BucketConfig =
  KeySlotNum :: i32
  BlockSize :: u64
  BlockHashEnable :: bool
  ObjectHashEnable :: bool
  HistoryVersionEnable :: bool
  BlockHashType :: HashType
  ObjectHashType :: HashType

record BucketInfo =
  VolumeId_b :: string
  BucketName :: string
  UserId_b :: string
  GroupId_b :: string
  Mode :: i32
  Config :: "BucketConfig option"

record UserInfo =
  UserId :: string
  UserName :: string
  UserGroup :: string
  UserEmail :: string
  UserPassword :: string
  UserStatus :: string
  UserCreatedAt :: "Timestamp option"
  UserUpdatedAt :: "Timestamp option"

record GroupInfo =
  GroupId :: string
  GroupName :: string
  GroupDescription :: string
  GroupCreatedAt :: "Timestamp option"
  GroupUpdatedAt :: "Timestamp option"

record VolumeInfo =
  VolumeId :: string
  UserId_v :: string
  QuotaSize :: u64
  UsedSize :: u64

record AccessInfo =
  AccessKey :: string
  AccessSecret :: string
  UserId_a :: string
  BucketId :: string

text \<open>The oneof of \<^verbatim>\<open>BaseInfo\<close>; \<open>BaseInfo_nil\<close> is the message with no member set.\<close>

datatype BaseInfo =
    BaseInfo_NodeInfo NodeInfo
  | BaseInfo_ClusterInfo ClusterInfo
  | BaseInfo_BucketInfo BucketInfo
  | BaseInfo_UserInfo UserInfo
  | BaseInfo_GroupInfo GroupInfo
  | BaseInfo_VolumeInfo VolumeInfo
  | BaseInfo_AccessInfo AccessInfo
  | BaseInfo_nil

text \<open>A value of the interface \<^verbatim>\<open>Information\<close>: one constructor per implementation.\<close>

datatype Information =
    INode NodeInfo
  | ICluster ClusterInfo
  | IBucket BucketInfo
  | IUser UserInfo
  | IVolume VolumeInfo
  | IBase BaseInfo
  | InvalidInfo

section \<open>Identifiers\<close>

definition GenBucketID :: "string \<Rightarrow> string \<Rightarrow> string" where
  "GenBucketID volumeId bucketName = path_join [''/'', volumeId, bucketName]"

definition GetBucketID :: "string \<Rightarrow> string \<Rightarrow> string" where
  "GetBucketID volumeID bucketName =
     (let volumeID = path_clean volumeID; bucketName = path_clean bucketName
      in if contains bucketName ''/'' \<or> contains volumeID ''/'' then []
         else GenBucketID volumeID bucketName)"

definition GenBucketInfo :: "string \<Rightarrow> string \<Rightarrow> string \<Rightarrow> BucketInfo option" where
  "GenBucketInfo volumeID bucketName userID =
     (let volumeID = path_clean volumeID; bucketName = path_clean bucketName
      in if contains bucketName ''/'' \<or> contains volumeID ''/'' then None
         else Some \<lparr>VolumeId_b = volumeID, BucketName = bucketName, UserId_b = userID,
                    GroupId_b = [], Mode = 0,
                    Config = Some \<lparr>KeySlotNum = 5, BlockSize = 4 * 1024 * 1024,
                      BlockHashEnable = False, ObjectHashEnable = False,
                      HistoryVersionEnable = False, BlockHashType = MURMUR3_128,
                      ObjectHashType = MURMUR3_128\<rparr>\<rparr>)"

definition NodeInfo_GetID :: "NodeInfo \<Rightarrow> string" where
  "NodeInfo_GetID m = FormatUint (RaftId m)"

definition ClusterInfo_GetID :: "ClusterInfo \<Rightarrow> string" where
  "ClusterInfo_GetID m = FormatUint (Term m)"

definition BucketInfo_GetID :: "BucketInfo \<Rightarrow> string" where
  "BucketInfo_GetID m = GenBucketID (VolumeId_b m) (BucketName m)"

definition GetHealthNode :: "ClusterInfo \<Rightarrow> NodeInfo list" where
  "GetHealthNode m = filter (\<lambda>node. State node = ONLINE) (NodesInfo m)"

primrec BaseInfo_GetInfoType :: "BaseInfo \<Rightarrow> InfoType" where
  "BaseInfo_GetInfoType (BaseInfo_NodeInfo i) = NODE_INFO"
| "BaseInfo_GetInfoType (BaseInfo_ClusterInfo i) = CLUSTER_INFO"
| "BaseInfo_GetInfoType (BaseInfo_BucketInfo i) = BUCKET_INFO"
| "BaseInfo_GetInfoType (BaseInfo_UserInfo i) = INVALID"
| "BaseInfo_GetInfoType (BaseInfo_GroupInfo i) = INVALID"
| "BaseInfo_GetInfoType (BaseInfo_VolumeInfo i) = INVALID"
| "BaseInfo_GetInfoType (BaseInfo_AccessInfo i) = INVALID"
| "BaseInfo_GetInfoType BaseInfo_nil = INVALID"

primrec BaseInfo_GetID :: "BaseInfo \<Rightarrow> string" where
  "BaseInfo_GetID (BaseInfo_NodeInfo i) = NodeInfo_GetID i"
| "BaseInfo_GetID (BaseInfo_ClusterInfo i) = ClusterInfo_GetID i"
| "BaseInfo_GetID (BaseInfo_BucketInfo i) = BucketInfo_GetID i"
| "BaseInfo_GetID (BaseInfo_UserInfo i) = ''INFO_TYPE_INVALID''"
| "BaseInfo_GetID (BaseInfo_GroupInfo i) = ''INFO_TYPE_INVALID''"
| "BaseInfo_GetID (BaseInfo_VolumeInfo i) = ''INFO_TYPE_INVALID''"
| "BaseInfo_GetID (BaseInfo_AccessInfo i) = ''INFO_TYPE_INVALID''"
| "BaseInfo_GetID BaseInfo_nil = ''INFO_TYPE_INVALID''"

primrec GetInfoType :: "Information \<Rightarrow> InfoType" where
  "GetInfoType (INode m) = NODE_INFO"
| "GetInfoType (ICluster m) = CLUSTER_INFO"
| "GetInfoType (IBucket m) = BUCKET_INFO"
| "GetInfoType (IUser m) = USER_INFO"
| "GetInfoType (IVolume m) = VOLUME_INFO"
| "GetInfoType (IBase m) = BaseInfo_GetInfoType m"
| "GetInfoType InvalidInfo = INVALID"

primrec GetID :: "Information \<Rightarrow> string" where
  "GetID (INode m) = NodeInfo_GetID m"
| "GetID (ICluster m) = ClusterInfo_GetID m"
| "GetID (IBucket m) = BucketInfo_GetID m"
| "GetID (IUser m) = UserId m"
| "GetID (IVolume m) = VolumeId m"
| "GetID (IBase m) = BaseInfo_GetID m"
| "GetID InvalidInfo = ''INFO_TYPE_INVALID''"

text \<open>\<^verbatim>\<open>InvalidInfo.BaseInfo\<close> wraps a nil \<^verbatim>\<open>ClusterInfo\<close>; it is left out of the model as \<open>None\<close>.\<close>

primrec BaseInfo_of :: "Information \<Rightarrow> BaseInfo option" where
  "BaseInfo_of (INode m) = Some (BaseInfo_NodeInfo m)"
| "BaseInfo_of (ICluster m) = Some (BaseInfo_ClusterInfo m)"
| "BaseInfo_of (IBucket m) = Some (BaseInfo_BucketInfo m)"
| "BaseInfo_of (IUser m) = Some (BaseInfo_UserInfo m)"
| "BaseInfo_of (IVolume m) = Some (BaseInfo_VolumeInfo m)"
| "BaseInfo_of (IBase m) = Some m"
| "BaseInfo_of InvalidInfo = None"

section \<open>The in-memory storage\<close>

record 'f MemoryInfoStorage =
  kvStorage :: "(string, Information) smap"
  onUpdateMap :: "(string, 'f) smap"

definition NewMemoryInfoStorage :: "'f MemoryInfoStorage" where
  "NewMemoryInfoStorage = \<lparr>kvStorage = [], onUpdateMap = []\<rparr>"

definition mis_Update :: "Information \<Rightarrow> 'f MemoryInfoStorage \<Rightarrow> 'f MemoryInfoStorage \<times> ('f \<times> Information) list" where
  "mis_Update info s =
     (let s' = s\<lparr>kvStorage := sm_store (GetID info) info (kvStorage s)\<rparr>
      in (s', map (\<lambda>(name, f). (f, info)) (onUpdateMap s')))"

definition mis_Delete :: "string \<Rightarrow> 'f MemoryInfoStorage \<Rightarrow> 'f MemoryInfoStorage" where
  "mis_Delete infoID s = s\<lparr>kvStorage := sm_delete infoID (kvStorage s)\<rparr>"

definition mis_Get :: "'f MemoryInfoStorage \<Rightarrow> string \<Rightarrow> Information result" where
  "mis_Get s infoID =
     (case sm_load (kvStorage s) infoID of None \<Rightarrow> Inl (Err InfoNotFound) | Some v \<Rightarrow> Inr v)"

text \<open>\<^verbatim>\<open>key[:len(prefix)]\<close> panics when the key is shorter than the prefix.\<close>

primrec mis_range :: "string \<Rightarrow> (string, Information) smap \<Rightarrow> Information list exec" where
  "mis_range prefix [] = Ret []"
| "mis_range prefix (kv # kvs) =
     (if length (fst kv) < length prefix then Panic ''slice bounds out of range''
      else exec_bind (mis_range prefix kvs)
             (\<lambda>r. Ret (if take (length prefix) (fst kv) = prefix then snd kv # r else r)))"

definition mis_List :: "'f MemoryInfoStorage \<Rightarrow> string \<Rightarrow> Information list exec" where
  "mis_List s prefix = mis_range prefix (kvStorage s)"

definition mis_GetAll :: "'f MemoryInfoStorage \<Rightarrow> Information list" where
  "mis_GetAll s = map snd (kvStorage s)"

definition mis_SetOnUpdate :: "string \<Rightarrow> 'f \<Rightarrow> 'f MemoryInfoStorage \<Rightarrow> 'f MemoryInfoStorage" where
  "mis_SetOnUpdate name f s = s\<lparr>onUpdateMap := sm_store name f (onUpdateMap s)\<rparr>"

definition mis_CancelOnUpdate :: "string \<Rightarrow> 'f MemoryInfoStorage \<Rightarrow> 'f MemoryInfoStorage" where
  "mis_CancelOnUpdate name s = s\<lparr>onUpdateMap := sm_delete name (onUpdateMap s)\<rparr>"

definition mis_GetSnapshot :: "'f MemoryInfoStorage \<Rightarrow> bytes" where
  "mis_GetSnapshot s = []"

definition mis_RecoverFromSnapshot :: "bytes \<Rightarrow> 'f MemoryInfoStorage \<Rightarrow> 'f MemoryInfoStorage" where
  "mis_RecoverFromSnapshot snapshot s = s"

section \<open>The register\<close>

record 'f StorageRegister =
  storageMap :: "(InfoType, 'f MemoryInfoStorage) smap"

definition reg_Register :: "InfoType \<Rightarrow> 'f MemoryInfoStorage \<Rightarrow> 'f StorageRegister \<Rightarrow> 'f StorageRegister" where
  "reg_Register infoType storage r = r\<lparr>storageMap := sm_store infoType storage (storageMap r)\<rparr>"

definition reg_Close :: "'f StorageRegister \<Rightarrow> 'f StorageRegister" where
  "reg_Close r = r\<lparr>storageMap := []\<rparr>"

definition reg_GetStorage :: "'f StorageRegister \<Rightarrow> InfoType \<Rightarrow> 'f MemoryInfoStorage exec" where
  "reg_GetStorage r infoType =
     (case sm_load (storageMap r) infoType of
        None \<Rightarrow> Fatal ''get storage of type fail, storage not exist''
      | Some s \<Rightarrow> Ret s)"

definition reg_Update ::
    "Information \<Rightarrow> 'f StorageRegister \<Rightarrow> 'f StorageRegister \<times> ('f \<times> Information) list \<times> go_error option" where
  "reg_Update info r =
     (case sm_load (storageMap r) (GetInfoType info) of
        Some s \<Rightarrow>
          (let (s', calls) = mis_Update info s
           in (r\<lparr>storageMap := sm_store (GetInfoType info) s' (storageMap r)\<rparr>, calls, None))
      | None \<Rightarrow> (r, [], Some (Err InfoTypeNotSupport)))"

definition reg_Delete :: "InfoType \<Rightarrow> string \<Rightarrow> 'f StorageRegister \<Rightarrow> 'f StorageRegister \<times> go_error option" where
  "reg_Delete infoType infoID r =
     (case sm_load (storageMap r) infoType of
        Some s \<Rightarrow> (r\<lparr>storageMap := sm_store infoType (mis_Delete infoID s) (storageMap r)\<rparr>, None)
      | None \<Rightarrow> (r, Some (Err InfoTypeNotSupport)))"

definition reg_Get :: "'f StorageRegister \<Rightarrow> InfoType \<Rightarrow> string \<Rightarrow> Information result" where
  "reg_Get r infoType infoID =
     (case sm_load (storageMap r) infoType of
        Some s \<Rightarrow> mis_Get s infoID
      | None \<Rightarrow> Inl (Err InfoTypeNotSupport))"

definition reg_List :: "'f StorageRegister \<Rightarrow> InfoType \<Rightarrow> string \<Rightarrow> Information list result exec" where
  "reg_List r infoType prefix =
     (case sm_load (storageMap r) infoType of
        Some s \<Rightarrow> exec_bind (mis_List s prefix) (\<lambda>l. Ret (Inr l))
      | None \<Rightarrow> Ret (Inl (Err InfoTypeNotSupport)))"

text \<open>The in-memory factory keeps no data: snapshots are empty and recovery does nothing.\<close>

definition reg_GetSnapshot :: "'f StorageRegister \<Rightarrow> bytes" where
  "reg_GetSnapshot r = []"

definition reg_RecoverFromSnapshot :: "bytes \<Rightarrow> 'f StorageRegister \<Rightarrow> 'f StorageRegister" where
  "reg_RecoverFromSnapshot snapshot r = r"

definition registerAllStorage :: "'f StorageRegister \<Rightarrow> 'f StorageRegister" where
  "registerAllStorage r =
     reg_Register VOLUME_INFO NewMemoryInfoStorage
      (reg_Register BUCKET_INFO NewMemoryInfoStorage
       (reg_Register USER_INFO NewMemoryInfoStorage
        (reg_Register CLUSTER_INFO NewMemoryInfoStorage
         (reg_Register NODE_INFO NewMemoryInfoStorage r))))"

definition GetStorageRegister :: "'f StorageRegister" where
  "GetStorageRegister = registerAllStorage \<lparr>storageMap = []\<rparr>"


section \<open>Invariants\<close>

text \<open>Keys are unique, and an information is stored under its own identifier.\<close>

definition mis_ok :: "'f MemoryInfoStorage \<Rightarrow> bool" where
  "mis_ok s \<longleftrightarrow> sm_ok (kvStorage s) \<and> sm_ok (onUpdateMap s)
     \<and> (\<forall>(k, v) \<in> set (kvStorage s). GetID v = k)"

text \<open>Every storage of the register is well formed and holds only information of its type.\<close>

definition reg_ok :: "'f StorageRegister \<Rightarrow> bool" where
  "reg_ok r \<longleftrightarrow> sm_ok (storageMap r)
     \<and> (\<forall>(t, s) \<in> set (storageMap r). mis_ok s \<and> (\<forall>v \<in> set (mis_GetAll s). GetInfoType v = t))"

section \<open>The contract of an information storage\<close>

text \<open>
  What the register and the replicated log rely on: an update is seen by later reads of
  its identifier and by no other, and a delete makes its identifier unknown.
\<close>

locale info_store =
  fixes upd :: "Information \<Rightarrow> 's \<Rightarrow> 's"
    and del :: "string \<Rightarrow> 's \<Rightarrow> 's"
    and get :: "'s \<Rightarrow> string \<Rightarrow> Information result"
    and ok :: "'s \<Rightarrow> bool"
  assumes ok_upd: "ok s \<Longrightarrow> ok (upd i s)"
    and ok_del: "ok s \<Longrightarrow> ok (del k s)"
    and get_upd: "ok s \<Longrightarrow> get (upd i s) k = (if k = GetID i then Inr i else get s k)"
    and get_del: "ok s \<Longrightarrow> get (del k s) k' = (if k' = k then Inl (Err InfoNotFound) else get s k')"
begin

lemma ok_run: "ok s \<Longrightarrow> ok (fold upd is s)"
  by (induction "is" arbitrary: s) (auto simp: ok_upd)

text \<open>After a run of updates a read returns the last one with that identifier.\<close>

lemma get_run:
  "ok s \<Longrightarrow> get (fold upd is s) k =
     (case find (\<lambda>i. GetID i = k) (rev is) of Some i \<Rightarrow> Inr i | None \<Rightarrow> get s k)"
proof (induction "is" rule: rev_induct)
  case (snoc i "is")
  then show ?case
    by (simp add: get_upd ok_run)
qed simp

text \<open>Two storages that agree on reads still agree after the same updates.\<close>

lemma get_run_cong:
  "ok s \<Longrightarrow> ok t \<Longrightarrow> get s = get t \<Longrightarrow> get (fold upd is s) = get (fold upd is t)"
  by (simp add: fun_eq_iff get_run split: option.splits)

end

lemma mis_ok_new [simp]: "mis_ok NewMemoryInfoStorage"
  by (simp add: mis_ok_def NewMemoryInfoStorage_def sm_ok_def)

lemma mis_ok_Update: "mis_ok s \<Longrightarrow> mis_ok (fst (mis_Update i s))"
  by (auto simp: mis_ok_def mis_Update_def Let_def sm_laws set_sm_store)

lemma mis_ok_Delete: "mis_ok s \<Longrightarrow> mis_ok (mis_Delete k s)"
  by (auto simp: mis_ok_def mis_Delete_def sm_laws set_sm_delete)

lemma mis_ok_SetOnUpdate: "mis_ok s \<Longrightarrow> mis_ok (mis_SetOnUpdate n f s)"
  by (simp add: mis_ok_def mis_SetOnUpdate_def sm_laws)

lemma mis_ok_CancelOnUpdate: "mis_ok s \<Longrightarrow> mis_ok (mis_CancelOnUpdate n s)"
  by (simp add: mis_ok_def mis_CancelOnUpdate_def sm_laws)

interpretation mis: info_store "\<lambda>i s. fst (mis_Update i s)" mis_Delete mis_Get mis_ok
  by unfold_locales
    (auto simp: mis_ok_Update mis_ok_Delete, auto simp: mis_ok_def mis_Update_def mis_Delete_def
      mis_Get_def sm_laws Let_def)

lemmas mis_oks = mis_ok_new mis_ok_Update mis_ok_Delete mis_ok_SetOnUpdate mis_ok_CancelOnUpdate


section \<open>The register keeps its invariant\<close>

lemma mis_GetAll_Update:
  "mis_ok s \<Longrightarrow> set (mis_GetAll (fst (mis_Update i s))) \<subseteq> insert i (set (mis_GetAll s))"
  by (auto simp: mis_GetAll_def mis_Update_def Let_def mis_ok_def set_sm_store image_iff)

lemma mis_GetAll_Delete: "mis_ok s \<Longrightarrow> set (mis_GetAll (mis_Delete k s)) \<subseteq> set (mis_GetAll s)"
  by (auto simp: mis_GetAll_def mis_Delete_def mis_ok_def set_sm_delete image_iff)

lemma reg_ok_load:
  "reg_ok r \<Longrightarrow> sm_load (storageMap r) t = Some s \<Longrightarrow>
     mis_ok s \<and> (\<forall>v \<in> set (mis_GetAll s). GetInfoType v = t)"
  by (auto simp: reg_ok_def sm_load_set)

lemma reg_ok_Register:
  assumes "reg_ok r" "mis_ok s" "\<forall>v \<in> set (mis_GetAll s). GetInfoType v = t"
  shows "reg_ok (reg_Register t s r)"
  using assms by (fastforce simp: reg_ok_def reg_Register_def sm_laws set_sm_store)

lemma reg_Update_Some:
  "sm_load (storageMap r) (GetInfoType i) = Some s \<Longrightarrow>
     fst (reg_Update i r) = reg_Register (GetInfoType i) (fst (mis_Update i s)) r"
  by (simp add: reg_Update_def reg_Register_def case_prod_beta)

lemma reg_Get_Register:
  "reg_ok r \<Longrightarrow> reg_Get (reg_Register t s r) t' k = (if t' = t then mis_Get s k else reg_Get r t' k)"
  by (simp add: reg_Get_def reg_Register_def reg_ok_def sm_laws)

lemma reg_ok_Update: "reg_ok r \<Longrightarrow> reg_ok (fst (reg_Update i r))"
proof (cases "sm_load (storageMap r) (GetInfoType i)")
  case (Some s)
  assume r: "reg_ok r"
  have "reg_ok (reg_Register (GetInfoType i) (fst (mis_Update i s)) r)"
    using reg_ok_load [OF r Some] mis_GetAll_Update [of s i]
    by (intro reg_ok_Register r) (auto simp: mis_oks)
  then show ?thesis
    using Some by (simp add: reg_Update_Some)
qed (simp add: reg_Update_def)

lemma reg_ok_Delete: "reg_ok r \<Longrightarrow> reg_ok (fst (reg_Delete t k r))"
proof (cases "sm_load (storageMap r) t")
  case (Some s)
  assume r: "reg_ok r"
  have "reg_ok (reg_Register t (mis_Delete k s) r)"
    using reg_ok_load [OF r Some] mis_GetAll_Delete [of s k]
    by (intro reg_ok_Register r) (auto simp: mis_oks)
  then show ?thesis
    using Some by (simp add: reg_Delete_def reg_Register_def)
qed (simp add: reg_Delete_def)

lemma reg_ok_Close: "reg_ok (reg_Close r)"
  by (simp add: reg_ok_def reg_Close_def sm_ok_def)

lemma reg_ok_GetStorageRegister: "reg_ok GetStorageRegister"
  unfolding GetStorageRegister_def registerAllStorage_def
  by (intro reg_ok_Register)
    (auto simp: reg_ok_def sm_ok_def NewMemoryInfoStorage_def mis_GetAll_def mis_ok_def)

lemmas reg_oks = reg_ok_GetStorageRegister reg_ok_Update reg_ok_Delete reg_ok_Close

lemma reg_types_Update [simp]: "fst ` set (storageMap (fst (reg_Update i r))) = fst ` set (storageMap r)"
proof (cases "sm_load (storageMap r) (GetInfoType i)")
  case (Some s)
  then have "(GetInfoType i, s) \<in> set (storageMap r)"
    by (simp add: sm_load_def map_of_SomeD)
  then have "GetInfoType i \<in> fst ` set (storageMap r)"
    by (rule image_eqI [rotated]) simp
  then show ?thesis
    using Some by (simp add: reg_Update_Some reg_Register_def sm_keys_store insert_absorb)
qed (simp add: reg_Update_def)

lemma reg_Delete_Some:
  "sm_load (storageMap r) t = Some s \<Longrightarrow> fst (reg_Delete t k r) = reg_Register t (mis_Delete k s) r"
  by (simp add: reg_Delete_def reg_Register_def)

lemma reg_Get_Delete:
  assumes "reg_ok r" "sm_load (storageMap r) t \<noteq> None"
  shows "reg_Get (fst (reg_Delete t k r)) t' k' =
     (if t' = t \<and> k' = k then Inl (Err InfoNotFound) else reg_Get r t' k')"
proof -
  obtain s where s: "sm_load (storageMap r) t = Some s" "mis_ok s"
    using assms reg_ok_load by blast
  then show ?thesis
    using assms(1) by (auto simp: reg_Delete_Some reg_Get_Register mis.get_del) (simp_all add: reg_Get_def)
qed

lemma reg_types_Delete [simp]: "fst ` set (storageMap (fst (reg_Delete t k r))) = fst ` set (storageMap r)"
proof (cases "sm_load (storageMap r) t")
  case (Some s)
  then have "(t, s) \<in> set (storageMap r)"
    by (simp add: sm_load_def map_of_SomeD)
  then have "t \<in> fst ` set (storageMap r)"
    by (rule image_eqI [rotated]) simp
  then show ?thesis
    using Some by (simp add: reg_Delete_Some reg_Register_def sm_keys_store insert_absorb)
qed (simp add: reg_Delete_def)

section \<open>Bucket identifiers\<close>

lemma contains_slash: "contains s ''/'' \<longleftrightarrow> CHR ''/'' \<in> set s"
  by (induction s) auto

lemma GenBucketID_good:
  assumes "good_comp v" "good_comp b"
  shows "GenBucketID v b = CHR ''/'' # v @ CHR ''/'' # b"
proof -
  have "split_on (CHR ''/'') (CHR ''/'' # CHR ''/'' # v @ CHR ''/'' # b) = [[], [], v, b]"
    using assms by (simp add: good_comp_def split_on_append_sep split_on_no_sep)
  then show ?thesis
    using assms by (simp add: GenBucketID_def path_join_def path_clean_def rooted_def good_comp_def)
qed

lemma path_clean_good: "good_comp c \<Longrightarrow> path_clean c = c"
  using path_clean_join [of "[c]"] by simp

lemma GenBucketID_inject:
  assumes "good_comp v" "good_comp b" "good_comp v'" "good_comp b'"
  shows "GenBucketID v b = GenBucketID v' b' \<longleftrightarrow> v = v' \<and> b = b'"
  using assms by (simp add: GenBucketID_good sep_eq_iff good_comp_def)

section \<open>Properties\<close>

lemma reg_Get_Update:
  assumes "reg_ok r" "sm_load (storageMap r) (GetInfoType i) \<noteq> None"
  shows "reg_Get (fst (reg_Update i r)) t k =
     (if t = GetInfoType i \<and> k = GetID i then Inr i else reg_Get r t k)"
proof -
  obtain s where s: "sm_load (storageMap r) (GetInfoType i) = Some s" "mis_ok s"
    using assms reg_ok_load by blast
  then show ?thesis
    using assms(1) by (auto simp: reg_Update_Some reg_Get_Register mis.get_upd) (simp_all add: reg_Get_def)
qed

text \<open>
  an update of the register keeps its invariant, fails exactly when no storage is
  registered for the type of the information and then changes nothing, and otherwise is
  returned by the next read of that type and identifier, every other read being as before.
\<close>

theorem reg_Update_correct:
  assumes "reg_ok r" "reg_Update i r = (r', calls, err)"
  shows "reg_ok r' \<and> (err = None \<longleftrightarrow> sm_load (storageMap r) (GetInfoType i) \<noteq> None)
    \<and> (err \<noteq> None \<longrightarrow> r' = r \<and> calls = [] \<and> err = Some (Err InfoTypeNotSupport))
    \<and> (\<forall>t k. reg_Get r' t k =
         (if err = None \<and> t = GetInfoType i \<and> k = GetID i then Inr i else reg_Get r t k))"
proof (cases "sm_load (storageMap r) (GetInfoType i)")
  case None
  then show ?thesis
    using assms by (auto simp: reg_Update_def)
next
  case (Some s)
  then have "err = None"
    using assms by (auto simp: reg_Update_def split: prod.splits)
  then show ?thesis
    using reg_ok_Update [OF assms(1), of i] reg_Get_Update [OF assms(1), of i] assms(2) Some by simp
qed

text \<open>
  a listing of the in-memory information storage panics exactly when some stored key is
  shorter than the prefix; otherwise it returns the entries whose key starts with the prefix,
  in iteration order.
\<close>

theorem mis_List_correct:
  "mis_List s prefix =
     (if (\<exists>kv \<in> set (kvStorage s). length (fst kv) < length prefix)
      then Panic ''slice bounds out of range''
      else Ret (map snd (filter (\<lambda>kv. has_prefix (fst kv) prefix) (kvStorage s))))"
proof -
  have "mis_range prefix kvs =
     (if (\<exists>kv \<in> set kvs. length (fst kv) < length prefix)
      then Panic ''slice bounds out of range''
      else Ret (map snd (filter (\<lambda>kv. has_prefix (fst kv) prefix) kvs)))" for kvs
    by (induction kvs) (auto simp: has_prefix_take not_less Bex_def Ball_def)
  then show ?thesis
    by (simp add: mis_List_def)
qed

text \<open>
  of the messages a proposal can carry in a \<^verbatim>\<open>BaseInfo\<close>, a register with the five
  standard storages accepts node, cluster and bucket information and rejects user and
  volume information, although it holds a storage for each of these two types and accepts
  the same information outside the \<^verbatim>\<open>BaseInfo\<close>.
\<close>

theorem reg_Update_BaseInfo:
  assumes "fst ` set (storageMap r) = {NODE_INFO, CLUSTER_INFO, USER_INFO, BUCKET_INFO, VOLUME_INFO}"
  shows "(snd (snd (reg_Update (IBase b) r)) = None \<longleftrightarrow>
           (\<exists>n. b = BaseInfo_NodeInfo n) \<or> (\<exists>c. b = BaseInfo_ClusterInfo c) \<or> (\<exists>k. b = BaseInfo_BucketInfo k))
    \<and> snd (snd (reg_Update (IUser u) r)) = None \<and> snd (snd (reg_Update (IVolume v) r)) = None"
proof -
  have "snd (snd (reg_Update i r)) = None \<longleftrightarrow> GetInfoType i \<in> fst ` set (storageMap r)" for i
    using sm_load_None [of "storageMap r" "GetInfoType i"]
    by (auto simp: reg_Update_def case_prod_beta split: option.splits)
  then show ?thesis
    by (cases b) (simp_all add: assms)
qed

theorem reg_Update_BaseInfo_witness:
  "\<forall>u. snd (snd (reg_Update (IBase (BaseInfo_UserInfo u)) (GetStorageRegister :: unit StorageRegister))) \<noteq> None
     \<and> snd (snd (reg_Update (IUser u) (GetStorageRegister :: unit StorageRegister))) = None"
proof
  fix u
  have t: "fst ` set (storageMap (GetStorageRegister :: unit StorageRegister)) =
      {NODE_INFO, CLUSTER_INFO, USER_INFO, BUCKET_INFO, VOLUME_INFO}"
    by (simp add: GetStorageRegister_def registerAllStorage_def reg_Register_def sm_store_def)
  show "snd (snd (reg_Update (IBase (BaseInfo_UserInfo u)) (GetStorageRegister :: unit StorageRegister))) \<noteq> None
     \<and> snd (snd (reg_Update (IUser u) (GetStorageRegister :: unit StorageRegister))) = None"
    using reg_Update_BaseInfo [OF t, where b = "BaseInfo_UserInfo u" and u = u] by blast
qed

end
