(* ===== verification/Objects.thy ===== *)
theory Objects
  imports Infos
begin

text \<open>
  Identifiers of objects and their placement: \<^verbatim>\<open>utils/common/mapper.go\<close> maps an identifier
  to a placement group by consistent hashing, \<^verbatim>\<open>edge-node/object/object.go\<close> builds, splits
  and cleans object identifiers.  The hash ring is a library the sources only call: it is
  the parameter \<open>ring\<close>, taking the node names of the ring and a key; \<open>ring_ok\<close> states its
  documented contract, that a non-empty ring maps every key to one of its nodes.
\<close>

section \<open>Data\<close>

datatype ObjectStatus = STATUS_UNKNOWN | STATUS_OK | STATUS_BROKEN | STATUS_UPDATING | STATUS_DELETED

datatype ObjectPosition = POSITION_UNKNOWN | POSITION_EDGE | POSITION_CLOUD | POSITION_EDGE_CLOUD

record BlockInfo =
  BlockId :: string
  PartId :: i32
  BlockSize_bi :: u64
  BlockHash :: string
  PgId_bi :: u64

text \<open>The field \<^verbatim>\<open>MetaData\<close> is nil in every object the program makes and is left out.\<close>

record ObjectMeta =
  ObjId :: string
  Status :: ObjectStatus
  Position :: ObjectPosition
  ObjSize :: u64
  UpdateTime :: "Timestamp option"
  ObjHash :: string
  PgId :: u64
  Blocks :: "BlockInfo list"
  Term_m :: u64

section \<open>The mapper\<close>

type_synonym hash_ring = "string list \<Rightarrow> string \<Rightarrow> string option"

record Mapper =
  ring_nodes :: "string list"

text \<open>\<^verbatim>\<open>make([]string, 0, pgNum)\<close> panics when the capacity does not fit the address space.\<close>

definition build_mapper :: "u64 \<Rightarrow> Mapper exec" where
  "build_mapper pgNum =
     (if 2 ^ 44 < unat pgNum then Panic ''makeslice: cap out of range''
      else Ret \<lparr>ring_nodes = map (\<lambda>i. FormatUint (word_of_nat i)) [1..<Suc (unat pgNum)]\<rparr>)"

definition NewMapper :: "(u64, Mapper) smap \<Rightarrow> u64 \<Rightarrow> (Mapper \<times> (u64, Mapper) smap) exec" where
  "NewMapper mapperCatch pgNum =
     (case sm_load mapperCatch pgNum of
        Some m \<Rightarrow> Ret (m, mapperCatch)
      | None \<Rightarrow> exec_bind (build_mapper pgNum) (\<lambda>m. Ret (m, sm_store pgNum m mapperCatch)))"

definition MapIDtoPG :: "hash_ring \<Rightarrow> Mapper \<Rightarrow> string \<Rightarrow> u64 exec" where
  "MapIDtoPG ring m key =
     (case ring (ring_nodes m) key of
        None \<Rightarrow> Fatal ''Mapper map id to PG fail''
      | Some ringID \<Rightarrow>
          (case ParseUint ringID of
             None \<Rightarrow> Fatal ''Mapper Parse ringID to pgID err''
           | Some pgID \<Rightarrow> Ret pgID))"

text \<open>\<^verbatim>\<open>NewMapper(pgNum).MapIDtoPG(id)\<close>; the cache is transparent, see \<open>NewMapper_cache\<close> below.\<close>

definition map_pg :: "hash_ring \<Rightarrow> u64 \<Rightarrow> string \<Rightarrow> u64 exec" where
  "map_pg ring pgNum key = exec_bind (build_mapper pgNum) (\<lambda>m. MapIDtoPG ring m key)"

section \<open>Object identifiers\<close>

definition rune_string :: "i32 \<Rightarrow> string" where
  "rune_string slot = (if sint slot < 0 then utf8 65533 else utf8 (nat (sint slot)))"

definition GenSlotPgID :: "hash_ring \<Rightarrow> string \<Rightarrow> i32 \<Rightarrow> i32 \<Rightarrow> u64 exec" where
  "GenSlotPgID ring bucketID slot pgNum =
     map_pg ring (uint64_of_i32 pgNum) (bucketID @ ''/'' @ rune_string slot)"

definition CleanObjectKey :: "string \<Rightarrow> string" where
  "CleanObjectKey objectKey = trim_prefix (path_clean objectKey) ''/''"

definition CalculateSlot :: "hash_ring \<Rightarrow> string \<Rightarrow> i32 \<Rightarrow> i32 exec" where
  "CalculateSlot ring objectKey slotNum =
     exec_bind (map_pg ring (uint64_of_i32 slotNum) (CleanObjectKey objectKey)) (\<lambda>slot. Ret (ucast slot))"

text \<open>The result is volume, bucket identifier, key and slot.\<close>

definition SplitID :: "string \<Rightarrow> (string \<times> string \<times> string \<times> i32) result" where
  "SplitID objectID =
     (case split_n 4 (CHR ''/'') (CleanObjectKey objectID) of
        [volumeID, bucketName, slot, key] \<Rightarrow>
          (case ParseInt slot of
             None \<Rightarrow> Inl (ErrText ''split objectID error'')
           | Some n \<Rightarrow> Inr (volumeID, GenBucketID volumeID bucketName, trim_prefix key ''/'', word_of_int n))
      | _ \<Rightarrow> Inl (ErrText ''split objectID error''))"

definition SplitPrefixWithoutSlotID :: "string \<Rightarrow> (string \<times> string \<times> string) result" where
  "SplitPrefixWithoutSlotID prefix =
     (case split_n 3 (CHR ''/'') (CleanObjectKey prefix) of
        [volumeID, bucketName] \<Rightarrow> Inr (volumeID, GenBucketID volumeID bucketName, trim_prefix ''/'' ''/'')
      | [volumeID, bucketName, key] \<Rightarrow> Inr (volumeID, GenBucketID volumeID bucketName, trim_prefix key ''/'')
      | _ \<Rightarrow> Inl (ErrText ''split prefix error''))"

text \<open>\<^verbatim>\<open>bucketInfo.GetConfig().KeySlotNum\<close> dereferences a nil pointer when there is no config.\<close>

definition key_slot_num :: "BucketInfo \<Rightarrow> i32 exec" where
  "key_slot_num bucketInfo =
     (case Config bucketInfo of None \<Rightarrow> Panic ''nil pointer dereference'' | Some c \<Rightarrow> Ret (KeySlotNum c))"

definition GenObjPgID :: "hash_ring \<Rightarrow> BucketInfo \<Rightarrow> string \<Rightarrow> i32 \<Rightarrow> u64 exec" where
  "GenObjPgID ring bucketInfo objectKey pgNum =
     exec_bind (key_slot_num bucketInfo) (\<lambda>slotNum.
     exec_bind (CalculateSlot ring (CleanObjectKey objectKey) slotNum) (\<lambda>slot.
       GenSlotPgID ring (BucketInfo_GetID bucketInfo) slot pgNum))"

definition GenObjectId :: "hash_ring \<Rightarrow> BucketInfo \<Rightarrow> string \<Rightarrow> string exec" where
  "GenObjectId ring bucketInfo key =
     (let key = trim_char (CHR ''/'') (path_clean key)
      in exec_bind (key_slot_num bucketInfo) (\<lambda>slotNum.
         exec_bind (CalculateSlot ring key slotNum) (\<lambda>slot.
           Ret (CleanObjectKey (path_join [BucketInfo_GetID bucketInfo, Itoa (sint slot), key])))))"

definition GenBlockPgID :: "hash_ring \<Rightarrow> string \<Rightarrow> i32 \<Rightarrow> u64 exec" where
  "GenBlockPgID ring blockID pgNum = map_pg ring (uint64_of_i32 pgNum) blockID"

section \<open>The contract of the ring, and well-formed keys\<close>

definition ring_ok :: "hash_ring \<Rightarrow> bool" where
  "ring_ok ring \<longleftrightarrow> (\<forall>ns key. ns \<noteq> [] \<longrightarrow> (\<exists>n \<in> set ns. ring ns key = Some n))"

text \<open>A key names something inside its bucket: its clean form has ordinary components only.\<close>

definition key_ok :: "string \<Rightarrow> bool" where
  "key_ok key \<longleftrightarrow> (\<forall>c \<in> set (split_on (CHR ''/'') (CleanObjectKey key)). good_comp c)"

definition bucket_ok :: "BucketInfo \<Rightarrow> bool" where
  "bucket_ok b \<longleftrightarrow> good_comp (VolumeId_b b) \<and> good_comp (BucketName b)
     \<and> (case Config b of None \<Rightarrow> False | Some c \<Rightarrow> 0 < sint (KeySlotNum c))"

text \<open>A concrete ring for the examples: the first node takes every key.\<close>

definition first_ring :: hash_ring where
  "first_ring ns key = (case ns of [] \<Rightarrow> None | n # _ \<Rightarrow> Some n)"

definition cache_ok :: "(u64, Mapper) smap \<Rightarrow> bool" where
  "cache_ok c \<longleftrightarrow> sm_ok c \<and> (\<forall>n m. sm_load c n = Some m \<longrightarrow> build_mapper n = Ret m)"

definition example_bucket :: BucketInfo where
  "example_bucket = \<lparr>VolumeId_b = ''root'', BucketName = ''default'', UserId_b = ''root'', GroupId_b = [],
     Mode = 0, Config = Some \<lparr>KeySlotNum = 5, BlockSize = 4 * 1024 * 1024, BlockHashEnable = False,
       ObjectHashEnable = False, HistoryVersionEnable = False, BlockHashType = MURMUR3_128,
       ObjectHashType = MURMUR3_128\<rparr>\<rparr>"

section \<open>Placement\<close>

lemma first_ring_ok: "ring_ok first_ring"
  by (auto simp: ring_ok_def first_ring_def split: list.splits)

lemma NewMapper_cache:
  assumes "cache_ok c" "NewMapper c n = Ret (m, c')"
  shows "build_mapper n = Ret m \<and> cache_ok c'"
  using assms by (auto simp: NewMapper_def cache_ok_def sm_laws split: option.splits if_splits)

lemma map_pg_bounds:
  assumes "ring_ok ring" "0 < n" "unat n \<le> 2 ^ 44"
  shows "\<exists>pg. map_pg ring n key = Ret pg \<and> 1 \<le> pg \<and> pg \<le> n"
proof -
  let ?ns = "map (\<lambda>i. FormatUint (word_of_nat i)) [1..<Suc (unat n)]"
  have n0: "0 < unat n"
    using assms(2) by (simp add: word_less_nat_alt)
  then have "?ns \<noteq> []"
    by simp
  then obtain r where r: "r \<in> set ?ns" "ring ?ns key = Some r"
    using assms(1) unfolding ring_ok_def by blast
  then obtain i where i: "1 \<le> i" "i \<le> unat n" "r = FormatUint (word_of_nat i)"
    by auto
  have "unat (word_of_nat i :: u64) = i"
    using i assms(3) by (intro unat_word_of_nat64) simp
  then have "1 \<le> (word_of_nat i :: u64)" "(word_of_nat i :: u64) \<le> n"
    using i by (simp_all add: word_le_nat_alt)
  then show ?thesis
    using i r assms(3) by (simp add: map_pg_def build_mapper_def MapIDtoPG_def del: upt_Suc)
qed


section \<open>Keys\<close>

lemma trim_prefix_slash: "trim_prefix s ''/'' = (if rooted s then tl s else s)"
  by (cases s) (auto simp: trim_prefix_def rooted_def)

lemma join_good_not_rooted:
  assumes "cs \<noteq> []" "\<forall>c\<in>set cs. good_comp c"
  shows "\<not> rooted (join_with (CHR ''/'') cs)"
  using assms by (intro not_rooted_join) (auto simp: good_comp_def)

lemma CleanObjectKey_join:
  assumes "cs \<noteq> []" "\<forall>c\<in>set cs. good_comp c"
  shows "CleanObjectKey (join_with (CHR ''/'') cs) = join_with (CHR ''/'') cs"
    and "CleanObjectKey (CHR ''/'' # join_with (CHR ''/'') cs) = join_with (CHR ''/'') cs"
  using assms
  by (simp_all add: CleanObjectKey_def path_clean_join path_clean_rooted_join trim_prefix_slash
      join_good_not_rooted) (simp add: rooted_def)

lemma CleanObjectKey_cases:
  obtains (root) "path_clean s = ''/''" "CleanObjectKey s = []"
    | (key) cs where "cs \<noteq> []" "\<forall>c\<in>set cs. good_comp c" "CleanObjectKey s = join_with (CHR ''/'') cs"
        "path_clean s = join_with (CHR ''/'') cs \<or> path_clean s = CHR ''/'' # join_with (CHR ''/'') cs"
    | (up) "path_clean s = CleanObjectKey s" "CleanObjectKey s = ''.'' \<or> has_prefix (CleanObjectKey s) ''..''"
proof (cases rule: path_clean_cases [of s])
  case (abs cs)
  then show thesis
    using root key [of cs]
    by (cases "cs = []") (auto simp: CleanObjectKey_def trim_prefix_slash rooted_def)
next
  case dot
  show thesis
    by (rule up) (simp_all add: CleanObjectKey_def dot(2) trim_prefix_def)
next
  case (rel k ds)
  show thesis
  proof (cases k)
    case 0
    with rel show thesis
      using key [of ds] by (simp add: CleanObjectKey_def trim_prefix_slash join_good_not_rooted)
  next
    case (Suc j)
    then obtain t where "path_clean s = ''..'' @ t"
      unfolding rel(4) by (cases "replicate j ''..'' @ ds") auto
    then show thesis
      by (intro up) (auto simp: CleanObjectKey_def trim_prefix_def)
  qed
qed

lemma key_ok_join:
  assumes "key_ok key"
  obtains cs where "cs \<noteq> []" "\<forall>c\<in>set cs. good_comp c" "CleanObjectKey key = join_with (CHR ''/'') cs"
    "path_clean key = join_with (CHR ''/'') cs \<or> path_clean key = CHR ''/'' # join_with (CHR ''/'') cs"
proof (cases rule: CleanObjectKey_cases [of key])
  case root
  then have False
    using assms by (simp add: key_ok_def good_comp_def)
  then show thesis ..
next
  case (key cs)
  then show thesis
    by (rule that)
next
  case up
  have cs: "split_on (CHR ''/'') (CleanObjectKey key) \<noteq> []"
    "\<forall>c\<in>set (split_on (CHR ''/'') (CleanObjectKey key)). good_comp c"
    using assms by (simp_all add: key_ok_def)
  show thesis
    using cs by (rule that) (simp_all add: join_split up(1))
qed

lemma trim_char_same: "s \<noteq> [] \<Longrightarrow> hd s \<noteq> c \<Longrightarrow> last s \<noteq> c \<Longrightarrow> trim_char c s = s"
proof -
  have "dropWhile (\<lambda>x. x = c) t = t" if "t \<noteq> []" "hd t \<noteq> c" for t :: "'a list"
    using that by (cases t) auto
  then show "s \<noteq> [] \<Longrightarrow> hd s \<noteq> c \<Longrightarrow> last s \<noteq> c \<Longrightarrow> trim_char c s = s"
    by (simp add: trim_char_def hd_rev)
qed

lemma join_good_last:
  assumes "cs \<noteq> []" "\<forall>c\<in>set cs. good_comp c"
  shows "join_with (CHR ''/'') cs \<noteq> [] \<and> last (join_with (CHR ''/'') cs) \<noteq> CHR ''/''"
  using assms
proof (induction cs rule: list_nonempty_induct)
  case (single x)
  then show ?case
    using last_in_set [of x] by (metis good_comp_def join_with.simps(2) list.set_intros(1))
next
  case (cons x xs)
  then show ?case
    by (simp add: join_with_Cons)
qed

lemma ParseInt_show_nat: "n < 2 ^ 63 \<Longrightarrow> ParseInt (show_nat n) = Some (int n)"
proof -
  assume n: "n < 2 ^ 63"
  have "char_digit (hd (show_nat n)) \<noteq> None"
    by (rule show_nat_digits [of _ n]) simp
  then have "hd (show_nat n) \<noteq> CHR ''-'' \<and> hd (show_nat n) \<noteq> CHR ''+''"
    by (auto simp: char_digit_def)
  then show ?thesis
    using n by (simp add: ParseInt_def read_digits_show)
qed

lemma trim_char_join:
  assumes "cs \<noteq> []" "\<forall>c\<in>set cs. good_comp c"
  shows "trim_char (CHR ''/'') (join_with (CHR ''/'') cs) = join_with (CHR ''/'') cs"
    and "trim_char (CHR ''/'') (CHR ''/'' # join_with (CHR ''/'') cs) = join_with (CHR ''/'') cs"
proof -
  show "trim_char (CHR ''/'') (join_with (CHR ''/'') cs) = join_with (CHR ''/'') cs"
    using join_good_last [OF assms] join_good_not_rooted [OF assms]
    by (intro trim_char_same) (auto simp: rooted_def)
  then show "trim_char (CHR ''/'') (CHR ''/'' # join_with (CHR ''/'') cs) = join_with (CHR ''/'') cs"
    by (simp add: trim_char_def)
qed


section \<open>Object identifiers\<close>

lemma CalculateSlot_Clean [simp]:
  "key_ok key \<Longrightarrow> CalculateSlot ring (CleanObjectKey key) n = CalculateSlot ring key n"
  by (erule key_ok_join) (simp add: CalculateSlot_def CleanObjectKey_join)

lemma CalculateSlot_bounds:
  assumes "ring_ok ring" "0 < sint slotNum"
  shows "\<exists>slot. CalculateSlot ring key slotNum = Ret slot \<and> 1 \<le> sint slot \<and> sint slot \<le> sint slotNum"
proof -
  have u: "unat (uint64_of_i32 slotNum) = nat (sint slotNum)"
    using assms(2) by (intro uint64_of_i32_nonneg) simp
  have lt: "sint slotNum < 2 ^ 31"
    using sint_lt [of slotNum] by simp
  from uint64_of_i32_pos [OF assms(2)]
  obtain pg where pg: "map_pg ring (uint64_of_i32 slotNum) (CleanObjectKey key) = Ret pg"
      "1 \<le> pg" "pg \<le> uint64_of_i32 slotNum"
    using map_pg_bounds [OF assms(1)] by blast
  have b: "1 \<le> unat pg" "unat pg \<le> nat (sint slotNum)"
    using pg(2,3) u by (simp_all add: word_le_nat_alt)
  then have s: "sint (ucast pg :: i32) = int (unat pg)"
    using lt assms(2) by (intro sint_ucast_i32) simp
  have "1 \<le> sint (ucast pg :: i32)" "sint (ucast pg :: i32) \<le> sint slotNum"
    unfolding s using b assms(2) by linarith+
  then show ?thesis
    using pg(1) by (simp add: CalculateSlot_def)
qed

lemma GenObjectId_form:
  assumes "bucket_ok b" "key_ok key" "CalculateSlot ring key (KeySlotNum c) = Ret slot" "Config b = Some c"
    "0 \<le> sint slot"
  shows "GenObjectId ring b key =
    Ret (VolumeId_b b @ ''/'' @ BucketName b @ ''/'' @ show_nat (nat (sint slot)) @ ''/'' @ CleanObjectKey key)"
proof -
  obtain cs where cs: "cs \<noteq> []" "\<forall>c\<in>set cs. good_comp c" "CleanObjectKey key = join_with (CHR ''/'') cs"
    "path_clean key = join_with (CHR ''/'') cs \<or> path_clean key = CHR ''/'' # join_with (CHR ''/'') cs"
    using assms(2) by (rule key_ok_join)
  let ?v = "VolumeId_b b" and ?n = "BucketName b" and ?s = "show_nat (nat (sint slot))"
  have t: "trim_char (CHR ''/'') (path_clean key) = CleanObjectKey key"
    using cs by (auto simp: trim_char_join)
  have g: "\<forall>c\<in>set (?v # ?n # ?s # cs). good_comp c"
    using assms(1) cs(2) by (simp add: bucket_ok_def)
  have "path_join [BucketInfo_GetID b, ?s, CleanObjectKey key]
      = path_clean (CHR ''/'' # join_with (CHR ''/'') (?v # ?n # ?s # cs))"
    using g by (simp add: path_join_def BucketInfo_GetID_def GenBucketID_good join_with_Cons cs)
  then have "CleanObjectKey (path_join [BucketInfo_GetID b, ?s, CleanObjectKey key])
      = join_with (CHR ''/'') (?v # ?n # ?s # cs)"
    using g path_clean_rooted_join [OF g] CleanObjectKey_join(2) [of "?v # ?n # ?s # cs"] by simp
  then show ?thesis
    using assms t CalculateSlot_Clean [OF assms(2), of ring "KeySlotNum c"]
    by (simp add: GenObjectId_def Let_def key_slot_num_def Itoa_def join_with_Cons cs(1,3))
qed

lemma SplitID_form:
  assumes "good_comp v" "good_comp n" "n' < 2 ^ 63" "key_ok key"
  shows "SplitID (v @ ''/'' @ n @ ''/'' @ show_nat n' @ ''/'' @ CleanObjectKey key)
    = Inr (v, GenBucketID v n, CleanObjectKey key, word_of_nat n')"
proof -
  obtain cs where cs: "cs \<noteq> []" "\<forall>c\<in>set cs. good_comp c" "CleanObjectKey key = join_with (CHR ''/'') cs"
    using assms(4) by (rule key_ok_join)
  let ?id = "v @ ''/'' @ n @ ''/'' @ show_nat n' @ ''/'' @ CleanObjectKey key"
  have "?id = join_with (CHR ''/'') (v # n # show_nat n' # cs)"
    using cs by (simp add: join_with_Cons)
  then have "CleanObjectKey ?id = ?id"
    using cs assms(1,2) CleanObjectKey_join(1) [of "v # n # show_nat n' # cs"] by simp
  moreover have "split_n 4 (CHR ''/'') ?id = [v, n, show_nat n', CleanObjectKey key]"
    using assms(1,2) by (simp add: numeral_eq_Suc split_n_append_sep good_comp_def del: split_n.simps(2))
      simp
  ultimately show ?thesis
    using assms(3) cs by (simp add: SplitID_def ParseInt_show_nat trim_prefix_slash join_good_not_rooted)
qed


lemma path_join_up:
  assumes "good_comp v" "good_comp n" "1 \<le> sint slot" "cs \<noteq> []" "good_comp other"
    "\<forall>c\<in>set (other # ''1'' # cs). good_comp c"
  shows "path_join [GenBucketID v n, Itoa (sint slot), join_with (CHR ''/'') (replicate 2 ''..'' @ other # ''1'' # cs)]
    = CHR ''/'' # join_with (CHR ''/'') (v # other # ''1'' # cs)"
proof -
  let ?s = "show_nat (nat (sint slot))" and ?ds = "other # ''1'' # cs"
  let ?l = "v # n # ?s # ''..'' # ''..'' # ?ds"
  have sl: "\<forall>c\<in>set ?l. CHR ''/'' \<notin> set c"
    using assms by (simp add: good_comp_def)
  have "path_join [GenBucketID v n, Itoa (sint slot), join_with (CHR ''/'') (replicate 2 ''..'' @ ?ds)]
      = path_clean (CHR ''/'' # join_with (CHR ''/'') ?l)"
    using assms by (simp add: path_join_def GenBucketID_good Itoa_def numeral_2_eq_2)
  moreover have "split_on (CHR ''/'') (join_with (CHR ''/'') ?l) = ?l"
    using sl by (intro split_on_join) simp_all
  moreover have "clean_comps True [] ?l = v # ?ds"
  proof -
    have "clean_comps True [] ?l = clean_comps True [v] ?ds"
      using assms good_comp_show_nat [of "nat (sint slot)"]
      by (auto simp: good_comp_def simp del: good_comp_show_nat)
    then show ?thesis
      using assms by (simp only: clean_comps_good) simp
  qed
  ultimately show ?thesis
    by (simp add: path_clean_def rooted_def del: join_with.simps)
qed

lemma SplitID_of_GenObjectId:
  assumes "ring_ok ring" "bucket_ok b" "key_ok key"
  shows "\<exists>objID slot. GenObjectId ring b key = Ret objID
    \<and> CalculateSlot ring key (KeySlotNum (the (Config b))) = Ret slot
    \<and> SplitID objID = Inr (VolumeId_b b, BucketInfo_GetID b, CleanObjectKey key, slot)"
proof -
  obtain c where c: "Config b = Some c" "0 < sint (KeySlotNum c)"
    using assms(2) by (auto simp: bucket_ok_def split: option.splits)
  obtain slot where slot: "CalculateSlot ring key (KeySlotNum c) = Ret slot" "1 \<le> sint slot"
    using CalculateSlot_bounds [OF assms(1) c(2)] by blast
  have "nat (sint slot) < 2 ^ 63"
    using sint_lt [of slot] slot(2) by simp
  moreover have "word_of_nat (nat (sint slot)) = slot"
    using slot(2) by (simp add: of_int_sint)
  ultimately show ?thesis
    using GenObjectId_form [OF assms(2,3) slot(1) c(1)] slot c assms(2,3)
      SplitID_form [of "VolumeId_b b" "BucketName b" "nat (sint slot)" key]
    by (simp add: bucket_ok_def BucketInfo_GetID_def)
qed

lemma example_bucket_ok: "bucket_ok example_bucket"
  by (simp add: bucket_ok_def example_bucket_def good_comp_def)

section \<open>Properties\<close>

text \<open>
  cleaning an object key is idempotent, except on a key that cleans to the root, where the
  first cleaning gives the empty key and the second one the key \<^verbatim>\<open>.\<close>.
\<close>

theorem CleanObjectKey_idem:
  "CleanObjectKey (CleanObjectKey s) = (if path_clean s = ''/'' then ''.'' else CleanObjectKey s)"
proof (cases rule: CleanObjectKey_cases [of s])
  case root
  have "CleanObjectKey [] = ''.''"
    by code_simp
  with root show ?thesis
    by (simp only: if_True simp_thms)
next
  case (key cs)
  have "path_clean s \<noteq> ''/''"
    using key(4) join_good_last [OF key(1,2)] by auto
  then show ?thesis
    using key by (simp add: CleanObjectKey_join)
next
  case up
  have "CleanObjectKey (CleanObjectKey s) = trim_prefix (path_clean (path_clean s)) ''/''"
    using up(1) by (simp add: CleanObjectKey_def)
  also have "\<dots> = CleanObjectKey s"
    by (simp add: CleanObjectKey_def)
  moreover have "path_clean s \<noteq> ''/''"
    using up by (auto simp: has_prefix_iff)
  ultimately show ?thesis
    by simp
qed

text \<open>
  with a ring that honours its contract, the slot of a key exists and lies between one and
  the number of slots of the bucket.
\<close>

theorem CalculateSlot_range:
  assumes "ring_ok ring" "0 < sint slotNum"
  shows "\<exists>slot. CalculateSlot ring objectKey slotNum = Ret slot \<and> 1 \<le> sint slot \<and> sint slot \<le> sint slotNum"
  using assms by (rule CalculateSlot_bounds)

text \<open>
  C19: splitting the identifier generated for a key of a well-formed bucket, where the clean form of
  the key is a path of ordinary components (not empty, no \<^verbatim>\<open>..\<close>), gives back the volume, the bucket
  identifier, the clean key and the slot of the key.
\<close>

theorem SplitID_GenObjectId:
  assumes "ring_ok ring" "bucket_ok b" "key_ok key"
  shows "\<exists>objID slot. GenObjectId ring b key = Ret objID
    \<and> CalculateSlot ring key (KeySlotNum (the (Config b))) = Ret slot
    \<and> SplitID objID = Inr (VolumeId_b b, BucketInfo_GetID b, CleanObjectKey key, slot)"
  using assms by (rule SplitID_of_GenObjectId)

theorem SplitID_GenObjectId_witness:
  "\<exists>objID slot. GenObjectId first_ring example_bucket ''/photos//cat.png'' = Ret objID
    \<and> SplitID objID = Inr (''root'', ''/root/default'', ''photos/cat.png'', slot)"
proof -
  have "key_ok ''/photos//cat.png''" "BucketInfo_GetID example_bucket = ''/root/default''"
    "CleanObjectKey ''/photos//cat.png'' = ''photos/cat.png''"
    by code_simp+
  then show ?thesis
    using SplitID_GenObjectId [OF first_ring_ok example_bucket_ok, of "''/photos//cat.png''"]
    by (auto simp: example_bucket_def)
qed

text \<open>
  C38: a key that climbs out of its bucket is not rejected: the identifier generated for it in
  one bucket is an identifier of another bucket of the same volume.
\<close>

theorem GenObjectId_escapes:
  assumes "ring_ok ring" "bucket_ok b" "good_comp other" "key_ok key"
  shows "\<exists>objID. GenObjectId ring b (''../../'' @ other @ ''/1/'' @ CleanObjectKey key) = Ret objID
    \<and> SplitID objID = Inr (VolumeId_b b, GenBucketID (VolumeId_b b) other, CleanObjectKey key, 1)"
proof -
  obtain c where c: "Config b = Some c" "0 < sint (KeySlotNum c)"
    using assms(2) by (auto simp: bucket_ok_def split: option.splits)
  obtain cs where cs: "cs \<noteq> []" "\<forall>c\<in>set cs. good_comp c" "CleanObjectKey key = join_with (CHR ''/'') cs"
    using assms(4) by (rule key_ok_join)
  let ?v = "VolumeId_b b" and ?ds = "other # ''1'' # cs"
  let ?k = "''../../'' @ other @ ''/1/'' @ CleanObjectKey key"
  have one: "show_nat 1 = ''1''" "good_comp ''1''"
    by code_simp+
  have g: "\<forall>c\<in>set ?ds. good_comp c" "\<forall>c\<in>set (?v # ?ds). good_comp c" "good_comp ?v" "good_comp (BucketName b)"
    using assms(2,3) cs one by (simp_all add: bucket_ok_def)
  have k: "?k = join_with (CHR ''/'') (replicate 2 ''..'' @ ?ds)"
    using cs by (simp add: join_with_Cons numeral_2_eq_2)
  have "path_clean ?k = ?k"
    unfolding k using g(1) by (intro path_clean_rel) simp_all
  moreover have "trim_char (CHR ''/'') ?k = ?k"
    using join_good_last [OF cs(1,2)] by (intro trim_char_same) (simp_all add: cs(3))
  ultimately have t: "trim_char (CHR ''/'') (path_clean ?k) = ?k"
    by simp
  obtain slot where slot: "CalculateSlot ring ?k (KeySlotNum c) = Ret slot" "1 \<le> sint slot"
    using CalculateSlot_bounds [OF assms(1) c(2)] by blast
  have "path_join [BucketInfo_GetID b, Itoa (sint slot), ?k] = CHR ''/'' # join_with (CHR ''/'') (?v # ?ds)"
    unfolding BucketInfo_GetID_def k using g(3,4) slot(2) cs(1) assms(3)
    by (rule path_join_up) (use g(1) in simp_all)
  then have "GenObjectId ring b ?k = Ret (join_with (CHR ''/'') (?v # ?ds))"
    using slot(1) c(1) t CleanObjectKey_join(2) [OF _ g(2)]
    by (simp add: GenObjectId_def key_slot_num_def Let_def)
  moreover have "join_with (CHR ''/'') (?v # ?ds) = ?v @ ''/'' @ other @ ''/'' @ show_nat 1 @ ''/'' @ CleanObjectKey key"
    using cs one by (simp add: join_with_Cons)
  ultimately show ?thesis
    using SplitID_form [OF g(3) assms(3) _ assms(4), of 1] by simp
qed

theorem GenObjectId_escapes_witness:
  "\<exists>objID. GenObjectId first_ring example_bucket ''../../secret/1/passwd'' = Ret objID
    \<and> SplitID objID = Inr (''root'', ''/root/secret'', ''passwd'', 1)"
proof -
  have "key_ok ''passwd''" "CleanObjectKey ''passwd'' = ''passwd''" "good_comp ''secret''"
    "GenBucketID ''root'' ''secret'' = ''/root/secret''"
    by code_simp+
  then show ?thesis
    using GenObjectId_escapes [OF first_ring_ok example_bucket_ok, of "''secret''" "''passwd''"]
    by (simp add: example_bucket_def)
qed

end
