(* ===== verification/Pipelines.thy ===== *)
theory Pipelines
  imports Objects
begin

text \<open>
  Placement of groups on nodes (\<^verbatim>\<open>edge-node/pipeline/pipeline.go\<close>): one pipeline per placement
  group, holding the raft identifiers of the nodes chosen for it.  The choice is made by the
  CRUSH library, which is the parameter \<open>select\<close>: it takes the candidate nodes, the input and
  the number of nodes wanted; \<open>crush_ok\<close> states what its documentation promises.
\<close>

section \<open>Data and operations\<close>

datatype SyncType = RAFT | STREAM

record Pipeline =
  PgId_p :: u64
  RaftIds :: "u64 list"
  SyncType_p :: SyncType
  ClusterTerm :: u64

record ClusterPipelines =
  Term_cp :: u64
  MetaPipelines :: "Pipeline list"
  BlockPipelines :: "Pipeline list"

type_synonym crush = "NodeInfo list \<Rightarrow> int \<Rightarrow> int \<Rightarrow> NodeInfo list"

text \<open>Indexing with \<^verbatim>\<open>pgID-1\<close>: group zero wraps around and is out of range like any other.\<close>

definition pipeline_at :: "Pipeline list \<Rightarrow> u64 \<Rightarrow> Pipeline exec" where
  "pipeline_at ps pgID =
     (case nth_opt ps (unat (pgID - 1)) of None \<Rightarrow> Panic ''index out of range'' | Some p \<Rightarrow> Ret p)"

definition GetMetaPipeline :: "ClusterPipelines \<Rightarrow> u64 \<Rightarrow> Pipeline exec" where
  "GetMetaPipeline cp pgID = pipeline_at (MetaPipelines cp) pgID"

definition GetBlockPipeline :: "ClusterPipelines \<Rightarrow> u64 \<Rightarrow> Pipeline exec" where
  "GetBlockPipeline cp pgID = pipeline_at (BlockPipelines cp) pgID"

definition GetMetaPG :: "ClusterPipelines \<Rightarrow> u64 \<Rightarrow> u64 list exec" where
  "GetMetaPG cp pgID = exec_bind (pipeline_at (MetaPipelines cp) pgID) (\<lambda>p. Ret (RaftIds p))"

definition GetBlockPG :: "ClusterPipelines \<Rightarrow> u64 \<Rightarrow> u64 list exec" where
  "GetBlockPG cp pgID = exec_bind (pipeline_at (BlockPipelines cp) pgID) (\<lambda>p. Ret (RaftIds p))"

definition GetMetaPGNodeID :: "ClusterPipelines \<Rightarrow> u64 \<Rightarrow> string list exec" where
  "GetMetaPGNodeID cp pgID =
     exec_bind (pipeline_at (MetaPipelines cp) pgID) (\<lambda>p. Ret (map FormatUint (RaftIds p)))"

definition GetBlockPGNodeID :: "ClusterPipelines \<Rightarrow> u64 \<Rightarrow> string list exec" where
  "GetBlockPGNodeID cp pgID =
     exec_bind (pipeline_at (BlockPipelines cp) pgID) (\<lambda>p. Ret (map FormatUint (RaftIds p)))"

text \<open>The children of the CRUSH root: every node that is not offline.\<close>

definition crush_children :: "ClusterInfo \<Rightarrow> NodeInfo list" where
  "crush_children clusterInfo = filter (\<lambda>info. State info \<noteq> OFFLINE) (NodesInfo clusterInfo)"

definition gen_pipeline :: "crush \<Rightarrow> ClusterInfo \<Rightarrow> u64 \<Rightarrow> u64 \<Rightarrow> Pipeline" where
  "gen_pipeline select clusterInfo groupSize i =
     \<lparr>PgId_p = i, RaftIds = map RaftId (select (crush_children clusterInfo) (sint i) (sint groupSize)),
      SyncType_p = RAFT, ClusterTerm = Term clusterInfo\<rparr>"

definition GenPipelines :: "crush \<Rightarrow> ClusterInfo \<Rightarrow> u64 \<Rightarrow> u64 \<Rightarrow> Pipeline list" where
  "GenPipelines select clusterInfo pgNum groupSize =
     (if word_of_nat (length (crush_children clusterInfo)) < groupSize then []
      else map (\<lambda>i. gen_pipeline select clusterInfo groupSize (word_of_nat i)) [1..<Suc (unat pgNum)])"

definition GenMetaPipelines :: "crush \<Rightarrow> ClusterInfo \<Rightarrow> Pipeline list" where
  "GenMetaPipelines select clusterInfo =
     GenPipelines select clusterInfo (uint64_of_i32 (MetaPgNum clusterInfo)) (uint64_of_i32 (MetaPgSize clusterInfo))"

definition GenBlockPipelines :: "crush \<Rightarrow> ClusterInfo \<Rightarrow> Pipeline list" where
  "GenBlockPipelines select clusterInfo =
     GenPipelines select clusterInfo (uint64_of_i32 (BlockPgNum clusterInfo)) (uint64_of_i32 (BlockPgSize clusterInfo))"

definition NewClusterPipelines :: "crush \<Rightarrow> ClusterInfo \<Rightarrow> ClusterPipelines result" where
  "NewClusterPipelines select info =
     (let metaPipelines = GenMetaPipelines select info; blockPipelines = GenBlockPipelines select info
      in if length metaPipelines = 0 \<or> length blockPipelines = 0 then Inl (Err ClusterNotOK)
         else Inr \<lparr>Term_cp = Term info, MetaPipelines = metaPipelines, BlockPipelines = blockPipelines\<rparr>)"

text \<open>The contract of the library: distinct candidates, no more than asked for.\<close>

definition crush_ok :: "crush \<Rightarrow> bool" where
  "crush_ok select \<longleftrightarrow> (\<forall>nodes i count. distinct nodes \<longrightarrow>
     distinct (select nodes i count) \<and> set (select nodes i count) \<subseteq> set nodes
     \<and> int (length (select nodes i count)) \<le> max 0 count)"

text \<open>What a pipeline of group \<open>pg\<close> promises to the components that use it.\<close>

definition pipeline_ok :: "ClusterInfo \<Rightarrow> i32 \<Rightarrow> u64 \<Rightarrow> Pipeline \<Rightarrow> bool" where
  "pipeline_ok info groupSize pg p \<longleftrightarrow>
     PgId_p p = pg \<and> ClusterTerm p = Term info \<and> distinct (RaftIds p)
     \<and> (\<forall>i \<in> set (RaftIds p). \<exists>n \<in> set (NodesInfo info). RaftId n = i \<and> State n \<noteq> OFFLINE)
     \<and> int (length (RaftIds p)) \<le> max 0 (sint groupSize)"

definition take_crush :: crush where
  "take_crush nodes i count = take (nat count) nodes"

section \<open>Lemmas\<close>

lemma take_crush_ok: "crush_ok take_crush"
  by (auto simp: crush_ok_def take_crush_def dest: in_set_takeD)

lemma GenPipelines_nth:
  assumes "i < length (GenPipelines select info pgNum groupSize)"
  shows "GenPipelines select info pgNum groupSize ! i = gen_pipeline select info groupSize (word_of_nat (Suc i))"
  using assms by (auto simp: GenPipelines_def simp del: upt_Suc split: if_splits)

lemma length_GenPipelines:
  "GenPipelines select info pgNum groupSize \<noteq> [] \<Longrightarrow> length (GenPipelines select info pgNum groupSize) = unat pgNum"
  by (auto simp: GenPipelines_def split: if_splits)

lemma pipeline_at_GenPipelines:
  assumes ne: "GenPipelines select info pgNum groupSize \<noteq> []"
  shows "pipeline_at (GenPipelines select info pgNum groupSize) pgID =
    (if 1 \<le> pgID \<and> pgID \<le> pgNum then Ret (gen_pipeline select info groupSize pgID)
     else Panic ''index out of range'')"
proof (cases "pgID = 0")
  case True
  have "unat pgNum \<le> unat (- 1 :: u64)"
    by (simp add: word_le_nat_alt [symmetric])
  then show ?thesis
    using True length_GenPipelines [OF ne] by (simp add: pipeline_at_def nth_opt_def)
next
  case False
  then have u: "unat (pgID - 1) = unat pgID - 1" "1 \<le> unat pgID"
    by (simp_all add: unat_minus_one Suc_leI unat_gt_0)
  then have "unat (pgID - 1) < length (GenPipelines select info pgNum groupSize) \<longleftrightarrow> pgID \<le> pgNum"
    using length_GenPipelines [OF ne] by (auto simp: word_le_nat_alt)
  moreover have "word_of_nat (Suc (unat (pgID - 1))) = pgID"
    using u by (simp del: of_nat_Suc)
  ultimately show ?thesis
    using False GenPipelines_nth [of "unat (pgID - 1)" select info pgNum groupSize]
    by (auto simp: pipeline_at_def nth_opt_def word_le_nat_alt unat_gt_0 Suc_leI)
qed


lemma gen_pipeline_ok:
  assumes "crush_ok select" "distinct (map RaftId (NodesInfo info))"
  shows "pipeline_ok info groupSize pg (gen_pipeline select info (uint64_of_i32 groupSize) pg)"
proof -
  let ?cs = "crush_children info" and ?sel = "select (crush_children info) (sint pg) (sint groupSize)"
  have "distinct (map RaftId ?cs)"
    using assms(2) by (simp add: crush_children_def distinct_map_filter)
  then have inj: "inj_on RaftId (set ?cs)" and d: "distinct ?cs"
    by (simp_all add: distinct_map)
  have sel: "distinct ?sel" "set ?sel \<subseteq> set ?cs" "int (length ?sel) \<le> max 0 (sint groupSize)"
    using assms(1) d unfolding crush_ok_def by blast+
  have "distinct (map RaftId ?sel)"
    using sel inj by (simp add: distinct_map inj_on_subset)
  moreover have "\<forall>i \<in> RaftId ` set ?sel. \<exists>n \<in> set (NodesInfo info). RaftId n = i \<and> State n \<noteq> OFFLINE"
    using sel(2) by (auto simp: crush_children_def)
  ultimately show ?thesis
    using sel(3) by (simp add: pipeline_ok_def gen_pipeline_def sint_uint64_of_i32)
qed

lemma NewClusterPipelines_Inr:
  assumes "NewClusterPipelines select info = Inr cp"
  shows "GenMetaPipelines select info \<noteq> []" "GenBlockPipelines select info \<noteq> []"
    "Term_cp cp = Term info" "MetaPipelines cp = GenMetaPipelines select info"
    "BlockPipelines cp = GenBlockPipelines select info"
  using assms by (auto simp: NewClusterPipelines_def Let_def split: if_splits)

section \<open>Properties\<close>

text \<open>
  C18: when the pipelines of a cluster information exist, exactly the groups from one to the
  configured number have a metadata pipeline and a block pipeline, any other group number
  (zero included) is an index out of range, and each pipeline carries its group number and
  the term, and names distinct nodes that are not offline, no more than the group size.
\<close>

theorem NewClusterPipelines_correct:
  assumes "crush_ok select" "distinct (map RaftId (NodesInfo info))" "NewClusterPipelines select info = Inr cp"
  shows "Term_cp cp = Term info
    \<and> (if 1 \<le> pg \<and> pg \<le> uint64_of_i32 (MetaPgNum info)
       then \<exists>p. GetMetaPipeline cp pg = Ret p \<and> pipeline_ok info (MetaPgSize info) pg p
       else GetMetaPipeline cp pg = Panic ''index out of range'')
    \<and> (if 1 \<le> pg \<and> pg \<le> uint64_of_i32 (BlockPgNum info)
       then \<exists>p. GetBlockPipeline cp pg = Ret p \<and> pipeline_ok info (BlockPgSize info) pg p
       else GetBlockPipeline cp pg = Panic ''index out of range'')"
  using NewClusterPipelines_Inr [OF assms(3)] gen_pipeline_ok [OF assms(1,2)]
  by (auto simp: GetMetaPipeline_def GetBlockPipeline_def GenMetaPipelines_def GenBlockPipelines_def
      pipeline_at_GenPipelines)

text \<open>A cluster of two nodes, with one group of two nodes for metadata and one for blocks.\<close>

definition example_node :: "u64 \<Rightarrow> NodeInfo" where
  "example_node i = \<lparr>RaftId = i, Uuid = [], IpAddr = [], RpcPort = 3267, Capacity = 10, State = ONLINE\<rparr>"

definition example_cluster :: ClusterInfo where
  "example_cluster = \<lparr>Term = 7, LeaderInfo = None, NodesInfo = [example_node 1, example_node 2],
     UpdateTimestamp = None, MetaPgNum = 1, MetaPgSize = 2, BlockPgNum = 1, BlockPgSize = 2, LastTerm = 3\<rparr>"

lemma example_cluster_pipelines:
  "\<exists>cp. NewClusterPipelines take_crush example_cluster = Inr cp"
proof -
  have "\<not> isl (NewClusterPipelines take_crush example_cluster)"
    by code_simp
  then show ?thesis
    by (cases "NewClusterPipelines take_crush example_cluster") auto
qed

theorem NewClusterPipelines_correct_witness:
  "\<exists>cp p. NewClusterPipelines take_crush example_cluster = Inr cp \<and> GetMetaPipeline cp 1 = Ret p
     \<and> pipeline_ok example_cluster 2 1 p \<and> GetMetaPipeline cp 2 = Panic ''index out of range''"
proof -
  obtain cp where cp: "NewClusterPipelines take_crush example_cluster = Inr cp"
    using example_cluster_pipelines by blast
  have d: "distinct (map RaftId (NodesInfo example_cluster))"
    by code_simp
  have n: "uint64_of_i32 (MetaPgNum example_cluster) = 1" "uint64_of_i32 (BlockPgNum example_cluster) = 1"
      "MetaPgSize example_cluster = 2" "\<not> (2 :: u64) \<le> 1"
    by code_simp+
  show ?thesis
    using NewClusterPipelines_correct [OF take_crush_ok d cp, of 1]
      NewClusterPipelines_correct [OF take_crush_ok d cp, of 2] cp
    unfolding n(1,2,3) using n(4) by auto
qed

lemma GenObjPgID_bounds:
  assumes "ring_ok ring" "bucket_ok b" "0 < sint n"
  shows "\<exists>pg. GenObjPgID ring b key n = Ret pg \<and> 1 \<le> pg \<and> pg \<le> uint64_of_i32 n"
proof -
  obtain c where c: "Config b = Some c" "0 < sint (KeySlotNum c)"
    using assms(2) by (auto simp: bucket_ok_def split: option.splits)
  obtain slot where slot: "CalculateSlot ring (CleanObjectKey key) (KeySlotNum c) = Ret slot"
    using CalculateSlot_bounds [OF assms(1) c(2)] by blast
  obtain pg where pg: "map_pg ring (uint64_of_i32 n) (BucketInfo_GetID b @ ''/'' @ rune_string slot) = Ret pg"
      "1 \<le> pg" "pg \<le> uint64_of_i32 n"
    using map_pg_bounds [OF assms(1)] uint64_of_i32_pos [OF assms(3)] by blast
  then show ?thesis
    using slot c by (simp add: GenObjPgID_def key_slot_num_def GenSlotPgID_def)
qed

text \<open>
  the placement group computed for a key of a bucket always has a metadata pipeline in the
  same cluster information: placement never indexes out of range.
\<close>

theorem object_pg_has_pipeline:
  assumes "ring_ok ring" "bucket_ok b" "0 < sint (MetaPgNum info)" "NewClusterPipelines select info = Inr cp"
  shows "\<exists>pg p. GenObjPgID ring b key (MetaPgNum info) = Ret pg \<and> GetMetaPipeline cp pg = Ret p \<and> PgId_p p = pg"
proof -
  obtain pg where pg: "GenObjPgID ring b key (MetaPgNum info) = Ret pg" "1 \<le> pg" "pg \<le> uint64_of_i32 (MetaPgNum info)"
    using GenObjPgID_bounds [OF assms(1-3)] by blast
  then show ?thesis
    using NewClusterPipelines_Inr [OF assms(4)]
    by (simp add: GetMetaPipeline_def GenMetaPipelines_def pipeline_at_GenPipelines gen_pipeline_def)
qed

end
