(* ===== verification/Meta_Storage.thy ===== *)
theory Meta_Storage
  imports Objects
begin

text \<open>
  Storage of object metadata (\<^verbatim>\<open>shared/alaya/meta_storage.go\<close>): the in-memory storage of one
  placement group, the register of the storages of a node, and the operations of the
  replicated log on a storage (\<^verbatim>\<open>MetaOperate\<close>).  The locale \<open>meta_store\<close> is the interface
  \<^verbatim>\<open>MetaStorage\<close>: its laws describe a storage by the partial map it stands for, and the
  consequences of applying a log are proved once from them.
\<close>

section \<open>The in-memory storage\<close>

record MemoryMetaStorage =
  MetaMap :: "(string, ObjectMeta) smap"

definition NewMemoryMetaStorage :: MemoryMetaStorage where
  "NewMemoryMetaStorage = \<lparr>MetaMap = []\<rparr>"

definition RecordMeta :: "ObjectMeta \<Rightarrow> MemoryMetaStorage \<Rightarrow> MemoryMetaStorage" where
  "RecordMeta meta s = s\<lparr>MetaMap := sm_store (ObjId meta) meta (MetaMap s)\<rparr>"

definition GetMeta :: "MemoryMetaStorage \<Rightarrow> string \<Rightarrow> ObjectMeta result" where
  "GetMeta s objID =
     (case sm_load (MetaMap s) objID of Some m \<Rightarrow> Inr m | None \<Rightarrow> Inl (Err MetaNotExist))"

definition ListMetas :: "MemoryMetaStorage \<Rightarrow> string \<Rightarrow> ObjectMeta list" where
  "ListMetas s prefix =
     map snd (filter (\<lambda>kv. \<not> length (fst kv) < length prefix \<and> take (length prefix) (fst kv) = prefix) (MetaMap s))"

definition DeleteMetaEntry :: "string \<Rightarrow> MemoryMetaStorage \<Rightarrow> MemoryMetaStorage" where
  "DeleteMetaEntry objID s = s\<lparr>MetaMap := sm_delete objID (MetaMap s)\<rparr>"

text \<open>A \<^verbatim>\<open>sync.Map\<close> has no exported field: its JSON is the empty object.\<close>

definition CreateSnapshot :: "MemoryMetaStorage \<Rightarrow> bytes" where
  "CreateSnapshot s = map of_char ''{}''"

definition RecoverFromSnapshot :: "bytes \<Rightarrow> MemoryMetaStorage \<Rightarrow> MemoryMetaStorage" where
  "RecoverFromSnapshot snapshot s = s"

section \<open>The register\<close>

record MemoryMetaStorageRegister =
  pgMap :: "(u64, MemoryMetaStorage) smap"

definition NewMemoryMetaStorageRegister :: MemoryMetaStorageRegister where
  "NewMemoryMetaStorageRegister = \<lparr>pgMap = []\<rparr>"

definition GetStorage :: "MemoryMetaStorageRegister \<Rightarrow> u64 \<Rightarrow> MemoryMetaStorage result" where
  "GetStorage ms pgID =
     (case sm_load (pgMap ms) pgID of Some s \<Rightarrow> Inr s | None \<Rightarrow> Inl (Err MetaStorageNotExist))"

definition NewStorage ::
    "u64 \<Rightarrow> MemoryMetaStorageRegister \<Rightarrow> MemoryMetaStorageRegister \<times> MemoryMetaStorage result" where
  "NewStorage pgID ms =
     (case sm_load (pgMap ms) pgID of
        Some s \<Rightarrow> (ms, Inr s)
      | None \<Rightarrow>
          (let ms' = ms\<lparr>pgMap := sm_store pgID NewMemoryMetaStorage (pgMap ms)\<rparr>
           in (ms', GetStorage ms' pgID)))"

definition GetAllStorage :: "MemoryMetaStorageRegister \<Rightarrow> MemoryMetaStorage list" where
  "GetAllStorage ms = map snd (pgMap ms)"

text \<open>Storages are shared by reference: a change of the storage of a group is seen by the register.\<close>

definition put_storage :: "u64 \<Rightarrow> MemoryMetaStorage \<Rightarrow> MemoryMetaStorageRegister \<Rightarrow> MemoryMetaStorageRegister" where
  "put_storage pgID s ms = ms\<lparr>pgMap := sm_store pgID s (pgMap ms)\<rparr>"

section \<open>Operations of the log\<close>

text \<open>An operation the message format does not name arrives as its number; it changes nothing.\<close>

datatype Operate = PUT | DELETE | OtherOperate i32

record MetaOperate =
  OperateId :: u64
  Operate :: Operate
  Meta :: ObjectMeta

definition apply_operate :: "MetaOperate \<Rightarrow> MemoryMetaStorage \<Rightarrow> MemoryMetaStorage" where
  "apply_operate op s =
     (case Operate op of
        PUT \<Rightarrow> RecordMeta (Meta op) s | DELETE \<Rightarrow> DeleteMetaEntry (ObjId (Meta op)) s | OtherOperate i \<Rightarrow> s)"

text \<open>The same operations on the partial map a storage stands for.\<close>

definition spec_operate :: "MetaOperate \<Rightarrow> (string \<rightharpoonup> ObjectMeta) \<Rightarrow> (string \<rightharpoonup> ObjectMeta)" where
  "spec_operate op m =
     (case Operate op of
        PUT \<Rightarrow> m(ObjId (Meta op) \<mapsto> Meta op) | DELETE \<Rightarrow> m(ObjId (Meta op) := None) | OtherOperate i \<Rightarrow> m)"

text \<open>The operations that change an object.\<close>

definition changes :: "string \<Rightarrow> MetaOperate \<Rightarrow> bool" where
  "changes k op \<longleftrightarrow> ObjId (Meta op) = k \<and> Operate op \<in> {PUT, DELETE}"

definition meta_ok :: "MemoryMetaStorage \<Rightarrow> bool" where
  "meta_ok s \<longleftrightarrow> sm_ok (MetaMap s) \<and> (\<forall>kv \<in> set (MetaMap s). ObjId (snd kv) = fst kv)"

definition meta_lookup :: "MemoryMetaStorage \<Rightarrow> string \<rightharpoonup> ObjectMeta" where
  "meta_lookup s = sm_load (MetaMap s)"

section \<open>The interface and what follows from it\<close>

locale meta_store =
  fixes record_meta :: "ObjectMeta \<Rightarrow> 's \<Rightarrow> 's"
    and delete_meta :: "string \<Rightarrow> 's \<Rightarrow> 's"
    and get_meta :: "'s \<Rightarrow> string \<Rightarrow> ObjectMeta result"
    and list_meta :: "'s \<Rightarrow> string \<Rightarrow> ObjectMeta list"
    and operate :: "MetaOperate \<Rightarrow> 's \<Rightarrow> 's"
    and lookup :: "'s \<Rightarrow> string \<rightharpoonup> ObjectMeta"
    and ok :: "'s \<Rightarrow> bool"
  assumes operate_def: "operate op s =
      (case Operate op of PUT \<Rightarrow> record_meta (Meta op) s | DELETE \<Rightarrow> delete_meta (ObjId (Meta op)) s | OtherOperate i \<Rightarrow> s)"
    and ok_record: "ok s \<Longrightarrow> ok (record_meta m s)"
    and ok_delete: "ok s \<Longrightarrow> ok (delete_meta k s)"
    and lookup_record: "ok s \<Longrightarrow> lookup (record_meta m s) = (lookup s)(ObjId m \<mapsto> m)"
    and lookup_delete: "ok s \<Longrightarrow> lookup (delete_meta k s) = (lookup s)(k := None)"
    and get_lookup: "ok s \<Longrightarrow> get_meta s k = (case lookup s k of Some m \<Rightarrow> Inr m | None \<Rightarrow> Inl (Err MetaNotExist))"
    and list_lookup: "ok s \<Longrightarrow> m \<in> set (list_meta s p) \<longleftrightarrow> (lookup s (ObjId m) = Some m \<and> has_prefix (ObjId m) p)"
    and list_distinct: "ok s \<Longrightarrow> distinct (map ObjId (list_meta s p))"
begin

lemma ok_operate: "ok s \<Longrightarrow> ok (operate op s)"
  by (simp add: operate_def ok_record ok_delete split: Operate.splits)

lemma ok_log: "ok s \<Longrightarrow> ok (fold operate ops s)"
  by (induction ops arbitrary: s) (auto simp: ok_operate)

lemma lookup_operate: "ok s \<Longrightarrow> lookup (operate op s) = spec_operate op (lookup s)"
  by (simp add: operate_def spec_operate_def lookup_record lookup_delete split: Operate.splits)

text \<open>A log acts on the storage as it acts on the partial map.\<close>

lemma lookup_log: "ok s \<Longrightarrow> lookup (fold operate ops s) = fold spec_operate ops (lookup s)"
  by (induction ops arbitrary: s) (auto simp: ok_operate lookup_operate)

text \<open>An object is present after a log exactly when its last operation is a put.\<close>

lemma lookup_log_last:
  assumes "ok s"
  shows "lookup (fold operate ops s) k =
    (case find (changes k) (rev ops) of
       None \<Rightarrow> lookup s k
     | Some op \<Rightarrow> if Operate op = PUT then Some (Meta op) else None)"
proof (induction ops rule: rev_induct)
  case (snoc op ops)
  then show ?case
    using assms by (auto simp: lookup_operate ok_log spec_operate_def changes_def split: Operate.splits)
qed simp

text \<open>Replicas that agree on lookups agree on every read after the same log.\<close>

lemma replicas_agree:
  assumes "ok s" "ok t" "lookup s = lookup t"
  shows "get_meta (fold operate ops s) = get_meta (fold operate ops t)"
    and "set (list_meta (fold operate ops s) p) = set (list_meta (fold operate ops t) p)"
proof -
  have "lookup (fold operate ops s) = lookup (fold operate ops t)"
    using assms by (simp add: lookup_log)
  then show "get_meta (fold operate ops s) = get_meta (fold operate ops t)"
    and "set (list_meta (fold operate ops s) p) = set (list_meta (fold operate ops t) p)"
    using assms by (auto simp: get_lookup list_lookup ok_log)
qed

lemma get_after_put:
  "ok s \<Longrightarrow> Operate op = PUT \<Longrightarrow>
     get_meta (operate op s) k = (if k = ObjId (Meta op) then Inr (Meta op) else get_meta s k)"
  by (simp add: get_lookup ok_operate lookup_operate spec_operate_def)

lemma get_after_delete:
  "ok s \<Longrightarrow> Operate op = DELETE \<Longrightarrow>
     get_meta (operate op s) k = (if k = ObjId (Meta op) then Inl (Err MetaNotExist) else get_meta s k)"
  by (simp add: get_lookup ok_operate lookup_operate spec_operate_def)

end

lemma meta_ok_new [simp]: "meta_ok NewMemoryMetaStorage"
  by (simp add: meta_ok_def NewMemoryMetaStorage_def sm_ok_def)

lemma meta_ok_RecordMeta: "meta_ok s \<Longrightarrow> meta_ok (RecordMeta m s)"
  by (auto simp: meta_ok_def RecordMeta_def sm_laws set_sm_store)

lemma meta_ok_Delete: "meta_ok s \<Longrightarrow> meta_ok (DeleteMetaEntry k s)"
  by (auto simp: meta_ok_def DeleteMetaEntry_def sm_laws set_sm_delete)

lemma ListMetas_lookup:
  assumes "meta_ok s"
  shows "m \<in> set (ListMetas s p) \<longleftrightarrow> meta_lookup s (ObjId m) = Some m \<and> has_prefix (ObjId m) p"
  using assms unfolding meta_ok_def ListMetas_def meta_lookup_def
  by (auto simp: sm_load_set has_prefix_take not_less image_iff Bex_def)

lemma ListMetas_distinct:
  assumes "meta_ok s"
  shows "distinct (map ObjId (ListMetas s p))"
proof -
  have "map ObjId (map snd kvs) = map fst kvs" if "set kvs \<subseteq> set (MetaMap s)" for kvs
    using that assms by (auto simp: meta_ok_def)
  then have "map ObjId (ListMetas s p) =
      map fst (filter (\<lambda>kv. \<not> length (fst kv) < length p \<and> take (length p) (fst kv) = p) (MetaMap s))"
    unfolding ListMetas_def by (metis (no_types, lifting) filter_is_subset)
  then show ?thesis
    using assms by (simp add: meta_ok_def sm_ok_def distinct_map_filter)
qed

interpretation mms: meta_store RecordMeta DeleteMetaEntry GetMeta ListMetas apply_operate meta_lookup meta_ok
  by unfold_locales
    (auto simp: apply_operate_def meta_ok_RecordMeta meta_ok_Delete ListMetas_lookup ListMetas_distinct,
     auto simp: meta_ok_def RecordMeta_def DeleteMetaEntry_def GetMeta_def meta_lookup_def sm_laws)

section \<open>Properties\<close>

text \<open>
  C29: after any log of operations on an empty storage an object is found exactly when the last
  operation that changes it is a put, with the metadata of that put; a listing holds every such object whose
  identifier starts with the prefix, once.
\<close>

theorem meta_log_correct:
  fixes ops :: "MetaOperate list"
  defines "s \<equiv> fold apply_operate ops NewMemoryMetaStorage"
  shows "GetMeta s k =
      (case find (changes k) (rev ops) of
         None \<Rightarrow> Inl (Err MetaNotExist)
       | Some op \<Rightarrow> if Operate op = PUT then Inr (Meta op) else Inl (Err MetaNotExist))
    \<and> (m \<in> set (ListMetas s p) \<longleftrightarrow> GetMeta s (ObjId m) = Inr m \<and> has_prefix (ObjId m) p)
    \<and> distinct (map ObjId (ListMetas s p))"
proof -
  have "meta_ok s"
    unfolding s_def by (rule mms.ok_log) simp
  moreover have "meta_lookup NewMemoryMetaStorage k = None"
    by (simp add: meta_lookup_def NewMemoryMetaStorage_def sm_laws)
  ultimately show ?thesis
    using mms.lookup_log_last [of NewMemoryMetaStorage ops k]
    by (simp add: mms.get_lookup mms.list_lookup mms.list_distinct s_def [symmetric]
        split: option.splits Operate.splits)
qed

end
