(* ===== verification/Raft_Node.thy ===== *)
theory Raft_Node
  imports Errno
begin

text \<open>
  The driver of a raft group (\<^verbatim>\<open>edge-node/raft-node/raft_node.go\<close>): it takes the batches of
  committed entries the raft library hands out, drops what was applied before, publishes the
  rest to the commit channel and triggers snapshots.  The channels it writes are lists of
  what was sent, oldest first.  The raft library is not part of the sources: decoding and
  applying a configuration change, the snapshot store and the log compaction are parameters.
\<close>

section \<open>Data\<close>

datatype EntryType = EntryNormal | EntryConfChange | EntryConfChangeV2

record Entry =
  Type :: EntryType
  Index :: u64
  Data :: bytes

datatype ConfChangeType = ConfChangeAddNode | ConfChangeRemoveNode | ConfChangeUpdateNode | ConfChangeAddLearnerNode

record ConfChange =
  Type_cc :: ConfChangeType
  NodeID :: u64
  Context :: bytes

record ConfState =
  Voters :: "u64 list"

text \<open>\<open>None\<close> on the commit channel is the nil commit that asks the reader to load the snapshot.\<close>

record RaftNode =
  ID :: u64
  ConfState_rn :: ConfState
  snapshotIndex :: u64
  appliedIndex :: u64
  snapCount :: u64
  CommitC :: "bytes list option list"
  ApplyConfChangeC :: "ConfChange list"
  saved_snapshots :: "(u64 \<times> bytes) list"
  compactions :: "u64 list"

record raft_library =
  unmarshal_cc :: "bytes \<Rightarrow> ConfChange option"
  apply_conf_change :: "ConfState \<Rightarrow> ConfChange \<Rightarrow> ConfState"

definition defaultSnapshotCount :: u64 where "defaultSnapshotCount = 2000"

definition snapshotCatchUpEntriesN :: u64 where "snapshotCatchUpEntriesN = 2000"

definition NewRaftNode :: "u64 \<Rightarrow> ConfState \<Rightarrow> u64 \<Rightarrow> RaftNode" where
  "NewRaftNode nodeID conf index =
     \<lparr>ID = nodeID, ConfState_rn = conf, snapshotIndex = index, appliedIndex = index,
      snapCount = defaultSnapshotCount, CommitC = [], ApplyConfChangeC = [], saved_snapshots = [], compactions = []\<rparr>"

section \<open>Publishing committed entries\<close>

definition entriesToApply :: "RaftNode \<Rightarrow> Entry list \<Rightarrow> Entry list exec" where
  "entriesToApply rc ents =
     (case ents of
        [] \<Rightarrow> Ret ents
      | e # _ \<Rightarrow>
          (let firstIdx = Index e
           in if appliedIndex rc + 1 < firstIdx
              then Fatal ''first index of committed entry should <= progress.appliedIndex+1''
              else if appliedIndex rc - firstIdx + 1 < word_of_nat (length ents)
              then Ret (drop (unat (appliedIndex rc - firstIdx + 1)) ents)
              else Ret []))"

primrec publish_loop :: "raft_library \<Rightarrow> Entry list \<Rightarrow> RaftNode \<Rightarrow> bytes list \<Rightarrow> (RaftNode \<times> bytes list) exec" where
  "publish_loop lib [] rc data = Ret (rc, data)"
| "publish_loop lib (e # ents) rc data =
     (case Type e of
        EntryNormal \<Rightarrow>
          (if Data e = [] then publish_loop lib ents rc data
           else publish_loop lib ents rc (data @ [Data e]))
      | EntryConfChange \<Rightarrow>
          (case unmarshal_cc lib (Data e) of
             None \<Rightarrow> Fatal ''unmarshal conf change error''
           | Some cc \<Rightarrow>
               publish_loop lib ents
                 (rc\<lparr>ConfState_rn := apply_conf_change lib (ConfState_rn rc) cc,
                     ApplyConfChangeC := ApplyConfChangeC rc @ [cc]\<rparr>) data)
      | EntryConfChangeV2 \<Rightarrow> publish_loop lib ents rc data)"

text \<open>
  \<open>done\<close> is the choice of the context's branch when the commit channel is not read; the
  result is whether a channel to wait for was made, and whether everything was published.
\<close>

definition publishEntries :: "raft_library \<Rightarrow> bool \<Rightarrow> Entry list \<Rightarrow> RaftNode \<Rightarrow> (RaftNode \<times> bool \<times> bool) exec" where
  "publishEntries lib done ents rc =
     (if length ents = 0 then Ret (rc, False, True)
      else exec_bind (publish_loop lib ents rc []) (\<lambda>(rc, data).
        if 0 < length data \<and> done then Ret (rc, False, False)
        else (let rc = (if 0 < length data then rc\<lparr>CommitC := CommitC rc @ [Some data]\<rparr> else rc)
              in Ret (rc\<lparr>appliedIndex := Index (last ents)\<rparr>, 0 < length data, True))))"

section \<open>Snapshots\<close>

record RaftSnapshot =
  Snap_Index :: u64
  Snap_ConfState :: ConfState

definition publishSnapshot :: "RaftSnapshot \<Rightarrow> RaftNode \<Rightarrow> RaftNode exec" where
  "publishSnapshot snap rc =
     (if Snap_Index snap = 0 then Ret rc
      else if Snap_Index snap \<le> appliedIndex rc then Fatal ''snapshot index should > progress.appliedIndex''
      else Ret (rc\<lparr>CommitC := CommitC rc @ [None], ConfState_rn := Snap_ConfState snap,
                   snapshotIndex := Snap_Index snap, appliedIndex := Snap_Index snap\<rparr>))"

text \<open>
  The three calls into the snapshot store and the raft storage, by the outcome they have; the
  snapshots saved and the indices compacted to are kept in the node.
\<close>

record snapshot_store =
  create_snapshot :: "u64 \<Rightarrow> bool"
  save_snap :: "u64 \<Rightarrow> bool"
  compact :: "u64 \<Rightarrow> bool"

definition compact_index :: "RaftNode \<Rightarrow> u64" where
  "compact_index rc =
     (if snapshotCatchUpEntriesN < appliedIndex rc then appliedIndex rc - snapshotCatchUpEntriesN else 1)"

definition maybeTriggerSnapshot :: "snapshot_store \<Rightarrow> (unit \<Rightarrow> bytes option) \<Rightarrow> bool \<Rightarrow> RaftNode \<Rightarrow> RaftNode exec" where
  "maybeTriggerSnapshot st getSnapshot done rc =
     (if appliedIndex rc - snapshotIndex rc \<le> snapCount rc then Ret rc
      else if done then Ret rc
      else case getSnapshot () of
        None \<Rightarrow> Fatal ''Get snapshot failed''
      | Some data \<Rightarrow>
          (if \<not> create_snapshot st (appliedIndex rc) then Panic ''create snapshot''
           else if \<not> save_snap st (appliedIndex rc) then Panic ''save snapshot''
           else if \<not> compact st (compact_index rc) then Panic ''compact''
           else Ret (rc\<lparr>saved_snapshots := saved_snapshots rc @ [(appliedIndex rc, data)],
                        compactions := compactions rc @ [compact_index rc], snapshotIndex := appliedIndex rc\<rparr>)))"

section \<open>One round of the event loop\<close>

record Ready =
  Snapshot_rd :: RaftSnapshot
  CommittedEntries :: "Entry list"

text \<open>The second component is false when the loop stops because the context is done.\<close>

definition handle_ready ::
    "raft_library \<Rightarrow> snapshot_store \<Rightarrow> (unit \<Rightarrow> bytes option) \<Rightarrow> bool \<Rightarrow> Ready \<Rightarrow> RaftNode \<Rightarrow> (RaftNode \<times> bool) exec" where
  "handle_ready lib st getSnapshot done rd rc =
     exec_bind (publishSnapshot (Snapshot_rd rd) rc) (\<lambda>rc.
     exec_bind (entriesToApply rc (CommittedEntries rd)) (\<lambda>ents.
     exec_bind (publishEntries lib done ents rc) (\<lambda>(rc, waits, ok).
       if \<not> ok then Ret (rc, False)
       else exec_bind (maybeTriggerSnapshot st getSnapshot (waits \<and> done) rc) (\<lambda>rc. Ret (rc, True)))))"

text \<open>A run of rounds, each with the choice of the context's branch.\<close>

primrec serve_rounds ::
    "raft_library \<Rightarrow> snapshot_store \<Rightarrow> (unit \<Rightarrow> bytes option) \<Rightarrow> (bool \<times> Ready) list \<Rightarrow> RaftNode \<Rightarrow> RaftNode exec" where
  "serve_rounds lib st getSnapshot [] rc = Ret rc"
| "serve_rounds lib st getSnapshot (r # rs) rc =
     exec_bind (handle_ready lib st getSnapshot (fst r) (snd r) rc) (\<lambda>(rc, go).
       if go then serve_rounds lib st getSnapshot rs rc else Ret rc)"

section \<open>The log\<close>

text \<open>The payloads of a run of entries that reach the commit channel.\<close>

definition normal_data :: "Entry list \<Rightarrow> bytes list" where
  "normal_data es = map Data (filter (\<lambda>e. Type e = EntryNormal \<and> Data e \<noteq> []) es)"

definition delivered :: "RaftNode \<Rightarrow> bytes list" where
  "delivered rc = concat (map (\<lambda>c. case c of None \<Rightarrow> [] | Some d \<Rightarrow> d) (CommitC rc))"

text \<open>Entry number \<open>i\<close> of the log (from zero) has index \<open>i + 1\<close>.\<close>

definition log_ok :: "Entry list \<Rightarrow> bool" where
  "log_ok lg \<longleftrightarrow> length lg < 2 ^ 64 - 1 \<and> (\<forall>i < length lg. Index (lg ! i) = word_of_nat (Suc i))"

text \<open>What was sent on the commit channel: the data one by one, \<open>None\<close> for a nil commit.\<close>

definition commits :: "RaftNode \<Rightarrow> bytes option list" where
  "commits rc = concat (map (\<lambda>c. case c of None \<Rightarrow> [None] | Some ds \<Rightarrow> map Some ds) (CommitC rc))"

text \<open>
  A node that starts at index \<open>s\<close> and has applied \<open>n\<close> entries may have jumped on its way: \<open>(a, b)\<close> stands
  for a snapshot of the first \<open>b\<close> entries installed when \<open>a\<close> entries were applied.  \<open>read_entries\<close> are the
  entries it has read, \<open>log_commits\<close> what it has to send for them.
\<close>

fun jumps_ok :: "nat \<Rightarrow> (nat \<times> nat) list \<Rightarrow> nat \<Rightarrow> bool" where
  "jumps_ok s [] n \<longleftrightarrow> s \<le> n"
| "jumps_ok s ((a, b) # js) n \<longleftrightarrow> s \<le> a \<and> a < b \<and> jumps_ok b js n"

fun read_entries :: "Entry list \<Rightarrow> nat \<Rightarrow> (nat \<times> nat) list \<Rightarrow> nat \<Rightarrow> Entry list" where
  "read_entries lg s [] n = take (n - s) (drop s lg)"
| "read_entries lg s ((a, b) # js) n = take (a - s) (drop s lg) @ read_entries lg b js n"

fun log_commits :: "Entry list \<Rightarrow> nat \<Rightarrow> (nat \<times> nat) list \<Rightarrow> nat \<Rightarrow> bytes option list" where
  "log_commits lg s [] n = map Some (normal_data (take (n - s) (drop s lg)))"
| "log_commits lg s ((a, b) # js) n = map Some (normal_data (take (a - s) (drop s lg))) @ None # log_commits lg b js n"

text \<open>What the node has done of the log.\<close>

definition applied_ok :: "Entry list \<Rightarrow> nat \<Rightarrow> (nat \<times> nat) list \<Rightarrow> RaftNode \<Rightarrow> bool" where
  "applied_ok lg s js rc \<longleftrightarrow> unat (appliedIndex rc) \<le> length lg \<and> jumps_ok s js (unat (appliedIndex rc))
     \<and> commits rc = log_commits lg s js (unat (appliedIndex rc))"

text \<open>Rounds of one log: batches are pieces of it, snapshots stand for a prefix of it.\<close>

definition rounds_of :: "Entry list \<Rightarrow> (bool \<times> Ready) list \<Rightarrow> bool" where
  "rounds_of lg rs \<longleftrightarrow> (\<forall>(d, rd) \<in> set rs. unat (Snap_Index (Snapshot_rd rd)) \<le> length lg
     \<and> (\<exists>i n. CommittedEntries rd = take n (drop i lg)))"

definition snapshots_of :: "(bool \<times> Ready) list \<Rightarrow> nat list" where
  "snapshots_of rs = filter (\<lambda>i. i \<noteq> 0) (map (\<lambda>(d, rd). unat (Snap_Index (Snapshot_rd rd))) rs)"

section \<open>A small log for the examples\<close>

definition example_entry :: "nat \<Rightarrow> Entry" where
  "example_entry i = \<lparr>Type = EntryNormal, Index = word_of_nat i, Data = [word_of_nat i]\<rparr>"

definition example_store :: snapshot_store where
  "example_store = \<lparr>create_snapshot = \<lambda>i. True, save_snap = \<lambda>i. True, compact = \<lambda>i. True\<rparr>"

definition example_lib :: raft_library where
  "example_lib = \<lparr>unmarshal_cc = \<lambda>b. None, apply_conf_change = \<lambda>s c. s\<rparr>"

definition example_ready :: "u64 \<Rightarrow> nat list \<Rightarrow> bool \<times> Ready" where
  "example_ready i ns = (False, \<lparr>Snapshot_rd = \<lparr>Snap_Index = i, Snap_ConfState = \<lparr>Voters = []\<rparr>\<rparr>,
     CommittedEntries = map example_entry ns\<rparr>)"

section \<open>Lemmas\<close>

lemma normal_data_append: "normal_data (xs @ ys) = normal_data xs @ normal_data ys"
  by (simp add: normal_data_def)

lemma jumps_ok_snoc: "jumps_ok s (js @ [(a, b)]) n \<longleftrightarrow> jumps_ok s js a \<and> a < b \<and> b \<le> n"
  by (induction s js a rule: jumps_ok.induct) auto

lemma jumps_ok_mono: "jumps_ok s js n \<Longrightarrow> n \<le> m \<Longrightarrow> jumps_ok s js m"
  by (induction s js n rule: jumps_ok.induct) auto

lemma jumps_ok_le: "jumps_ok s js n \<Longrightarrow> s \<le> n"
  by (induction s js n rule: jumps_ok.induct) auto

lemma log_commits_snoc: "log_commits lg s (js @ [(a, b)]) b = log_commits lg s js a @ [None]"
  by (induction lg s js a rule: log_commits.induct) (auto simp: normal_data_def)

lemma log_commits_extend:
  "jumps_ok s js n \<Longrightarrow> log_commits lg s js (n + m) = log_commits lg s js n @ map Some (normal_data (take m (drop n lg)))"
proof (induction lg s js n rule: log_commits.induct)
  case (1 lg s n)
  then have "take (n + m - s) (drop s lg) = take (n - s) (drop s lg) @ take m (drop n lg)"
    using take_add [of "n - s" m "drop s lg"] by simp
  then show ?case
    by (simp add: normal_data_append)
qed simp

lemma delivered_commits: "map Some (delivered rc) = filter (\<lambda>c. c \<noteq> None) (commits rc)"
proof -
  have "map Some (concat (map (\<lambda>c. case c of None \<Rightarrow> [] | Some d \<Rightarrow> d) cs))
      = filter (\<lambda>c. c \<noteq> None) (concat (map (\<lambda>c. case c of None \<Rightarrow> [None] | Some ds \<Rightarrow> map Some ds) cs))" for cs :: "bytes list option list"
    by (induction cs) (auto simp: filter_map comp_def split: option.splits)
  then show ?thesis
    by (simp add: delivered_def commits_def)
qed

lemma log_commits_data: "filter (\<lambda>c. c \<noteq> None) (log_commits lg s js n) = map Some (normal_data (read_entries lg s js n))"
  by (induction lg s js n rule: log_commits.induct) (simp_all add: normal_data_append filter_map comp_def)

lemma applied_delivered:
  assumes "applied_ok lg s js rc"
  shows "delivered rc = normal_data (read_entries lg s js (unat (appliedIndex rc)))"
proof -
  have "map Some (delivered rc) = map Some (normal_data (read_entries lg s js (unat (appliedIndex rc))))"
    using assms by (simp only: delivered_commits applied_ok_def log_commits_data)
  then show ?thesis
    by (simp add: inj_map_eq_map)
qed

lemma publish_loop_Ret:
  assumes "publish_loop lib ents rc data = Ret (rc', data')"
  shows "data' = data @ normal_data ents \<and> CommitC rc' = CommitC rc \<and> appliedIndex rc' = appliedIndex rc
    \<and> snapshotIndex rc' = snapshotIndex rc"
  using assms
proof (induction ents arbitrary: rc data)
  case (Cons e ents)
  then show ?case
    by (fastforce simp: normal_data_def split: EntryType.splits if_splits option.splits)
qed (simp add: normal_data_def)

lemma segment_hd:
  assumes "take n (drop i lg) = e # es"
  shows "i < length lg" "e = lg ! i"
proof -
  show i: "i < length lg"
    using assms by (cases "i < length lg") auto
  have "e = hd (take n (drop i lg))"
    using assms by simp
  then show "e = lg ! i"
    using assms i by (cases n) (simp_all add: hd_drop_conv_nth)
qed

lemma entriesToApply_segment:
  assumes "log_ok lg" "unat (appliedIndex rc) \<le> length lg" "take n (drop i lg) \<noteq> []"
  shows "entriesToApply rc (take n (drop i lg)) =
    (if unat (appliedIndex rc) < i
     then Fatal ''first index of committed entry should <= progress.appliedIndex+1''
     else Ret (take (n - (unat (appliedIndex rc) - i)) (drop (unat (appliedIndex rc)) lg)))"
proof -
  obtain e es where s: "take n (drop i lg) = e # es"
    using assms(3) by (cases "take n (drop i lg)") auto
  let ?a = "unat (appliedIndex rc)" and ?s = "take n (drop i lg)"
  let ?d = "appliedIndex rc - Index e + 1"
  note i = segment_hd [OF s]
  have lt: "length lg < 2 ^ 64 - 1" and f: "Index e = word_of_nat (Suc i)"
    using assms(1) i unfolding log_ok_def by auto
  have "unat (appliedIndex rc + 1) = Suc ?a"
    using lt assms(2) unat_word_of_nat64 [of "Suc ?a"] by (simp add: add.commute)
  then have gap: "appliedIndex rc + 1 < Index e \<longleftrightarrow> ?a < i"
    using f i(1) lt by (simp add: word_less_nat_alt unat_word_of_nat64 del: of_nat_Suc)
  show ?thesis
  proof (cases "?a < i")
    case True
    then show ?thesis
      using gap by (simp add: entriesToApply_def s)
  next
    case False
    then have "?d = word_of_nat (?a - i)"
      using f by (simp add: of_nat_diff)
    then have d: "unat ?d = ?a - i"
      using lt assms(2) by (simp add: unat_word_of_nat64)
    have l: "unat (word_of_nat (length ?s) :: u64) = length ?s"
      using lt by (intro unat_word_of_nat64) simp
    have "entriesToApply rc ?s = Ret (drop (?a - i) ?s)"
      using False d l gap unfolding entriesToApply_def s by (auto simp: Let_def word_less_nat_alt)
    also have "drop (?a - i) ?s = take (n - (?a - i)) (drop ?a lg)"
      using False by (simp add: drop_take)
    finally show ?thesis
      using False by simp
  qed
qed

lemma publishEntries_segment:
  assumes "log_ok lg" "applied_ok lg s js rc" "ents = take m (drop (unat (appliedIndex rc)) lg)"
    "publishEntries lib done ents rc = Ret (rc', w, True)"
  shows "applied_ok lg s js rc'"
proof (cases "ents = []")
  case True
  then have "rc' = rc"
    using assms(4) by (simp add: publishEntries_def)
  then show ?thesis
    using assms(2) by simp
next
  case False
  let ?a = "unat (appliedIndex rc)"
  obtain rc1 where p: "publish_loop lib ents rc [] = Ret (rc1, normal_data ents)"
    "CommitC rc1 = CommitC rc" "appliedIndex rc1 = appliedIndex rc"
    and rc': "appliedIndex rc' = Index (last ents)"
      "CommitC rc' = (if normal_data ents = [] then CommitC rc else CommitC rc @ [Some (normal_data ents)])"
    using assms(4) False by (fastforce simp: publishEntries_def Let_def split: if_splits dest: publish_loop_Ret)
  have len: "?a + length ents \<le> length lg" "0 < length ents"
    using assms(3) False by auto
  have "?a \<le> length lg"
    using len by simp
  then have "ents ! k = lg ! (?a + k)" if "k < length ents" for k
    using that assms(3) by simp
  then have "last ents = lg ! (?a + length ents - 1)"
    using len(2) by (simp add: last_conv_nth False Suc_leI)
  then have "appliedIndex rc' = word_of_nat (?a + length ents)"
    using assms(1) rc'(1) len unfolding log_ok_def by (simp del: of_nat_Suc of_nat_add)
  then have ix: "unat (appliedIndex rc') = ?a + length ents"
    using assms(1) len unfolding log_ok_def by (simp add: unat_word_of_nat64 del: of_nat_add)
  have "commits rc' = commits rc @ map Some (normal_data ents)"
    using rc'(2) by (simp add: commits_def)
  moreover have "ents = take (length ents) (drop ?a lg)"
    using assms(3) by (simp add: min_def)
  ultimately show ?thesis
    using assms(2) len ix log_commits_extend [of s js ?a lg "length ents"] jumps_ok_mono [of s js ?a "?a + length ents"]
    by (simp add: applied_ok_def)
qed

lemma publishEntries_stopped:
  assumes "publishEntries lib done ents rc = Ret (rc', w, False)" "applied_ok lg s js rc"
  shows "applied_ok lg s js rc'"
  using assms
  by (fastforce simp: publishEntries_def applied_ok_def commits_def Let_def split: if_splits dest: publish_loop_Ret)

lemma maybeTriggerSnapshot_applied:
  assumes "maybeTriggerSnapshot st gs done rc = Ret rc'"
  shows "applied_ok lg s js rc' = applied_ok lg s js rc"
  using assms by (auto simp: maybeTriggerSnapshot_def applied_ok_def commits_def split: if_splits option.splits)

text \<open>A snapshot is a jump from the applied index.\<close>

lemma publishSnapshot_applied:
  assumes "publishSnapshot snap rc = Ret rc'" "applied_ok lg s js rc" "unat (Snap_Index snap) \<le> length lg"
  shows "applied_ok lg s (js @ (if Snap_Index snap = 0 then [] else [(unat (appliedIndex rc), unat (Snap_Index snap))])) rc'"
proof (cases "Snap_Index snap = 0")
  case False
  then have a: "appliedIndex rc < Snap_Index snap" "appliedIndex rc' = Snap_Index snap" "commits rc' = commits rc @ [None]"
    using assms(1) by (auto simp: publishSnapshot_def commits_def split: if_splits)
  then have "unat (appliedIndex rc) < unat (Snap_Index snap)"
    by (simp add: word_less_nat_alt)
  then show ?thesis
    using assms(2,3) a(2,3) False by (simp add: applied_ok_def jumps_ok_snoc log_commits_snoc)
qed (use assms in \<open>simp add: publishSnapshot_def\<close>)

lemma handle_ready_applied:
  assumes "log_ok lg" "applied_ok lg s js rc" "unat (Snap_Index (Snapshot_rd rd)) \<le> length lg"
    "CommittedEntries rd = take n (drop i lg)" "handle_ready lib st gs done rd rc = Ret (rc', go)"
  shows "\<exists>a. applied_ok lg s (js @ (if Snap_Index (Snapshot_rd rd) = 0 then [] else [(a, unat (Snap_Index (Snapshot_rd rd)))])) rc'"
proof -
  obtain rc0 ents rc1 w ok where e: "publishSnapshot (Snapshot_rd rd) rc = Ret rc0"
      "entriesToApply rc0 (take n (drop i lg)) = Ret ents" "publishEntries lib done ents rc0 = Ret (rc1, w, ok)"
      "if ok then maybeTriggerSnapshot st gs (w \<and> done) rc1 = Ret rc' else rc' = rc1"
    using assms(4,5) by (fastforce simp: handle_ready_def split: if_splits)
  let ?js = "js @ (if Snap_Index (Snapshot_rd rd) = 0 then [] else [(unat (appliedIndex rc), unat (Snap_Index (Snapshot_rd rd)))])"
  have rc0: "applied_ok lg s ?js rc0"
    using publishSnapshot_applied [OF e(1) assms(2,3)] .
  have "\<exists>m. ents = take m (drop (unat (appliedIndex rc0)) lg)"
    using e(2) assms(1) rc0 entriesToApply_segment [of lg rc0 n i]
    by (cases "take n (drop i lg) = []")
      (auto simp: applied_ok_def entriesToApply_def split: if_splits intro: exI [of _ 0])
  then obtain m where m: "ents = take m (drop (unat (appliedIndex rc0)) lg)" ..
  have "applied_ok lg s ?js rc'"
  proof (cases ok)
    case True
    then show ?thesis
      using e(3,4) publishEntries_segment [OF assms(1) rc0 m, of lib "done" rc1 w]
        maybeTriggerSnapshot_applied [of st gs "w \<and> done" rc1 rc' lg s ?js] by simp
  next
    case False
    then show ?thesis
      using e(3,4) publishEntries_stopped [of lib "done" ents rc0 rc1 w lg s ?js] rc0 by simp
  qed
  then show ?thesis
    by blast
qed

lemma serve_rounds_applied:
  assumes "log_ok lg" "applied_ok lg s js rc" "rounds_of lg rs" "serve_rounds lib st gs rs rc = Ret rc'"
  shows "\<exists>js' k. applied_ok lg s (js @ js') rc' \<and> map snd js' = snapshots_of (take k rs)"
  using assms(2-)
proof (induction rs arbitrary: rc js)
  case Nil
  then show ?case
    by (intro exI [of _ "[]"]) (simp add: snapshots_of_def)
next
  case (Cons r rs)
  obtain d rd where r: "r = (d, rd)"
    by (cases r)
  let ?i = "Snap_Index (Snapshot_rd rd)"
  obtain rc1 go where h: "handle_ready lib st gs d rd rc = Ret (rc1, go)"
      "if go then serve_rounds lib st gs rs rc1 = Ret rc' else rc' = rc1"
    using Cons.prems(3) r by (fastforce split: if_splits)
  obtain j n where "CommittedEntries rd = take n (drop j lg)" "unat ?i \<le> length lg" "rounds_of lg rs"
    using Cons.prems(2) r by (auto simp: rounds_of_def)
  then obtain a where a: "applied_ok lg s (js @ (if ?i = 0 then [] else [(a, unat ?i)])) rc1"
    using handle_ready_applied [OF assms(1) Cons.prems(1) _ _ h(1)] by blast
  have one: "map snd (if ?i = 0 then [] else [(a, unat ?i)]) = snapshots_of [r]"
    using r by (simp add: snapshots_of_def unat_eq_zero)
  show ?case
  proof (cases go)
    case True
    then obtain js' k where "applied_ok lg s ((js @ (if ?i = 0 then [] else [(a, unat ?i)])) @ js') rc'" "map snd js' = snapshots_of (take k rs)"
      using Cons.IH [OF a \<open>rounds_of lg rs\<close>] h(2) by auto
    then show ?thesis
      using one by (intro exI [of _ "(if ?i = 0 then [] else [(a, unat ?i)]) @ js'"] exI [of _ "Suc k"]) (auto simp: snapshots_of_def)
  next
    case False
    then show ?thesis
      using a h(2) one by (intro exI [of _ "if ?i = 0 then [] else [(a, unat ?i)]"] exI [of _ 1]) (simp add: snapshots_of_def)
  qed
qed

lemma set_snapshots_take: "set (snapshots_of (take k rs)) \<subseteq> set (snapshots_of rs)"
  by (auto simp: snapshots_of_def dest: in_set_takeD)

lemma applied_ok_new: "unat s \<le> length lg \<Longrightarrow> applied_ok lg (unat s) [] (NewRaftNode nodeID conf s)"
  by (simp add: applied_ok_def NewRaftNode_def commits_def normal_data_def)

lemma example_log_ok:
  assumes "n < 2 ^ 64 - 1"
  shows "log_ok (map example_entry [1..<Suc n])"
  using assms by (simp add: log_ok_def example_entry_def del: upt_Suc of_nat_Suc)

section \<open>Properties\<close>

text \<open>
  C22: of a batch of committed entries taken anywhere from the log, the driver keeps exactly the
  entries after the applied index, and stops the process exactly when the batch would leave
  a gap; the unsigned subtraction on indices never goes wrong.
\<close>

theorem entriesToApply_correct:
  assumes "log_ok lg" "unat (appliedIndex rc) \<le> length lg" "take n (drop i lg) \<noteq> []"
  shows "entriesToApply rc (take n (drop i lg)) =
    (if unat (appliedIndex rc) < i
     then Fatal ''first index of committed entry should <= progress.appliedIndex+1''
     else Ret (take (n - (unat (appliedIndex rc) - i)) (drop (unat (appliedIndex rc)) lg)))"
  using assms by (rule entriesToApply_segment)

theorem entriesToApply_correct_witness:
  "entriesToApply (NewRaftNode 1 \<lparr>Voters = [1]\<rparr> 2) (map example_entry [1, 2, 3, 4]) =
     Ret (map example_entry [3, 4])"
proof -
  let ?lg = "map example_entry [1, 2, 3, 4]" and ?rc = "NewRaftNode 1 \<lparr>Voters = [1]\<rparr> 2"
  have u: "[1..<Suc 4] = [1, 2, 3, 4]"
    by code_simp
  have lg: "log_ok ?lg"
    using example_log_ok [of 4] unfolding u by simp
  have a: "unat (appliedIndex ?rc) = 2"
    by code_simp
  show ?thesis
    using entriesToApply_correct [OF lg, of ?rc 4 0] unfolding a by simp
qed

text \<open>
  C1: A node started at index \<open>s\<close> is handed any sequence of rounds of one log, whose batches may overlap
  or repeat and which may carry snapshots.  What it sends on the commit channel is then exactly the data
  of the log from \<open>s\<close> up to the applied index, every entry once and in order, except where a snapshot was
  installed: there a nil commit is sent, and the entries from the index applied so far to the index of
  the snapshot are skipped.  Without a snapshot nothing is skipped.
\<close>

theorem serve_rounds_exactly_once:
  assumes "log_ok lg" "rounds_of lg rs" "unat s \<le> length lg"
    "serve_rounds lib st getSnapshot rs (NewRaftNode nodeID conf s) = Ret rc"
  shows "\<exists>js k. unat (appliedIndex rc) \<le> length lg \<and> jumps_ok (unat s) js (unat (appliedIndex rc))
    \<and> map snd js = snapshots_of (take k rs) \<and> commits rc = log_commits lg (unat s) js (unat (appliedIndex rc))
    \<and> delivered rc = normal_data (read_entries lg (unat s) js (unat (appliedIndex rc)))
    \<and> (snapshots_of rs = [] \<longrightarrow> delivered rc = normal_data (take (unat (appliedIndex rc) - unat s) (drop (unat s) lg)))"
proof -
  obtain js k where a: "applied_ok lg (unat s) js rc" "map snd js = snapshots_of (take k rs)"
    using serve_rounds_applied [OF assms(1) applied_ok_new [OF assms(3)] assms(2,4)] by auto
  have "js = []" if "snapshots_of rs = []"
    using that a(2) set_snapshots_take [of k rs] by simp
  then show ?thesis
    using a applied_delivered [OF a(1)] by (intro exI [of _ js] exI [of _ k]) (auto simp: applied_ok_def)
qed

theorem serve_rounds_exactly_once_witness:
  "\<exists>rc js. serve_rounds example_lib example_store (\<lambda>u. Some []) [example_ready 0 [1, 2], example_ready 0 [2, 3], example_ready 5 [4, 5, 6]]
      (NewRaftNode 1 \<lparr>Voters = [1]\<rparr> 0) = Ret rc
    \<and> delivered rc = normal_data (read_entries (map example_entry [1, 2, 3, 4, 5, 6]) 0 js 6) \<and> set (map snd js) \<subseteq> {5}
    \<and> commits rc = [Some [1], Some [2], Some [3], None, Some [6]]"
proof -
  let ?lg = "map example_entry [1, 2, 3, 4, 5, 6]" and ?rs = "[example_ready 0 [1, 2], example_ready 0 [2, 3], example_ready 5 [4, 5, 6]]"
  let ?run = "serve_rounds example_lib example_store (\<lambda>u. Some []) ?rs (NewRaftNode 1 \<lparr>Voters = [1]\<rparr> 0)"
  have u: "[1..<Suc 6] = [1, 2, 3, 4, 5, 6]"
    by code_simp
  have lg: "log_ok ?lg"
    using example_log_ok [of 6] unfolding u by simp
  have "\<exists>i n. map example_entry [1, 2] = take n (drop i ?lg)"
    by (rule exI [of _ 0], rule exI [of _ 2]) simp
  moreover have "\<exists>i n. map example_entry [2, 3] = take n (drop i ?lg)"
    by (rule exI [of _ 1], rule exI [of _ 2]) simp
  moreover have "\<exists>i n. map example_entry [4, 5, 6] = take n (drop i ?lg)"
    by (rule exI [of _ 3], rule exI [of _ 3]) simp
  ultimately have rs: "rounds_of ?lg ?rs"
    unfolding rounds_of_def example_ready_def by (simp del: list.map)
  have "case ?run of Ret rc \<Rightarrow> unat (appliedIndex rc) = 6 \<and> commits rc = [Some [1], Some [2], Some [3], None, Some [6]] | _ \<Rightarrow> False"
    by code_simp
  then obtain rc where rc: "?run = Ret rc" "unat (appliedIndex rc) = 6" "commits rc = [Some [1], Some [2], Some [3], None, Some [6]]"
    by (auto split: exec.splits)
  obtain js k where js: "map snd js = snapshots_of (take k ?rs)" "delivered rc = normal_data (read_entries ?lg (unat (0 :: u64)) js 6)"
    using serve_rounds_exactly_once [OF lg rs _ rc(1)] unfolding rc(2) by auto
  have "set (snapshots_of (take k ?rs)) \<subseteq> set (snapshots_of ?rs)"
    by (rule set_snapshots_take)
  moreover have "snapshots_of ?rs = [5]"
    by code_simp
  ultimately have "set (map snd js) \<subseteq> {5}"
    unfolding js(1) by simp
  then show ?thesis
    using rc js(2) by (intro exI [of _ rc] exI [of _ js]) simp
qed

text \<open>
  C23: A snapshot is taken exactly when more than the configured number of entries was applied since the
  last one.  Then one snapshot is saved at the applied index and the log is compacted once, strictly
  after the last snapshot and not beyond the applied index, so a storage that accepts such a compaction
  never makes the driver panic.  Otherwise nothing changes, and in both cases the applied index is within
  the bound of the snapshot index afterwards.
\<close>

theorem maybeTriggerSnapshot_correct:
  assumes "snapshotIndex rc \<le> appliedIndex rc" "snapCount rc = defaultSnapshotCount"
    "getSnapshot () = Some data" "create_snapshot st (appliedIndex rc)" "save_snap st (appliedIndex rc)"
    "\<forall>i. snapshotIndex rc < i \<and> i \<le> appliedIndex rc \<longrightarrow> compact st i"
  shows "\<exists>rc'. maybeTriggerSnapshot st getSnapshot False rc = Ret rc'
    \<and> snapshotIndex rc' \<le> appliedIndex rc' \<and> appliedIndex rc' - snapshotIndex rc' \<le> defaultSnapshotCount
    \<and> (if defaultSnapshotCount < appliedIndex rc - snapshotIndex rc
       then \<exists>i. snapshotIndex rc < i \<and> i \<le> appliedIndex rc
              \<and> rc' = rc\<lparr>saved_snapshots := saved_snapshots rc @ [(appliedIndex rc, data)],
                        compactions := compactions rc @ [i], snapshotIndex := appliedIndex rc\<rparr>
       else rc' = rc)"
proof (cases "appliedIndex rc - snapshotIndex rc \<le> snapCount rc")
  case True
  then show ?thesis
    using assms(1,2) by (auto simp: maybeTriggerSnapshot_def not_less)
next
  case False
  let ?a = "appliedIndex rc" and ?s = "snapshotIndex rc"
  have sub: "unat (?a - ?s) = unat ?a - unat ?s"
    using assms(1) by (rule unat_sub)
  have "2000 < unat (?a - ?s)"
    using False assms(2) by (simp add: defaultSnapshotCount_def word_le_nat_alt not_le)
  then have a: "unat ?s + 2000 < unat ?a"
    using sub by simp
  then have "(2000 :: u64) \<le> ?a"
    by (simp add: word_le_nat_alt)
  then have "unat (?a - 2000) = unat ?a - 2000"
    using unat_sub [of 2000 ?a] by simp
  then have "?s < ?a - 2000" "?a - 2000 \<le> ?a" "2000 < ?a"
    using a by (simp_all add: word_less_nat_alt word_le_nat_alt)
  then have c: "?s < compact_index rc" "compact_index rc \<le> ?a"
    by (simp_all add: compact_index_def snapshotCatchUpEntriesN_def)
  then have "maybeTriggerSnapshot st getSnapshot False rc = Ret (rc\<lparr>saved_snapshots := saved_snapshots rc @ [(?a, data)],
      compactions := compactions rc @ [compact_index rc], snapshotIndex := ?a\<rparr>)"
    using assms(3-6) False by (simp add: maybeTriggerSnapshot_def)
  then show ?thesis
    using c False assms(2) by (auto simp: not_le)
qed

theorem maybeTriggerSnapshot_correct_witness:
  "\<exists>rc' i. maybeTriggerSnapshot example_store (\<lambda>u. Some [7]) False
      ((NewRaftNode 1 \<lparr>Voters = [1]\<rparr> 0)\<lparr>appliedIndex := 3000\<rparr>) = Ret rc'
    \<and> saved_snapshots rc' = [(3000, [7])] \<and> compactions rc' = [i] \<and> 0 < i \<and> i \<le> 3000"
proof -
  let ?rc = "(NewRaftNode 1 \<lparr>Voters = [1]\<rparr> 0)\<lparr>appliedIndex := 3000\<rparr>"
  have "snapshotIndex ?rc = 0" "snapCount ?rc = defaultSnapshotCount" "defaultSnapshotCount < appliedIndex ?rc - snapshotIndex ?rc"
      "saved_snapshots ?rc = []" "compactions ?rc = []" "appliedIndex ?rc = 3000"
    by (simp_all add: NewRaftNode_def defaultSnapshotCount_def)
  then show ?thesis
    using maybeTriggerSnapshot_correct [of ?rc "\<lambda>u. Some [7]" "[7]" example_store] by (auto simp: example_store_def)
qed

end
