(* ===== verification/Alaya_Raft.thy ===== *)
theory Alaya_Raft
  imports Pipelines Meta_Storage Raft_Node
begin

text \<open>
  The raft group of one placement group (\<^verbatim>\<open>edge-node/alaya/alaya_raft.go\<close>): committed
  metadata operations are applied to the storage of the group, configuration changes carry
  the pipeline they belong to, and the leader drives the voters towards the pipeline.  The
  message encodings are generated code of the repository used only as a pair of inverse
  functions; they are the parameter \<open>codec\<close>.  Decoding gives what it leaves in the message, since its
  errors are only logged; \<open>None\<close> is an operation that is left without metadata.  What the raft library reports about itself
  (leader, voters, and the configuration the driver saved) are fields of the state, changed by
  the library's own steps.
\<close>

section \<open>State\<close>

record codec =
  marshal_op :: "MetaOperate \<Rightarrow> bytes"
  unmarshal_op :: "bytes \<Rightarrow> MetaOperate option"
  marshal_pipeline :: "Pipeline \<Rightarrow> bytes"
  unmarshal_pipeline :: "bytes \<Rightarrow> Pipeline"

record AlayaRaft =
  pgID :: u64
  raft_ID :: u64
  peers :: "u64 list"
  metaStorage :: MemoryMetaStorage
  registered :: "u64 list"
  triggered :: "u64 list"
  pipeline :: Pipeline
  Lead :: u64
  Voters_ar :: "u64 list"
  conf_voters :: "u64 list"
  stopping :: bool

definition NewAlayaRaft :: "u64 \<Rightarrow> Pipeline \<Rightarrow> Pipeline option \<Rightarrow> MemoryMetaStorage \<Rightarrow> AlayaRaft" where
  "NewAlayaRaft raftID nowPipe oldP storage =
     (let ps = (case oldP of Some p \<Rightarrow> RaftIds p | None \<Rightarrow> RaftIds nowPipe)
      in \<lparr>pgID = PgId_p nowPipe, raft_ID = raftID, peers = ps, metaStorage = storage, registered = [],
          triggered = [], pipeline = nowPipe, Lead = 0, Voters_ar = ps,
          conf_voters = [], stopping = False\<rparr>)"

section \<open>Applying the log\<close>

text \<open>\<^verbatim>\<open>w.IsRegistered\<close> and \<^verbatim>\<open>w.Trigger\<close>: the waiter is released and forgotten.\<close>

definition trigger :: "u64 \<Rightarrow> AlayaRaft \<Rightarrow> AlayaRaft" where
  "trigger i r =
     (if i \<in> set (registered r)
      then r\<lparr>registered := removeAll i (registered r), triggered := triggered r @ [i]\<rparr> else r)"

definition apply_meta_operate :: "MetaOperate \<Rightarrow> AlayaRaft \<Rightarrow> AlayaRaft" where
  "apply_meta_operate op r = trigger (OperateId op) (r\<lparr>metaStorage := apply_operate op (metaStorage r)\<rparr>)"

text \<open>
  \<open>unmarshal_op\<close> is what decoding leaves in the message, completely or only partly decoded (the
  error is logged), and \<open>None\<close> when that is a PUT or DELETE without metadata: its object id is
  read, which panics.
\<close>

primrec apply_payloads :: "codec \<Rightarrow> bytes list \<Rightarrow> AlayaRaft \<Rightarrow> AlayaRaft exec" where
  "apply_payloads codec [] r = Ret r"
| "apply_payloads codec (d # ds) r =
     (case unmarshal_op codec d of
        None \<Rightarrow> Panic ''nil pointer dereference''
      | Some op \<Rightarrow> apply_payloads codec ds (apply_meta_operate op r))"

text \<open>One value of the commit channel; \<open>snapshot\<close> is what \<^verbatim>\<open>loadSnapshot\<close> finds on disk.\<close>

definition readCommit :: "codec \<Rightarrow> bytes option \<Rightarrow> bytes list option \<Rightarrow> AlayaRaft \<Rightarrow> AlayaRaft exec" where
  "readCommit codec snapshot commit r =
     (case commit of
        None \<Rightarrow>
          (case snapshot of
             None \<Rightarrow> Ret r
           | Some data \<Rightarrow> Ret (r\<lparr>metaStorage := RecoverFromSnapshot data (metaStorage r)\<rparr>))
      | Some ds \<Rightarrow> apply_payloads codec ds r)"

primrec readCommits :: "codec \<Rightarrow> bytes option \<Rightarrow> bytes list option list \<Rightarrow> AlayaRaft \<Rightarrow> AlayaRaft exec" where
  "readCommits codec snapshot [] r = Ret r"
| "readCommits codec snapshot (c # cs) r =
     exec_bind (readCommit codec snapshot c r) (readCommits codec snapshot cs)"

text \<open>
  A proposal registers its fresh number and waits until the log reaches it; \<open>before\<close> are
  the operations the group commits ahead of it.
\<close>

definition ProposeObjectMetaOperate ::
    "codec \<Rightarrow> u64 \<Rightarrow> MetaOperate list \<Rightarrow> MetaOperate \<Rightarrow> AlayaRaft \<Rightarrow> AlayaRaft exec" where
  "ProposeObjectMetaOperate codec opID before operate r =
     (let operate = operate\<lparr>OperateId := opID\<rparr>;
          r = r\<lparr>registered := opID # registered r\<rparr>
      in exec_bind (apply_payloads codec (map (marshal_op codec) (before @ [operate])) r) (\<lambda>r.
           if opID \<in> set (registered r) then exec.Blocks ''waiting for the operation to be applied'' else Ret r))"

section \<open>The pipeline of the group\<close>

definition getPipeline :: "AlayaRaft \<Rightarrow> Pipeline" where
  "getPipeline r = pipeline r"

definition setPipeline :: "Pipeline \<Rightarrow> AlayaRaft \<Rightarrow> AlayaRaft" where
  "setPipeline p r = (if ClusterTerm (pipeline r) < ClusterTerm p then r\<lparr>pipeline := p\<rparr> else r)"

definition ProposeNewPipeline :: "Pipeline \<Rightarrow> AlayaRaft \<Rightarrow> AlayaRaft" where
  "ProposeNewPipeline newP r = setPipeline newP r"

definition zero_pipeline :: Pipeline where
  "zero_pipeline = \<lparr>PgId_p = 0, RaftIds = [], SyncType_p = RAFT, ClusterTerm = 0\<rparr>"

definition Stop :: "AlayaRaft \<Rightarrow> AlayaRaft" where
  "Stop r = r\<lparr>stopping := True\<rparr>"

definition CheckConfChange :: "codec \<Rightarrow> ConfChange \<Rightarrow> AlayaRaft \<Rightarrow> AlayaRaft" where
  "CheckConfChange codec change r =
     (let p = unmarshal_pipeline codec (Context change);
          r1 = setPipeline p r;
          finish = (\<lambda>r. if NodeID change \<noteq> raft_ID r then r
                       else if Type_cc change = ConfChangeRemoveNode then Stop r else r)
      in if 0 < length (Context change) then
           (if ClusterTerm p < ClusterTerm (pipeline r1) then r1
            else finish (trigger (NodeID change) r1))
         else finish r)"

section \<open>The control loop of the leader\<close>

definition isLeader :: "AlayaRaft \<Rightarrow> bool" where
  "isLeader r \<longleftrightarrow> Lead r = raft_ID r"

definition GetVotersID :: "AlayaRaft \<Rightarrow> u64 list" where
  "GetVotersID r = Voters_ar r"

definition findVoter :: "u64 \<Rightarrow> AlayaRaft \<Rightarrow> bool" where
  "findVoter i r \<longleftrightarrow> i \<in> set (GetVotersID r)"

definition calDiff :: "u64 list \<Rightarrow> u64 list \<Rightarrow> u64 list \<times> u64 list" where
  "calDiff a b = (remdups (filter (\<lambda>n. n \<notin> set b) a), remdups (filter (\<lambda>n. n \<notin> set a) b))"

definition conf_change :: "codec \<Rightarrow> AlayaRaft \<Rightarrow> ConfChangeType \<Rightarrow> u64 \<Rightarrow> ConfChange" where
  "conf_change codec r t i =
     \<lparr>Type_cc = t, NodeID = i, Context = marshal_pipeline codec (getPipeline r)\<rparr>"

text \<open>
  The changes proposed, in order; a node that is a voter already is not added again.  Every proposal is
  repeated until the voters reported by the library show it: \<open>tries i\<close> is the number of further proposals
  for node \<open>i\<close>.  A node that is being stopped removes nobody; it proposes its own removal once.
\<close>

definition ProposeNewNodes :: "codec \<Rightarrow> (u64 \<Rightarrow> nat) \<Rightarrow> u64 list \<Rightarrow> AlayaRaft \<Rightarrow> ConfChange list" where
  "ProposeNewNodes codec tries nodeIDs r =
     concat (map (\<lambda>i. replicate (Suc (tries i)) (conf_change codec r ConfChangeAddNode i)) (filter (\<lambda>i. \<not> findVoter i r) nodeIDs))"

definition ProposeRemoveNodes :: "codec \<Rightarrow> (u64 \<Rightarrow> nat) \<Rightarrow> u64 list \<Rightarrow> AlayaRaft \<Rightarrow> ConfChange list" where
  "ProposeRemoveNodes codec tries nodeIDs r =
     (if stopping r then []
      else concat (map (\<lambda>i. replicate (Suc (tries i)) (conf_change codec r ConfChangeRemoveNode i)) (filter (\<lambda>i. i \<noteq> raft_ID r) nodeIDs))
        @ (if raft_ID r \<in> set nodeIDs then [conf_change codec r ConfChangeRemoveNode (raft_ID r)] else []))"

text \<open>One turn of the control loop: the configuration changes it proposes.\<close>

definition controlLoop :: "codec \<Rightarrow> (u64 \<Rightarrow> nat) \<Rightarrow> AlayaRaft \<Rightarrow> ConfChange list" where
  "controlLoop codec tries r =
     (if \<not> isLeader r then []
      else let (needAdd, needRemove) = calDiff (RaftIds (getPipeline r)) (conf_voters r)
           in ProposeNewNodes codec tries needAdd r @ ProposeRemoveNodes codec tries needRemove r)"

definition pipelineReady :: "AlayaRaft \<Rightarrow> bool" where
  "pipelineReady r \<longleftrightarrow> (\<forall>i \<in> set (RaftIds (pipeline r)). i \<in> set (GetVotersID r))"

text \<open>The guard of \<^verbatim>\<open>RunAskForLeader\<close>: whether the node asks for the leadership this turn.\<close>

definition asksForLeader :: "AlayaRaft \<Rightarrow> bool exec" where
  "asksForLeader r =
     (if Lead r = 0 \<or> Lead r = raft_ID r then Ret False
      else case RaftIds (getPipeline r) of
        [] \<Rightarrow> Panic ''index out of range''
      | first # _ \<Rightarrow> Ret (\<not> (raft_ID r \<noteq> first \<or> \<not> pipelineReady r)))"

section \<open>The group as a state machine\<close>

text \<open>
  The steps that change the group: a commit is read, a pipeline is proposed by the node, a
  configuration change is reported, or the raft library elects a leader or changes the voters.
\<close>

inductive group_step :: "codec \<Rightarrow> AlayaRaft \<Rightarrow> AlayaRaft \<Rightarrow> bool" for codec where
  commit: "readCommit codec snapshot c r = Ret r' \<Longrightarrow> group_step codec r r'"
| propose: "group_step codec r (ProposeNewPipeline p r)"
| conf: "group_step codec r (CheckConfChange codec cc r)"
| elect: "group_step codec r (r\<lparr>Lead := l\<rparr>)"
| voters: "group_step codec r (r\<lparr>Voters_ar := vs\<rparr>)"
| config: "group_step codec r (r\<lparr>conf_voters := vs\<rparr>)"

inductive_cases group_stepE: "group_step codec r r'"

section \<open>Contracts of the parameters\<close>

definition codec_ok :: "codec \<Rightarrow> MetaOperate list \<Rightarrow> bool" where
  "codec_ok codec ops \<longleftrightarrow> (\<forall>op \<in> set ops. unmarshal_op codec (marshal_op codec op) = Some op)"

text \<open>What the raft library documents of a configuration change: it adds or removes one voter.\<close>

definition conf_lib_ok :: "raft_library \<Rightarrow> bool" where
  "conf_lib_ok lib \<longleftrightarrow> (\<forall>s cc.
     (Type_cc cc = ConfChangeAddNode \<longrightarrow>
        set (Voters (apply_conf_change lib s cc)) = insert (NodeID cc) (set (Voters s)))
     \<and> (Type_cc cc = ConfChangeRemoveNode \<longrightarrow>
        set (Voters (apply_conf_change lib s cc)) = set (Voters s) - {NodeID cc}))"

definition set_lib :: raft_library where
  "set_lib = \<lparr>unmarshal_cc = \<lambda>b. None,
     apply_conf_change = \<lambda>s cc. case Type_cc cc of
        ConfChangeAddNode \<Rightarrow> s\<lparr>Voters := NodeID cc # Voters s\<rparr>
      | ConfChangeRemoveNode \<Rightarrow> s\<lparr>Voters := removeAll (NodeID cc) (Voters s)\<rparr>
      | _ \<Rightarrow> s\<rparr>"


section \<open>Examples\<close>

definition example_meta :: "string \<Rightarrow> u64 \<Rightarrow> ObjectMeta" where
  "example_meta objID pg = \<lparr>ObjId = objID, Status = STATUS_OK, Position = POSITION_EDGE, ObjSize = 0,
     UpdateTime = None, ObjHash = [], PgId = pg, Blocks = [], Term_m = 7\<rparr>"

definition example_op :: MetaOperate where
  "example_op = \<lparr>OperateId = 9, Operate = PUT, Meta = example_meta ''root/default/1/a'' 1\<rparr>"

text \<open>An encoding that is right on the example operation.\<close>

definition example_codec :: codec where
  "example_codec = \<lparr>marshal_op = \<lambda>op. [word_of_nat (unat (OperateId op))],
     unmarshal_op = \<lambda>b. if b = [9] then Some example_op else None,
     marshal_pipeline = \<lambda>p. [0], unmarshal_pipeline = \<lambda>b. zero_pipeline\<rparr>"

definition example_pipeline :: Pipeline where
  "example_pipeline = \<lparr>PgId_p = 1, RaftIds = [1, 2], SyncType_p = RAFT, ClusterTerm = 7\<rparr>"

section \<open>Lemmas\<close>

lemma trigger_fields [simp]:
  "metaStorage (trigger i r) = metaStorage r" "pipeline (trigger i r) = pipeline r"
  "raft_ID (trigger i r) = raft_ID r" "pgID (trigger i r) = pgID r"
  by (simp_all add: trigger_def)

lemma apply_meta_operate_fields [simp]:
  "metaStorage (apply_meta_operate op r) = apply_operate op (metaStorage r)"
  "pipeline (apply_meta_operate op r) = pipeline r" "raft_ID (apply_meta_operate op r) = raft_ID r"
  "pgID (apply_meta_operate op r) = pgID r"
  by (simp_all add: apply_meta_operate_def)

lemma fold_apply_fields [simp]:
  "metaStorage (fold apply_meta_operate ops r) = fold apply_operate ops (metaStorage r)"
  "pipeline (fold apply_meta_operate ops r) = pipeline r" "raft_ID (fold apply_meta_operate ops r) = raft_ID r"
  "pgID (fold apply_meta_operate ops r) = pgID r"
  by (induction ops arbitrary: r) simp_all

lemma apply_payloads_Ret:
  "apply_payloads codec ds r = Ret r' \<longleftrightarrow>
     (\<exists>ops. map (unmarshal_op codec) ds = map Some ops \<and> r' = fold apply_meta_operate ops r)"
proof (induction ds arbitrary: r)
  case (Cons d ds)
  then show ?case
    by (cases "unmarshal_op codec d") (auto simp: Cons_eq_map_conv)
qed auto

lemma apply_payloads_marshal:
  "codec_ok codec ops \<Longrightarrow> apply_payloads codec (map (marshal_op codec) ops) r = Ret (fold apply_meta_operate ops r)"
  unfolding apply_payloads_Ret codec_ok_def by (intro exI [of _ ops]) auto

lemma ProposeObjectMetaOperate_Ret:
  assumes "codec_ok codec (before @ [operate\<lparr>OperateId := opID\<rparr>])"
  shows "ProposeObjectMetaOperate codec opID before operate r =
    Ret (fold apply_meta_operate (before @ [operate\<lparr>OperateId := opID\<rparr>]) (r\<lparr>registered := opID # registered r\<rparr>))"
  using apply_payloads_marshal [OF assms]
  by (simp add: ProposeObjectMetaOperate_def Let_def apply_meta_operate_def trigger_def)

lemma readCommit_Ret:
  assumes "readCommit codec snapshot c r = Ret r'"
  shows "\<exists>ops. map (unmarshal_op codec) (case c of None \<Rightarrow> [] | Some d \<Rightarrow> d) = map Some ops
    \<and> r' = fold apply_meta_operate ops r"
  using assms
  by (auto simp: readCommit_def apply_payloads_Ret RecoverFromSnapshot_def split: option.splits)

lemma readCommits_Ret:
  assumes "readCommits codec snapshot cs r = Ret r'"
  shows "\<exists>ops. map (unmarshal_op codec) (concat (map (\<lambda>c. case c of None \<Rightarrow> [] | Some d \<Rightarrow> d) cs)) = map Some ops
    \<and> r' = fold apply_meta_operate ops r"
  using assms
proof (induction cs arbitrary: r)
  case (Cons c cs)
  then obtain r1 where r1: "readCommit codec snapshot c r = Ret r1" "readCommits codec snapshot cs r1 = Ret r'"
    by auto
  obtain ops1 where o1: "map (unmarshal_op codec) (case c of None \<Rightarrow> [] | Some d \<Rightarrow> d) = map Some ops1"
      "r1 = fold apply_meta_operate ops1 r"
    using readCommit_Ret [OF r1(1)] by blast
  obtain ops2 where o2: "map (unmarshal_op codec) (concat (map (\<lambda>c. case c of None \<Rightarrow> [] | Some d \<Rightarrow> d) cs)) = map Some ops2"
      "r' = fold apply_meta_operate ops2 r1"
    using Cons.IH [OF r1(2)] by blast
  show ?case
    using o1 o2 by (intro exI [of _ "ops1 @ ops2"]) simp
qed simp

lemma setPipeline_term: "ClusterTerm (pipeline (setPipeline p r)) = max (ClusterTerm (pipeline r)) (ClusterTerm p)"
  by (auto simp: setPipeline_def max_def)

lemma setPipeline_fields [simp]:
  "metaStorage (setPipeline p r) = metaStorage r" "raft_ID (setPipeline p r) = raft_ID r"
  "pgID (setPipeline p r) = pgID r"
  by (simp_all add: setPipeline_def)

lemma CheckConfChange_fields:
  "metaStorage (CheckConfChange codec cc r) = metaStorage r" "raft_ID (CheckConfChange codec cc r) = raft_ID r"
  "pgID (CheckConfChange codec cc r) = pgID r"
  "ClusterTerm (pipeline r) \<le> ClusterTerm (pipeline (CheckConfChange codec cc r))"
  by (simp_all add: CheckConfChange_def Stop_def setPipeline_term Let_def)

lemma group_step_inv:
  assumes "group_step codec r r'"
  shows "ClusterTerm (pipeline r) \<le> ClusterTerm (pipeline r') \<and> raft_ID r' = raft_ID r \<and> pgID r' = pgID r
    \<and> (meta_ok (metaStorage r) \<longrightarrow> meta_ok (metaStorage r'))"
  using assms
  by (elim group_stepE)
    (auto dest!: readCommit_Ret simp: mms.ok_log CheckConfChange_fields ProposeNewPipeline_def setPipeline_term)

lemma calDiff_sets:
  assumes "calDiff a b = (da, db)"
  shows "set da = set a - set b" "set db = set b - set a" "distinct da" "distinct db"
  using assms by (auto simp: calDiff_def)

lemma voters_after_adds:
  assumes "conf_lib_ok lib"
  shows "set (Voters (fold (\<lambda>cc s. apply_conf_change lib s cc) (map (conf_change codec r ConfChangeAddNode) ns) s))
    = set (Voters s) \<union> set ns"
  using assms by (induction ns arbitrary: s) (auto simp: conf_lib_ok_def conf_change_def)

lemma voters_after_removes:
  assumes "conf_lib_ok lib"
  shows "set (Voters (fold (\<lambda>cc s. apply_conf_change lib s cc) (map (conf_change codec r ConfChangeRemoveNode) ns) s))
    = set (Voters s) - set ns"
  using assms by (induction ns arbitrary: s) (auto simp: conf_lib_ok_def conf_change_def)

lemma concat_replicate_map: "concat (map (\<lambda>i. replicate (f i) (g i)) is) = map g (concat (map (\<lambda>i. replicate (f i) i) is))"
  by (induction "is") (simp_all add: map_replicate_const)

lemma set_tries: "set (concat (map (\<lambda>i. replicate (Suc (f i)) i) is)) = set is"
  by (simp del: replicate_Suc)

lemma ProposeNewNodes_map:
  "\<exists>ns. ProposeNewNodes codec tries nodeIDs r = map (conf_change codec r ConfChangeAddNode) ns \<and> set ns = {i \<in> set nodeIDs. \<not> findVoter i r}"
proof (intro exI conjI)
  let ?ns = "concat (map (\<lambda>i. replicate (Suc (tries i)) i) (filter (\<lambda>i. \<not> findVoter i r) nodeIDs))"
  show "ProposeNewNodes codec tries nodeIDs r = map (conf_change codec r ConfChangeAddNode) ?ns"
    unfolding ProposeNewNodes_def by (rule concat_replicate_map)
  show "set ?ns = {i \<in> set nodeIDs. \<not> findVoter i r}"
    unfolding set_tries by auto
qed

lemma ProposeRemoveNodes_map:
  assumes "\<not> stopping r"
  shows "\<exists>ns. ProposeRemoveNodes codec tries nodeIDs r = map (conf_change codec r ConfChangeRemoveNode) ns
     \<and> set ns = set nodeIDs \<and> raft_ID r \<notin> set (butlast ns)"
proof -
  define ns where "ns = concat (map (\<lambda>i. replicate (Suc (tries i)) i) (filter (\<lambda>i. i \<noteq> raft_ID r) nodeIDs))"
  have s: "set ns = set nodeIDs - {raft_ID r}"
    unfolding ns_def set_tries by auto
  have "ProposeRemoveNodes codec tries nodeIDs r = map (conf_change codec r ConfChangeRemoveNode) ns
      @ (if raft_ID r \<in> set nodeIDs then [conf_change codec r ConfChangeRemoveNode (raft_ID r)] else [])"
    using assms concat_replicate_map [of "\<lambda>i. Suc (tries i)" "conf_change codec r ConfChangeRemoveNode"]
    unfolding ProposeRemoveNodes_def ns_def by metis
  then show ?thesis
    using s by (intro exI [of _ "ns @ (if raft_ID r \<in> set nodeIDs then [raft_ID r] else [])"])
      (auto simp: butlast_append dest: in_set_butlastD)
qed

text \<open>The storage of a replica that has read everything the driver sent.\<close>

lemma replica_storage:
  assumes "applied_ok lg s js rc" "readCommits codec snapshot (CommitC rc) (NewAlayaRaft raftID p oldP NewMemoryMetaStorage) = Ret r"
  shows "\<exists>ops. map Some ops = map (unmarshal_op codec) (normal_data (read_entries lg s js (unat (appliedIndex rc))))
    \<and> meta_ok (metaStorage r) \<and> meta_lookup (metaStorage r) = fold spec_operate ops Map.empty"
proof -
  obtain ops where ops: "map (unmarshal_op codec) (delivered rc) = map Some ops"
      "metaStorage r = fold apply_operate ops NewMemoryMetaStorage"
    using readCommits_Ret [OF assms(2)] by (auto simp: delivered_def NewAlayaRaft_def Let_def)
  moreover have "meta_lookup NewMemoryMetaStorage = Map.empty"
    by (simp add: fun_eq_iff meta_lookup_def NewMemoryMetaStorage_def sm.load_empty)
  ultimately show ?thesis
    using applied_delivered [OF assms(1)] mms.ok_log [OF meta_ok_new, of ops] mms.lookup_log [OF meta_ok_new, of ops] by auto
qed

section \<open>Properties\<close>

text \<open>
  C2: A replica that starts with an empty storage at the beginning of the log, is handed any rounds of the
  log and has read every commit holds exactly the effect of the operations in the entries it has read:
  those of the log up to its applied index, except the ones jumped over by a snapshot it installed.  So
  replicas with the same applied index that installed no snapshot answer every read alike.
\<close>

theorem replica_implements_log:
  assumes "log_ok lg" "rounds_of lg rs" "serve_rounds lib st getSnapshot rs (NewRaftNode raftID conf 0) = Ret rc"
    "readCommits codec snapshot (CommitC rc) (NewAlayaRaft raftID p oldP NewMemoryMetaStorage) = Ret r"
  shows "\<exists>js k ops. jumps_ok 0 js (unat (appliedIndex rc)) \<and> map snd js = snapshots_of (take k rs)
    \<and> map Some ops = map (unmarshal_op codec) (normal_data (read_entries lg 0 js (unat (appliedIndex rc))))
    \<and> meta_ok (metaStorage r) \<and> meta_lookup (metaStorage r) = fold spec_operate ops Map.empty
    \<and> (snapshots_of rs = [] \<longrightarrow> map Some ops = map (unmarshal_op codec) (normal_data (take (unat (appliedIndex rc)) lg)))"
proof -
  obtain js k where a: "applied_ok lg 0 js rc" "map snd js = snapshots_of (take k rs)"
    using serve_rounds_applied [OF assms(1) applied_ok_new assms(2,3)] by auto
  obtain ops where ops: "map Some ops = map (unmarshal_op codec) (normal_data (read_entries lg 0 js (unat (appliedIndex rc))))"
      "meta_ok (metaStorage r)" "meta_lookup (metaStorage r) = fold spec_operate ops Map.empty"
    using replica_storage [OF a(1) assms(4)] by blast
  have "js = []" if "snapshots_of rs = []"
    using that a(2) set_snapshots_take [of k rs] by simp
  then show ?thesis
    using a ops by (intro exI [of _ js] exI [of _ k] exI [of _ ops]) (auto simp: applied_ok_def)
qed

theorem replica_implements_log_witness:
  "\<exists>rc r. serve_rounds set_lib example_store (\<lambda>u. None)
       [(False, \<lparr>Snapshot_rd = \<lparr>Snap_Index = 0, Snap_ConfState = \<lparr>Voters = []\<rparr>\<rparr>,
          CommittedEntries = [\<lparr>Type = EntryNormal, Index = 1, Data = [9]\<rparr>]\<rparr>)]
       (NewRaftNode 1 \<lparr>Voters = [1]\<rparr> 0) = Ret rc
     \<and> readCommits example_codec None (CommitC rc) (NewAlayaRaft 1 example_pipeline None NewMemoryMetaStorage) = Ret r
     \<and> meta_lookup (metaStorage r) ''root/default/1/a'' = Some (Meta example_op)"
proof -
  let ?lg = "[\<lparr>Type = EntryNormal, Index = 1, Data = [9]\<rparr>]"
  let ?rs = "[(False, \<lparr>Snapshot_rd = \<lparr>Snap_Index = 0, Snap_ConfState = \<lparr>Voters = []\<rparr>\<rparr>, CommittedEntries = ?lg\<rparr>)]"
  let ?run = "serve_rounds set_lib example_store (\<lambda>u. None) ?rs (NewRaftNode 1 \<lparr>Voters = [1]\<rparr> 0)"
  let ?read = "\<lambda>rc. readCommits example_codec None (CommitC rc) (NewAlayaRaft 1 example_pipeline None NewMemoryMetaStorage)"
  have lg: "log_ok ?lg"
    by (simp add: log_ok_def)
  have rs: "rounds_of ?lg ?rs" "snapshots_of ?rs = []"
    by (simp_all add: rounds_of_def snapshots_of_def, rule exI [of _ 0], rule exI [of _ 1]) simp
  have "case ?run of Ret rc \<Rightarrow> unat (appliedIndex rc) = 1 \<and> (case ?read rc of Ret r \<Rightarrow> True | _ \<Rightarrow> False) | _ \<Rightarrow> False"
    by code_simp
  then obtain rc r where rc: "?run = Ret rc" "?read rc = Ret r" "unat (appliedIndex rc) = 1"
    by (auto split: exec.splits)
  obtain ops where ops: "map Some ops = map (unmarshal_op example_codec) (normal_data (take 1 ?lg))"
      "meta_lookup (metaStorage r) = fold spec_operate ops Map.empty"
    using replica_implements_log [OF lg rs(1) rc(1,2)] rs(2) unfolding rc(3) by blast
  have "ops = [example_op]"
    using ops(1) by (auto simp: example_codec_def normal_data_def map_eq_Cons_conv)
  then have "meta_lookup (metaStorage r) ''root/default/1/a'' = Some (Meta example_op)"
    using ops(2) by (simp add: spec_operate_def example_op_def example_meta_def)
  then show ?thesis
    using rc by blast
qed

text \<open>
  C32: A replica with the in-memory storage that joins by a snapshot never gets the metadata the snapshot
  stands for.  It is handed a snapshot of the first \<open>k\<close> entries and then any rounds of the log without a
  further snapshot; after it has read all commits, with a snapshot of any storage on its disk, its storage
  is the effect of the entries after the first \<open>k\<close> alone, so an object those do not touch is unknown.
\<close>

theorem snapshot_restores_nothing:
  assumes "log_ok lg" "rounds_of lg rs" "snapshots_of rs = []" "Snap_Index snap = k" "0 < k" "unat k \<le> length lg"
    "serve_rounds lib st getSnapshot ((d, \<lparr>Snapshot_rd = snap, CommittedEntries = []\<rparr>) # rs) (NewRaftNode raftID conf 0) = Ret rc"
    "readCommits codec (Some (CreateSnapshot s)) (CommitC rc) (NewAlayaRaft raftID p oldP NewMemoryMetaStorage) = Ret r"
  shows "\<exists>ops. k \<le> appliedIndex rc
    \<and> map Some ops = map (unmarshal_op codec) (normal_data (take (unat (appliedIndex rc) - unat k) (drop (unat k) lg)))
    \<and> meta_lookup (metaStorage r) = fold spec_operate ops Map.empty
    \<and> (\<forall>i. (\<forall>op \<in> set ops. \<not> changes i op) \<longrightarrow> GetMeta (metaStorage r) i = Inl (Err MetaNotExist))"
proof -
  let ?rc = "(NewRaftNode raftID conf 0)\<lparr>CommitC := [None], ConfState_rn := Snap_ConfState snap, snapshotIndex := k, appliedIndex := k\<rparr>"
  have "k \<noteq> 0" "\<not> k \<le> 0"
    using assms(5) by simp_all
  then have run: "serve_rounds lib st getSnapshot rs ?rc = Ret rc"
    using assms(4,7) by (simp add: handle_ready_def publishSnapshot_def entriesToApply_def publishEntries_def maybeTriggerSnapshot_def NewRaftNode_def)
  have "0 < unat k"
    using assms(5) by (simp add: word_less_nat_alt)
  then have "applied_ok lg 0 [(0, unat k)] ?rc"
    using assms(6) by (simp add: applied_ok_def commits_def normal_data_def)
  then obtain js n where js: "applied_ok lg 0 ([(0, unat k)] @ js) rc" "map snd js = snapshots_of (take n rs)"
    using serve_rounds_applied [OF assms(1) _ assms(2) run] by blast
  then have a: "applied_ok lg 0 [(0, unat k)] rc"
    using assms(3) set_snapshots_take [of n rs] by simp
  obtain ops where ops: "map Some ops = map (unmarshal_op codec) (normal_data (take (unat (appliedIndex rc) - unat k) (drop (unat k) lg)))"
      "meta_ok (metaStorage r)" "meta_lookup (metaStorage r) = fold spec_operate ops Map.empty"
    using replica_storage [OF a assms(8)] by auto
  have "fold spec_operate ops M i = M i" if "\<forall>op \<in> set ops. \<not> changes i op" for M i
    using that by (induction ops arbitrary: M) (auto simp: spec_operate_def changes_def split: Operate.splits)
  then show ?thesis
    using ops a by (intro exI [of _ ops]) (auto simp: mms.get_lookup applied_ok_def word_le_nat_alt)
qed

theorem snapshot_restores_nothing_witness:
  "\<exists>rc r. serve_rounds set_lib example_store (\<lambda>u. None)
       [(False, \<lparr>Snapshot_rd = \<lparr>Snap_Index = 1, Snap_ConfState = \<lparr>Voters = [1]\<rparr>\<rparr>, CommittedEntries = []\<rparr>)] (NewRaftNode 2 \<lparr>Voters = [1]\<rparr> 0) = Ret rc
     \<and> readCommits example_codec (Some (CreateSnapshot (apply_operate example_op NewMemoryMetaStorage))) (CommitC rc)
         (NewAlayaRaft 2 example_pipeline None NewMemoryMetaStorage) = Ret r
     \<and> GetMeta (metaStorage r) ''root/default/1/a'' = Inl (Err MetaNotExist)"
proof -
  let ?lg = "[\<lparr>Type = EntryNormal, Index = 1, Data = [9]\<rparr>]" and ?snap = "\<lparr>Snap_Index = 1, Snap_ConfState = \<lparr>Voters = [1]\<rparr>\<rparr>"
  let ?run = "serve_rounds set_lib example_store (\<lambda>u. None) [(False, \<lparr>Snapshot_rd = ?snap, CommittedEntries = []\<rparr>)] (NewRaftNode 2 \<lparr>Voters = [1]\<rparr> 0)"
  let ?s = "apply_operate example_op NewMemoryMetaStorage"
  let ?read = "\<lambda>rc. readCommits example_codec (Some (CreateSnapshot ?s)) (CommitC rc) (NewAlayaRaft 2 example_pipeline None NewMemoryMetaStorage)"
  have lg: "log_ok ?lg" "rounds_of ?lg []" "snapshots_of [] = []" "Snap_Index ?snap = 1" "(0 :: u64) < 1" "unat (1 :: u64) \<le> length ?lg"
    by (simp_all add: log_ok_def rounds_of_def snapshots_of_def)
  have "case ?run of Ret rc \<Rightarrow> unat (appliedIndex rc) = 1 \<and> (case ?read rc of Ret r \<Rightarrow> True | _ \<Rightarrow> False) | _ \<Rightarrow> False"
    by code_simp
  then obtain rc r where rc: "?run = Ret rc" "?read rc = Ret r" "unat (appliedIndex rc) = 1"
    by (auto split: exec.splits)
  have "GetMeta (metaStorage r) ''root/default/1/a'' = Inl (Err MetaNotExist)"
    using snapshot_restores_nothing [OF lg rc(1,2)] rc(3) by (auto simp: normal_data_def)
  then show ?thesis
    using rc(1,2) by blast
qed

text \<open>
  C20: however its steps interleave, a group never goes back to the pipeline of an older cluster
  term, keeps its identity, and keeps its metadata storage well formed.
\<close>

theorem group_term_monotone:
  assumes "rtranclp (group_step codec) r r'"
  shows "ClusterTerm (pipeline r) \<le> ClusterTerm (pipeline r') \<and> raft_ID r' = raft_ID r \<and> pgID r' = pgID r
    \<and> (meta_ok (metaStorage r) \<longrightarrow> meta_ok (metaStorage r'))"
  using assms
proof (induction rule: rtranclp_induct)
  case (step r1 r2)
  then show ?case
    using group_step_inv [OF step.hyps(2)] by (auto intro: order_trans)
qed simp

theorem group_term_monotone_witness:
  "\<exists>r'. rtranclp (group_step example_codec) (NewAlayaRaft 1 example_pipeline None NewMemoryMetaStorage) r'
     \<and> 7 \<le> ClusterTerm (pipeline r') \<and> pipeline r' \<noteq> example_pipeline"
proof -
  let ?r = "NewAlayaRaft 1 example_pipeline None NewMemoryMetaStorage"
  let ?r' = "ProposeNewPipeline (example_pipeline\<lparr>ClusterTerm := 8\<rparr>) ?r"
  have s: "rtranclp (group_step example_codec) ?r ?r'"
    by (rule r_into_rtranclp) (rule group_step.propose)
  have "ClusterTerm (pipeline ?r) = 7" "pipeline ?r' \<noteq> example_pipeline"
    by code_simp+
  then show ?thesis
    using s group_term_monotone [OF s] by auto
qed

text \<open>
  C21: one turn of the leader's control loop, once the raft library has applied the changes it
  proposes, however often it repeats them, leaves exactly the nodes of the pipeline as voters; the leader
  removes itself, if at all, with the last change.  A leader that is being stopped only adds voters.
\<close>

theorem controlLoop_reaches_pipeline:
  assumes "conf_lib_ok lib" "isLeader r" "set (Voters_ar r) = set (conf_voters r)"
  shows "set (Voters (fold (\<lambda>cc s. apply_conf_change lib s cc) (controlLoop codec tries r) \<lparr>Voters = conf_voters r\<rparr>))
      = set (RaftIds (getPipeline r)) \<union> (if stopping r then set (conf_voters r) else {})
    \<and> (\<forall>cc \<in> set (butlast (controlLoop codec tries r)).
         \<not> (Type_cc cc = ConfChangeRemoveNode \<and> NodeID cc = raft_ID r))"
proof -
  obtain da db where d: "calDiff (RaftIds (getPipeline r)) (conf_voters r) = (da, db)"
    by (cases "calDiff (RaftIds (getPipeline r)) (conf_voters r)")
  note ds = calDiff_sets [OF d]
  obtain as where as: "ProposeNewNodes codec tries da r = map (conf_change codec r ConfChangeAddNode) as" "set as = set da"
    using ProposeNewNodes_map [of codec tries da r] ds(1) assms(3) by (auto simp: findVoter_def GetVotersID_def)
  obtain ns where ns: "ProposeRemoveNodes codec tries db r = map (conf_change codec r ConfChangeRemoveNode) ns"
      "set ns = (if stopping r then {} else set db)" "raft_ID r \<notin> set (butlast ns)"
  proof (cases "stopping r")
    case True
    then show thesis
      using that [of "[]"] by (simp add: ProposeRemoveNodes_def)
  next
    case False
    then show thesis
      using ProposeRemoveNodes_map [OF False, of codec tries db] that by auto
  qed
  have cl: "controlLoop codec tries r =
      map (conf_change codec r ConfChangeAddNode) as @ map (conf_change codec r ConfChangeRemoveNode) ns"
    using assms(2) d as(1) ns(1) by (simp add: controlLoop_def)
  have "set (Voters (fold (\<lambda>cc s. apply_conf_change lib s cc) (controlLoop codec tries r) \<lparr>Voters = conf_voters r\<rparr>))
      = (set (conf_voters r) \<union> set as) - set ns"
    by (simp add: cl voters_after_adds [OF assms(1)] voters_after_removes [OF assms(1)])
  also have "\<dots> = set (RaftIds (getPipeline r)) \<union> (if stopping r then set (conf_voters r) else {})"
    using ds(1,2) ns(2) as(2) by auto
  finally show ?thesis
    using ns(3) by (auto simp: cl butlast_append map_butlast [symmetric] conf_change_def dest: in_set_butlastD)
qed

lemma set_lib_ok: "conf_lib_ok set_lib"
  by (auto simp: conf_lib_ok_def set_lib_def)

theorem controlLoop_reaches_pipeline_witness:
  "set (Voters (fold (\<lambda>cc s. apply_conf_change set_lib s cc)
      (controlLoop example_codec (\<lambda>i. 2) ((NewAlayaRaft 3 example_pipeline None NewMemoryMetaStorage)
         \<lparr>Lead := 3, Voters_ar := [1, 3], conf_voters := [1, 3]\<rparr>)) \<lparr>Voters = [1, 3]\<rparr>)) = {1, 2}"
  using controlLoop_reaches_pipeline [OF set_lib_ok, of "(NewAlayaRaft 3 example_pipeline None NewMemoryMetaStorage)
         \<lparr>Lead := 3, Voters_ar := [1, 3], conf_voters := [1, 3]\<rparr>" example_codec "\<lambda>i. 2"]
  by (simp add: isLeader_def NewAlayaRaft_def example_pipeline_def getPipeline_def Let_def)

text \<open>
  C5: a proposed operation returns once the group has applied it: after a put the object is read
  back as it was written, whatever was committed ahead of it, and after a delete it is unknown.
  An operation that is neither is acknowledged and changes nothing.
\<close>

theorem ProposeObjectMetaOperate_correct:
  assumes "meta_ok (metaStorage r)" "codec_ok codec (before @ [operate\<lparr>OperateId := opID\<rparr>])"
    "opID \<notin> OperateId ` set before"
  shows "\<exists>r'. ProposeObjectMetaOperate codec opID before operate r = Ret r' \<and> meta_ok (metaStorage r')
    \<and> opID \<in> set (triggered r')
    \<and> GetMeta (metaStorage r') (ObjId (Meta operate)) =
        (case Operate operate of
           PUT \<Rightarrow> Inr (Meta operate) | DELETE \<Rightarrow> Inl (Err MetaNotExist)
         | OtherOperate j \<Rightarrow> GetMeta (fold apply_operate before (metaStorage r)) (ObjId (Meta operate)))"
proof -
  let ?op = "operate\<lparr>OperateId := opID\<rparr>" and ?r = "r\<lparr>registered := opID # registered r\<rparr>"
  let ?r1 = "fold apply_meta_operate before ?r"
  have reg: "opID \<in> set (registered (fold apply_meta_operate ops q))"
    if "opID \<in> set (registered q)" "opID \<notin> OperateId ` set ops" for ops q
    using that by (induction ops arbitrary: q) (auto simp: apply_meta_operate_def trigger_def)
  have "ProposeObjectMetaOperate codec opID before operate r = Ret (apply_meta_operate ?op ?r1)"
    using ProposeObjectMetaOperate_Ret [OF assms(2)] by simp
  moreover have "opID \<in> set (triggered (apply_meta_operate ?op ?r1))"
    using reg [of ?r before] assms(3) by (simp add: apply_meta_operate_def trigger_def)
  moreover have ok: "meta_ok (fold apply_operate before (metaStorage r))"
    using assms(1) by (rule mms.ok_log)
  moreover have "GetMeta (apply_operate ?op (fold apply_operate before (metaStorage r))) (ObjId (Meta operate)) =
      (case Operate operate of
         PUT \<Rightarrow> Inr (Meta operate) | DELETE \<Rightarrow> Inl (Err MetaNotExist)
       | OtherOperate j \<Rightarrow> GetMeta (fold apply_operate before (metaStorage r)) (ObjId (Meta operate)))"
    using mms.get_after_put [OF ok, of ?op] mms.get_after_delete [OF ok, of ?op] by (cases "Operate operate") (simp_all add: apply_operate_def)
  ultimately show ?thesis
    by (intro exI [of _ "apply_meta_operate ?op ?r1"]) (simp add: mms.ok_operate)
qed

theorem ProposeObjectMetaOperate_correct_witness:
  "\<exists>r'. ProposeObjectMetaOperate example_codec 9 [] example_op
       (NewAlayaRaft 1 example_pipeline None NewMemoryMetaStorage) = Ret r'
     \<and> GetMeta (metaStorage r') ''root/default/1/a'' = Inr (Meta example_op)"
proof -
  have "codec_ok example_codec ([] @ [example_op\<lparr>OperateId := 9\<rparr>])"
    "meta_ok (metaStorage (NewAlayaRaft 1 example_pipeline None NewMemoryMetaStorage))"
    "ObjId (Meta example_op) = ''root/default/1/a''" "Operate example_op = PUT"
    by (simp_all add: codec_ok_def example_codec_def example_op_def NewAlayaRaft_def example_meta_def Let_def)
  then show ?thesis
    using ProposeObjectMetaOperate_correct [of "NewAlayaRaft 1 example_pipeline None NewMemoryMetaStorage"
        example_codec "[]" 9 example_op] by auto
qed

end
