(* ===== verification/Moon.thy ===== *)
theory Moon
  imports Infos Raft_Node
begin

text \<open>
  The replicated information service (\<^verbatim>\<open>edge-node/moon/moon.go\<close>): proposals go through the
  raft log, committed requests update the storage register, and reads are answered from it.
  The encoding of requests is the parameter \<open>unmarshal\<close>; the leader the raft library knows is
  a field.  An applied request also yields the callbacks the storage calls.
\<close>

section \<open>Data\<close>

text \<open>An operation a request carries may also be a number without a name, as in any protocol enum.\<close>

datatype ProposeOperate = ADD | UPDATE | DELETE_INFO | is_other: OtherPropose i32

text \<open>The field \<^verbatim>\<open>Head\<close> of a request is read by no operation and is left out.\<close>

record ProposeInfoRequest =
  Operate_pi :: ProposeOperate
  Id :: string
  BaseInfo_pi :: "BaseInfo option"
  OperateId_pi :: u64

datatype MoonStatus = StatusInit | StatusRegistering | StatusOK

datatype ResultStatus = Result_OK | Result_FAIL

record Result =
  Status_r :: ResultStatus
  Message :: string

record 'f Moon =
  moon_id :: u64
  SelfInfo :: NodeInfo
  ctx_done :: bool
  nodeReady :: bool
  infoMap :: "(u64, NodeInfo) smap"
  leaderID :: u64
  infoStorageRegister :: "'f StorageRegister"
  registered_m :: "u64 list"
  triggered_m :: "u64 list"
  moon_status :: MoonStatus
  raft_peers :: "u64 list option"
  Lead_m :: u64
  ConfChangeC :: "NodeInfo list"

section \<open>Construction\<close>

definition NewMoon :: "NodeInfo \<Rightarrow> ClusterInfo \<Rightarrow> 'f StorageRegister \<Rightarrow> 'f Moon" where
  "NewMoon selfInfo config register =
     (let m0 = (case LeaderInfo config of Some l \<Rightarrow> sm_store (RaftId l) l [] | None \<Rightarrow> []);
          m1 = fold (\<lambda>i m. sm_store (RaftId i) i m) (NodesInfo config) m0
      in \<lparr>moon_id = 0, SelfInfo = selfInfo, ctx_done = False, nodeReady = False, infoMap = m1,
          leaderID = (case LeaderInfo config of Some l \<Rightarrow> RaftId l | None \<Rightarrow> 0),
          infoStorageRegister = register, registered_m = [], triggered_m = [], moon_status = StatusInit,
          raft_peers = None, Lead_m = 0, ConfChangeC = []\<rparr>)"

text \<open>\<open>raft_peers\<close> is set when the raft node exists, to the peers it was started with.\<close>

definition Set :: "NodeInfo \<Rightarrow> NodeInfo option \<Rightarrow> NodeInfo list \<Rightarrow> 'f Moon \<Rightarrow> 'f Moon" where
  "Set selfInfo leaderInfo peersInfo m =
     (let m0 = fold (\<lambda>i im. sm_store (RaftId i) i im) peersInfo (infoMap m);
          m1 = (case leaderInfo of Some l \<Rightarrow> sm_store (RaftId l) l m0 | None \<Rightarrow> m0);
          m2 = sm_store (RaftId selfInfo) selfInfo m1;
          ps = (case leaderInfo of Some l \<Rightarrow> [RaftId l] | None \<Rightarrow> map (\<lambda>kv. RaftId (snd kv)) m2)
      in m\<lparr>moon_status := StatusRegistering, SelfInfo := selfInfo, infoMap := m2,
           moon_id := RaftId selfInfo, raft_peers := Some ps, nodeReady := True\<rparr>)"

definition NodeInfoChanged :: "NodeInfo \<Rightarrow> 'f Moon \<Rightarrow> 'f Moon" where
  "NodeInfoChanged nodeInfo m = m\<lparr>infoMap := sm_store (RaftId nodeInfo) nodeInfo (infoMap m)\<rparr>"

definition IsLeader :: "'f Moon \<Rightarrow> bool" where
  "IsLeader m \<longleftrightarrow> raft_peers m \<noteq> None \<and> Lead_m m = moon_id m"

text \<open>\<^verbatim>\<open>GetLeaderID\<close> spins until the raft node is ready.\<close>

definition GetLeaderID :: "'f Moon \<Rightarrow> u64 exec" where
  "GetLeaderID m = (if nodeReady m then Ret (Lead_m m) else Blocks ''raft node is not ready'')"

text \<open>
  The configuration change is sent to the raft node, and the call waits for one of two channels:
  a message to a peer could not be delivered, or a change was applied.  The second channel is
  also drained by \<^verbatim>\<open>Run\<close>, so each notification has one receiver.  The argument lists, in
  order, everything sent to the two channels from then on; when none of it reaches the call, the
  call never returns.
\<close>

datatype conf_receiver = ToCaller | ToRun

datatype conf_event = SendFailed | ConfApplied conf_receiver

fun await_conf :: "conf_event list \<Rightarrow> unit exec" where
  "await_conf [] = Blocks ''waiting for the configuration change''"
| "await_conf (SendFailed # es) = Ret ()"
| "await_conf (ConfApplied ToCaller # es) = Ret ()"
| "await_conf (ConfApplied ToRun # es) = await_conf es"

definition ProposeConfChangeAddNode ::
    "conf_event list \<Rightarrow> NodeInfo \<Rightarrow> 'f Moon \<Rightarrow> ('f Moon \<times> go_error option) exec" where
  "ProposeConfChangeAddNode events nodeInfo m =
     (if raft_peers m = None then Panic ''nil pointer dereference''
      else exec_bind (await_conf events) (\<lambda>_. Ret (m\<lparr>ConfChangeC := ConfChangeC m @ [nodeInfo]\<rparr>, None)))"

section \<open>Applying the log\<close>

definition trigger_m :: "u64 \<Rightarrow> 'f Moon \<Rightarrow> 'f Moon" where
  "trigger_m i m =
     (if i \<in> set (registered_m m)
      then m\<lparr>registered_m := removeAll i (registered_m m), triggered_m := triggered_m m @ [i]\<rparr> else m)"

text \<open>
  The body of the loop over the data of a commit; an error of the register is only logged.
  An addition, update or deletion without information panics when its type or identifier is read;
  any other operation changes nothing.  The waiter is released in every case.
\<close>

definition apply_request :: "ProposeInfoRequest \<Rightarrow> 'f Moon \<Rightarrow> ('f Moon \<times> ('f \<times> Information) list) exec" where
  "apply_request msg m =
     (case Operate_pi msg of
        OtherPropose i \<Rightarrow> Ret (trigger_m (OperateId_pi msg) m, [])
      | DELETE_INFO \<Rightarrow>
          (case BaseInfo_pi msg of
             None \<Rightarrow> Panic ''nil pointer dereference''
           | Some info \<Rightarrow>
               (let (reg, err) = reg_Delete (BaseInfo_GetInfoType info) (Id msg) (infoStorageRegister m)
                in Ret (trigger_m (OperateId_pi msg) (m\<lparr>infoStorageRegister := reg\<rparr>), [])))
      | _ \<Rightarrow>
          (case BaseInfo_pi msg of
             None \<Rightarrow> Panic ''nil pointer dereference''
           | Some info \<Rightarrow>
               (let (reg, calls, err) = reg_Update (IBase info) (infoStorageRegister m)
                in Ret (trigger_m (OperateId_pi msg) (m\<lparr>infoStorageRegister := reg\<rparr>), calls))))"

primrec apply_requests :: "ProposeInfoRequest list \<Rightarrow> 'f Moon \<Rightarrow> ('f Moon \<times> ('f \<times> Information) list) exec" where
  "apply_requests [] m = Ret (m, [])"
| "apply_requests (q # qs) m =
     exec_bind (apply_request q m) (\<lambda>(m1, calls1).
     exec_bind (apply_requests qs m1) (\<lambda>(m2, calls2). Ret (m2, calls1 @ calls2)))"

text \<open>\<open>unmarshal\<close> is what decoding leaves in the message; a decoding error is only logged.\<close>

definition moon_readCommits ::
    "(bytes \<Rightarrow> ProposeInfoRequest) \<Rightarrow> bytes option \<Rightarrow> bytes list option \<Rightarrow> 'f Moon
       \<Rightarrow> ('f Moon \<times> ('f \<times> Information) list) exec" where
  "moon_readCommits unmarshal snapshot commit m =
     (case commit of
        None \<Rightarrow>
          (case snapshot of
             None \<Rightarrow> Ret (m, [])
           | Some data \<Rightarrow> Ret (m\<lparr>infoStorageRegister := reg_RecoverFromSnapshot data (infoStorageRegister m)\<rparr>, []))
      | Some ds \<Rightarrow> apply_requests (map unmarshal ds) m)"

text \<open>
  A proposal registers its number and waits until the log has released it; \<open>before\<close> is what the
  group commits ahead of it.
\<close>

definition ProposeInfo ::
    "u64 \<Rightarrow> ProposeInfoRequest list \<Rightarrow> ProposeInfoRequest \<Rightarrow> 'f Moon
       \<Rightarrow> ('f Moon \<times> ('f \<times> Information) list \<times> Result result) exec" where
  "ProposeInfo opID before request m =
     (if Id request = [] then Ret (m, [], Inl (ErrText ''info key is empty''))
      else if raft_peers m = None then Panic ''nil pointer dereference''
      else exec_bind (apply_requests (before @ [request\<lparr>OperateId_pi := opID\<rparr>])
                        (m\<lparr>registered_m := opID # registered_m m\<rparr>))
             (\<lambda>(m, calls).
                if opID \<in> set (registered_m m) then Blocks ''waiting for the proposal to be applied''
                else Ret (m, calls, Inr \<lparr>Status_r = Result_OK, Message = []\<rparr>)))"

section \<open>Reads\<close>

definition GetInfoDirect :: "'f Moon \<Rightarrow> InfoType \<Rightarrow> string \<Rightarrow> Information result" where
  "GetInfoDirect m infoType key =
     (if ctx_done m then Inl (ErrText ''moon is stopped'') else reg_Get (infoStorageRegister m) infoType key)"

definition GetInfo :: "'f Moon \<Rightarrow> InfoType \<Rightarrow> string \<Rightarrow> Result \<times> BaseInfo option \<times> go_error option" where
  "GetInfo m infoType key =
     (case GetInfoDirect m infoType key of
        Inl err \<Rightarrow> (\<lparr>Status_r = Result_FAIL, Message = Error err\<rparr>, None, Some err)
      | Inr info \<Rightarrow> (\<lparr>Status_r = Result_OK, Message = []\<rparr>, BaseInfo_of info, None))"

definition ListInfo :: "'f Moon \<Rightarrow> InfoType \<Rightarrow> string \<Rightarrow> BaseInfo option list result exec" where
  "ListInfo m infoType prefix =
     (if ctx_done m then Ret (Inl (ErrText ''moon is stopped''))
      else exec_bind (reg_List (infoStorageRegister m) infoType prefix) (\<lambda>res.
        case res of Inl err \<Rightarrow> Ret (Inl err) | Inr infos \<Rightarrow> Ret (Inr (map BaseInfo_of infos))))"

definition SendRaftMessage_m :: "'f Moon \<Rightarrow> go_error option" where
  "SendRaftMessage_m m =
     (if raft_peers m = None
      then Some (ErrText (''moon'' @ FormatUint (moon_id m) @ '': raft is not ready'')) else None)"

section \<open>Lifecycle\<close>

text \<open>The start of \<^verbatim>\<open>Run\<close>: without a raft node the moon becomes its own group.\<close>

definition moon_start :: "NodeInfo list \<Rightarrow> 'f Moon \<Rightarrow> 'f Moon" where
  "moon_start nodesInfo m = (if raft_peers m = None then Set (SelfInfo m) None nodesInfo m else m)"

definition self_report :: "'f Moon \<Rightarrow> ProposeInfoRequest" where
  "self_report m =
     \<lparr>Operate_pi = UPDATE, Id = FormatUint (RaftId (SelfInfo m)),
      BaseInfo_pi = Some (BaseInfo_NodeInfo (SelfInfo m)), OperateId_pi = 0\<rparr>"

definition reportSelfInfo ::
    "u64 \<Rightarrow> ProposeInfoRequest list \<Rightarrow> 'f Moon \<Rightarrow> ('f Moon \<times> ('f \<times> Information) list) exec" where
  "reportSelfInfo opID before m =
     exec_bind (ProposeInfo opID before (self_report m) m)
       (\<lambda>(m, calls, res). Ret (m\<lparr>moon_status := StatusOK\<rparr>, calls))"

definition moon_stop :: "'f Moon \<Rightarrow> 'f Moon" where
  "moon_stop m = m\<lparr>ctx_done := True, infoStorageRegister := reg_Close (infoStorageRegister m)\<rparr>"


section \<open>What the service promises\<close>

text \<open>
  The contents of the service as one partial map from type and identifier.  A request acts
  on it as \<open>info_spec\<close>; information of a type the wrapper does not know is dropped.
\<close>

definition moon_lookup :: "'f Moon \<Rightarrow> InfoType \<times> string \<rightharpoonup> BaseInfo" where
  "moon_lookup m = (\<lambda>(t, k). case reg_Get (infoStorageRegister m) t k of
     Inr (IBase b) \<Rightarrow> Some b | _ \<Rightarrow> None)"

definition info_spec ::
    "ProposeInfoRequest \<Rightarrow> (InfoType \<times> string \<rightharpoonup> BaseInfo) \<Rightarrow> (InfoType \<times> string \<rightharpoonup> BaseInfo)" where
  "info_spec msg M =
     (case BaseInfo_pi msg of
        None \<Rightarrow> M
      | Some b \<Rightarrow>
          (if BaseInfo_GetInfoType b = INVALID then M
           else case Operate_pi msg of
             DELETE_INFO \<Rightarrow> M((BaseInfo_GetInfoType b, Id msg) := None)
           | OtherPropose i \<Rightarrow> M
           | _ \<Rightarrow> M((BaseInfo_GetInfoType b, BaseInfo_GetID b) \<mapsto> b)))"

text \<open>A request whose information is read carries one.\<close>

definition request_ok :: "ProposeInfoRequest \<Rightarrow> bool" where
  "request_ok q \<longleftrightarrow> is_other (Operate_pi q) \<or> BaseInfo_pi q \<noteq> None"

definition standard_types :: "InfoType set" where
  "standard_types = {NODE_INFO, CLUSTER_INFO, USER_INFO, BUCKET_INFO, VOLUME_INFO}"

text \<open>The register is well formed and has the five standard storages.\<close>

definition moon_ok :: "'f Moon \<Rightarrow> bool" where
  "moon_ok m \<longleftrightarrow> reg_ok (infoStorageRegister m) \<and> fst ` set (storageMap (infoStorageRegister m)) = standard_types"

section \<open>An example\<close>

definition example_request :: ProposeInfoRequest where
  "example_request = \<lparr>Operate_pi = ADD, Id = ''7'',
     BaseInfo_pi = Some (BaseInfo_NodeInfo \<lparr>RaftId = 7, Uuid = [], IpAddr = [], RpcPort = 1, Capacity = 1, State = ONLINE\<rparr>),
     OperateId_pi = 0\<rparr>"

definition example_self :: NodeInfo where
  "example_self = \<lparr>RaftId = 1, Uuid = ''u1'', IpAddr = [], RpcPort = 1, Capacity = 1, State = ONLINE\<rparr>"

definition example_config :: ClusterInfo where
  "example_config = \<lparr>Term = 0, LeaderInfo = None, NodesInfo = [], UpdateTimestamp = None, MetaPgNum = 0,
     MetaPgSize = 0, BlockPgNum = 0, BlockPgSize = 0, LastTerm = 0\<rparr>"

definition example_moon :: "unit Moon" where
  "example_moon = Set example_self None [] (NewMoon example_self example_config GetStorageRegister)"

section \<open>Lemmas\<close>

lemma trigger_m_register [simp]: "infoStorageRegister (trigger_m i m) = infoStorageRegister m"
  "ctx_done (trigger_m i m) = ctx_done m"
  by (simp_all add: trigger_m_def)

lemma standard_loaded:
  assumes "fst ` set (storageMap r) = standard_types"
  shows "sm_load (storageMap r) t \<noteq> None \<longleftrightarrow> t \<in> standard_types"
  using sm_load_None [of "storageMap r" t] assms by auto

lemma BaseInfo_type_cases: "BaseInfo_GetInfoType b = INVALID \<or> BaseInfo_GetInfoType b \<in> standard_types"
  by (cases b) (simp_all add: standard_types_def)

lemma INVALID_not_standard: "INVALID \<notin> standard_types"
  by (simp add: standard_types_def)

lemma apply_request_other:
  "is_other (Operate_pi q) \<Longrightarrow> apply_request q m = Ret (trigger_m (OperateId_pi q) m, [])"
  by (cases "Operate_pi q") (simp_all add: apply_request_def)

lemma apply_request_delete:
  "Operate_pi q = DELETE_INFO \<Longrightarrow> BaseInfo_pi q = Some b \<Longrightarrow> apply_request q m =
     Ret (trigger_m (OperateId_pi q) (m\<lparr>infoStorageRegister := fst (reg_Delete (BaseInfo_GetInfoType b) (Id q) (infoStorageRegister m))\<rparr>), [])"
  by (simp add: apply_request_def case_prod_beta Let_def)

lemma apply_request_update:
  "Operate_pi q \<noteq> DELETE_INFO \<Longrightarrow> \<not> is_other (Operate_pi q) \<Longrightarrow> BaseInfo_pi q = Some b \<Longrightarrow> apply_request q m =
     Ret (trigger_m (OperateId_pi q) (m\<lparr>infoStorageRegister := fst (reg_Update (IBase b) (infoStorageRegister m))\<rparr>),
       fst (snd (reg_Update (IBase b) (infoStorageRegister m))))"
  by (cases "Operate_pi q") (simp_all add: apply_request_def case_prod_beta Let_def)

lemma apply_request_panics: "\<not> request_ok q \<Longrightarrow> apply_request q m = Panic ''nil pointer dereference''"
  by (cases "Operate_pi q") (simp_all add: request_ok_def apply_request_def)

text \<open>The three ways in which a request is applied.\<close>

lemma apply_request_cases:
  assumes "apply_request q m = Ret (m', calls)"
  obtains (other) "is_other (Operate_pi q)" "m' = trigger_m (OperateId_pi q) m" "calls = []"
  | (delete) b where "Operate_pi q = DELETE_INFO" "BaseInfo_pi q = Some b" "calls = []"
      "m' = trigger_m (OperateId_pi q) (m\<lparr>infoStorageRegister := fst (reg_Delete (BaseInfo_GetInfoType b) (Id q) (infoStorageRegister m))\<rparr>)"
  | (update) b where "Operate_pi q = ADD \<or> Operate_pi q = UPDATE" "BaseInfo_pi q = Some b"
      "m' = trigger_m (OperateId_pi q) (m\<lparr>infoStorageRegister := fst (reg_Update (IBase b) (infoStorageRegister m))\<rparr>)"
      "calls = fst (snd (reg_Update (IBase b) (infoStorageRegister m)))"
proof (cases "request_ok q")
  case True
  show ?thesis
  proof (cases "is_other (Operate_pi q)")
    case True
    then show ?thesis
      using assms apply_request_other [of q m] other by simp
  next
    case False
    then obtain b where "BaseInfo_pi q = Some b"
      using True by (auto simp: request_ok_def)
    then show ?thesis
      using False assms apply_request_delete [of q b m] apply_request_update [of q b m] delete [of b] update [of b]
      by (cases "Operate_pi q") auto
  qed
next
  case False
  then show ?thesis
    using assms apply_request_panics [of q m] by simp
qed

lemma apply_request_ok:
  assumes "apply_request q m = Ret (m', calls)" "moon_ok m"
  shows "moon_ok m' \<and> moon_lookup m' = info_spec q (moon_lookup m) \<and> ctx_done m' = ctx_done m"
proof -
  let ?r = "infoStorageRegister m"
  have r: "reg_ok ?r" and ty: "fst ` set (storageMap ?r) = standard_types"
    using assms(2) by (simp_all add: moon_ok_def)
  have inv: "sm_load (storageMap ?r) INVALID = None"
    using standard_loaded [OF ty, of INVALID] INVALID_not_standard by simp
  have known: "BaseInfo_GetInfoType b \<noteq> INVALID \<Longrightarrow> sm_load (storageMap ?r) (BaseInfo_GetInfoType b) \<noteq> None" for b
    using standard_loaded [OF ty] BaseInfo_type_cases [of b] by blast
  from assms(1) show ?thesis
  proof (cases rule: apply_request_cases)
    case other
    then show ?thesis
      using assms(2) by (cases "Operate_pi q")
        (auto simp: moon_ok_def moon_lookup_def info_spec_def split: option.splits)
  next
    case (delete b)
    let ?t = "BaseInfo_GetInfoType b"
    have "?t = INVALID \<Longrightarrow> fst (reg_Delete ?t (Id q) ?r) = ?r"
      using inv by (simp add: reg_Delete_def)
    then show ?thesis
      using delete r ty known [of b] reg_Get_Delete [OF r, of ?t "Id q"] reg_ok_Delete [OF r, of ?t "Id q"]
      by (auto simp: moon_ok_def moon_lookup_def info_spec_def fun_eq_iff)
  next
    case (update b)
    have "BaseInfo_GetInfoType b = INVALID \<Longrightarrow> fst (reg_Update (IBase b) ?r) = ?r"
      using inv by (simp add: reg_Update_def)
    then show ?thesis
      using update r ty known [of b] reg_Get_Update [OF r, of "IBase b"] reg_ok_Update [OF r, of "IBase b"]
      by (auto simp: moon_ok_def moon_lookup_def info_spec_def fun_eq_iff)
  qed
qed

lemma apply_requests_ok:
  assumes "apply_requests qs m = Ret (m', calls)" "moon_ok m"
  shows "moon_ok m' \<and> moon_lookup m' = fold info_spec qs (moon_lookup m) \<and> ctx_done m' = ctx_done m"
  using assms
proof (induction qs arbitrary: m calls)
  case (Cons q qs)
  then obtain m1 c1 c2 where "apply_request q m = Ret (m1, c1)" "apply_requests qs m1 = Ret (m', c2)"
    by auto
  then show ?case
    using Cons.IH [of m1 c2] apply_request_ok [of q m m1 c1] Cons.prems(2) by simp
qed simp

lemma apply_request_total: "request_ok q \<Longrightarrow> \<exists>m' calls. apply_request q m = Ret (m', calls)"
  using apply_request_other [of q m] apply_request_delete [of q _ m] apply_request_update [of q _ m]
  by (cases "is_other (Operate_pi q)"; cases "Operate_pi q = DELETE_INFO") (auto simp: request_ok_def)

lemma apply_requests_total:
  assumes "\<forall>q \<in> set qs. request_ok q"
  shows "\<exists>m' calls. apply_requests qs m = Ret (m', calls)"
  using assms
proof (induction qs arbitrary: m)
  case (Cons q qs)
  then obtain m1 c1 where "apply_request q m = Ret (m1, c1)"
    using apply_request_total [of q m] by auto
  moreover obtain m2 c2 where "apply_requests qs m1 = Ret (m2, c2)"
    using Cons.IH [of m1] Cons.prems by auto
  ultimately show ?case
    by simp
qed simp

lemma apply_requests_Ret:
  assumes "\<forall>q \<in> set qs. BaseInfo_pi q \<noteq> None"
  shows "\<exists>m' calls. apply_requests qs m = Ret (m', calls)"
  using assms by (intro apply_requests_total) (simp add: request_ok_def)

lemma apply_requests_append:
  "apply_requests (qs @ qs') m = exec_bind (apply_requests qs m) (\<lambda>(m1, c1).
     exec_bind (apply_requests qs' m1) (\<lambda>(m2, c2). Ret (m2, c1 @ c2)))"
proof (induction qs arbitrary: m)
  case Nil
  then show ?case
    by (cases "apply_requests qs' m") auto
next
  case (Cons q qs)
  show ?case
    by (cases "apply_request q m") (auto simp: Cons.IH case_prod_beta exec_bind_assoc)
qed

text \<open>What the log leaves of the raft side of the moon.\<close>

lemma trigger_m_raft [simp]:
  "raft_peers (trigger_m i m) = raft_peers m" "Lead_m (trigger_m i m) = Lead_m m"
  "moon_id (trigger_m i m) = moon_id m" "nodeReady (trigger_m i m) = nodeReady m"
  "ConfChangeC (trigger_m i m) = ConfChangeC m"
  by (simp_all add: trigger_m_def)

lemma apply_request_raft:
  assumes "apply_request q m = Ret (m', calls)"
  shows "raft_peers m' = raft_peers m \<and> Lead_m m' = Lead_m m \<and> moon_id m' = moon_id m
    \<and> nodeReady m' = nodeReady m \<and> ctx_done m' = ctx_done m \<and> ConfChangeC m' = ConfChangeC m"
  using assms by (cases rule: apply_request_cases) simp_all

lemma apply_requests_raft:
  assumes "apply_requests qs m = Ret (m', calls)"
  shows "raft_peers m' = raft_peers m \<and> Lead_m m' = Lead_m m \<and> moon_id m' = moon_id m
    \<and> nodeReady m' = nodeReady m \<and> ctx_done m' = ctx_done m \<and> ConfChangeC m' = ConfChangeC m"
  using assms
proof (induction qs arbitrary: m calls)
  case (Cons q qs)
  then obtain m1 c1 c2 where "apply_request q m = Ret (m1, c1)" "apply_requests qs m1 = Ret (m', c2)"
    by auto
  then show ?case
    using Cons.IH [of m1 c2] apply_request_raft [of q m m1 c1] by simp
qed simp

text \<open>A waiter stays registered until it is released, and its own request releases it.\<close>

lemma trigger_m_waiter:
  "x \<in> set (registered_m m) \<union> set (triggered_m m) \<Longrightarrow>
     x \<in> set (registered_m (trigger_m i m)) \<union> set (triggered_m (trigger_m i m))"
  "i \<notin> set (registered_m (trigger_m i m))"
  by (auto simp: trigger_m_def)

lemma apply_request_waiter:
  assumes "apply_request q m = Ret (m', calls)"
  shows "x \<in> set (registered_m m) \<union> set (triggered_m m) \<Longrightarrow> x \<in> set (registered_m m') \<union> set (triggered_m m')"
    and "OperateId_pi q \<notin> set (registered_m m')"
proof -
  have "\<exists>r. m' = trigger_m (OperateId_pi q) (m\<lparr>infoStorageRegister := r\<rparr>)"
    using assms by (cases rule: apply_request_cases) (auto intro: exI [of _ "infoStorageRegister m"])
  then obtain r where "m' = trigger_m (OperateId_pi q) (m\<lparr>infoStorageRegister := r\<rparr>)"
    by blast
  then show "x \<in> set (registered_m m) \<union> set (triggered_m m) \<Longrightarrow> x \<in> set (registered_m m') \<union> set (triggered_m m')"
    and "OperateId_pi q \<notin> set (registered_m m')"
    using trigger_m_waiter [where i = "OperateId_pi q" and m = "m\<lparr>infoStorageRegister := r\<rparr>"] by simp_all
qed

lemma apply_requests_waiter:
  assumes "apply_requests qs m = Ret (m', calls)" "x \<in> set (registered_m m) \<union> set (triggered_m m)"
  shows "x \<in> set (registered_m m') \<union> set (triggered_m m')"
  using assms
proof (induction qs arbitrary: m calls)
  case (Cons q qs)
  then obtain m1 c1 c2 where "apply_request q m = Ret (m1, c1)" "apply_requests qs m1 = Ret (m', c2)"
    by auto
  then show ?case
    using Cons.IH [of m1 c2] apply_request_waiter(1) [of q m m1 c1 x] Cons.prems(2) by blast
qed simp

lemma info_spec_OperateId [simp]: "info_spec (q\<lparr>OperateId_pi := i\<rparr>) = info_spec q"
  by (rule ext, cases "BaseInfo_pi q"; cases "Operate_pi q"; simp add: info_spec_def)

text \<open>A proposal to a running service: the state its own request is applied to, and its reply.\<close>

lemma ProposeInfo_run:
  assumes "moon_ok m" "raft_peers m \<noteq> None" "Id q \<noteq> []" "\<forall>p \<in> set before. request_ok p"
  obtains m1 c1 where "apply_requests before (m\<lparr>registered_m := opID # registered_m m\<rparr>) = Ret (m1, c1)"
    "moon_ok m1" "moon_lookup m1 = fold info_spec before (moon_lookup m)" "ctx_done m1 = ctx_done m"
    "raft_peers m1 = raft_peers m" "opID \<in> set (registered_m m1) \<union> set (triggered_m m1)"
    "ProposeInfo opID before q m = exec_bind (apply_request (q\<lparr>OperateId_pi := opID\<rparr>) m1)
       (\<lambda>(m', c2). Ret (m', c1 @ c2, Inr \<lparr>Status_r = Result_OK, Message = []\<rparr>))"
proof -
  let ?m = "m\<lparr>registered_m := opID # registered_m m\<rparr>" and ?q = "q\<lparr>OperateId_pi := opID\<rparr>"
  obtain m1 c1 where r: "apply_requests before ?m = Ret (m1, c1)"
    using apply_requests_total [OF assms(4)] by blast
  have "moon_ok ?m" "moon_lookup ?m = moon_lookup m"
    using assms(1) by (simp_all add: moon_ok_def moon_lookup_def)
  moreover have "ProposeInfo opID before q m = exec_bind (apply_request ?q m1)
       (\<lambda>(m', c2). Ret (m', c1 @ c2, Inr \<lparr>Status_r = Result_OK, Message = []\<rparr>))"
    using r assms(2,3) apply_request_waiter(2) [of ?q m1]
    by (cases "apply_request ?q m1") (auto simp: ProposeInfo_def apply_requests_append)
  ultimately show ?thesis
    using that r apply_requests_ok [OF r] apply_requests_raft [OF r] apply_requests_waiter [OF r, of opID] by simp
qed

lemma ProposeInfo_applied:
  assumes "moon_ok m" "raft_peers m \<noteq> None" "Id q \<noteq> []" "request_ok q" "\<forall>p \<in> set before. request_ok p"
  obtains m' calls where "ProposeInfo opID before q m = Ret (m', calls, Inr \<lparr>Status_r = Result_OK, Message = []\<rparr>)"
    "moon_ok m'" "ctx_done m' = ctx_done m" "raft_peers m' = raft_peers m"
    "moon_lookup m' = info_spec q (fold info_spec before (moon_lookup m))"
    "opID \<notin> set (registered_m m')" "opID \<in> set (triggered_m m')"
    "apply_requests (before @ [q\<lparr>OperateId_pi := opID\<rparr>]) (m\<lparr>registered_m := opID # registered_m m\<rparr>) = Ret (m', calls)"
proof -
  let ?q = "q\<lparr>OperateId_pi := opID\<rparr>"
  obtain m1 c1 where m1: "apply_requests before (m\<lparr>registered_m := opID # registered_m m\<rparr>) = Ret (m1, c1)"
    "moon_ok m1" "moon_lookup m1 = fold info_spec before (moon_lookup m)" "ctx_done m1 = ctx_done m"
    "raft_peers m1 = raft_peers m" "opID \<in> set (registered_m m1) \<union> set (triggered_m m1)"
    "ProposeInfo opID before q m = exec_bind (apply_request ?q m1)
       (\<lambda>(m', c2). Ret (m', c1 @ c2, Inr \<lparr>Status_r = Result_OK, Message = []\<rparr>))"
    by (rule ProposeInfo_run [OF assms(1-3,5), where opID = opID])
  have "request_ok ?q"
    using assms(4) by (simp add: request_ok_def)
  then obtain m' c2 where r: "apply_request ?q m1 = Ret (m', c2)"
    using apply_request_total by blast
  show ?thesis
  proof (rule that)
    show "ProposeInfo opID before q m = Ret (m', c1 @ c2, Inr \<lparr>Status_r = Result_OK, Message = []\<rparr>)"
      using m1(7) r by simp
    show "moon_ok m'" "ctx_done m' = ctx_done m" "moon_lookup m' = info_spec q (fold info_spec before (moon_lookup m))"
      using apply_request_ok [OF r m1(2)] m1(3,4) by simp_all
    show "raft_peers m' = raft_peers m"
      using apply_request_raft [OF r] m1(5) by simp
    show "opID \<notin> set (registered_m m')" "opID \<in> set (triggered_m m')"
      using apply_request_waiter(1) [OF r m1(6)] apply_request_waiter(2) [OF r] by simp_all
    show "apply_requests (before @ [?q]) (m\<lparr>registered_m := opID # registered_m m\<rparr>) = Ret (m', c1 @ c2)"
      using m1(1) r by (simp add: apply_requests_append)
  qed
qed

lemma apply_request_deleted:
  assumes "apply_request q m = Ret (m', calls)" "moon_ok m" "\<not> ctx_done m" "Operate_pi q = DELETE_INFO" "BaseInfo_pi q = Some b"
    "BaseInfo_GetInfoType b \<noteq> INVALID"
  shows "GetInfo m' (BaseInfo_GetInfoType b) (Id q)
    = (\<lparr>Status_r = Result_FAIL, Message = Error (Err InfoNotFound)\<rparr>, None, Some (Err InfoNotFound))"
proof -
  let ?r = "infoStorageRegister m" and ?t = "BaseInfo_GetInfoType b"
  have "?t \<in> standard_types"
    using BaseInfo_type_cases [of b] assms(6) by blast
  then have t: "reg_ok ?r" "sm_load (storageMap ?r) ?t \<noteq> None"
    using assms(2) standard_loaded [of ?r ?t] by (auto simp: moon_ok_def)
  have "reg_Get (fst (reg_Delete ?t (Id q) ?r)) ?t (Id q) = Inl (Err InfoNotFound)"
    using reg_Get_Delete [OF t] by simp
  then show ?thesis
    using apply_request_delete [OF assms(4,5), of m] assms(1,3) by (auto simp: GetInfo_def GetInfoDirect_def)
qed

lemma ProposeInfo_deleted:
  assumes "ProposeInfo opID before q m = Ret (m', calls, Inr r)" "moon_ok m" "\<not> ctx_done m" "raft_peers m \<noteq> None"
    "\<forall>p \<in> set before. request_ok p" "Id q \<noteq> []"
    "Operate_pi q = DELETE_INFO" "BaseInfo_pi q = Some b" "BaseInfo_GetInfoType b \<noteq> INVALID"
  shows "GetInfo m' (BaseInfo_GetInfoType b) (Id q)
    = (\<lparr>Status_r = Result_FAIL, Message = Error (Err InfoNotFound)\<rparr>, None, Some (Err InfoNotFound))"
proof -
  let ?q = "q\<lparr>OperateId_pi := opID\<rparr>"
  obtain m1 c1 where m1: "moon_ok m1" "ctx_done m1 = ctx_done m"
    "ProposeInfo opID before q m = exec_bind (apply_request ?q m1)
       (\<lambda>(m', c2). Ret (m', c1 @ c2, Inr \<lparr>Status_r = Result_OK, Message = []\<rparr>))"
    using ProposeInfo_run [OF assms(2,4,6,5)] by metis
  then obtain c2 where "apply_request ?q m1 = Ret (m', c2)"
    using assms(1) by (cases "apply_request ?q m1") auto
  then show ?thesis
    using apply_request_deleted [of ?q m1 m' c2 b] m1 assms(3,7-9) by simp
qed

lemma await_conf_iff:
  "await_conf events = (if \<exists>e \<in> set events. e \<noteq> ConfApplied ToRun then Ret ()
     else Blocks ''waiting for the configuration change'')"
  by (induction events rule: await_conf.induct) auto

lemma moon_lookup_Get:
  "moon_lookup m (t, k) = Some b \<Longrightarrow> \<not> ctx_done m \<Longrightarrow>
     GetInfo m t k = (\<lparr>Status_r = Result_OK, Message = []\<rparr>, Some b, None)"
  by (auto simp: moon_lookup_def GetInfo_def GetInfoDirect_def split: sum.splits Information.splits)

lemma moon_ok_new: "moon_ok (NewMoon selfInfo config GetStorageRegister)"
  by (simp add: moon_ok_def NewMoon_def Let_def reg_ok_GetStorageRegister standard_types_def)
    (simp add: GetStorageRegister_def registerAllStorage_def reg_Register_def sm_store_def)

lemma Set_fields [simp]:
  "infoStorageRegister (Set s l ps m) = infoStorageRegister m" "ctx_done (Set s l ps m) = ctx_done m"
  "raft_peers (Set s l ps m) \<noteq> None" "nodeReady (Set s l ps m)" "SelfInfo (Set s l ps m) = s"
  by (simp_all add: Set_def Let_def)

lemma moon_ok_Set [simp]: "moon_ok (Set s l ps m) = moon_ok m"
  by (simp add: moon_ok_def)

lemma example_moon_ok: "moon_ok example_moon" "\<not> ctx_done example_moon" "raft_peers example_moon \<noteq> None"
  by (simp_all add: example_moon_def moon_ok_new) (simp add: NewMoon_def Let_def)

section \<open>Properties\<close>

text \<open>
  C13: the information service refines a partial map: a run of committed requests changes its
  contents as the same run changes the map, and keeps its registers well formed.
\<close>

theorem moon_log_refines:
  assumes "moon_ok m" "apply_requests qs m = Ret (m', calls)"
  shows "moon_ok m' \<and> moon_lookup m' = fold info_spec qs (moon_lookup m)"
  using apply_requests_ok [OF assms(2,1)] by simp

theorem moon_log_refines_witness:
  "\<exists>m' calls. apply_requests [example_request] example_moon = Ret (m', calls)
     \<and> moon_lookup m' (NODE_INFO, FormatUint 7) = BaseInfo_pi example_request"
proof -
  obtain m' calls where e: "apply_requests [example_request] example_moon = Ret (m', calls)"
    using apply_requests_Ret [of "[example_request]" example_moon] by (auto simp: example_request_def)
  have "moon_lookup m' = fold info_spec [example_request] (moon_lookup example_moon)"
    using moon_log_refines [OF example_moon_ok(1) e] by blast
  then show ?thesis
    using e by (auto simp: info_spec_def example_request_def NodeInfo_GetID_def)
qed

text \<open>
  C31: the reply to a proposal, once the raft node runs and the requests the group commits ahead of it
  can be applied.  A proposal without a key is refused and changes nothing.  An addition, update or
  deletion without information panics the node.  Every other proposal is released from its wait and
  acknowledged with success, and the contents are then those the committed requests leave, its own
  last.  So node, cluster and bucket information that was added or updated can be read back and a
  deleted one is unknown, while for information of any other kind, and for an unknown operation,
  the success changes nothing.
\<close>

theorem ProposeInfo_acknowledged:
  assumes "moon_ok m" "\<not> ctx_done m" "raft_peers m \<noteq> None" "\<forall>p \<in> set before. request_ok p"
  shows "if Id q = [] then ProposeInfo opID before q m = Ret (m, [], Inl (ErrText ''info key is empty''))
    else if BaseInfo_pi q = None \<and> \<not> is_other (Operate_pi q)
    then ProposeInfo opID before q m = Panic ''nil pointer dereference''
    else \<exists>m' calls. ProposeInfo opID before q m = Ret (m', calls, Inr \<lparr>Status_r = Result_OK, Message = []\<rparr>)
      \<and> opID \<in> set (triggered_m m') \<and> opID \<notin> set (registered_m m')
      \<and> moon_lookup m' = info_spec q (fold info_spec before (moon_lookup m))
      \<and> (case BaseInfo_pi q of
           None \<Rightarrow> moon_lookup m' = fold info_spec before (moon_lookup m)
         | Some b \<Rightarrow>
             (if BaseInfo_GetInfoType b = INVALID \<or> is_other (Operate_pi q)
              then moon_lookup m' = fold info_spec before (moon_lookup m)
              else if Operate_pi q = DELETE_INFO
              then GetInfo m' (BaseInfo_GetInfoType b) (Id q) =
                (\<lparr>Status_r = Result_FAIL, Message = Error (Err InfoNotFound)\<rparr>, None, Some (Err InfoNotFound))
              else GetInfo m' (BaseInfo_GetInfoType b) (BaseInfo_GetID b) =
                (\<lparr>Status_r = Result_OK, Message = []\<rparr>, Some b, None)))"
proof (cases "Id q \<noteq> [] \<and> request_ok q")
  case True
  obtain m' calls where m': "ProposeInfo opID before q m = Ret (m', calls, Inr \<lparr>Status_r = Result_OK, Message = []\<rparr>)"
    "\<not> ctx_done m'" "moon_lookup m' = info_spec q (fold info_spec before (moon_lookup m))"
    "opID \<notin> set (registered_m m')" "opID \<in> set (triggered_m m')"
    by (rule ProposeInfo_applied [OF assms(1,3) _ _ assms(4), of q opID]) (use True assms(2) in simp_all)
  have same: "BaseInfo_pi q = None \<or> is_other (Operate_pi q) \<or> BaseInfo_GetInfoType (the (BaseInfo_pi q)) = INVALID \<Longrightarrow> info_spec q M = M" for M
    by (cases "Operate_pi q") (auto simp: info_spec_def split: option.splits)
  have stored: "GetInfo m' (BaseInfo_GetInfoType b) (BaseInfo_GetID b) = (\<lparr>Status_r = Result_OK, Message = []\<rparr>, Some b, None)"
    if "BaseInfo_pi q = Some b" "BaseInfo_GetInfoType b \<noteq> INVALID" "\<not> is_other (Operate_pi q)" "Operate_pi q \<noteq> DELETE_INFO" for b
    using m'(2,3) that by (cases "Operate_pi q") (simp_all add: info_spec_def moon_lookup_Get)
  have deleted: "GetInfo m' (BaseInfo_GetInfoType b) (Id q) =
      (\<lparr>Status_r = Result_FAIL, Message = Error (Err InfoNotFound)\<rparr>, None, Some (Err InfoNotFound))"
    if "BaseInfo_pi q = Some b" "BaseInfo_GetInfoType b \<noteq> INVALID" "Operate_pi q = DELETE_INFO" for b
    using ProposeInfo_deleted [OF m'(1) assms _ that(3,1,2)] True by simp
  show ?thesis
  proof (cases "BaseInfo_pi q")
    case None
    then show ?thesis
      using True m' same by (simp add: request_ok_def)
  next
    case (Some b)
    then show ?thesis
      using True m' same stored [OF Some] deleted [OF Some] by simp
  qed
next
  case False
  have "ProposeInfo opID before q m = Panic ''nil pointer dereference''" if "Id q \<noteq> []"
  proof (rule ProposeInfo_run [OF assms(1,3) that assms(4), of opID])
    fix m1 c1
    assume "ProposeInfo opID before q m = exec_bind (apply_request (q\<lparr>OperateId_pi := opID\<rparr>) m1)
       (\<lambda>(m', c2). Ret (m', c1 @ c2, Inr \<lparr>Status_r = Result_OK, Message = []\<rparr>))"
    then show ?thesis
      using apply_request_panics [of "q\<lparr>OperateId_pi := opID\<rparr>" m1] False that by (simp add: request_ok_def)
  qed
  then show ?thesis
    using False by (auto simp: ProposeInfo_def request_ok_def)
qed

theorem ProposeInfo_acknowledged_witness:
  "(\<exists>m' calls. ProposeInfo 5 [] example_request example_moon = Ret (m', calls, Inr \<lparr>Status_r = Result_OK, Message = []\<rparr>)
     \<and> GetInfo m' NODE_INFO (FormatUint 7) = (\<lparr>Status_r = Result_OK, Message = []\<rparr>, BaseInfo_pi example_request, None))
   \<and> ProposeInfo 5 [] (example_request\<lparr>BaseInfo_pi := None\<rparr>) example_moon = Panic ''nil pointer dereference''"
  using ProposeInfo_acknowledged [OF example_moon_ok, of "[]" example_request 5]
    ProposeInfo_acknowledged [OF example_moon_ok, of "[]" "example_request\<lparr>BaseInfo_pi := None\<rparr>" 5]
  by (auto simp: example_request_def NodeInfo_GetID_def)

end
