(* ===== verification/Monitor.thy ===== *)
theory Monitor
  imports Infos
begin

text \<open>
  The monitor of a node (\<^verbatim>\<open>edge-node/watcher/monitor.go\<close>): the leader pulls a status report
  from every node, remembers the last one, and sends an event when the membership it knows
  changes; every node collects the reports of its own components.  The metrics inside a
  report come from the operating system and are left out.  The event channel is the list of
  events sent.  A registered reporter is represented by its name; what it answers in a round
  is an argument of the operation.
\<close>

section \<open>Data\<close>

datatype PipelineState = PR_UNKNOWN | PR_OK | PR_DOWN_GRADE | PR_CHANGING | PR_ERROR

datatype ClusterState = CR_UNKNOWN | HEALTH_OK | HEALTH_WARN | HEALTH_ERR

record PipelineReport =
  PgId_pr :: u64
  NodeIds :: "u64 list"
  LeaderId :: u64
  State_pr :: PipelineState

record NodeStatusReport =
  NodeId :: u64
  NodeUuid :: string
  State_ns :: NodeState
  Pipelines_ns :: "PipelineReport list"

datatype ReportType = ReportTypeADD | ReportTypeUPDATE | ReportTypeDELETE

record Report =
  ReportType_r :: ReportType
  NodeReport :: "NodeStatusReport option"
  PipelineReport_r :: "PipelineReport option"

record ClusterReport =
  State_cr :: ClusterState
  ClusterInfo_cr :: ClusterInfo
  Nodes :: "NodeStatusReport list"
  Pipelines_cr :: "PipelineReport list"

text \<open>The timer of a node is \<open>True\<close> while it runs and \<open>False\<close> once it has fired.\<close>

record NodeMonitor =
  clusterPipeline :: "(u64, PipelineReport) smap"
  nodeStatusMap :: "(u64, NodeStatusReport) smap"
  reportTimers :: "(u64, bool) smap"
  selfNodeStatus :: "NodeStatusReport option"
  selfPipeline :: "(u64, PipelineReport) smap"
  reportersMap :: "(string, unit) smap"
  eventChannel :: "NodeStatusReport list"

definition NewMonitor :: NodeMonitor where
  "NewMonitor = \<lparr>clusterPipeline = [], nodeStatusMap = [], reportTimers = [], selfNodeStatus = None,
     selfPipeline = [], reportersMap = [], eventChannel = []\<rparr>"

definition mon_Register :: "string \<Rightarrow> NodeMonitor \<Rightarrow> NodeMonitor \<times> go_error option" where
  "mon_Register name m =
     (if sm_load (reportersMap m) name \<noteq> None then (m, Some (ErrText ''reporter already registered''))
      else (m\<lparr>reportersMap := sm_store name () (reportersMap m)\<rparr>, None))"

section \<open>The leader's view\<close>

text \<open>The common end of a received report: store it and its pipelines, with an event on first sight.\<close>

definition store_report :: "NodeStatusReport \<Rightarrow> NodeMonitor \<Rightarrow> NodeMonitor" where
  "store_report report m =
     (let m1 = (if sm_load (nodeStatusMap m) (NodeId report) = None
                then m\<lparr>eventChannel := eventChannel m @ [report]\<rparr> else m)
      in m1\<lparr>nodeStatusMap := sm_store (NodeId report) report (nodeStatusMap m1),
            clusterPipeline := fold (\<lambda>p c. sm_store (PgId_pr p) p c) (Pipelines_ns report) (clusterPipeline m1)\<rparr>)"

text \<open>The goroutine of \<^verbatim>\<open>collectNodes\<close> for one node; \<open>None\<close> is a failed call.\<close>

definition collectNode :: "u64 \<Rightarrow> NodeStatusReport option \<Rightarrow> NodeMonitor \<Rightarrow> NodeMonitor" where
  "collectNode raftId reply m =
     (case reply of
        Some report \<Rightarrow> store_report report m
      | None \<Rightarrow>
          (case sm_load (nodeStatusMap m) raftId of
             None \<Rightarrow> m
           | Some r \<Rightarrow>
               (if State_ns r = OFFLINE then m
                else let r' = r\<lparr>State_ns := OFFLINE\<rparr>
                     in m\<lparr>nodeStatusMap := sm_store raftId r' (nodeStatusMap m),
                          eventChannel := eventChannel m @ [r']\<rparr>)))"

text \<open>The push variant: a fired timer has no channel to drain, so resetting it waits forever.\<close>

definition mon_Report :: "bool \<Rightarrow> NodeStatusReport \<Rightarrow> NodeMonitor \<Rightarrow> (NodeMonitor \<times> go_error option) exec" where
  "mon_Report isLeader report m =
     (if \<not> isLeader then Ret (m, Some (ErrText ''not leader''))
      else case sm_load (reportTimers m) (NodeId report) of
        Some running \<Rightarrow>
          (if running then Ret (store_report report m, None) else Blocks ''receive from nil channel'')
      | None \<Rightarrow>
          Ret (store_report report (m\<lparr>reportTimers := sm_store (NodeId report) True (reportTimers m)\<rparr>), None))"

definition report_timeout :: "u64 \<Rightarrow> NodeMonitor \<Rightarrow> NodeMonitor exec" where
  "report_timeout nodeId m =
     (case sm_load (nodeStatusMap m) nodeId of
        None \<Rightarrow> Panic ''interface conversion: interface is nil''
      | Some r \<Rightarrow>
          (let r' = r\<lparr>State_ns := OFFLINE\<rparr>
           in Ret (m\<lparr>nodeStatusMap := sm_store nodeId r' (nodeStatusMap m),
                    eventChannel := eventChannel m @ [r'],
                    reportTimers := sm_store nodeId False (reportTimers m)\<rparr>)))"

definition GetNodeReport :: "NodeMonitor \<Rightarrow> u64 \<Rightarrow> NodeStatusReport option" where
  "GetNodeReport m nodeID = sm_load (nodeStatusMap m) nodeID"

definition GetAllNodeReports :: "NodeMonitor \<Rightarrow> NodeStatusReport list" where
  "GetAllNodeReports m = sort_key NodeId (map snd (nodeStatusMap m))"

definition GetClusterReport :: "ClusterInfo \<Rightarrow> NodeMonitor \<Rightarrow> ClusterReport" where
  "GetClusterReport clusterInfo m =
     (let pipelines = map snd (clusterPipeline m)
      in \<lparr>State_cr = (if \<exists>p \<in> set pipelines. State_pr p \<noteq> PR_OK then HEALTH_ERR else HEALTH_OK),
          ClusterInfo_cr = clusterInfo, Nodes = GetAllNodeReports m, Pipelines_cr = pipelines\<rparr>)"

section \<open>The node's own report\<close>

definition getAllPipelineReports :: "NodeMonitor \<Rightarrow> PipelineReport list" where
  "getAllPipelineReports m = map snd (selfPipeline m)"

definition take_report :: "Report \<Rightarrow> NodeMonitor \<Rightarrow> NodeMonitor" where
  "take_report report m =
     (let m1 = (case NodeReport report of Some n \<Rightarrow> m\<lparr>selfNodeStatus := Some n\<rparr> | None \<Rightarrow> m)
      in case PipelineReport_r report of
           Some p \<Rightarrow> m1\<lparr>selfPipeline := sm_store (PgId_pr p) p (selfPipeline m1)\<rparr>
         | None \<Rightarrow> m1)"

text \<open>The callback of the iteration over reporters empties the pipelines first, each time.\<close>

definition collect_reporter :: "(string \<Rightarrow> bool) \<Rightarrow> (string \<Rightarrow> Report list) \<Rightarrow> string \<Rightarrow> NodeMonitor \<Rightarrow> NodeMonitor" where
  "collect_reporter changed reports name m =
     (if \<not> changed name then m else fold take_report (reports name) (m\<lparr>selfPipeline := []\<rparr>))"

definition collectReports :: "(string \<Rightarrow> bool) \<Rightarrow> (string \<Rightarrow> Report list) \<Rightarrow> NodeMonitor \<Rightarrow> NodeMonitor exec" where
  "collectReports changed reports m =
     (let m1 = fold (collect_reporter changed reports) (map fst (reportersMap m)) m
      in case selfNodeStatus m1 of
           None \<Rightarrow> Panic ''nil pointer dereference''
         | Some s \<Rightarrow> Ret (m1\<lparr>selfNodeStatus := Some (s\<lparr>Pipelines_ns := getAllPipelineReports m1\<rparr>)\<rparr>))"

definition mon_Get ::
    "(string \<Rightarrow> bool) \<Rightarrow> (string \<Rightarrow> Report list) \<Rightarrow> NodeMonitor \<Rightarrow> (NodeMonitor \<times> NodeStatusReport option) exec" where
  "mon_Get changed reports m =
     (if selfNodeStatus m = None
      then exec_bind (collectReports changed reports m) (\<lambda>m. Ret (m, selfNodeStatus m))
      else Ret (m, selfNodeStatus m))"

section \<open>Invariant\<close>

definition mon_ok :: "NodeMonitor \<Rightarrow> bool" where
  "mon_ok m \<longleftrightarrow> sm_ok (nodeStatusMap m) \<and> sm_ok (clusterPipeline m) \<and> sm_ok (selfPipeline m)
     \<and> sm_ok (reportersMap m) \<and> sm_ok (reportTimers m)
     \<and> (\<forall>kv \<in> set (nodeStatusMap m). NodeId (snd kv) = fst kv)"

section \<open>An example\<close>

definition example_report :: "NodeState \<Rightarrow> NodeStatusReport" where
  "example_report st = \<lparr>NodeId = 2, NodeUuid = [], State_ns = st, Pipelines_ns = []\<rparr>"

definition example_reports :: "string \<Rightarrow> Report list" where
  "example_reports name =
     (if name = ''alaya'' then
        [\<lparr>ReportType_r = ReportTypeADD, NodeReport = None,
          PipelineReport_r = Some \<lparr>PgId_pr = 1, NodeIds = [2], LeaderId = 2, State_pr = PR_OK\<rparr>\<rparr>]
      else [\<lparr>ReportType_r = ReportTypeUPDATE, NodeReport = Some (example_report ONLINE), PipelineReport_r = None\<rparr>])"

section \<open>Lemmas\<close>

lemma mon_ok_new: "mon_ok NewMonitor"
  by (simp add: mon_ok_def NewMonitor_def sm_ok_def)

lemma sm_ok_fold_store: "sm_ok c \<Longrightarrow> sm_ok (fold (\<lambda>p c. sm_store (f p) p c) ps c)"
  by (induction ps arbitrary: c) (auto simp: sm_laws)

lemma mon_ok_store_report: "mon_ok m \<Longrightarrow> mon_ok (store_report r m)"
  by (auto simp: mon_ok_def store_report_def Let_def sm_laws sm_ok_fold_store set_sm_store)

lemma mon_ok_collectNode: "mon_ok m \<Longrightarrow> mon_ok (collectNode i reply m)"
  by (auto simp: collectNode_def mon_ok_store_report split: option.splits)
    (fastforce simp: mon_ok_def sm_laws set_sm_store sm_load_set Let_def)

lemma collectNode_status:
  assumes "mon_ok m" "case reply of Some r \<Rightarrow> NodeId r = i | None \<Rightarrow> True"
  shows "GetNodeReport (collectNode i reply m) j =
    (if j \<noteq> i then GetNodeReport m j
     else case reply of Some r \<Rightarrow> Some r
          | None \<Rightarrow> map_option (\<lambda>r. r\<lparr>State_ns := OFFLINE\<rparr>) (GetNodeReport m i))"
proof -
  have "r\<lparr>State_ns := OFFLINE\<rparr> = r" if "State_ns r = OFFLINE" for r :: NodeStatusReport
    using that by (cases r) simp
  then show ?thesis
    using assms by (auto simp: GetNodeReport_def collectNode_def store_report_def mon_ok_def sm_laws Let_def
        split: option.splits)
qed

lemma take_reports_pipelines:
  "selfPipeline (fold take_report rs m) =
     fold (\<lambda>p c. sm_store (PgId_pr p) p c) (List.map_filter PipelineReport_r rs) (selfPipeline m)"
  by (induction rs arbitrary: m) (auto simp: take_report_def map_filter_simps Let_def split: option.splits)

section \<open>Properties\<close>

text \<open>
  what a round of collection does for one node: an answer becomes the node's status, a
  failed call turns a known node offline, other nodes keep their status, and an event is sent
  exactly when an unknown node answers or a known node goes offline.  In particular a node
  that answers again after being offline changes its status without an event.
\<close>

theorem collectNode_correct:
  assumes "mon_ok m" "case reply of Some r \<Rightarrow> NodeId r = i | None \<Rightarrow> True"
  shows "mon_ok (collectNode i reply m)
    \<and> (\<forall>j. GetNodeReport (collectNode i reply m) j =
        (if j \<noteq> i then GetNodeReport m j
         else case reply of Some r \<Rightarrow> Some r
              | None \<Rightarrow> map_option (\<lambda>r. r\<lparr>State_ns := OFFLINE\<rparr>) (GetNodeReport m i)))
    \<and> eventChannel (collectNode i reply m) = eventChannel m @
        (case (reply, GetNodeReport m i) of
           (Some r, None) \<Rightarrow> [r]
         | (None, Some r) \<Rightarrow> if State_ns r = OFFLINE then [] else [r\<lparr>State_ns := OFFLINE\<rparr>]
         | _ \<Rightarrow> [])"
proof -
  have "eventChannel (collectNode i reply m) = eventChannel m @
        (case (reply, GetNodeReport m i) of
           (Some r, None) \<Rightarrow> [r]
         | (None, Some r) \<Rightarrow> if State_ns r = OFFLINE then [] else [r\<lparr>State_ns := OFFLINE\<rparr>]
         | _ \<Rightarrow> [])"
    using assms(2)
    by (auto simp: collectNode_def store_report_def GetNodeReport_def Let_def split: option.splits)
  then show ?thesis
    using mon_ok_collectNode [OF assms(1)] collectNode_status [OF assms] by blast
qed

text \<open>
  of the pipelines reported by the components of a node only those of the last reporter
  in the iteration over the reporters survive a collection; the reports of every reporter
  visited before it are lost, although the iteration order is unspecified.
\<close>

theorem collectReports_last_wins:
  assumes "map fst (reportersMap m) = ns @ [n]" "changed n" "collectReports changed reports m = Ret m'"
  shows "\<exists>s. selfNodeStatus m' = Some s \<and>
    Pipelines_ns s = map snd (fold (\<lambda>p c. sm_store (PgId_pr p) p c) (List.map_filter PipelineReport_r (reports n)) [])"
proof -
  let ?m1 = "fold (collect_reporter changed reports) (ns @ [n]) m"
  have "selfPipeline ?m1 = fold (\<lambda>p c. sm_store (PgId_pr p) p c) (List.map_filter PipelineReport_r (reports n)) []"
    using assms(2) by (simp add: collect_reporter_def take_reports_pipelines)
  then show ?thesis
    using assms(1,3) by (auto simp: collectReports_def Let_def getAllPipelineReports_def split: option.splits)
qed

theorem collectReports_last_wins_witness:
  "\<exists>m' s. collectReports (\<lambda>n. True) example_reports
       (NewMonitor\<lparr>reportersMap := [(''alaya'', ()), (''status_reporter'', ())]\<rparr>) = Ret m'
     \<and> selfNodeStatus m' = Some s \<and> Pipelines_ns s = []"
proof -
  let ?m = "NewMonitor\<lparr>reportersMap := [(''alaya'', ()), (''status_reporter'', ())]\<rparr>"
  have r: "map fst (reportersMap ?m) = [''alaya''] @ [''status_reporter'']"
    by simp
  have "case collectReports (\<lambda>n. True) example_reports ?m of Ret m' \<Rightarrow> True | _ \<Rightarrow> False"
    by code_simp
  then obtain m' where m': "collectReports (\<lambda>n. True) example_reports ?m = Ret m'"
    by (auto split: exec.splits)
  have "List.map_filter PipelineReport_r (example_reports ''status_reporter'') = []"
    by code_simp
  then show ?thesis
    using collectReports_last_wins [OF r _ m'] m' by auto
qed

end
