(* ===== verification/Sun.thy ===== *)
theory Sun
  imports Infos
begin

text \<open>
  The registration service in the cloud (\<^verbatim>\<open>cloud/sun/sun.go\<close>): it gives every edge node a raft
  identifier, remembers it by the node's uuid, and declares the first node the leader.  The
  leader's record is shared by reference with the registration request, so the identifier
  assigned later in the same call is visible in it; the model writes it where it is shared.
\<close>

record Sun =
  sun_leaderInfo :: "NodeInfo option"
  sun_clusterInfo :: ClusterInfo
  lastRaftID :: u64
  cachedInfo :: "(string, NodeInfo) smap"

record RegisterResult =
  RaftId_rr :: u64
  HasLeader :: bool
  ClusterInfo_rr :: ClusterInfo

definition NewSun :: Sun where
  "NewSun = \<lparr>sun_leaderInfo = None,
     sun_clusterInfo = \<lparr>Term = 0, LeaderInfo = None, NodesInfo = [], UpdateTimestamp = None, MetaPgNum = 0,
       MetaPgSize = 0, BlockPgNum = 0, BlockPgSize = 0, LastTerm = 0\<rparr>,
     lastRaftID = 0, cachedInfo = []\<rparr>"

text \<open>\<^verbatim>\<open>s.leaderInfo = nodeInfo\<close> when there is no leader yet.\<close>

definition claim_leader :: "NodeInfo \<Rightarrow> Sun \<Rightarrow> Sun" where
  "claim_leader n s =
     (if sun_leaderInfo s = None
      then s\<lparr>sun_leaderInfo := Some n, sun_clusterInfo := (sun_clusterInfo s)\<lparr>LeaderInfo := Some n\<rparr>\<rparr> else s)"

definition MoonRegister :: "NodeInfo \<Rightarrow> Sun \<Rightarrow> (Sun \<times> RegisterResult) exec" where
  "MoonRegister nodeInfo s =
     (case sm_load (cachedInfo s) (Uuid nodeInfo) of
        Some info \<Rightarrow>
          (let s' = claim_leader nodeInfo s
           in Ret (s', \<lparr>RaftId_rr = RaftId info, HasLeader = sun_leaderInfo s \<noteq> None, ClusterInfo_rr = sun_clusterInfo s'\<rparr>))
      | None \<Rightarrow>
          (let raftID = lastRaftID s + 1;
               n = nodeInfo\<lparr>RaftId := raftID\<rparr>;
               s' = (claim_leader n s)\<lparr>lastRaftID := raftID, cachedInfo := sm_store (Uuid n) n (cachedInfo s)\<rparr>
           in if LeaderInfo (sun_clusterInfo s') = None then Panic ''nil pointer dereference''
              else Ret (s', \<lparr>RaftId_rr = raftID, HasLeader = sun_leaderInfo s \<noteq> None, ClusterInfo_rr = sun_clusterInfo s'\<rparr>)))"

definition GetLeaderInfo :: "Sun \<Rightarrow> NodeInfo option" where
  "GetLeaderInfo s = LeaderInfo (sun_clusterInfo s)"

definition ReportClusterInfo :: "ClusterInfo \<Rightarrow> Sun \<Rightarrow> Sun" where
  "ReportClusterInfo ci s = s\<lparr>sun_clusterInfo := ci\<rparr>"

text \<open>Identifiers handed out are the numbers from one to the last, one for each uuid.\<close>

definition sun_ok :: "Sun \<Rightarrow> bool" where
  "sun_ok s \<longleftrightarrow> sm_ok (cachedInfo s) \<and> (sun_leaderInfo s = None \<longleftrightarrow> cachedInfo s = [])
     \<and> (\<forall>kv \<in> set (cachedInfo s). Uuid (snd kv) = fst kv \<and> 1 \<le> RaftId (snd kv) \<and> RaftId (snd kv) \<le> lastRaftID s)
     \<and> inj_on (RaftId \<circ> snd) (set (cachedInfo s))
     \<and> length (cachedInfo s) = unat (lastRaftID s)"

inductive sun_step :: "Sun \<Rightarrow> Sun \<Rightarrow> bool" where
  register: "MoonRegister n s = Ret (s', r) \<Longrightarrow> lastRaftID s \<noteq> - 1 \<Longrightarrow> sun_step s s'"
| report: "sun_step s (ReportClusterInfo ci s)"

inductive_cases sun_stepE: "sun_step s s'"

definition example_edge :: "string \<Rightarrow> NodeInfo" where
  "example_edge u = \<lparr>RaftId = 0, Uuid = u, IpAddr = [], RpcPort = 1, Capacity = 1, State = UNKNOWN\<rparr>"

section \<open>Lemmas\<close>

lemma sun_ok_new: "sun_ok NewSun"
  by (simp add: sun_ok_def NewSun_def sm_ok_def)

lemma claim_leader_fields [simp]:
  "cachedInfo (claim_leader n s) = cachedInfo s" "lastRaftID (claim_leader n s) = lastRaftID s"
  by (auto simp: claim_leader_def)

lemma unat_Suc_u64: "(x :: u64) \<noteq> - 1 \<Longrightarrow> unat (x + 1) = Suc (unat x)"
  by (metis add.commute add.right_neutral eq_neg_iff_add_eq_0 unatSuc)

lemma sm_store_new_length: "sm_load m k = None \<Longrightarrow> length (sm_store k v m) = Suc (length m)"
  by (induction m) (auto simp: sm_load_def sm_store_def split: if_splits)

lemma MoonRegister_cached:
  assumes "sm_load (cachedInfo s) (Uuid n) = Some i" "sun_ok s"
  shows "MoonRegister n s = Ret (s, \<lparr>RaftId_rr = RaftId i, HasLeader = True, ClusterInfo_rr = sun_clusterInfo s\<rparr>)"
proof -
  have "sun_leaderInfo s \<noteq> None"
    using assms by (auto simp: sun_ok_def sm_load_def)
  then show ?thesis
    using assms(1) by (auto simp: MoonRegister_def claim_leader_def)
qed

lemma MoonRegister_new:
  assumes "sm_load (cachedInfo s) (Uuid n) = None" "MoonRegister n s = Ret (s', r)"
  shows "RaftId_rr r = lastRaftID s + 1" "lastRaftID s' = lastRaftID s + 1" "sun_leaderInfo s' \<noteq> None"
    "cachedInfo s' = sm_store (Uuid n) (n\<lparr>RaftId := lastRaftID s + 1\<rparr>) (cachedInfo s)"
    "HasLeader r = (sun_leaderInfo s \<noteq> None)" "ClusterInfo_rr r = sun_clusterInfo s'"
  using assms by (auto simp: MoonRegister_def claim_leader_def Let_def split: if_splits)

lemma sun_ok_MoonRegister:
  assumes "sun_ok s" "lastRaftID s \<noteq> - 1" "MoonRegister n s = Ret (s', r)"
  shows "sun_ok s'"
proof (cases "sm_load (cachedInfo s) (Uuid n)")
  case (Some i)
  then show ?thesis
    using assms MoonRegister_cached [OF Some assms(1)] by simp
next
  case None
  let ?id = "lastRaftID s + 1" and ?n = "n\<lparr>RaftId := lastRaftID s + 1\<rparr>"
  note new = MoonRegister_new [OF None assms(3)]
  have u: "unat ?id = Suc (unat (lastRaftID s))"
    using assms(2) by (rule unat_Suc_u64)
  then have lt: "lastRaftID s < ?id" "1 \<le> ?id"
    by (simp_all add: word_less_nat_alt word_le_nat_alt)
  have c: "set (cachedInfo s') = insert (Uuid n, ?n) (set (cachedInfo s))"
    using assms(1) None sm_load_None [of "cachedInfo s" "Uuid n"]
    by (auto simp: new(4) sun_ok_def set_sm_store image_iff)
  have old: "RaftId (snd kv) \<le> lastRaftID s" if "kv \<in> set (cachedInfo s)" for kv
    using assms(1) that by (auto simp: sun_ok_def)
  then have "inj_on (RaftId \<circ> snd) (set (cachedInfo s'))"
    using assms(1) lt(1) unfolding c sun_ok_def by (fastforce simp: inj_on_def)
  moreover have "\<forall>kv \<in> set (cachedInfo s'). Uuid (snd kv) = fst kv \<and> 1 \<le> RaftId (snd kv) \<and> RaftId (snd kv) \<le> ?id"
    using assms(1) lt unfolding c sun_ok_def by (auto intro: order_trans [OF _ order_less_imp_le])
  moreover have "length (cachedInfo s') = unat ?id" "cachedInfo s' \<noteq> []"
    using assms(1) u sm_store_new_length [OF None, of ?n] by (auto simp: new(4) sun_ok_def)
  moreover have "sm_ok (cachedInfo s')"
    using assms(1) by (simp add: new(4) sun_ok_def sm_laws)
  ultimately show ?thesis
    using new(2,3) by (simp add: sun_ok_def)
qed

lemma sun_ok_step: "sun_step s s' \<Longrightarrow> sun_ok s \<Longrightarrow> sun_ok s'"
  by (elim sun_stepE) (auto simp: sun_ok_MoonRegister, auto simp: ReportClusterInfo_def sun_ok_def)

lemma sun_ok_reachable: "rtranclp sun_step NewSun s \<Longrightarrow> sun_ok s"
  by (induction rule: rtranclp_induct) (auto simp: sun_ok_new sun_ok_step)

section \<open>Properties\<close>

text \<open>
  C30: in every reachable state a registration keeps the identifiers handed out before, gives
  a known uuid its identifier again, and gives a new uuid an identifier no other uuid has.
\<close>

theorem MoonRegister_unique:
  assumes "rtranclp sun_step NewSun s" "lastRaftID s \<noteq> - 1" "MoonRegister n s = Ret (s', r)"
  shows "(\<forall>u i. sm_load (cachedInfo s) u = Some i \<longrightarrow> sm_load (cachedInfo s') u = Some i)
    \<and> (\<forall>u i. sm_load (cachedInfo s') u = Some i \<longrightarrow> (RaftId i = RaftId_rr r \<longleftrightarrow> u = Uuid n))
    \<and> 1 \<le> RaftId_rr r"
proof -
  have ok: "sun_ok s" "sun_ok s'"
    using sun_ok_reachable [OF assms(1)] sun_ok_MoonRegister [OF _ assms(2,3)] by blast+
  have keep: "\<forall>u i. sm_load (cachedInfo s) u = Some i \<longrightarrow> sm_load (cachedInfo s') u = Some i"
  proof (cases "sm_load (cachedInfo s) (Uuid n)")
    case None
    then show ?thesis
      using ok(1) by (auto simp: MoonRegister_new(4) [OF None assms(3)] sun_ok_def sm_laws)
  next
    case (Some i)
    then show ?thesis
      using assms(3) MoonRegister_cached [OF Some ok(1)] by simp
  qed
  have "\<exists>i. sm_load (cachedInfo s') (Uuid n) = Some i \<and> RaftId i = RaftId_rr r"
  proof (cases "sm_load (cachedInfo s) (Uuid n)")
    case None
    then show ?thesis
      using ok(1) MoonRegister_new [OF None assms(3)] by (simp add: sun_ok_def sm_laws)
  next
    case (Some i)
    then show ?thesis
      using assms(3) MoonRegister_cached [OF Some ok(1)] by auto
  qed
  then obtain i where i: "sm_load (cachedInfo s') (Uuid n) = Some i" "RaftId i = RaftId_rr r"
    by blast
  have sm: "sm_ok (cachedInfo s')" and inj: "inj_on (RaftId \<circ> snd) (set (cachedInfo s'))"
    using ok(2) by (simp_all add: sun_ok_def)
  have uniq: "u = Uuid n" if "sm_load (cachedInfo s') u = Some j" "RaftId j = RaftId_rr r" for u j
    using inj_onD [OF inj, of "(u, j)" "(Uuid n, i)"] i that sm_load_set [OF sm] by simp
  have pos: "1 \<le> RaftId_rr r"
  proof -
    have "\<forall>kv \<in> set (cachedInfo s'). 1 \<le> RaftId (snd kv)"
      using ok(2) by (simp add: sun_ok_def)
    moreover have "(Uuid n, i) \<in> set (cachedInfo s')"
      using i(1) sm_load_set [OF sm] by simp
    ultimately show ?thesis
      using i(2) by (metis snd_conv)
  qed
  have "RaftId j = RaftId_rr r \<longleftrightarrow> u = Uuid n" if "sm_load (cachedInfo s') u = Some j" for u j
    using uniq [OF that] that i by auto
  with keep pos show ?thesis
    by blast
qed

theorem MoonRegister_unique_witness:
  "\<exists>s s' r. MoonRegister (example_edge ''a'') NewSun = Ret (s, \<lparr>RaftId_rr = 1, HasLeader = False, ClusterInfo_rr = sun_clusterInfo s\<rparr>)
     \<and> MoonRegister (example_edge ''b'') s = Ret (s', r) \<and> RaftId_rr r \<noteq> 1"
proof -
  have "case MoonRegister (example_edge ''a'') NewSun of
      Ret (s, r) \<Rightarrow> RaftId_rr r = 1 \<and> \<not> HasLeader r \<and> lastRaftID s = 1
        \<and> map_option RaftId (sm_load (cachedInfo s) ''a'') = Some 1
        \<and> (case MoonRegister (example_edge ''b'') s of Ret _ \<Rightarrow> True | _ \<Rightarrow> False) | _ \<Rightarrow> False"
    by code_simp
  then obtain s r1 s' r i where m: "MoonRegister (example_edge ''a'') NewSun = Ret (s, r1)" "RaftId_rr r1 = 1"
      "\<not> HasLeader r1" "lastRaftID s = 1" "sm_load (cachedInfo s) ''a'' = Some i" "RaftId i = 1"
      "MoonRegister (example_edge ''b'') s = Ret (s', r)"
    by (auto split: exec.splits prod.splits)
  have "rtranclp sun_step NewSun s"
    by (rule r_into_rtranclp, rule sun_step.register [OF m(1)]) (simp add: NewSun_def)
  then have "RaftId_rr r \<noteq> 1"
    using MoonRegister_unique [of s "example_edge ''b''" s' r] m(4-7) example_edge_def by fastforce
  moreover have "r1 = \<lparr>RaftId_rr = 1, HasLeader = False, ClusterInfo_rr = sun_clusterInfo s\<rparr>"
    using MoonRegister_new(6) [OF _ m(1)] m(2,3) by (cases r1) (simp add: NewSun_def sm_load_def)
  ultimately show ?thesis
    using m(1,7) by blast
qed

end
