(* ===== verification/Watcher.thy ===== *)
theory Watcher
  imports Moon Monitor Sun
begin

text \<open>
  Membership of the cluster (\<^verbatim>\<open>edge-node/watcher/watcher.go\<close>): the watcher joins the node to the
  cluster, and on the leader turns changes of the membership into a new cluster information
  with a new term, proposed through the moon.  Its callbacks run when the information
  storages are updated.  The clock is an argument; the waiting of the commit timer is a step of
  its own.  The storage register belongs to the moon and is shared with the watcher, and so is
  the record of the own node, which both components reach through one pointer.  Calls to other
  machines are represented by their replies.
\<close>

section \<open>State\<close>

text \<open>The update functions installed in the storages, by the component that installs them.\<close>

datatype callback = cb_nodeInfoChanged | cb_clusterInfoChanged | cb_applyNewClusterInfo

record Watcher =
  selfNodeInfo :: NodeInfo
  wmoon :: "callback Moon"
  wmonitor :: NodeMonitor
  timer :: bool
  currentClusterInfo :: ClusterInfo
  SunAddr :: string
  initPending :: bool
  wctx_done :: bool

definition zero_cluster :: ClusterInfo where
  "zero_cluster = \<lparr>Term = 0, LeaderInfo = None, NodesInfo = [], UpdateTimestamp = None, MetaPgNum = 0,
     MetaPgSize = 0, BlockPgNum = 0, BlockPgSize = 0, LastTerm = 0\<rparr>"

definition register_w :: "Watcher \<Rightarrow> callback StorageRegister" where
  "register_w w = infoStorageRegister (wmoon w)"

text \<open>\<^verbatim>\<open>storage.SetOnUpdate\<close> on the storage of a type; without that storage the process ends.\<close>

definition SetOnInfoUpdate :: "InfoType \<Rightarrow> string \<Rightarrow> callback \<Rightarrow> Watcher \<Rightarrow> Watcher exec" where
  "SetOnInfoUpdate infoType name f w =
     exec_bind (reg_GetStorage (register_w w) infoType) (\<lambda>s.
       Ret (w\<lparr>wmoon := (wmoon w)\<lparr>infoStorageRegister :=
              reg_Register infoType (mis_SetOnUpdate name f s) (register_w w)\<rparr>\<rparr>))"

definition NewWatcher :: "NodeInfo \<Rightarrow> string \<Rightarrow> callback Moon \<Rightarrow> Watcher exec" where
  "NewWatcher self sunAddr m =
     (let w = \<lparr>selfNodeInfo = self, wmoon = m, wmonitor = NewMonitor, timer = False,
               currentClusterInfo = zero_cluster, SunAddr = sunAddr, initPending = False, wctx_done = False\<rparr>
      in exec_bind (SetOnInfoUpdate NODE_INFO (''watcher-'' @ Uuid self) cb_nodeInfoChanged w) (\<lambda>w.
         exec_bind (SetOnInfoUpdate CLUSTER_INFO (''watcher-'' @ Uuid self) cb_clusterInfoChanged w) (\<lambda>w.
           Ret (w\<lparr>wmonitor := fst (mon_Register ''status_reporter'' (wmonitor w))\<rparr>))))"

section \<open>Reading the cluster information\<close>

definition GetCurrentClusterInfo :: "Watcher \<Rightarrow> ClusterInfo" where
  "GetCurrentClusterInfo w = currentClusterInfo w"

definition GetCurrentTerm :: "Watcher \<Rightarrow> u64" where
  "GetCurrentTerm w = Term (GetCurrentClusterInfo w)"

text \<open>\<^verbatim>\<open>info.BaseInfo().GetClusterInfo()\<close> and its companions: nil when the member is another one.\<close>

definition GetClusterInfo_base :: "Information \<Rightarrow> ClusterInfo option" where
  "GetClusterInfo_base i = (case BaseInfo_of i of Some (BaseInfo_ClusterInfo c) \<Rightarrow> Some c | _ \<Rightarrow> None)"

definition GetNodeInfo_base :: "Information \<Rightarrow> NodeInfo option" where
  "GetNodeInfo_base i = (case BaseInfo_of i of Some (BaseInfo_NodeInfo n) \<Rightarrow> Some n | _ \<Rightarrow> None)"

definition GetBucketInfo_base :: "Information \<Rightarrow> BucketInfo option" where
  "GetBucketInfo_base i = (case BaseInfo_of i of Some (BaseInfo_BucketInfo b) \<Rightarrow> Some b | _ \<Rightarrow> None)"

definition GetClusterInfoByTerm :: "Watcher \<Rightarrow> u64 \<Rightarrow> ClusterInfo result exec" where
  "GetClusterInfoByTerm w term =
     (if term = 0 then
        (let info = GetCurrentClusterInfo w
         in Ret (if Term info = 0 then Inl (Err InfoNotFound) else Inr info))
      else exec_bind (reg_GetStorage (register_w w) CLUSTER_INFO) (\<lambda>s.
        case mis_Get s (FormatUint term) of
          Inl err \<Rightarrow> Ret (Inl err)
        | Inr info \<Rightarrow>
            (case GetClusterInfo_base info of
               None \<Rightarrow> Panic ''nil pointer dereference''
             | Some c \<Rightarrow> Ret (Inr c))))"

definition GetClusterInfo_rpc :: "Watcher \<Rightarrow> u64 \<Rightarrow> (Result \<times> ClusterInfo option \<times> go_error option) exec" where
  "GetClusterInfo_rpc w term =
     exec_bind (GetClusterInfoByTerm w term) (\<lambda>res.
       case res of
         Inl err \<Rightarrow> Ret (\<lparr>Status_r = Result_FAIL, Message = Error err\<rparr>, None, Some err)
       | Inr info \<Rightarrow> Ret (\<lparr>Status_r = Result_OK, Message = []\<rparr>, Some info, None))"

text \<open>
  Sorting by descending raft identifier.  The elements have distinct identifiers, so the order
  is determined.  A stored element without node information would be dereferenced.
\<close>

definition sort_nodes :: "NodeInfo list \<Rightarrow> NodeInfo list" where
  "sort_nodes ns = rev (sort_key RaftId ns)"

definition all_nodes :: "Information list \<Rightarrow> NodeInfo list exec" where
  "all_nodes is =
     (if None \<in> set (map GetNodeInfo_base is) then Panic ''nil pointer dereference''
      else Ret (map (the \<circ> GetNodeInfo_base) is))"

definition getCurrentPeerInfo :: "Watcher \<Rightarrow> NodeInfo list exec" where
  "getCurrentPeerInfo w =
     exec_bind (reg_GetStorage (register_w w) NODE_INFO) (\<lambda>s.
     exec_bind (all_nodes (mis_GetAll s)) (\<lambda>ns. Ret (sort_nodes ns)))"

section \<open>A new cluster information\<close>

definition node_with_state :: "NodeMonitor \<Rightarrow> NodeInfo \<Rightarrow> NodeInfo" where
  "node_with_state mon n =
     (case GetNodeReport mon (RaftId n) of
        None \<Rightarrow> n\<lparr>State := OFFLINE\<rparr>
      | Some r \<Rightarrow> n\<lparr>State := State_ns r\<rparr>)"

definition genNewClusterInfo :: "u64 \<Rightarrow> Watcher \<Rightarrow> ClusterInfo option exec" where
  "genNewClusterInfo now w =
     exec_bind (reg_GetStorage (register_w w) NODE_INFO) (\<lambda>s.
     exec_bind (all_nodes (mis_GetAll s)) (\<lambda>ns.
     exec_bind (GetLeaderID (wmoon w)) (\<lambda>leaderID.
       case mis_Get s (FormatUint leaderID) of
         Inl err \<Rightarrow> Ret None
       | Inr leader \<Rightarrow>
           Ret (Some \<lparr>Term = now, LeaderInfo = GetNodeInfo_base leader,
                      NodesInfo = sort_nodes (map (node_with_state (wmonitor w)) ns),
                      UpdateTimestamp = None, MetaPgNum = 10, MetaPgSize = 3, BlockPgNum = 100,
                      BlockPgSize = 3, LastTerm = GetCurrentTerm w\<rparr>))))"

section \<open>Callbacks\<close>

definition nodeInfoChanged :: "Watcher \<Rightarrow> Watcher" where
  "nodeInfoChanged w = (if \<not> IsLeader (wmoon w) then w else w\<lparr>timer := True\<rparr>)"

definition clusterInfoChanged :: "Information \<Rightarrow> Watcher \<Rightarrow> Watcher exec" where
  "clusterInfoChanged info w =
     (let w1 = (if Term (currentClusterInfo w) = 0 \<and> IsLeader (wmoon w) then w\<lparr>initPending := True\<rparr> else w)
      in case GetClusterInfo_base info of
           None \<Rightarrow> Panic ''nil pointer dereference''
         | Some c \<Rightarrow> Ret (w1\<lparr>currentClusterInfo := c\<rparr>))"

text \<open>The calls made by an update, in order; those of the metadata service are left to it.\<close>

primrec run_callbacks :: "(callback \<times> Information) list \<Rightarrow> Watcher \<Rightarrow> Watcher exec" where
  "run_callbacks [] w = Ret w"
| "run_callbacks (c # cs) w =
     (case fst c of
        cb_nodeInfoChanged \<Rightarrow> run_callbacks cs (nodeInfoChanged w)
      | cb_clusterInfoChanged \<Rightarrow> exec_bind (clusterInfoChanged (snd c) w) (run_callbacks cs)
      | cb_applyNewClusterInfo \<Rightarrow> run_callbacks cs w)"

text \<open>Committed requests reach the moon of this node, and their callbacks run.\<close>

definition commit_requests :: "ProposeInfoRequest list \<Rightarrow> Watcher \<Rightarrow> Watcher exec" where
  "commit_requests qs w =
     exec_bind (apply_requests qs (wmoon w)) (\<lambda>(m, calls). run_callbacks calls (w\<lparr>wmoon := m\<rparr>))"

section \<open>Proposals\<close>

text \<open>\<^verbatim>\<open>w.moon.ProposeInfo\<close>, with the identifier it draws and what the group commits ahead of it.\<close>

definition propose_w ::
    "u64 \<Rightarrow> ProposeInfoRequest list \<Rightarrow> ProposeInfoRequest \<Rightarrow> Watcher \<Rightarrow> (Watcher \<times> Result result) exec" where
  "propose_w opID before q w =
     exec_bind (ProposeInfo opID before q (wmoon w)) (\<lambda>(m, calls, res).
     exec_bind (run_callbacks calls (w\<lparr>wmoon := m\<rparr>)) (\<lambda>w. Ret (w, res)))"

definition cluster_request :: "ClusterInfo \<Rightarrow> ProposeInfoRequest" where
  "cluster_request c =
     \<lparr>Operate_pi = ADD, Id = FormatUint (Term c), BaseInfo_pi = Some (BaseInfo_ClusterInfo c), OperateId_pi = 0\<rparr>"

definition proposeClusterInfo :: "u64 \<Rightarrow> ProposeInfoRequest list \<Rightarrow> ClusterInfo \<Rightarrow> Watcher \<Rightarrow> Watcher exec" where
  "proposeClusterInfo opID before c w =
     (if \<not> IsLeader (wmoon w) then Ret w
      else exec_bind (propose_w opID before (cluster_request c) w) (\<lambda>(w, res). Ret w))"

text \<open>The commit timer fires: a new cluster information is generated and proposed.\<close>

definition timer_fires :: "u64 \<Rightarrow> ProposeInfoRequest list \<Rightarrow> u64 \<Rightarrow> Watcher \<Rightarrow> Watcher exec" where
  "timer_fires opID before now w0 =
     (let w = w0\<lparr>timer := False\<rparr>
      in if wctx_done w then Ret w
         else exec_bind (genNewClusterInfo now w) (\<lambda>ci.
           case ci of None \<Rightarrow> Ret w | Some c \<Rightarrow> proposeClusterInfo opID before c w))"

text \<open>One event of the monitor, or the end of the context.\<close>

definition processMonitor :: "Watcher \<Rightarrow> Watcher" where
  "processMonitor w =
     (case eventChannel (wmonitor w) of
        [] \<Rightarrow> w
      | e # es \<Rightarrow>
          (if wctx_done w then w
           else nodeInfoChanged (w\<lparr>wmonitor := (wmonitor w)\<lparr>eventChannel := es\<rparr>\<rparr>)))"

definition initCluster :: "u64 \<Rightarrow> ProposeInfoRequest list \<Rightarrow> Watcher \<Rightarrow> Watcher exec" where
  "initCluster opID before w0 =
     (let w = w0\<lparr>initPending := False\<rparr>
      in case GenBucketInfo ''root'' ''default'' ''root'' of
        None \<Rightarrow> Panic ''nil pointer dereference''
      | Some b \<Rightarrow>
          (case GetInfoDirect (wmoon w) BUCKET_INFO (BucketInfo_GetID b) of
             Inr i \<Rightarrow> Ret w
           | Inl err \<Rightarrow>
               exec_bind (propose_w opID before
                 \<lparr>Operate_pi = ADD, Id = BucketInfo_GetID b,
                  BaseInfo_pi = BaseInfo_of (IBucket b), OperateId_pi = 0\<rparr> w) (\<lambda>(w, res). Ret w)))"

definition node_request :: "NodeInfo \<Rightarrow> ProposeInfoRequest" where
  "node_request n =
     \<lparr>Operate_pi = ADD, Id = FormatUint (RaftId n), BaseInfo_pi = Some (BaseInfo_NodeInfo n), OperateId_pi = 0\<rparr>"

text \<open>
  A node not known yet is proposed, then added to the raft group of the moon; \<open>events\<close> is what is
  sent to the channels the second step waits for.
\<close>

definition add_new_node ::
    "u64 \<Rightarrow> ProposeInfoRequest list \<Rightarrow> conf_event list \<Rightarrow> NodeInfo \<Rightarrow> Watcher \<Rightarrow> (Watcher \<times> go_error option) exec" where
  "add_new_node opID before events info w =
     exec_bind (propose_w opID before (node_request info) w) (\<lambda>(w, res).
       case res of
         Inl err \<Rightarrow> Ret (w, Some err)
       | Inr r \<Rightarrow>
           exec_bind (ProposeConfChangeAddNode events info (wmoon w)) (\<lambda>(m, err). Ret (w\<lparr>wmoon := m\<rparr>, err)))"

text \<open>The reply carries the peers known afterwards.\<close>

definition AddNewNodeToCluster ::
    "u64 \<Rightarrow> ProposeInfoRequest list \<Rightarrow> conf_event list \<Rightarrow> NodeInfo \<Rightarrow> Watcher \<Rightarrow> (Watcher \<times> NodeInfo list result) exec" where
  "AddNewNodeToCluster opID before events info w =
     exec_bind (getCurrentPeerInfo w) (\<lambda>ps.
     exec_bind (if \<exists>p \<in> set ps. RaftId p = RaftId info
                then Ret (w\<lparr>wmoon := NodeInfoChanged info (wmoon w)\<rparr>, None)
                else add_new_node opID before events info w) (\<lambda>(w, err).
       case err of
         Some e \<Rightarrow> Ret (w, Inl e)
       | None \<Rightarrow> exec_bind (getCurrentPeerInfo w) (\<lambda>ps. Ret (w, Inr ps))))"

section \<open>Joining the cluster\<close>

text \<open>\<open>reply\<close> is what the registration service answers.\<close>

definition AskSky :: "RegisterResult result \<Rightarrow> Watcher \<Rightarrow> Watcher \<times> NodeInfo option result" where
  "AskSky reply w =
     (if SunAddr w = [] then (w, Inl (Err ConnectSunFail))
      else case reply of
        Inl err \<Rightarrow> (w, Inl err)
      | Inr r \<Rightarrow>
          (let self = (selfNodeInfo w)\<lparr>RaftId := RaftId_rr r\<rparr>
           in (w\<lparr>selfNodeInfo := self, wmoon := (wmoon w)\<lparr>SelfInfo := self\<rparr>\<rparr>,
               Inr (LeaderInfo (ClusterInfo_rr r)))))"

text \<open>\<open>reply\<close> is what the leader answers to the request to add this node.\<close>

definition RequestJoinCluster :: "NodeInfo option \<Rightarrow> NodeInfo list result \<Rightarrow> Watcher \<Rightarrow> Watcher \<times> go_error option" where
  "RequestJoinCluster leader reply w =
     (if leader = None \<or> map_option RaftId leader = Some (RaftId (selfNodeInfo w))
      then (w\<lparr>wmoon := Set (selfNodeInfo w) leader [] (wmoon w)\<rparr>, None)
      else case reply of
        Inl err \<Rightarrow> (w, Some err)
      | Inr ps \<Rightarrow> (w\<lparr>wmoon := Set (selfNodeInfo w) leader ps (wmoon w)\<rparr>, None))"

text \<open>The run of the watcher up to the start of the moon; the leader's record is logged.\<close>

definition watcher_start ::
    "RegisterResult result \<Rightarrow> NodeInfo list result \<Rightarrow> NodeInfo list \<Rightarrow> Watcher \<Rightarrow> Watcher exec" where
  "watcher_start sky reply nodesInfo w =
     (let (w, res) = AskSky sky w
      in exec_bind (case res of
             Inl err \<Rightarrow> Ret w
           | Inr None \<Rightarrow> Panic ''nil pointer dereference''
           | Inr (Some l) \<Rightarrow> Ret (fst (RequestJoinCluster (Some l) reply w)))
           (\<lambda>w. Ret (w\<lparr>wmoon := moon_start nodesInfo (wmoon w)\<rparr>)))"

definition watcher_stop :: "Watcher \<Rightarrow> Watcher" where
  "watcher_stop w = w\<lparr>wmoon := moon_stop (wmoon w), wctx_done := True\<rparr>"

text \<open>One round of the waiting loop: the answer, or \<open>None\<close> to sleep and look again.\<close>

definition WaitClusterOK :: "Watcher \<Rightarrow> bool option" where
  "WaitClusterOK w =
     (if wctx_done w then Some False
      else if Term (GetCurrentClusterInfo w) \<noteq> 0 \<and> RaftId (selfNodeInfo w) \<noteq> 0 then Some True else None)"


section \<open>Specification\<close>

text \<open>The nodes the information service knows.\<close>

definition known_nodes :: "Watcher \<Rightarrow> NodeInfo set" where
  "known_nodes w = {n. \<exists>i. reg_Get (register_w w) NODE_INFO (FormatUint (RaftId n)) = Inr i \<and> GetNodeInfo_base i = Some n}"

definition onUpdate :: "'f StorageRegister \<Rightarrow> InfoType \<Rightarrow> 'f set" where
  "onUpdate r t = (case sm_load (storageMap r) t of None \<Rightarrow> {} | Some s \<Rightarrow> snd ` set (onUpdateMap s))"

text \<open>The watcher is told of every update of the cluster information, and of that type only.\<close>

definition watcher_ok :: "Watcher \<Rightarrow> bool" where
  "watcher_ok w \<longleftrightarrow> moon_ok (wmoon w)
     \<and> {t. cb_clusterInfoChanged \<in> onUpdate (register_w w) t} = {CLUSTER_INFO}"

text \<open>The cluster information a committed request leaves current.\<close>

definition cluster_spec :: "ProposeInfoRequest \<Rightarrow> ClusterInfo \<Rightarrow> ClusterInfo" where
  "cluster_spec q c =
     (if Operate_pi q = DELETE_INFO \<or> is_other (Operate_pi q) then c
      else case BaseInfo_pi q of Some (BaseInfo_ClusterInfo c') \<Rightarrow> c' | _ \<Rightarrow> c)"

definition cluster_call :: "callback \<times> Information \<Rightarrow> ClusterInfo \<Rightarrow> ClusterInfo" where
  "cluster_call c x = (if fst c = cb_clusterInfoChanged then the (GetClusterInfo_base (snd c)) else x)"

text \<open>What the callbacks leave as it was.\<close>

definition same_frame :: "Watcher \<Rightarrow> Watcher \<Rightarrow> bool" where
  "same_frame w w' \<longleftrightarrow> wmoon w' = wmoon w \<and> wmonitor w' = wmonitor w \<and> selfNodeInfo w' = selfNodeInfo w
     \<and> wctx_done w' = wctx_done w \<and> SunAddr w' = SunAddr w"

section \<open>Lemmas\<close>

lemma same_frame_trans: "same_frame a b \<Longrightarrow> same_frame b c \<Longrightarrow> same_frame a c"
  by (simp add: same_frame_def)

lemma run_callbacks_Ret:
  assumes "\<forall>c \<in> set calls. fst c = cb_clusterInfoChanged \<longrightarrow> GetClusterInfo_base (snd c) \<noteq> None"
  shows "\<exists>w'. run_callbacks calls w = Ret w' \<and> same_frame w w'
    \<and> currentClusterInfo w' = fold cluster_call calls (currentClusterInfo w)"
  using assms
proof (induction calls arbitrary: w)
  case Nil
  then show ?case
    by (simp add: same_frame_def)
next
  case (Cons c cs)
  have step: "\<exists>w1. run_callbacks (c # cs) w = run_callbacks cs w1 \<and> same_frame w w1
      \<and> currentClusterInfo w1 = cluster_call c (currentClusterInfo w)"
    using Cons.prems
    by (cases "fst c") (auto simp: nodeInfoChanged_def clusterInfoChanged_def cluster_call_def same_frame_def Let_def)
  then obtain w1 where w1: "run_callbacks (c # cs) w = run_callbacks cs w1" "same_frame w w1"
      "currentClusterInfo w1 = cluster_call c (currentClusterInfo w)"
    by blast
  then show ?case
    using Cons.IH [of w1] Cons.prems same_frame_trans [OF w1(2)] by (metis fold_simps(2) list.set_intros(2))
qed

lemma onUpdate_Update [simp]: "reg_ok r \<Longrightarrow> onUpdate (fst (reg_Update i r)) t = onUpdate r t"
  by (cases "sm_load (storageMap r) (GetInfoType i)")
    (auto simp: onUpdate_def reg_Update_def mis_Update_def Let_def reg_ok_def sm_laws)

lemma onUpdate_Delete [simp]: "reg_ok r \<Longrightarrow> onUpdate (fst (reg_Delete ty k r)) t = onUpdate r t"
  by (cases "sm_load (storageMap r) ty")
    (auto simp: onUpdate_def reg_Delete_def mis_Delete_def reg_ok_def sm_laws)

lemma reg_Update_calls:
  "set (fst (snd (reg_Update i r))) = (\<lambda>f. (f, i)) ` onUpdate r (GetInfoType i)"
  by (cases "sm_load (storageMap r) (GetInfoType i)")
    (force simp: reg_Update_def mis_Update_def Let_def onUpdate_def)+

lemma fold_cluster_call_const:
  assumes "\<forall>c \<in> set calls. snd c = i"
  shows "fold cluster_call calls x =
    (if cb_clusterInfoChanged \<in> fst ` set calls then the (GetClusterInfo_base i) else x)"
  using assms by (induction calls arbitrary: x) (auto simp: cluster_call_def)

lemma GetClusterInfo_base_IBase:
  "BaseInfo_GetInfoType b = CLUSTER_INFO \<longleftrightarrow> (\<exists>c. b = BaseInfo_ClusterInfo c)"
  by (cases b) auto

lemma reg_Update_cluster_calls:
  fixes r :: "callback StorageRegister" and b :: BaseInfo
  assumes cb: "{t. cb_clusterInfoChanged \<in> onUpdate r t} = {CLUSTER_INFO}"
  defines "calls \<equiv> fst (snd (reg_Update (IBase b) r))"
  shows "fold cluster_call calls x = (case b of BaseInfo_ClusterInfo c \<Rightarrow> c | _ \<Rightarrow> x)"
    and "c \<in> set calls \<Longrightarrow> fst c = cb_clusterInfoChanged \<Longrightarrow> GetClusterInfo_base (snd c) \<noteq> None"
proof -
  have s: "set calls = (\<lambda>f. (f, IBase b)) ` onUpdate r (BaseInfo_GetInfoType b)"
    unfolding calls_def reg_Update_calls by simp
  then have "fst ` set calls = onUpdate r (BaseInfo_GetInfoType b)"
    by (simp add: image_image)
  moreover have "cb_clusterInfoChanged \<in> onUpdate r t \<longleftrightarrow> t = CLUSTER_INFO" for t
    using cb by blast
  ultimately have i: "cb_clusterInfoChanged \<in> fst ` set calls \<longleftrightarrow> (\<exists>c. b = BaseInfo_ClusterInfo c)"
    using GetClusterInfo_base_IBase [of b] by simp
  have "\<forall>c \<in> set calls. snd c = IBase b"
    by (simp add: s)
  then show "fold cluster_call calls x = (case b of BaseInfo_ClusterInfo c \<Rightarrow> c | _ \<Rightarrow> x)"
    using fold_cluster_call_const [of calls "IBase b" x] i
    by (cases b) (simp_all add: GetClusterInfo_base_def)
  show "GetClusterInfo_base (snd c) \<noteq> None" if c: "c \<in> set calls" "fst c = cb_clusterInfoChanged"
  proof -
    obtain ci where "b = BaseInfo_ClusterInfo ci"
      using c i by (metis imageI)
    moreover have "snd c = IBase b"
      using c(1) s by (simp add: image_iff) (metis snd_conv)
    ultimately show ?thesis
      by (simp add: GetClusterInfo_base_def)
  qed
qed

lemma apply_request_calls:
  assumes q: "apply_request q (wmoon w) = Ret (m', calls)" and w: "watcher_ok w"
  shows "watcher_ok (w\<lparr>wmoon := m'\<rparr>) \<and> fold cluster_call calls x = cluster_spec q x
    \<and> (\<forall>c \<in> set calls. fst c = cb_clusterInfoChanged \<longrightarrow> GetClusterInfo_base (snd c) \<noteq> None)"
proof -
  let ?r = "infoStorageRegister (wmoon w)"
  have m: "moon_ok (wmoon w)" "reg_ok ?r" and cb: "{t. cb_clusterInfoChanged \<in> onUpdate ?r t} = {CLUSTER_INFO}"
    using w by (simp_all add: watcher_ok_def moon_ok_def register_w_def)
  have m': "moon_ok m'"
    using apply_request_ok [OF q m(1)] by simp
  from q show ?thesis
  proof (cases rule: apply_request_cases)
    case other
    then show ?thesis
      using m' cb by (simp add: watcher_ok_def register_w_def cluster_spec_def)
  next
    case (delete b)
    then show ?thesis
      using m' m(2) cb by (simp add: watcher_ok_def register_w_def cluster_spec_def)
  next
    case (update b)
    have "fold cluster_call calls x = cluster_spec q x"
      using reg_Update_cluster_calls(1) [OF cb, of b x] update(1,2)
      by (cases b) (auto simp: update(4) cluster_spec_def)
    then show ?thesis
      using m' m(2) cb update(3) reg_Update_cluster_calls(2) [OF cb, of _ b] update(4)
      by (simp add: watcher_ok_def register_w_def)
  qed
qed

lemma apply_requests_calls:
  assumes "apply_requests qs (wmoon w) = Ret (m', calls)" "watcher_ok w"
  shows "watcher_ok (w\<lparr>wmoon := m'\<rparr>) \<and> fold cluster_call calls x = fold cluster_spec qs x
    \<and> (\<forall>c \<in> set calls. fst c = cb_clusterInfoChanged \<longrightarrow> GetClusterInfo_base (snd c) \<noteq> None)"
  using assms
proof (induction qs arbitrary: w calls x)
  case (Cons q qs)
  then obtain m1 c1 c2 where e: "apply_request q (wmoon w) = Ret (m1, c1)" "apply_requests qs m1 = Ret (m', c2)"
      "calls = c1 @ c2"
    by auto
  note 1 = apply_request_calls [OF e(1) Cons.prems(2), of x]
  have "watcher_ok (w\<lparr>wmoon := m1\<rparr>)" "apply_requests qs (wmoon (w\<lparr>wmoon := m1\<rparr>)) = Ret (m', c2)"
    using 1 e(2) by simp_all
  note 2 = Cons.IH [OF this(2,1), of "cluster_spec q x"]
  show ?case
    using 1 2 e(3) by auto
qed (simp add: watcher_ok_def register_w_def)

lemma watcher_ok_moon: "watcher_ok w \<Longrightarrow> moon_ok (wmoon w)"
  by (simp add: watcher_ok_def)

lemma watcher_ok_frame: "same_frame w w' \<Longrightarrow> watcher_ok w' = watcher_ok w"
  by (simp add: same_frame_def watcher_ok_def register_w_def)

lemma moon_run_callbacks:
  assumes "apply_requests qs (wmoon w) = Ret (m', calls)" "watcher_ok w"
  shows "\<exists>w'. run_callbacks calls (w\<lparr>wmoon := m'\<rparr>) = Ret w' \<and> watcher_ok w' \<and> same_frame (w\<lparr>wmoon := m'\<rparr>) w'
    \<and> currentClusterInfo w' = fold cluster_spec qs (currentClusterInfo w)"
proof -
  note c = apply_requests_calls [OF assms, of "currentClusterInfo w"]
  obtain w' where "run_callbacks calls (w\<lparr>wmoon := m'\<rparr>) = Ret w'" "same_frame (w\<lparr>wmoon := m'\<rparr>) w'"
      "currentClusterInfo w' = fold cluster_call calls (currentClusterInfo w)"
    using run_callbacks_Ret [of calls "w\<lparr>wmoon := m'\<rparr>"] c by auto
  then show ?thesis
    using c watcher_ok_frame by auto
qed

lemma propose_w_Ret:
  assumes "watcher_ok w" "raft_peers (wmoon w) \<noteq> None" "Id q \<noteq> []"
    "\<forall>p \<in> set (before @ [q]). BaseInfo_pi p \<noteq> None"
  shows "\<exists>w'. propose_w opID before q w = Ret (w', Inr \<lparr>Status_r = Result_OK, Message = []\<rparr>) \<and> watcher_ok w'
    \<and> currentClusterInfo w' = cluster_spec q (fold cluster_spec before (currentClusterInfo w))
    \<and> moon_lookup (wmoon w') = info_spec q (fold info_spec before (moon_lookup (wmoon w)))
    \<and> raft_peers (wmoon w') \<noteq> None \<and> ConfChangeC (wmoon w') = ConfChangeC (wmoon w)"
proof -
  let ?q = "q\<lparr>OperateId_pi := opID\<rparr>" and ?m = "(wmoon w)\<lparr>registered_m := opID # registered_m (wmoon w)\<rparr>"
  let ?w = "w\<lparr>wmoon := ?m\<rparr>"
  have ok: "request_ok q" "\<forall>p \<in> set before. request_ok p"
    using assms(4) by (simp_all add: request_ok_def)
  obtain m' calls where m': "ProposeInfo opID before q (wmoon w) = Ret (m', calls, Inr \<lparr>Status_r = Result_OK, Message = []\<rparr>)"
      "raft_peers m' = raft_peers (wmoon w)" "moon_lookup m' = info_spec q (fold info_spec before (moon_lookup (wmoon w)))"
      "apply_requests (before @ [?q]) ?m = Ret (m', calls)"
    by (rule ProposeInfo_applied [OF watcher_ok_moon [OF assms(1)] assms(2,3) ok, of opID])
  have w: "watcher_ok ?w"
    using assms(1) by (simp add: watcher_ok_def register_w_def moon_ok_def)
  have "apply_requests (before @ [?q]) (wmoon ?w) = Ret (m', calls)"
    using m'(4) by simp
  moreover have "cluster_spec ?q = cluster_spec q"
    by (rule ext) (simp add: cluster_spec_def)
  ultimately obtain w' where w': "run_callbacks calls (w\<lparr>wmoon := m'\<rparr>) = Ret w'" "watcher_ok w'" "wmoon w' = m'"
      "currentClusterInfo w' = cluster_spec q (fold cluster_spec before (currentClusterInfo w))"
    using moon_run_callbacks [OF _ w] by (fastforce simp: same_frame_def)
  then show ?thesis
    using m'(1-3) apply_requests_raft [OF m'(4)] assms(2) by (auto simp: propose_w_def)
qed

section \<open>The nodes of the service\<close>

lemma node_type_base:
  "GetInfoType v = NODE_INFO \<Longrightarrow> \<exists>n. GetNodeInfo_base v = Some n \<and> GetID v = FormatUint (RaftId n)"
proof (cases v)
  case (IBase b)
  then show "GetInfoType v = NODE_INFO \<Longrightarrow> ?thesis"
    by (cases b) (simp_all add: GetNodeInfo_base_def NodeInfo_GetID_def)
qed (simp_all add: GetNodeInfo_base_def NodeInfo_GetID_def)

lemma node_entries:
  assumes ok: "mis_ok s" and ty: "\<And>v. v \<in> set (mis_GetAll s) \<Longrightarrow> GetInfoType v = NODE_INFO"
  defines "ns \<equiv> map (the \<circ> GetNodeInfo_base) (mis_GetAll s)"
  shows "all_nodes (mis_GetAll s) = Ret ns" "distinct (map RaftId ns)"
    "n \<in> set ns \<longleftrightarrow> (\<exists>i. mis_Get s (FormatUint (RaftId n)) = Inr i \<and> GetNodeInfo_base i = Some n)"
proof -
  let ?n = "the \<circ> GetNodeInfo_base" and ?kv = "kvStorage s"
  have kv: "GetNodeInfo_base (snd e) = Some (?n (snd e)) \<and> fst e = FormatUint (RaftId (?n (snd e)))" if "e \<in> set ?kv" for e
    using node_type_base [OF ty [of "snd e"]] that ok by (fastforce simp: mis_GetAll_def mis_ok_def)
  have "None \<notin> set (map GetNodeInfo_base (mis_GetAll s))"
    using node_type_base [OF ty] by (metis (no_types, lifting) imageE list.set_map option.distinct(1))
  then show "all_nodes (mis_GetAll s) = Ret ns"
    by (simp add: all_nodes_def ns_def)
  have "map fst ?kv = map FormatUint (map RaftId ns)"
    using kv by (auto simp: mis_GetAll_def ns_def)
  moreover have "distinct (map fst ?kv)"
    using ok by (simp add: mis_ok_def sm_ok_def)
  ultimately have "distinct (map FormatUint (map RaftId ns))"
    by argo
  then show "distinct (map RaftId ns)"
    unfolding distinct_map [of FormatUint] by blast
  have g: "mis_Get s k = Inr i \<longleftrightarrow> (k, i) \<in> set ?kv" for k i
    using ok sm_load_set [of ?kv k i] by (auto simp: mis_Get_def mis_ok_def split: option.splits)
  show "n \<in> set ns \<longleftrightarrow> (\<exists>i. mis_Get s (FormatUint (RaftId n)) = Inr i \<and> GetNodeInfo_base i = Some n)"
  proof
    assume "n \<in> set ns"
    then obtain e where "e \<in> set ?kv" "n = ?n (snd e)"
      by (auto simp: mis_GetAll_def ns_def)
    then show "\<exists>i. mis_Get s (FormatUint (RaftId n)) = Inr i \<and> GetNodeInfo_base i = Some n"
      using kv [of e] g by (metis prod.collapse)
  next
    assume "\<exists>i. mis_Get s (FormatUint (RaftId n)) = Inr i \<and> GetNodeInfo_base i = Some n"
    then show "n \<in> set ns"
      by (force simp: mis_GetAll_def ns_def g)
  qed
qed

lemma node_storage:
  assumes "moon_ok (wmoon w)"
  obtains s ns where "reg_GetStorage (register_w w) NODE_INFO = Ret s" "all_nodes (mis_GetAll s) = Ret ns"
    "distinct (map RaftId ns)" "set ns = known_nodes w"
    "\<And>k. mis_Get s k = reg_Get (register_w w) NODE_INFO k"
proof -
  let ?r = "register_w w"
  have r: "reg_ok ?r" and "fst ` set (storageMap ?r) = standard_types"
    using assms by (simp_all add: moon_ok_def register_w_def)
  then obtain s where s: "sm_load (storageMap ?r) NODE_INFO = Some s"
    using standard_loaded [of ?r NODE_INFO] by (auto simp: standard_types_def)
  have g: "mis_Get s k = reg_Get ?r NODE_INFO k" for k
    by (simp add: reg_Get_def s)
  have e: "mis_ok s" "\<And>v. v \<in> set (mis_GetAll s) \<Longrightarrow> GetInfoType v = NODE_INFO"
    using reg_ok_load [OF r s] by auto
  show thesis
  proof (rule that)
    show "reg_GetStorage ?r NODE_INFO = Ret s"
      by (simp add: reg_GetStorage_def s)
    show "set (map (the \<circ> GetNodeInfo_base) (mis_GetAll s)) = known_nodes w"
      unfolding known_nodes_def g [symmetric] by (rule set_eqI) (simp only: node_entries(3) [OF e] mem_Collect_eq)
  qed (use node_entries(1,2) [OF e] g in auto)
qed

lemma sort_nodes_props:
  assumes "distinct (map RaftId ns)"
  shows "sorted_wrt (\<lambda>a b. RaftId b < RaftId a) (sort_nodes ns)" "set (sort_nodes ns) = set ns"
proof -
  have "sorted (map RaftId (sort_key RaftId ns))" "distinct (map RaftId (sort_key RaftId ns))"
    using assms by (simp_all add: distinct_map)
  then have "sorted_wrt (<) (map RaftId (sort_key RaftId ns))"
    by (simp add: strict_sorted_iff)
  then show "sorted_wrt (\<lambda>a b. RaftId b < RaftId a) (sort_nodes ns)"
    by (simp add: sort_nodes_def sorted_wrt_map sorted_wrt_rev)
  show "set (sort_nodes ns) = set ns"
    by (simp add: sort_nodes_def)
qed

lemma node_with_state_RaftId [simp]: "RaftId (node_with_state mon n) = RaftId n"
  by (simp add: node_with_state_def split: option.splits)

lemma getCurrentPeerInfo_Ret:
  assumes "moon_ok (wmoon w)"
  shows "\<exists>ps. getCurrentPeerInfo w = Ret ps \<and> set ps = known_nodes w \<and> sorted_wrt (\<lambda>a b. RaftId b < RaftId a) ps"
proof -
  obtain s ns where ns: "reg_GetStorage (register_w w) NODE_INFO = Ret s" "all_nodes (mis_GetAll s) = Ret ns"
      "distinct (map RaftId ns)" "set ns = known_nodes w"
    by (rule node_storage [OF assms])
  show ?thesis
    using sort_nodes_props [OF ns(3)] ns(1,2,4) by (simp add: getCurrentPeerInfo_def)
qed


section \<open>A watcher of one node\<close>

definition example_wmoon :: "callback Moon" where
  "example_wmoon = (Set example_self None [] (NewMoon example_self example_config GetStorageRegister))\<lparr>Lead_m := 1\<rparr>"

definition example_watcher :: "Watcher exec" where
  "example_watcher = exec_bind (NewWatcher example_self ''sun'' example_wmoon) (commit_requests [node_request example_self])"

lemma onUpdate_new: "onUpdate GetStorageRegister t = {}"
  by (cases t) (simp_all add: onUpdate_def GetStorageRegister_def registerAllStorage_def reg_Register_def
      sm_load_def sm_store_def NewMemoryInfoStorage_def)

lemma SetOnInfoUpdate_Ret:
  assumes "moon_ok (wmoon w)" "t \<in> standard_types" "onUpdate (register_w w) t = {}"
  shows "\<exists>r. SetOnInfoUpdate t name f w = Ret (w\<lparr>wmoon := (wmoon w)\<lparr>infoStorageRegister := r\<rparr>\<rparr>)
    \<and> moon_ok ((wmoon w)\<lparr>infoStorageRegister := r\<rparr>) \<and> onUpdate r = (onUpdate (register_w w))(t := {f})"
proof -
  let ?r = "register_w w"
  have r: "reg_ok ?r" and ty: "fst ` set (storageMap ?r) = standard_types"
    using assms by (simp_all add: moon_ok_def register_w_def)
  then obtain s where s: "sm_load (storageMap ?r) t = Some s"
    using standard_loaded [of ?r t] assms(2) by auto
  let ?s = "mis_SetOnUpdate name f s"
  have "mis_ok ?s" "mis_GetAll ?s = mis_GetAll s"
    using reg_ok_load [OF r s] by (simp_all add: mis_ok_SetOnUpdate) (simp add: mis_SetOnUpdate_def mis_GetAll_def)
  then have "reg_ok (reg_Register t ?s ?r)"
    using reg_ok_load [OF r s] by (simp add: reg_ok_Register [OF r])
  then have "moon_ok ((wmoon w)\<lparr>infoStorageRegister := reg_Register t ?s ?r\<rparr>)"
    using ty assms(2) by (simp add: moon_ok_def reg_Register_def sm_keys_store insert_absorb)
  moreover have "onUpdate (reg_Register t ?s ?r) = (onUpdate ?r)(t := {f})"
  proof -
    have "snd ` set (onUpdateMap ?s) = {f}"
      using assms(3) s by (simp add: onUpdate_def mis_SetOnUpdate_def sm_store_def)
    then show ?thesis
      using r by (simp add: fun_eq_iff onUpdate_def reg_Register_def sm_laws reg_ok_def)
  qed
  ultimately show ?thesis
    using s by (auto simp: SetOnInfoUpdate_def reg_GetStorage_def)
qed

text \<open>A new watcher on a new storage register is well formed, and so is the register it leaves.\<close>

lemma NewWatcher_ok:
  assumes "moon_ok m" "infoStorageRegister m = GetStorageRegister"
  shows "\<exists>w r. NewWatcher self addr m = Ret w \<and> watcher_ok w \<and> wmoon w = m\<lparr>infoStorageRegister := r\<rparr>
    \<and> \<not> wctx_done w \<and> currentClusterInfo w = zero_cluster \<and> SunAddr w = addr"
proof -
  let ?w = "\<lparr>selfNodeInfo = self, wmoon = m, wmonitor = NewMonitor, timer = False,
    currentClusterInfo = zero_cluster, SunAddr = addr, initPending = False, wctx_done = False\<rparr>"
  define n where "n = ''watcher-'' @ Uuid self"
  have "onUpdate (register_w ?w) = (\<lambda>t. {})"
    using assms(2) by (simp add: register_w_def onUpdate_new fun_eq_iff)
  then obtain r1 where r1: "SetOnInfoUpdate NODE_INFO n cb_nodeInfoChanged ?w =
        Ret (?w\<lparr>wmoon := (wmoon ?w)\<lparr>infoStorageRegister := r1\<rparr>\<rparr>)"
      "moon_ok ((wmoon ?w)\<lparr>infoStorageRegister := r1\<rparr>)" "onUpdate r1 = (\<lambda>t. {})(NODE_INFO := {cb_nodeInfoChanged})"
    using SetOnInfoUpdate_Ret [of ?w NODE_INFO n cb_nodeInfoChanged] assms(1) by (auto simp: standard_types_def)
  let ?w1 = "?w\<lparr>wmoon := (wmoon ?w)\<lparr>infoStorageRegister := r1\<rparr>\<rparr>"
  have "moon_ok (wmoon ?w1)" "onUpdate (register_w ?w1) CLUSTER_INFO = {}" "onUpdate (register_w ?w1) = onUpdate r1"
    using r1(2,3) by (simp_all add: register_w_def)
  then obtain r2 where r2: "SetOnInfoUpdate CLUSTER_INFO n cb_clusterInfoChanged ?w1 =
        Ret (?w1\<lparr>wmoon := (wmoon ?w1)\<lparr>infoStorageRegister := r2\<rparr>\<rparr>)"
      "moon_ok ((wmoon ?w1)\<lparr>infoStorageRegister := r2\<rparr>)" "onUpdate r2 = (onUpdate r1)(CLUSTER_INFO := {cb_clusterInfoChanged})"
    using SetOnInfoUpdate_Ret [of ?w1 CLUSTER_INFO n cb_clusterInfoChanged] by (auto simp: standard_types_def)
  have "{t. cb_clusterInfoChanged \<in> onUpdate r2 t} = {CLUSTER_INFO}"
    unfolding r2(3) r1(3) by auto
  then show ?thesis
    using r1(1) r2(1,2) unfolding NewWatcher_def n_def [symmetric]
    by (auto simp: watcher_ok_def register_w_def intro: exI [of _ r2])
qed

lemma example_watcher_Ret:
  "\<exists>w. example_watcher = Ret w \<and> watcher_ok w \<and> nodeReady (wmoon w) \<and> IsLeader (wmoon w) \<and> \<not> wctx_done w
     \<and> \<not> ctx_done (wmoon w)
     \<and> reg_Get (register_w w) NODE_INFO (FormatUint (Lead_m (wmoon w))) = Inr (IBase (BaseInfo_NodeInfo example_self))"
proof -
  have m: "moon_ok example_wmoon" "infoStorageRegister example_wmoon = GetStorageRegister"
    using moon_ok_new [of example_self example_config]
    by (simp_all add: example_wmoon_def moon_ok_def) (simp add: NewMoon_def Let_def)
  obtain w0 r where w0: "NewWatcher example_self ''sun'' example_wmoon = Ret w0" "watcher_ok w0"
      "wmoon w0 = example_wmoon\<lparr>infoStorageRegister := r\<rparr>" "\<not> wctx_done w0"
    using NewWatcher_ok [OF m] by blast
  let ?q = "node_request example_self"
  have "\<forall>q \<in> set [?q]. BaseInfo_pi q \<noteq> None"
    by (simp add: node_request_def)
  then obtain m' calls where r: "apply_requests [?q] (wmoon w0) = Ret (m', calls)"
    using apply_requests_Ret by blast
  obtain w where w: "run_callbacks calls (w0\<lparr>wmoon := m'\<rparr>) = Ret w" "watcher_ok w" "same_frame (w0\<lparr>wmoon := m'\<rparr>) w"
    using moon_run_callbacks [OF r w0(2)] by blast
  have "moon_lookup m' (NODE_INFO, FormatUint 1) = Some (BaseInfo_NodeInfo example_self)"
    using apply_requests_ok [OF r watcher_ok_moon [OF w0(2)]]
    by (simp add: info_spec_def node_request_def NodeInfo_GetID_def example_self_def)
  then have "reg_Get (register_w w) NODE_INFO (FormatUint 1) = Inr (IBase (BaseInfo_NodeInfo example_self))"
    using w(3) by (auto simp: moon_lookup_def register_w_def same_frame_def split: sum.splits Information.splits)
  moreover have "nodeReady m'" "IsLeader m'" "Lead_m m' = 1" "\<not> ctx_done m'"
    using apply_requests_raft [OF r] w0(3)
    by (simp_all add: example_wmoon_def IsLeader_def Set_def example_self_def Let_def NewMoon_def)
  ultimately show ?thesis
    using w0(1,4) r w by (auto simp: example_watcher_def commit_requests_def same_frame_def)
qed

section \<open>Steps of the properties\<close>

lemma FormatUint_nonempty: "FormatUint x \<noteq> []"
  using good_comp_show_nat by (auto simp: FormatUint_def good_comp_def)

lemma genNew_Some:
  assumes "watcher_ok w" "nodeReady (wmoon w)"
    "reg_Get (register_w w) NODE_INFO (FormatUint (Lead_m (wmoon w))) = Inr i"
  shows "\<exists>c. genNewClusterInfo now w = Ret (Some c) \<and> Term c = now"
proof -
  obtain s ns where "reg_GetStorage (register_w w) NODE_INFO = Ret s" "all_nodes (mis_GetAll s) = Ret ns"
      "\<And>k. mis_Get s k = reg_Get (register_w w) NODE_INFO k"
    by (rule node_storage [OF watcher_ok_moon [OF assms(1)]], rule that)
  then show ?thesis
    using assms(2,3) by (simp add: genNewClusterInfo_def GetLeaderID_def)
qed

lemma genNew_timer: "genNewClusterInfo now (w\<lparr>timer := b\<rparr>) = genNewClusterInfo now w"
proof -
  have "register_w (w\<lparr>timer := b\<rparr>) = register_w w" "GetCurrentTerm (w\<lparr>timer := b\<rparr>) = GetCurrentTerm w"
      "wmonitor (w\<lparr>timer := b\<rparr>) = wmonitor w" "wmoon (w\<lparr>timer := b\<rparr>) = wmoon w"
    by (simp_all add: register_w_def GetCurrentTerm_def GetCurrentClusterInfo_def)
  then show ?thesis
    by (simp only: genNewClusterInfo_def)
qed

lemma by_term_lookup:
  assumes "moon_lookup (wmoon w) (CLUSTER_INFO, FormatUint t) = Some (BaseInfo_ClusterInfo c)" "t \<noteq> 0"
  shows "GetClusterInfoByTerm w t = Ret (Inr c)"
proof -
  have "reg_Get (register_w w) CLUSTER_INFO (FormatUint t) = Inr (IBase (BaseInfo_ClusterInfo c))"
    using assms(1) by (auto simp: moon_lookup_def register_w_def split: sum.splits Information.splits)
  then obtain s where "sm_load (storageMap (register_w w)) CLUSTER_INFO = Some s"
      "mis_Get s (FormatUint t) = Inr (IBase (BaseInfo_ClusterInfo c))"
    by (auto simp: reg_Get_def split: option.splits)
  then show ?thesis
    using assms(2) by (simp add: GetClusterInfoByTerm_def reg_GetStorage_def GetClusterInfo_base_def)
qed

lemma known_nodes_lookup:
  "moon_lookup (wmoon w) (NODE_INFO, FormatUint (RaftId n)) = Some (BaseInfo_NodeInfo n) \<Longrightarrow> n \<in> known_nodes w"
  by (auto simp: moon_lookup_def known_nodes_def register_w_def GetNodeInfo_base_def split: sum.splits Information.splits)

text \<open>A node the service does not know: it is stored, and then the configuration change decides.\<close>

lemma add_new_node_run:
  assumes "watcher_ok w" "raft_peers (wmoon w) \<noteq> None" "\<forall>q \<in> set before. BaseInfo_pi q \<noteq> None"
  shows "\<exists>w1. add_new_node opID before events info w = exec_bind (await_conf events) (\<lambda>_. Ret (w1, None))
    \<and> watcher_ok w1 \<and> info \<in> known_nodes w1 \<and> ConfChangeC (wmoon w1) = ConfChangeC (wmoon w) @ [info]"
proof -
  let ?q = "node_request info"
  have q: "Id ?q \<noteq> []" "\<forall>p \<in> set (before @ [?q]). BaseInfo_pi p \<noteq> None"
    using assms(3) by (auto simp: node_request_def FormatUint_nonempty)
  obtain w' where w': "propose_w opID before ?q w = Ret (w', Inr \<lparr>Status_r = Result_OK, Message = []\<rparr>)" "watcher_ok w'"
      "moon_lookup (wmoon w') = info_spec ?q (fold info_spec before (moon_lookup (wmoon w)))"
      "raft_peers (wmoon w') \<noteq> None" "ConfChangeC (wmoon w') = ConfChangeC (wmoon w)"
    using propose_w_Ret [OF assms(1,2) q] by blast
  let ?m = "(wmoon w')\<lparr>ConfChangeC := ConfChangeC (wmoon w') @ [info]\<rparr>"
  have "info \<in> known_nodes w'"
    using w'(3) by (intro known_nodes_lookup) (simp add: info_spec_def node_request_def NodeInfo_GetID_def)
  moreover have "watcher_ok (w'\<lparr>wmoon := ?m\<rparr>)" "known_nodes (w'\<lparr>wmoon := ?m\<rparr>) = known_nodes w'"
    using w'(2) by (simp_all add: watcher_ok_def register_w_def moon_ok_def known_nodes_def)
  moreover have "add_new_node opID before events info w = exec_bind (await_conf events) (\<lambda>_. Ret (w'\<lparr>wmoon := ?m\<rparr>, None))"
    using w'(1,4) by (cases "await_conf events") (auto simp: add_new_node_def ProposeConfChangeAddNode_def)
  ultimately show ?thesis
    using w'(5) by (intro exI [of _ "w'\<lparr>wmoon := ?m\<rparr>"]) simp
qed

lemma NodeInfoChanged_known:
  fixes info :: NodeInfo
  assumes "watcher_ok w"
  defines "w' \<equiv> w\<lparr>wmoon := NodeInfoChanged info (wmoon w)\<rparr>"
  shows "watcher_ok w'" "known_nodes w' = known_nodes w" "ConfChangeC (wmoon w') = ConfChangeC (wmoon w)"
  using assms(1)
  by (simp_all add: w'_def watcher_ok_def register_w_def moon_ok_def known_nodes_def NodeInfoChanged_def)

text \<open>Once the node is known or added, the reply lists the nodes.\<close>

lemma AddNewNodeToCluster_reply:
  assumes "watcher_ok w" "watcher_ok w1"
    "(if RaftId info \<in> RaftId ` known_nodes w then Ret (w\<lparr>wmoon := NodeInfoChanged info (wmoon w)\<rparr>, None)
      else add_new_node opID before events info w) = Ret (w1, None)"
  shows "\<exists>ps. AddNewNodeToCluster opID before events info w = Ret (w1, Inr ps)
    \<and> set ps = known_nodes w1 \<and> sorted_wrt (\<lambda>a b. RaftId b < RaftId a) ps"
proof -
  obtain ps where ps: "getCurrentPeerInfo w = Ret ps" "set ps = known_nodes w"
    using getCurrentPeerInfo_Ret [OF watcher_ok_moon [OF assms(1)]] by blast
  obtain ps' where "getCurrentPeerInfo w1 = Ret ps'" "set ps' = known_nodes w1" "sorted_wrt (\<lambda>a b. RaftId b < RaftId a) ps'"
    using getCurrentPeerInfo_Ret [OF watcher_ok_moon [OF assms(2)]] by blast
  moreover have "(\<exists>p \<in> set ps. RaftId p = RaftId info) \<longleftrightarrow> RaftId info \<in> RaftId ` known_nodes w"
    using ps(2) by (metis imageE imageI)
  ultimately show ?thesis
    using ps(1) assms(3) by (simp add: AddNewNodeToCluster_def)
qed

section \<open>Properties\<close>

text \<open>
  C24: the cluster information generated from a leader the service knows has the given term,
  names the previous term and the leader, and lists the known nodes once each, by descending
  raft identifier, each with the state of its last report, or offline without one.
\<close>

theorem genNewClusterInfo_correct:
  assumes "watcher_ok w" "nodeReady (wmoon w)"
    "reg_Get (register_w w) NODE_INFO (FormatUint (Lead_m (wmoon w))) = Inr i"
  shows "\<exists>c. genNewClusterInfo now w = Ret (Some c) \<and> Term c = now \<and> LastTerm c = GetCurrentTerm w
    \<and> LeaderInfo c = GetNodeInfo_base i
    \<and> sorted_wrt (\<lambda>a b. RaftId b < RaftId a) (NodesInfo c)
    \<and> set (NodesInfo c) =
        (\<lambda>n. n\<lparr>State := (case GetNodeReport (wmonitor w) (RaftId n) of None \<Rightarrow> OFFLINE | Some r \<Rightarrow> State_ns r)\<rparr>)
          ` known_nodes w"
proof -
  obtain s ns where ns: "reg_GetStorage (register_w w) NODE_INFO = Ret s" "all_nodes (mis_GetAll s) = Ret ns"
      "distinct (map RaftId ns)" "set ns = known_nodes w" "\<And>k. mis_Get s k = reg_Get (register_w w) NODE_INFO k"
    by (rule node_storage [OF watcher_ok_moon [OF assms(1)]], rule that)
  let ?f = "node_with_state (wmonitor w)"
  have f: "?f n = n\<lparr>State := (case GetNodeReport (wmonitor w) (RaftId n) of None \<Rightarrow> OFFLINE | Some r \<Rightarrow> State_ns r)\<rparr>" for n
    by (simp add: node_with_state_def split: option.splits)
  have "distinct (map RaftId (map ?f ns))"
    using ns(3) by (simp add: comp_def)
  note sort_nodes_props [OF this]
  then show ?thesis
    using ns(1,2,4,5) assms(2,3) by (simp add: genNewClusterInfo_def GetLeaderID_def f)
qed

text \<open>
  C15: when requests are committed, the watcher's current cluster information becomes the last
  one among them, whatever else the log holds, and stays as it was when there is none; no
  callback fails.
\<close>

theorem commit_requests_current:
  assumes "watcher_ok w" "\<forall>q \<in> set qs. BaseInfo_pi q \<noteq> None"
  shows "\<exists>w'. commit_requests qs w = Ret w' \<and> watcher_ok w'
    \<and> GetCurrentClusterInfo w' = fold cluster_spec qs (GetCurrentClusterInfo w)"
proof -
  obtain m' calls where r: "apply_requests qs (wmoon w) = Ret (m', calls)"
    using apply_requests_Ret [OF assms(2)] by blast
  then show ?thesis
    using moon_run_callbacks [OF r assms(1)] by (auto simp: commit_requests_def GetCurrentClusterInfo_def)
qed

theorem genNewClusterInfo_correct_witness:
  "\<exists>w c. example_watcher = Ret w \<and> genNewClusterInfo 5 w = Ret (Some c) \<and> Term c = 5
     \<and> LeaderInfo c = Some example_self"
proof -
  obtain w where w: "example_watcher = Ret w" "watcher_ok w" "nodeReady (wmoon w)"
      "reg_Get (register_w w) NODE_INFO (FormatUint (Lead_m (wmoon w))) = Inr (IBase (BaseInfo_NodeInfo example_self))"
    using example_watcher_Ret by blast
  show ?thesis
    using w(1) genNewClusterInfo_correct [OF w(2-4), of 5] by (auto simp: GetNodeInfo_base_def)
qed

theorem commit_requests_current_witness:
  "\<exists>w w'. example_watcher = Ret w
     \<and> commit_requests [cluster_request (example_config\<lparr>Term := 7\<rparr>), node_request example_self] w = Ret w'
     \<and> GetCurrentTerm w' = 7"
proof -
  let ?qs = "[cluster_request (example_config\<lparr>Term := 7\<rparr>), node_request example_self]"
  obtain w where w: "example_watcher = Ret w" "watcher_ok w"
    using example_watcher_Ret by blast
  have "\<forall>q \<in> set ?qs. BaseInfo_pi q \<noteq> None"
    by (simp add: cluster_request_def node_request_def)
  then obtain w' where "commit_requests ?qs w = Ret w'"
      "GetCurrentClusterInfo w' = fold cluster_spec ?qs (GetCurrentClusterInfo w)"
    using commit_requests_current [OF w(2)] by blast
  then show ?thesis
    using w(1) by (auto simp: GetCurrentTerm_def cluster_spec_def cluster_request_def node_request_def)
qed

text \<open>
  C14: when the commit timer fires on the leader, the cluster information generated at that
  moment becomes current, whatever the group commits ahead of it, and a client reads it both
  as the current one and by its term.
\<close>

theorem timer_fires_publishes:
  assumes "watcher_ok w" "nodeReady (wmoon w)" "IsLeader (wmoon w)" "\<not> wctx_done w" "now \<noteq> 0"
    "reg_Get (register_w w) NODE_INFO (FormatUint (Lead_m (wmoon w))) = Inr i"
    "\<forall>q \<in> set before. BaseInfo_pi q \<noteq> None"
  shows "\<exists>w' c. timer_fires opID before now w = Ret w' \<and> watcher_ok w' \<and> genNewClusterInfo now w = Ret (Some c)
    \<and> GetCurrentClusterInfo w' = c \<and> GetClusterInfoByTerm w' now = Ret (Inr c) \<and> GetClusterInfoByTerm w' 0 = Ret (Inr c)"
proof -
  obtain c where c: "genNewClusterInfo now w = Ret (Some c)" "Term c = now"
    using genNew_Some [OF assms(1,2,6)] by blast
  let ?w = "w\<lparr>timer := False\<rparr>" and ?q = "cluster_request c"
  have q: "Id ?q \<noteq> []" "\<forall>p \<in> set (before @ [?q]). BaseInfo_pi p \<noteq> None"
    using assms(7) by (auto simp: cluster_request_def FormatUint_nonempty)
  have "watcher_ok ?w" "raft_peers (wmoon ?w) \<noteq> None"
    using assms(1,3) by (simp_all add: watcher_ok_def register_w_def IsLeader_def)
  then obtain w' where w': "propose_w opID before ?q ?w = Ret (w', Inr \<lparr>Status_r = Result_OK, Message = []\<rparr>)" "watcher_ok w'"
      "currentClusterInfo w' = cluster_spec ?q (fold cluster_spec before (currentClusterInfo ?w))"
      "moon_lookup (wmoon w') = info_spec ?q (fold info_spec before (moon_lookup (wmoon ?w)))"
    using propose_w_Ret [OF _ _ q] by blast
  have cur: "currentClusterInfo w' = c"
    using w'(3) by (simp add: cluster_spec_def cluster_request_def)
  have "moon_lookup (wmoon w') (CLUSTER_INFO, FormatUint now) = Some (BaseInfo_ClusterInfo c)"
    using w'(4) c(2) by (simp add: info_spec_def cluster_request_def ClusterInfo_GetID_def)
  then have "GetClusterInfoByTerm w' now = Ret (Inr c)"
    using by_term_lookup assms(5) by blast
  moreover have "timer_fires opID before now w = Ret w'"
    using w'(1) assms(3,4) c(1) by (simp add: timer_fires_def proposeClusterInfo_def genNew_timer)
  ultimately show ?thesis
    using w'(2) c cur assms(5) by (simp add: GetCurrentClusterInfo_def GetClusterInfoByTerm_def)
qed

theorem timer_fires_publishes_witness:
  "\<exists>w w' c. example_watcher = Ret w \<and> timer_fires 9 [node_request example_self] 5 w = Ret w'
     \<and> GetClusterInfoByTerm w' 5 = Ret (Inr c) \<and> GetClusterInfoByTerm w' 0 = Ret (Inr c)"
proof -
  obtain w where w: "example_watcher = Ret w" "watcher_ok w" "nodeReady (wmoon w)" "IsLeader (wmoon w)" "\<not> wctx_done w"
      "reg_Get (register_w w) NODE_INFO (FormatUint (Lead_m (wmoon w))) = Inr (IBase (BaseInfo_NodeInfo example_self))"
    using example_watcher_Ret by blast
  have "\<forall>q \<in> set [node_request example_self]. BaseInfo_pi q \<noteq> None"
    by (simp add: node_request_def)
  then show ?thesis
    using timer_fires_publishes [OF w(2-5) _ w(6), of 5 "[node_request example_self]" 9] w(1) by auto
qed

text \<open>
  C28: a request to add a node the service knows is answered with the known nodes, by descending raft
  identifier, and proposes nothing.  A node that was not known is stored as it was sent and proposed
  once to the raft group, and the reply, with the nodes known afterwards, waits for the group: it is
  sent as soon as the call receives a notification that a change was applied, or that a message to
  a peer could not be delivered.  When the loop of the moon receives every notification instead,
  the request is never answered.
\<close>

theorem AddNewNodeToCluster_correct:
  assumes "watcher_ok w" "raft_peers (wmoon w) \<noteq> None" "\<forall>q \<in> set before. BaseInfo_pi q \<noteq> None"
  shows "if RaftId info \<notin> RaftId ` known_nodes w \<and> (\<forall>e \<in> set events. e = ConfApplied ToRun)
    then AddNewNodeToCluster opID before events info w = exec.Blocks ''waiting for the configuration change''
    else \<exists>w' ps. AddNewNodeToCluster opID before events info w = Ret (w', Inr ps) \<and> watcher_ok w'
      \<and> set ps = known_nodes w' \<and> sorted_wrt (\<lambda>a b. RaftId b < RaftId a) ps \<and> RaftId info \<in> RaftId ` set ps
      \<and> (if RaftId info \<in> RaftId ` known_nodes w
         then known_nodes w' = known_nodes w \<and> ConfChangeC (wmoon w') = ConfChangeC (wmoon w)
         else info \<in> set ps \<and> ConfChangeC (wmoon w') = ConfChangeC (wmoon w) @ [info])"
proof (cases "RaftId info \<in> RaftId ` known_nodes w")
  case True
  then show ?thesis
    using AddNewNodeToCluster_reply [OF assms(1) NodeInfoChanged_known(1) [OF assms(1), of info],
        where info = info and opID = opID and before = before and events = events]
      NodeInfoChanged_known [OF assms(1), of info] by auto
next
  case False
  obtain w1 where w1: "add_new_node opID before events info w = exec_bind (await_conf events) (\<lambda>_. Ret (w1, None))"
      "watcher_ok w1" "info \<in> known_nodes w1" "ConfChangeC (wmoon w1) = ConfChangeC (wmoon w) @ [info]"
    using add_new_node_run [OF assms] by blast
  show ?thesis
  proof (cases "\<forall>e \<in> set events. e = ConfApplied ToRun")
    case blocked: True
    obtain ps where "getCurrentPeerInfo w = Ret ps" "set ps = known_nodes w"
      using getCurrentPeerInfo_Ret [OF watcher_ok_moon [OF assms(1)]] by blast
    then show ?thesis
      using False blocked w1(1) by (auto simp: AddNewNodeToCluster_def await_conf_iff image_iff)
  next
    case answered: False
    then show ?thesis
      using False AddNewNodeToCluster_reply [OF assms(1) w1(2), of info opID before events] w1
      by (auto simp: await_conf_iff)
  qed
qed

theorem AddNewNodeToCluster_correct_witness:
  "\<exists>w w' ps. example_watcher = Ret w
     \<and> AddNewNodeToCluster 9 [] [ConfApplied ToRun, SendFailed] (example_self\<lparr>RaftId := 2\<rparr>) w = Ret (w', Inr ps)
     \<and> 2 \<in> RaftId ` set ps"
proof -
  obtain w where w: "example_watcher = Ret w" "watcher_ok w" "raft_peers (wmoon w) \<noteq> None"
    using example_watcher_Ret by (auto simp: IsLeader_def)
  show ?thesis
    using AddNewNodeToCluster_correct [OF w(2,3), of "[]" "example_self\<lparr>RaftId := 2\<rparr>" "[ConfApplied ToRun, SendFailed]" 9] w(1) by auto
qed

end
