(* ===== verification/Alaya.thy ===== *)
theory Alaya
  imports Alaya_Raft Watcher
begin

text \<open>
  The metadata service of a node (\<^verbatim>\<open>edge-node/alaya/alaya.go\<close>) with the removal of the blocks of
  deleted objects (\<^verbatim>\<open>edge-node/cleaner/cleaner.go\<close>).  The service holds one raft group for every
  placement group the node takes part in, checks the term and the placement of a request, and
  hands it to the group.  The storage of a group is shared by reference with the register of
  storages; the model writes both.  The libraries are gathered in one record.  Metrics are left
  out.
\<close>

section \<open>State\<close>

record Env =
  e_ring :: hash_ring
  e_crush :: crush
  e_codec :: codec

datatype AlayaState = INIT | READY | RUNNING | UPDATING | STOPPED

record Alaya =
  watcher_a :: Watcher
  PGMessageChans :: "(u64, unit) smap"
  PGRaftNode :: "(u64, AlayaRaft) smap"
  MetaStorageRegister :: MemoryMetaStorageRegister
  state_a :: AlayaState
  clusterPipelines :: "ClusterPipelines option"
  o_set :: bool
  running_groups :: "u64 list"

text \<open>The own identifier is read through the pointer shared with the watcher.\<close>

definition self_id :: "Alaya \<Rightarrow> u64" where
  "self_id a = RaftId (selfNodeInfo (watcher_a a))"

text \<open>The context of a call: the value of its term tag (empty without one) and whether it is done.\<close>

record Ctx =
  TagTerm :: string
  Done :: bool

definition GetTermFromContext :: "Ctx \<Rightarrow> u64 result" where
  "GetTermFromContext ctx =
     (case ParseUint (TagTerm ctx) of None \<Rightarrow> Inl (Err TermNotExist) | Some term \<Rightarrow> Inr term)"

definition SetTermToContext :: "u64 \<Rightarrow> Ctx \<Rightarrow> Ctx" where
  "SetTermToContext term ctx = ctx\<lparr>TagTerm := FormatUint term\<rparr>"

definition ctx_Err :: go_error where
  "ctx_Err = ErrText ''context canceled''"

section \<open>Groups\<close>

definition getRaftNode :: "Alaya \<Rightarrow> u64 \<Rightarrow> AlayaRaft option" where
  "getRaftNode a pg = sm_load (PGRaftNode a) pg"

definition put_raft :: "u64 \<Rightarrow> AlayaRaft \<Rightarrow> Alaya \<Rightarrow> Alaya" where
  "put_raft pg r a =
     a\<lparr>PGRaftNode := sm_store pg r (PGRaftNode a),
       MetaStorageRegister := put_storage pg (metaStorage r) (MetaStorageRegister a)\<rparr>"

text \<open>The storage of a group that ran before is found again.\<close>

definition makeAlayaRaftInPipeline :: "Pipeline \<Rightarrow> Pipeline option \<Rightarrow> Alaya \<Rightarrow> Alaya exec" where
  "makeAlayaRaftInPipeline p oldP a =
     (let pg = PgId_p p;
          chans = (case sm_load (PGMessageChans a) pg of
                     Some c \<Rightarrow> PGMessageChans a | None \<Rightarrow> sm_store pg () (PGMessageChans a));
          (reg, res) = NewStorage pg (MetaStorageRegister a)
      in case res of
           Inl err \<Rightarrow> Fatal ''create meta storage''
         | Inr storage \<Rightarrow>
             Ret (a\<lparr>PGMessageChans := chans, MetaStorageRegister := reg,
                    PGRaftNode := sm_store pg (NewAlayaRaft (self_id a) p oldP storage) (PGRaftNode a)\<rparr>))"

section \<open>Checks\<close>

definition calculateObjectPGID :: "Env \<Rightarrow> Alaya \<Rightarrow> u64 \<Rightarrow> string \<Rightarrow> u64 exec" where
  "calculateObjectPGID env a term objectID =
     (case SplitID objectID of
        Inl err \<Rightarrow> Ret 0
      | Inr (_, bucketID, key, _) \<Rightarrow>
          (case GetInfoDirect (wmoon (watcher_a a)) BUCKET_INFO bucketID of
             Inl err \<Rightarrow> Ret 0
           | Inr info \<Rightarrow>
               exec_bind (GetClusterInfoByTerm (watcher_a a) term) (\<lambda>res.
                 case res of
                   Inl err \<Rightarrow> Ret 0
                 | Inr c \<Rightarrow>
                     (case GetBucketInfo_base info of
                        None \<Rightarrow> Panic ''nil pointer dereference''
                      | Some b \<Rightarrow> GenObjPgID (e_ring env) b key (MetaPgNum c)))))"

definition checkClientTerm :: "Alaya \<Rightarrow> Ctx \<Rightarrow> u64 result" where
  "checkClientTerm a ctx =
     (case GetTermFromContext ctx of
        Inl err \<Rightarrow> Inl err
      | Inr clientTerm \<Rightarrow>
          (if clientTerm \<noteq> GetCurrentTerm (watcher_a a) then Inl (Err TermNotMatch) else Inr clientTerm))"

text \<open>The check also cleans the identifier of the metadata it is given.\<close>

definition checkObject :: "Env \<Rightarrow> Alaya \<Rightarrow> u64 \<Rightarrow> ObjectMeta \<Rightarrow> (ObjectMeta \<times> go_error option) exec" where
  "checkObject env a term meta =
     (let meta = meta\<lparr>ObjId := CleanObjectKey (ObjId meta)\<rparr>
      in exec_bind (calculateObjectPGID env a term (ObjId meta)) (\<lambda>pg.
           Ret (meta, if PgId meta \<noteq> pg then Some (Err PgNotMatch) else None)))"

section \<open>Requests\<close>

text \<open>What arrives on the channel of a request to the cloud; a response may lack its result.\<close>

datatype cloud_reply = Closed | Reply "ResultStatus option"

definition await_cloud :: "Alaya \<Rightarrow> cloud_reply \<Rightarrow> go_error option exec" where
  "await_cloud a reply =
     (if \<not> o_set a then Panic ''nil pointer dereference''
      else case reply of
        Closed \<Rightarrow> Ret (Some (ErrText ''sync to cloud failed''))
      | Reply None \<Rightarrow> Panic ''nil pointer dereference''
      | Reply (Some st) \<Rightarrow> Ret (if st \<noteq> Result_OK then Some (ErrText ''sync to cloud failed'') else None))"

text \<open>
  An operation handed to a group.  \<^verbatim>\<open>ProposeObjectMetaOperate\<close> returns no error, so the branch
  for one is never taken.
\<close>

definition propose_meta ::
    "Env \<Rightarrow> u64 \<Rightarrow> MetaOperate list \<Rightarrow> u64 \<Rightarrow> Operate \<Rightarrow> ObjectMeta \<Rightarrow> Alaya \<Rightarrow> (Alaya \<times> go_error option) exec" where
  "propose_meta env opID before pg oper meta a =
     (case getRaftNode a pg of
        None \<Rightarrow> Ret (a, Some (Err RaftNodeNotFound))
      | Some r \<Rightarrow>
          exec_bind (ProposeObjectMetaOperate (e_codec env) opID before \<lparr>OperateId = 0, Operate = oper, Meta = meta\<rparr> r)
            (\<lambda>r. Ret (put_raft pg r a, None)))"

text \<open>Whether an edge-only write replaces metadata the cloud knows of.\<close>

definition needs_sync :: "Alaya \<Rightarrow> ObjectMeta \<Rightarrow> bool result" where
  "needs_sync a meta =
     (if Position meta \<noteq> POSITION_EDGE then Inr False
      else case GetStorage (MetaStorageRegister a) (PgId meta) of
        Inl err \<Rightarrow> Inl err
      | Inr storage \<Rightarrow>
          (case GetMeta storage (ObjId meta) of
             Inl err \<Rightarrow> Inr False
           | Inr oldMeta \<Rightarrow> Inr (Position oldMeta \<noteq> POSITION_EDGE)))"

definition result_ok :: Result where
  "result_ok = \<lparr>Status_r = Result_OK, Message = []\<rparr>"

definition RecordObjectMeta ::
    "Env \<Rightarrow> u64 \<Rightarrow> MetaOperate list \<Rightarrow> cloud_reply \<Rightarrow> Ctx \<Rightarrow> ObjectMeta \<Rightarrow> Alaya \<Rightarrow> (Alaya \<times> Result result) exec" where
  "RecordObjectMeta env opID before reply ctx meta a =
     (case checkClientTerm a ctx of
        Inl err \<Rightarrow> Ret (a, Inl err)
      | Inr term \<Rightarrow>
          exec_bind (checkObject env a term meta) (\<lambda>(meta, err).
            case err of
              Some e \<Rightarrow> Ret (a, Inl e)
            | None \<Rightarrow>
                (case needs_sync a meta of
                   Inl e \<Rightarrow> Ret (a, Inl e)
                 | Inr syncToCloud \<Rightarrow>
                     (if Done ctx then Ret (a, Inl ctx_Err)
                      else exec_bind (propose_meta env opID before (PgId meta) PUT meta a) (\<lambda>(a, err).
                        case err of
                          Some e \<Rightarrow> Ret (a, Inl e)
                        | None \<Rightarrow>
                            (if \<not> syncToCloud then Ret (a, Inr result_ok)
                             else exec_bind (await_cloud a reply) (\<lambda>err.
                               case err of Some e \<Rightarrow> Ret (a, Inl e) | None \<Rightarrow> Ret (a, Inr result_ok))))))))"

definition GetObjectMeta :: "Env \<Rightarrow> Alaya \<Rightarrow> Ctx \<Rightarrow> string \<Rightarrow> ObjectMeta result exec" where
  "GetObjectMeta env a ctx reqObjId =
     (case checkClientTerm a ctx of
        Inl err \<Rightarrow> Ret (Inl err)
      | Inr term \<Rightarrow>
          (let objID = CleanObjectKey reqObjId
           in exec_bind (calculateObjectPGID env a term objID) (\<lambda>pg.
                case GetStorage (MetaStorageRegister a) pg of
                  Inl err \<Rightarrow> Ret (Inl err)
                | Inr storage \<Rightarrow> Ret (GetMeta storage objID))))"

text \<open>The metadata whose blocks the cleaner is started for is part of the result.\<close>

definition DeleteMeta ::
    "Env \<Rightarrow> u64 \<Rightarrow> MetaOperate list \<Rightarrow> Ctx \<Rightarrow> string \<Rightarrow> Alaya \<Rightarrow> (Alaya \<times> Result result \<times> ObjectMeta option) exec" where
  "DeleteMeta env opID before ctx reqObjId a =
     (case GetTermFromContext ctx of
        Inl err \<Rightarrow> Ret (a, Inl err, None)
      | Inr _ \<Rightarrow>
          exec_bind (GetObjectMeta env a ctx (CleanObjectKey reqObjId)) (\<lambda>res.
            case res of
              Inl err \<Rightarrow> Ret (a, Inl err, None)
            | Inr objMeta \<Rightarrow>
                (if Done ctx then Ret (a, Inl ctx_Err, None)
                 else exec_bind (propose_meta env opID before (PgId objMeta) DELETE objMeta a) (\<lambda>(a, err).
                   case err of
                     Some e \<Rightarrow> Ret (a, Inl e, None)
                   | None \<Rightarrow> Ret (a, Inr result_ok, Some objMeta)))))"

text \<open>The prefix of the request is overwritten by its clean form in every turn of the loop.\<close>

primrec list_storages :: "string \<Rightarrow> MemoryMetaStorage list \<Rightarrow> ObjectMeta list" where
  "list_storages prefix [] = []"
| "list_storages prefix (s # ss) =
     (let p = CleanObjectKey prefix in ListMetas s p @ list_storages p ss)"

definition ListMeta :: "Alaya \<Rightarrow> Ctx \<Rightarrow> string \<Rightarrow> ObjectMeta list result" where
  "ListMeta a ctx prefix =
     (case GetTermFromContext ctx of
        Inl err \<Rightarrow> Inl err
      | Inr _ \<Rightarrow> Inr (list_storages prefix (GetAllStorage (MetaStorageRegister a))))"

definition SendRaftMessage_a :: "Alaya \<Rightarrow> Ctx \<Rightarrow> u64 \<Rightarrow> go_error option" where
  "SendRaftMessage_a a ctx pg =
     (if Done ctx then Some ctx_Err
      else if sm_load (PGRaftNode a) pg = None then Some (Err PGNotExist)
      else if sm_load (PGMessageChans a) pg \<noteq> None then None else Some (Err PGNotExist))"

section \<open>Following the cluster\<close>

definition propose_pipeline :: "ClusterPipelines \<Rightarrow> u64 \<times> AlayaRaft \<Rightarrow> Alaya \<Rightarrow> Alaya exec" where
  "propose_pipeline ps kv a =
     exec_bind (pipeline_at (MetaPipelines ps) (fst kv)) (\<lambda>p.
       Ret (a\<lparr>PGRaftNode := sm_store (fst kv) (ProposeNewPipeline p (snd kv)) (PGRaftNode a)\<rparr>))"

definition propose_pipelines :: "ClusterPipelines \<Rightarrow> Alaya \<Rightarrow> Alaya exec" where
  "propose_pipelines ps a = exec_fold (propose_pipeline ps) (PGRaftNode a) a"

definition start_group :: "ClusterPipelines option \<Rightarrow> Pipeline \<Rightarrow> Alaya \<Rightarrow> Alaya exec" where
  "start_group oldPipelines p a =
     (if self_id a \<notin> set (RaftIds p) \<or> sm_load (PGMessageChans a) (PgId_p p) \<noteq> None then Ret a
      else exec_bind
        (case oldPipelines of
           Some old \<Rightarrow> exec_bind (pipeline_at (MetaPipelines old) (PgId_p p)) (\<lambda>oldP. makeAlayaRaftInPipeline p (Some oldP) a)
         | None \<Rightarrow> makeAlayaRaftInPipeline p None a)
        (\<lambda>a. Ret (if state_a a = UPDATING then a\<lparr>running_groups := PgId_p p # running_groups a\<rparr> else a)))"

definition ApplyNewPipelines :: "ClusterPipelines \<Rightarrow> ClusterPipelines option \<Rightarrow> Alaya \<Rightarrow> Alaya exec" where
  "ApplyNewPipelines ps oldPipelines a =
     exec_bind (propose_pipelines ps (a\<lparr>clusterPipelines := Some ps\<rparr>)) (exec_fold (start_group oldPipelines) (MetaPipelines ps))"

text \<open>\<^verbatim>\<open>pipelines, _ := NewClusterPipelines(info)\<close>: nil on an error.\<close>

definition pipelines_or_nil :: "Env \<Rightarrow> ClusterInfo \<Rightarrow> ClusterPipelines option" where
  "pipelines_or_nil env info =
     (case NewClusterPipelines (e_crush env) info of Inl err \<Rightarrow> None | Inr ps \<Rightarrow> Some ps)"

definition old_pipelines :: "Env \<Rightarrow> ClusterInfo \<Rightarrow> Alaya \<Rightarrow> ClusterPipelines option exec" where
  "old_pipelines env c a =
     (if LastTerm c = 0 then Ret (clusterPipelines a)
      else exec_bind (GetClusterInfoByTerm (watcher_a a) (LastTerm c)) (\<lambda>res.
        Ret (pipelines_or_nil env (case res of Inl err \<Rightarrow> zero_cluster | Inr info \<Rightarrow> info))))"

definition ApplyNewClusterInfo :: "Env \<Rightarrow> ClusterInfo option \<Rightarrow> Alaya \<Rightarrow> Alaya exec" where
  "ApplyNewClusterInfo env info a0 =
     (let a = a0\<lparr>state_a := UPDATING\<rparr>
      in case info of
           None \<Rightarrow> Panic ''nil pointer dereference''
         | Some c \<Rightarrow>
             exec_bind (old_pipelines env c a) (\<lambda>old.
               if NodesInfo c = [] then Ret a
               else case NewClusterPipelines (e_crush env) c of
                 Inl err \<Rightarrow> Ret a
               | Inr ps \<Rightarrow> exec_bind (ApplyNewPipelines ps old a) (\<lambda>a. Ret (a\<lparr>state_a := RUNNING\<rparr>))))"

definition applyNewClusterInfo :: "Env \<Rightarrow> Information \<Rightarrow> Alaya \<Rightarrow> Alaya exec" where
  "applyNewClusterInfo env info a = ApplyNewClusterInfo env (GetClusterInfo_base info) a"

definition NewAlaya :: "Env \<Rightarrow> MemoryMetaStorageRegister \<Rightarrow> Watcher \<Rightarrow> Alaya exec" where
  "NewAlaya env reg w =
     exec_bind (ApplyNewClusterInfo env (Some (GetCurrentClusterInfo w))
       \<lparr>watcher_a = w, PGMessageChans = [], PGRaftNode = [], MetaStorageRegister = reg, state_a = INIT,
        clusterPipelines = None, o_set = False, running_groups = []\<rparr>) (\<lambda>a.
     exec_bind (SetOnInfoUpdate CLUSTER_INFO (''alaya-'' @ Uuid (selfNodeInfo (watcher_a a))) cb_applyNewClusterInfo
       (watcher_a a)) (\<lambda>w.
       Ret (a\<lparr>state_a := READY,
              watcher_a := w\<lparr>wmonitor := fst (mon_Register ''alaya'' (wmonitor w))\<rparr>\<rparr>)))"

section \<open>Lifecycle and reports\<close>

definition alaya_run :: "Alaya \<Rightarrow> Alaya" where
  "alaya_run a = a\<lparr>running_groups := map fst (PGRaftNode a) @ running_groups a, state_a := RUNNING\<rparr>"

definition group_stopped :: "u64 \<Rightarrow> Alaya \<Rightarrow> Alaya" where
  "group_stopped pg a = a\<lparr>PGMessageChans := sm_delete pg (PGMessageChans a), PGRaftNode := sm_delete pg (PGRaftNode a)\<rparr>"

definition alaya_cleanup :: "Alaya \<Rightarrow> Alaya" where
  "alaya_cleanup a = a\<lparr>PGRaftNode := map (\<lambda>(pg, r). (pg, Stop r)) (PGRaftNode a), state_a := STOPPED\<rparr>"

primrec groups_ok :: "AlayaRaft list \<Rightarrow> bool exec" where
  "groups_ok [] = Ret True"
| "groups_ok (r # rs) =
     (case RaftIds (getPipeline r) of
        [] \<Rightarrow> Panic ''index out of range''
      | first # _ \<Rightarrow>
          (if Lead r \<noteq> first \<or> length (GetVotersID r) \<noteq> length (RaftIds (getPipeline r)) then Ret False
           else groups_ok rs))"

definition IsAllPipelinesOK :: "Alaya \<Rightarrow> bool exec" where
  "IsAllPipelinesOK a =
     (case clusterPipelines a of
        None \<Rightarrow> Panic ''nil pointer dereference''
      | Some ps \<Rightarrow>
          (if MetaPipelines ps = [] \<or> state_a a \<noteq> RUNNING \<or> Term_cp ps \<noteq> GetCurrentTerm (watcher_a a) then Ret False
           else groups_ok (map snd (PGRaftNode a))))"

definition group_state :: "AlayaRaft \<Rightarrow> PipelineState exec" where
  "group_state r =
     (if Lead r = 0 then Ret PR_ERROR
      else if length (GetVotersID r) < length (RaftIds (getPipeline r)) then Ret PR_DOWN_GRADE
      else case RaftIds (getPipeline r) of
        [] \<Rightarrow> Panic ''index out of range''
      | first # _ \<Rightarrow> Ret (if Lead r \<noteq> first then PR_CHANGING else PR_OK))"

definition getPipelineReport :: "Alaya \<Rightarrow> u64 \<Rightarrow> Report exec" where
  "getPipelineReport a pg =
     (case sm_load (PGRaftNode a) pg of
        Some r \<Rightarrow>
          exec_bind (group_state r) (\<lambda>st.
            Ret \<lparr>ReportType_r = ReportTypeADD, NodeReport = None,
                 PipelineReport_r = Some \<lparr>PgId_pr = pg, NodeIds = GetVotersID r, LeaderId = Lead r, State_pr = st\<rparr>\<rparr>)
      | None \<Rightarrow>
          Ret \<lparr>ReportType_r = ReportTypeDELETE, NodeReport = None,
               PipelineReport_r = Some \<lparr>PgId_pr = pg, NodeIds = [], LeaderId = 0, State_pr = PR_UNKNOWN\<rparr>\<rparr>)"

definition GetReports :: "Alaya \<Rightarrow> Report list exec" where
  "GetReports a =
     exec_fold (\<lambda>(pg, r) rs. exec_bind (getPipelineReport a pg) (\<lambda>p. Ret (rs @ [p]))) (PGRaftNode a) []"

section \<open>The cleaner\<close>

text \<open>A block is asked from the first node of its group in the current cluster, not in the cluster of its term.\<close>

record DeleteBlockRequest =
  BlockId_d :: string
  Pipeline_d :: Pipeline
  Term_d :: u64

definition RemoveBlock :: "Env \<Rightarrow> Watcher \<Rightarrow> u64 \<Rightarrow> BlockInfo \<Rightarrow> (NodeInfo \<times> DeleteBlockRequest) result exec" where
  "RemoveBlock env w term blockInfo =
     (let c = GetCurrentClusterInfo w
      in exec_bind (GenBlockPgID (e_ring env) (BlockId blockInfo) (BlockPgNum c)) (\<lambda>pg.
         case pipelines_or_nil env c of
           None \<Rightarrow> Panic ''nil pointer dereference''
         | Some ps \<Rightarrow>
             exec_bind (GetBlockPG ps pg) (\<lambda>ids.
               case ids of
                 [] \<Rightarrow> Panic ''index out of range''
               | gaiaID # _ \<Rightarrow>
                   (case GetInfoDirect (wmoon w) NODE_INFO (FormatUint gaiaID) of
                      Inl err \<Rightarrow> Ret (Inl err)
                    | Inr info \<Rightarrow>
                        (case GetNodeInfo_base info of
                           None \<Rightarrow> Panic ''nil pointer dereference''
                         | Some n \<Rightarrow>
                             exec_bind (GetBlockPipeline ps pg) (\<lambda>p.
                               Ret (Inr (n, \<lparr>BlockId_d = BlockId blockInfo, Pipeline_d = p, Term_d = term\<rparr>))))))))"

text \<open>The requests sent until the first failure; \<open>reply\<close> is the answer of a node.\<close>

primrec remove_blocks ::
    "Env \<Rightarrow> Watcher \<Rightarrow> (NodeInfo \<times> DeleteBlockRequest \<Rightarrow> go_error option) \<Rightarrow> u64 \<Rightarrow> BlockInfo list
       \<Rightarrow> ((NodeInfo \<times> DeleteBlockRequest) list \<times> go_error option) exec" where
  "remove_blocks env w reply term [] = Ret ([], None)"
| "remove_blocks env w reply term (b # bs) =
     exec_bind (RemoveBlock env w term b) (\<lambda>res.
       case res of
         Inl err \<Rightarrow> Ret ([], Some err)
       | Inr q \<Rightarrow>
           (case reply q of
              Some err \<Rightarrow> Ret ([q], Some err)
            | None \<Rightarrow> exec_bind (remove_blocks env w reply term bs) (\<lambda>(qs, err). Ret (q # qs, err))))"

definition RemoveObjectBlocks ::
    "Env \<Rightarrow> Watcher \<Rightarrow> (NodeInfo \<times> DeleteBlockRequest \<Rightarrow> go_error option) \<Rightarrow> ObjectMeta
       \<Rightarrow> ((NodeInfo \<times> DeleteBlockRequest) list \<times> go_error option) exec" where
  "RemoveObjectBlocks env w reply meta = remove_blocks env w reply (Term_m meta) (Blocks meta)"

section \<open>Invariant\<close>

text \<open>
  Every group is stored under its number, shares its storage with the register, and has a
  message channel; every storage is well formed.
\<close>

definition alaya_ok :: "Alaya \<Rightarrow> bool" where
  "alaya_ok a \<longleftrightarrow> sm_ok (PGRaftNode a) \<and> sm_ok (PGMessageChans a) \<and> sm_ok (pgMap (MetaStorageRegister a))
     \<and> (\<forall>pg r. sm_load (PGRaftNode a) pg = Some r \<longrightarrow>
          pgID r = pg \<and> sm_load (pgMap (MetaStorageRegister a)) pg = Some (metaStorage r))
     \<and> (\<forall>pg s. sm_load (pgMap (MetaStorageRegister a)) pg = Some s \<longrightarrow> meta_ok s)
     \<and> (\<forall>pg. sm_load (PGMessageChans a) pg = None \<longleftrightarrow> sm_load (PGRaftNode a) pg = None)"

text \<open>
  A request as a client of the current term builds it: the identifier and the placement group
  are computed from a bucket the service knows and from the current cluster information.
\<close>

definition client_request :: "Env \<Rightarrow> Alaya \<Rightarrow> Ctx \<Rightarrow> BucketInfo \<Rightarrow> string \<Rightarrow> ObjectMeta \<Rightarrow> bool" where
  "client_request env a ctx b key m \<longleftrightarrow>
     TagTerm ctx = FormatUint (GetCurrentTerm (watcher_a a)) \<and> \<not> Done ctx \<and> bucket_ok b \<and> key_ok key
     \<and> (\<exists>i. GetInfoDirect (wmoon (watcher_a a)) BUCKET_INFO (BucketInfo_GetID b) = Inr i \<and> GetBucketInfo_base i = Some b)
     \<and> GenObjectId (e_ring env) b key = Ret (ObjId m)
     \<and> (\<exists>c. GetClusterInfoByTerm (watcher_a a) (GetCurrentTerm (watcher_a a)) = Ret (Inr c)
          \<and> GenObjPgID (e_ring env) b key (MetaPgNum c) = Ret (PgId m))"

section \<open>Placement of a request\<close>

lemma GenObjPgID_Clean: "key_ok key \<Longrightarrow> GenObjPgID ring b (CleanObjectKey key) n = GenObjPgID ring b key n"
  by (erule key_ok_join) (simp add: GenObjPgID_def CleanObjectKey_join)

lemma GenObjectId_clean:
  assumes "ring_ok ring" "bucket_ok b" "key_ok key" "GenObjectId ring b key = Ret objID"
  shows "CleanObjectKey objID = objID"
proof -
  obtain c where c: "Config b = Some c" "0 < sint (KeySlotNum c)"
    using assms(2) by (auto simp: bucket_ok_def split: option.splits)
  obtain slot where slot: "CalculateSlot ring key (KeySlotNum c) = Ret slot" "1 \<le> sint slot"
    using CalculateSlot_bounds [OF assms(1) c(2)] by blast
  obtain cs where cs: "cs \<noteq> []" "\<forall>c\<in>set cs. good_comp c" "CleanObjectKey key = join_with (CHR ''/'') cs"
    using assms(3) by (rule key_ok_join)
  let ?cs = "VolumeId_b b # BucketName b # show_nat (nat (sint slot)) # cs"
  have "objID = join_with (CHR ''/'') ?cs"
    using GenObjectId_form [OF assms(2,3) slot(1) c(1)] slot(2) assms(4) cs by (simp add: join_with_Cons)
  moreover have "\<forall>c \<in> set ?cs. good_comp c"
    using assms(2) cs(2) by (simp add: bucket_ok_def)
  ultimately show ?thesis
    using CleanObjectKey_join(1) [of ?cs] by simp
qed

lemma calculateObjectPGID_client:
  assumes "ring_ok (e_ring env)" "bucket_ok b" "key_ok key" "GenObjectId (e_ring env) b key = Ret objID"
    "GetInfoDirect (wmoon (watcher_a a)) BUCKET_INFO (BucketInfo_GetID b) = Inr i" "GetBucketInfo_base i = Some b"
    "GetClusterInfoByTerm (watcher_a a) t = Ret (Inr c)"
  shows "calculateObjectPGID env a t objID = GenObjPgID (e_ring env) b key (MetaPgNum c)"
proof -
  obtain slot where "SplitID objID = Inr (VolumeId_b b, BucketInfo_GetID b, CleanObjectKey key, slot)"
    using SplitID_of_GenObjectId [OF assms(1-3)] assms(4) by auto
  then show ?thesis
    using assms(5-7) GenObjPgID_Clean [OF assms(3)] by (simp add: calculateObjectPGID_def)
qed

section \<open>One group at a time\<close>

lemma put_raft_ok:
  assumes "alaya_ok a" "getRaftNode a pg = Some r" "pgID r' = pgID r" "meta_ok (metaStorage r')"
  shows "alaya_ok (put_raft pg r' a)"
  using assms by (auto simp: alaya_ok_def put_raft_def put_storage_def getRaftNode_def sm_laws)

lemma put_raft_other:
  assumes "alaya_ok a"
  shows "getRaftNode (put_raft pg r a) pg' = (if pg' = pg then Some r else getRaftNode a pg')"
    "GetStorage (MetaStorageRegister (put_raft pg r a)) pg' =
       (if pg' = pg then Inr (metaStorage r) else GetStorage (MetaStorageRegister a) pg')"
    "watcher_a (put_raft pg r a) = watcher_a a"
  using assms by (simp_all add: put_raft_def put_storage_def getRaftNode_def GetStorage_def sm_laws alaya_ok_def)

lemma propose_meta_Some:
  assumes "alaya_ok a" "getRaftNode a pg = Some r"
    "codec_ok (e_codec env) (before @ [\<lparr>OperateId = opID, Operate = oper, Meta = meta\<rparr>])"
  shows "\<exists>r'. propose_meta env opID before pg oper meta a = Ret (put_raft pg r' a, None)
    \<and> metaStorage r' = fold apply_operate (before @ [\<lparr>OperateId = opID, Operate = oper, Meta = meta\<rparr>]) (metaStorage r)
    \<and> alaya_ok (put_raft pg r' a)"
proof -
  let ?ops = "before @ [\<lparr>OperateId = opID, Operate = oper, Meta = meta\<rparr>]"
  let ?r = "fold apply_meta_operate ?ops (r\<lparr>registered := opID # registered r\<rparr>)"
  have "ProposeObjectMetaOperate (e_codec env) opID before \<lparr>OperateId = 0, Operate = oper, Meta = meta\<rparr> r = Ret ?r"
    using ProposeObjectMetaOperate_Ret [where operate = "\<lparr>OperateId = 0, Operate = oper, Meta = meta\<rparr>" and r = r] assms(3)
    by simp
  moreover have m: "metaStorage ?r = fold apply_operate ?ops (metaStorage r)" "pgID ?r = pgID r"
    by (simp_all only: fold_apply_fields) simp_all
  moreover have "meta_ok (metaStorage r)"
    using assms(1,2) by (auto simp: alaya_ok_def getRaftNode_def)
  then have "meta_ok (metaStorage ?r)"
    unfolding m(1) by (rule mms.ok_log)
  ultimately show ?thesis
    using assms(2) put_raft_ok [OF assms(1,2), of ?r] by (auto simp: propose_meta_def)
qed

lemma propose_meta_frame:
  assumes "propose_meta env opID before pg oper meta a = Ret (a', err)" "alaya_ok a"
  shows "(a' = a \<or> (\<exists>r. a' = put_raft pg r a)) \<and> watcher_a a' = watcher_a a \<and> (err \<noteq> None \<longrightarrow> a' = a)
    \<and> (pg' \<noteq> pg \<longrightarrow> getRaftNode a' pg' = getRaftNode a pg'
         \<and> GetStorage (MetaStorageRegister a') pg' = GetStorage (MetaStorageRegister a) pg')"
  using assms put_raft_other [OF assms(2)]
  by (auto simp: propose_meta_def split: option.splits)

lemma client_request_checks:
  assumes "ring_ok (e_ring env)" "client_request env a ctx b key m"
  shows "checkClientTerm a ctx = Inr (GetCurrentTerm (watcher_a a))" "CleanObjectKey (ObjId m) = ObjId m"
    "calculateObjectPGID env a (GetCurrentTerm (watcher_a a)) (ObjId m) = Ret (PgId m)"
    "checkObject env a (GetCurrentTerm (watcher_a a)) m = Ret (m, None)"
    "GetTermFromContext ctx = Inr (GetCurrentTerm (watcher_a a))" "\<not> Done ctx"
proof -
  let ?t = "GetCurrentTerm (watcher_a a)"
  obtain i c where c: "TagTerm ctx = FormatUint ?t" "bucket_ok b" "key_ok key"
      "GetInfoDirect (wmoon (watcher_a a)) BUCKET_INFO (BucketInfo_GetID b) = Inr i" "GetBucketInfo_base i = Some b"
      "GenObjectId (e_ring env) b key = Ret (ObjId m)" "GetClusterInfoByTerm (watcher_a a) ?t = Ret (Inr c)"
      "GenObjPgID (e_ring env) b key (MetaPgNum c) = Ret (PgId m)"
    using assms(2) by (auto simp: client_request_def)
  show "GetTermFromContext ctx = Inr ?t" "checkClientTerm a ctx = Inr ?t"
    using c(1) by (simp_all add: checkClientTerm_def GetTermFromContext_def)
  show "\<not> Done ctx"
    using assms(2) by (simp add: client_request_def)
  show cl: "CleanObjectKey (ObjId m) = ObjId m"
    using GenObjectId_clean [OF assms(1) c(2,3,6)] .
  show pg: "calculateObjectPGID env a ?t (ObjId m) = Ret (PgId m)"
    using calculateObjectPGID_client [OF assms(1) c(2,3,6,4,5,7)] c(8) by simp
  show "checkObject env a ?t m = Ret (m, None)"
    using cl pg by (simp add: checkObject_def)
qed

lemma client_request_watcher:
  "watcher_a a' = watcher_a a \<Longrightarrow> client_request env a' ctx b key m = client_request env a ctx b key m"
  by (simp add: client_request_def)

lemma GetObjectMeta_client:
  assumes "ring_ok (e_ring env)" "client_request env a ctx b key m"
  shows "GetObjectMeta env a ctx (ObjId m) =
    Ret (case GetStorage (MetaStorageRegister a) (PgId m) of Inl err \<Rightarrow> Inl err | Inr s \<Rightarrow> GetMeta s (ObjId m))"
  using client_request_checks [OF assms] by (simp add: GetObjectMeta_def split: sum.splits)

lemma GetMeta_after:
  assumes "meta_ok s"
  shows "GetMeta (fold apply_operate (before @ [\<lparr>OperateId = i, Operate = oper, Meta = m\<rparr>]) s) (ObjId m) =
    (case oper of
       PUT \<Rightarrow> Inr m | DELETE \<Rightarrow> Inl (Err MetaNotExist)
     | OtherOperate k \<Rightarrow> GetMeta (fold apply_operate before s) (ObjId m))"
  using mms.ok_log [OF assms, of before]
  by (cases oper) (simp_all add: mms.get_after_put mms.get_after_delete, simp add: apply_operate_def)

lemma group_storage_ok: "alaya_ok a \<Longrightarrow> getRaftNode a pg = Some r \<Longrightarrow> meta_ok (metaStorage r)"
  by (auto simp: alaya_ok_def getRaftNode_def)

section \<open>An example service\<close>

definition example_record :: ObjectMeta where
  "example_record = example_meta ''root/default/1/a'' 1"

definition example_acodec :: codec where
  "example_acodec = \<lparr>marshal_op = \<lambda>op. [case Operate op of PUT \<Rightarrow> 1 | DELETE \<Rightarrow> 2 | OtherOperate i \<Rightarrow> 3],
     unmarshal_op = \<lambda>bs. Some \<lparr>OperateId = 9, Operate = (if bs = [1] then PUT else DELETE), Meta = example_record\<rparr>,
     marshal_pipeline = \<lambda>p. [], unmarshal_pipeline = \<lambda>bs. zero_pipeline\<rparr>"

definition example_env :: Env where
  "example_env = \<lparr>e_ring = first_ring, e_crush = take_crush, e_codec = example_acodec\<rparr>"

definition example_alaya :: "ObjectMeta list \<Rightarrow> Watcher \<Rightarrow> Alaya" where
  "example_alaya ms w =
     (let s = fold RecordMeta ms NewMemoryMetaStorage
      in \<lparr>watcher_a = w, PGMessageChans = [(1, ())], PGRaftNode = [(1, NewAlayaRaft 1 example_pipeline None s)],
          MetaStorageRegister = \<lparr>pgMap = [(1, s)]\<rparr>, state_a = RUNNING, clusterPipelines = None, o_set = False,
          running_groups = []\<rparr>)"

definition example_ctx :: Ctx where
  "example_ctx = \<lparr>TagTerm = FormatUint 7, Done = False\<rparr>"

definition example_setup :: "ProposeInfoRequest list" where
  "example_setup =
     [\<lparr>Operate_pi = ADD, Id = BucketInfo_GetID example_bucket, BaseInfo_pi = Some (BaseInfo_BucketInfo example_bucket),
       OperateId_pi = 0\<rparr>, cluster_request (example_config\<lparr>Term := 7, MetaPgNum := 10\<rparr>)]"

lemma first_ring_map_pg:
  assumes "0 < unat n" "unat n \<le> 2 ^ 44"
  shows "map_pg first_ring n key = Ret 1"
proof -
  have "[1..<Suc (unat n)] = 1 # [2..<Suc (unat n)]"
    using assms(1) by (metis One_nat_def Suc_1 Suc_le_eq le_imp_less_Suc upt_conv_Cons)
  then have "ring_nodes \<lparr>ring_nodes = map (\<lambda>i. FormatUint (word_of_nat i)) [1..<Suc (unat n)]\<rparr> =
      FormatUint 1 # map (\<lambda>i. FormatUint (word_of_nat i)) [2..<Suc (unat n)]"
    by simp
  then show ?thesis
    using assms(2) by (simp add: map_pg_def build_mapper_def MapIDtoPG_def first_ring_def del: upt_Suc)
qed

lemma example_placement:
  "GenObjectId first_ring example_bucket ''a'' = Ret (ObjId example_record)"
  "GenObjPgID first_ring example_bucket ''a'' 10 = Ret (PgId example_record)"
  "key_ok ''a''"
proof -
  have u: "unat (uint64_of_i32 5) = 5" "unat (uint64_of_i32 10) = 10"
    by (simp_all add: uint64_of_i32_nonneg)
  have slot: "CalculateSlot first_ring key 5 = Ret 1" for key
    by (simp add: CalculateSlot_def first_ring_map_pg u)
  have k: "CleanObjectKey ''a'' = ''a''"
    by code_simp
  then show ok: "key_ok ''a''"
    by (simp add: key_ok_def good_comp_def)
  have c: "Config example_bucket = Some (the (Config example_bucket))" "KeySlotNum (the (Config example_bucket)) = 5"
    by (simp_all add: example_bucket_def)
  have "show_nat (nat (sint (1 :: i32))) = ''1''"
    by code_simp
  then show "GenObjectId first_ring example_bucket ''a'' = Ret (ObjId example_record)"
    using GenObjectId_form [OF example_bucket_ok ok, of first_ring "the (Config example_bucket)" 1] c slot k
    by (simp add: example_record_def example_meta_def) (simp add: example_bucket_def)
  show "GenObjPgID first_ring example_bucket ''a'' 10 = Ret (PgId example_record)"
    by (simp add: GenObjPgID_def key_slot_num_def example_bucket_def slot GenSlotPgID_def first_ring_map_pg u
        example_record_def example_meta_def)
qed

lemma example_service:
  "\<exists>w. exec_bind example_watcher (commit_requests example_setup) = Ret w
     \<and> (\<forall>ms. client_request example_env (example_alaya ms w) example_ctx example_bucket ''a'' example_record)"
proof -
  obtain w0 where w0: "example_watcher = Ret w0" "watcher_ok w0" "\<not> ctx_done (wmoon w0)"
    using example_watcher_Ret by blast
  have "\<forall>q \<in> set example_setup. BaseInfo_pi q \<noteq> None"
    by (simp add: example_setup_def cluster_request_def)
  then obtain m' calls where r: "apply_requests example_setup (wmoon w0) = Ret (m', calls)"
    using apply_requests_Ret by blast
  obtain w where w: "run_callbacks calls (w0\<lparr>wmoon := m'\<rparr>) = Ret w" "same_frame (w0\<lparr>wmoon := m'\<rparr>) w"
      "currentClusterInfo w = fold cluster_spec example_setup (currentClusterInfo w0)"
    using moon_run_callbacks [OF r w0(2)] by blast
  let ?c = "example_config\<lparr>Term := 7, MetaPgNum := 10\<rparr>"
  have cur: "GetCurrentTerm w = 7"
    using w(3) by (simp add: GetCurrentTerm_def GetCurrentClusterInfo_def example_setup_def cluster_spec_def cluster_request_def)
  have "moon_lookup (wmoon w) = fold info_spec example_setup (moon_lookup (wmoon w0))"
    using apply_requests_ok [OF r watcher_ok_moon [OF w0(2)]] w(2) by (simp add: same_frame_def)
  then have "moon_lookup (wmoon w) (CLUSTER_INFO, FormatUint 7) = Some (BaseInfo_ClusterInfo ?c)"
      "moon_lookup (wmoon w) (BUCKET_INFO, BucketInfo_GetID example_bucket) = Some (BaseInfo_BucketInfo example_bucket)"
    by (simp_all add: example_setup_def info_spec_def cluster_request_def ClusterInfo_GetID_def)
  then have "GetClusterInfoByTerm w 7 = Ret (Inr ?c)"
      "reg_Get (infoStorageRegister (wmoon w)) BUCKET_INFO (BucketInfo_GetID example_bucket) = Inr (IBase (BaseInfo_BucketInfo example_bucket))"
    by (simp_all add: by_term_lookup) (auto simp: moon_lookup_def split: sum.splits Information.splits)
  moreover have "\<not> ctx_done (wmoon w)"
    using apply_requests_raft [OF r] w(2) w0(3) by (simp add: same_frame_def)
  ultimately have "client_request example_env (example_alaya ms w) example_ctx example_bucket ''a'' example_record" for ms
    using cur example_placement example_bucket_ok
    by (simp add: client_request_def example_alaya_def example_ctx_def example_env_def Let_def GetInfoDirect_def
        GetBucketInfo_base_def)
  then show ?thesis
    using w0(1) r w(1) by (auto simp: commit_requests_def)
qed

lemma example_alaya_ok: "alaya_ok (example_alaya ms w)"
proof -
  have "meta_ok (fold RecordMeta ms NewMemoryMetaStorage)"
    by (rule fold_invariant [where Q = "\<lambda>x. True"]) (auto simp: meta_ok_RecordMeta)
  then show ?thesis
    by (auto simp: alaya_ok_def example_alaya_def Let_def sm_ok_def sm_load_def NewAlayaRaft_def example_pipeline_def
        split: if_splits)
qed

lemma example_codec_ok:
  "oper \<in> {PUT, DELETE} \<Longrightarrow> codec_ok (e_codec example_env) [\<lparr>OperateId = 9, Operate = oper, Meta = example_record\<rparr>]"
  by (cases oper) (simp_all add: codec_ok_def example_env_def example_acodec_def)

section \<open>Following the cluster\<close>

lemma propose_fold:
  assumes "sm_ok (PGRaftNode a)" "distinct (map fst kvs)"
    "\<And>kv. kv \<in> set kvs \<Longrightarrow> pipeline_at (MetaPipelines ps) (fst kv) = Ret (f (fst kv))"
  shows "\<exists>m. exec_fold (propose_pipeline ps) kvs a = Ret (a\<lparr>PGRaftNode := m\<rparr>) \<and> sm_ok m
    \<and> (\<forall>pg. sm_load m pg =
        (case map_of kvs pg of Some r \<Rightarrow> Some (ProposeNewPipeline (f pg) r) | None \<Rightarrow> sm_load (PGRaftNode a) pg))"
  using assms
proof (induction kvs arbitrary: a)
  case Nil
  then show ?case
    by (intro exI [of _ "PGRaftNode a"]) simp
next
  case (Cons kv kvs)
  let ?m = "sm_store (fst kv) (ProposeNewPipeline (f (fst kv)) (snd kv)) (PGRaftNode a)"
  have ok: "sm_ok (PGRaftNode (a\<lparr>PGRaftNode := ?m\<rparr>))" "distinct (map fst kvs)" and none: "map_of kvs (fst kv) = None"
    using Cons.prems(1,2) by (simp_all add: sm_laws map_of_eq_None_iff)
  have "\<exists>m. exec_fold (propose_pipeline ps) kvs (a\<lparr>PGRaftNode := ?m\<rparr>) = Ret (a\<lparr>PGRaftNode := m\<rparr>) \<and> sm_ok m
      \<and> (\<forall>pg. sm_load m pg = (case map_of kvs pg of Some r \<Rightarrow> Some (ProposeNewPipeline (f pg) r) | None \<Rightarrow> sm_load ?m pg))"
    using Cons.IH [OF ok] Cons.prems(3) by (simp cong: option.case_cong)
  then obtain m where m: "exec_fold (propose_pipeline ps) kvs (a\<lparr>PGRaftNode := ?m\<rparr>) = Ret (a\<lparr>PGRaftNode := m\<rparr>) \<and> sm_ok m
      \<and> (\<forall>pg. sm_load m pg = (case map_of kvs pg of Some r \<Rightarrow> Some (ProposeNewPipeline (f pg) r) | None \<Rightarrow> sm_load ?m pg))" ..
  have "sm_load m pg = (case map_of (kv # kvs) pg of Some r \<Rightarrow> Some (ProposeNewPipeline (f pg) r)
      | None \<Rightarrow> sm_load (PGRaftNode a) pg)" for pg
    using Cons.prems(1) none by (cases "pg = fst kv") (simp_all add: m sm_laws split: option.splits)
  moreover have "propose_pipeline ps kv a = Ret (a\<lparr>PGRaftNode := ?m\<rparr>)"
    using Cons.prems(3) [of kv] by (simp add: propose_pipeline_def)
  ultimately show ?case
    using m by (intro exI [of _ m]) simp
qed

text \<open>What a start-up of groups does to the group of one number.\<close>

definition group_after :: "u64 \<Rightarrow> Pipeline list \<Rightarrow> Alaya \<Rightarrow> Alaya \<Rightarrow> bool" where
  "group_after self qs a a' \<longleftrightarrow> alaya_ok a' \<and> watcher_a a' = watcher_a a \<and> clusterPipelines a' = clusterPipelines a
     \<and> (\<forall>pg r. getRaftNode a pg = Some r \<longrightarrow> getRaftNode a' pg = Some r)
     \<and> (\<forall>pg s. GetStorage (MetaStorageRegister a) pg = Inr s \<longrightarrow> GetStorage (MetaStorageRegister a') pg = Inr s)
     \<and> (\<forall>pg r. getRaftNode a pg = None \<and> getRaftNode a' pg = Some r \<longrightarrow>
          (\<exists>p \<in> set qs. PgId_p p = pg \<and> self \<in> set (RaftIds p) \<and> pipeline r = p))
     \<and> (\<forall>p \<in> set qs. self \<in> set (RaftIds p) \<longrightarrow> getRaftNode a' (PgId_p p) \<noteq> None)"

lemma NewStorage_Inr:
  assumes "alaya_ok a"
  obtains reg s where "NewStorage pg (MetaStorageRegister a) = (reg, Inr s)" "sm_ok (pgMap reg)" "meta_ok s"
    "\<And>pg'. sm_load (pgMap reg) pg' = (if pg' = pg then Some s else sm_load (pgMap (MetaStorageRegister a)) pg')"
    "sm_load (pgMap (MetaStorageRegister a)) pg = None \<or> sm_load (pgMap (MetaStorageRegister a)) pg = Some s"
proof (cases "sm_load (pgMap (MetaStorageRegister a)) pg")
  case None
  then show ?thesis
    using assms that [of "MetaStorageRegister a\<lparr>pgMap := sm_store pg NewMemoryMetaStorage (pgMap (MetaStorageRegister a))\<rparr>"
        NewMemoryMetaStorage]
    by (simp add: NewStorage_def GetStorage_def Let_def alaya_ok_def sm_laws)
next
  case (Some s)
  then show ?thesis
    using assms that [of "MetaStorageRegister a" s] by (simp add: NewStorage_def alaya_ok_def)
qed

lemma makeAlayaRaft_ok:
  assumes "alaya_ok a" "getRaftNode a (PgId_p p) = None" "self_id a \<in> set (RaftIds p)"
  shows "\<exists>a'. makeAlayaRaftInPipeline p oldP a = Ret a' \<and> group_after (self_id a) [p] a a' \<and> state_a a' = state_a a"
proof -
  let ?pg = "PgId_p p" and ?reg = "MetaStorageRegister a"
  obtain reg s where ns: "NewStorage ?pg ?reg = (reg, Inr s)" "sm_ok (pgMap reg)" "meta_ok s"
      "\<And>pg. sm_load (pgMap reg) pg = (if pg = ?pg then Some s else sm_load (pgMap ?reg) pg)"
      "sm_load (pgMap ?reg) ?pg = None \<or> sm_load (pgMap ?reg) ?pg = Some s"
    by (rule NewStorage_Inr [OF assms(1), of ?pg], rule that)
  have n: "sm_load (PGRaftNode a) ?pg = None" "sm_load (PGMessageChans a) ?pg = None"
    using assms(1,2) by (simp_all add: alaya_ok_def getRaftNode_def)
  let ?r = "NewAlayaRaft (self_id a) p oldP s"
  have r: "pgID ?r = ?pg" "metaStorage ?r = s" "pipeline ?r = p"
    by (simp_all add: NewAlayaRaft_def Let_def)
  let ?a = "a\<lparr>PGMessageChans := sm_store ?pg () (PGMessageChans a), MetaStorageRegister := reg,
              PGRaftNode := sm_store ?pg ?r (PGRaftNode a)\<rparr>"
  have "makeAlayaRaftInPipeline p oldP a = Ret ?a"
    using ns(1) n(2) by (simp add: makeAlayaRaftInPipeline_def Let_def)
  moreover have "group_after (self_id a) [p] a ?a"
    unfolding group_after_def
  proof (intro conjI allI impI ballI)
    have sm: "sm_ok (PGRaftNode a)" "sm_ok (PGMessageChans a)"
      using assms(1) by (simp_all add: alaya_ok_def)
    have ld: "sm_load (PGRaftNode ?a) pg = (if pg = ?pg then Some ?r else sm_load (PGRaftNode a) pg)"
        "sm_load (PGMessageChans ?a) pg = (if pg = ?pg then Some () else sm_load (PGMessageChans a) pg)" for pg
      using sm by (simp_all add: sm_laws)
    show "alaya_ok ?a"
      unfolding alaya_ok_def
    proof (intro conjI)
      show "sm_ok (PGRaftNode ?a)" "sm_ok (PGMessageChans ?a)" "sm_ok (pgMap (MetaStorageRegister ?a))"
        using sm ns(2) by (simp_all add: sm_laws)
      show "\<forall>pg r. sm_load (PGRaftNode ?a) pg = Some r \<longrightarrow>
          pgID r = pg \<and> sm_load (pgMap (MetaStorageRegister ?a)) pg = Some (metaStorage r)"
        using assms(1) r unfolding ld by (simp add: ns(4) alaya_ok_def)
      show "\<forall>pg s. sm_load (pgMap (MetaStorageRegister ?a)) pg = Some s \<longrightarrow> meta_ok s"
        using assms(1) ns(3) by (simp add: ns(4) alaya_ok_def)
      show "\<forall>pg. sm_load (PGMessageChans ?a) pg = None \<longleftrightarrow> sm_load (PGRaftNode ?a) pg = None"
        using assms(1) unfolding ld by (simp add: alaya_ok_def)
    qed
    show "getRaftNode ?a pg = Some r" if "getRaftNode a pg = Some r" for pg r
      using that n(1) unfolding getRaftNode_def ld by auto
    show "GetStorage (MetaStorageRegister ?a) pg = Inr t" if "GetStorage ?reg pg = Inr t" for pg t
      using that ns(5) by (auto simp: GetStorage_def ns(4) split: option.splits if_splits)
    show "\<exists>q \<in> set [p]. PgId_p q = pg \<and> self_id a \<in> set (RaftIds q) \<and> pipeline t = q"
      if "getRaftNode a pg = None \<and> getRaftNode ?a pg = Some t" for pg t
      using that assms(3) r(3) unfolding getRaftNode_def ld by (auto split: if_splits)
    show "getRaftNode ?a (PgId_p q) \<noteq> None" if "q \<in> set [p]" for q
      using that unfolding getRaftNode_def ld by simp
  qed simp_all
  moreover have "state_a ?a = state_a a"
    by simp
  ultimately show ?thesis
    by blast
qed

lemma group_after_refl: "alaya_ok a \<Longrightarrow> group_after self [] a a"
  by (auto simp: group_after_def)

lemma group_afterD:
  assumes "group_after self qs a b"
  shows "getRaftNode a pg = Some r \<Longrightarrow> getRaftNode b pg = Some r"
    "GetStorage (MetaStorageRegister a) pg = Inr s \<Longrightarrow> GetStorage (MetaStorageRegister b) pg = Inr s"
    "getRaftNode a pg = None \<Longrightarrow> getRaftNode b pg = Some r \<Longrightarrow>
       \<exists>p \<in> set qs. PgId_p p = pg \<and> self \<in> set (RaftIds p) \<and> pipeline r = p"
    "p \<in> set qs \<Longrightarrow> self \<in> set (RaftIds p) \<Longrightarrow> \<exists>r. getRaftNode b (PgId_p p) = Some r"
    "alaya_ok b" "watcher_a b = watcher_a a" "clusterPipelines b = clusterPipelines a"
  using assms by (simp_all add: group_after_def)

lemma group_after_trans:
  assumes "group_after self ps a b" "group_after self qs b c"
  shows "group_after self (ps @ qs) a c"
  unfolding group_after_def
proof (intro conjI allI impI ballI)
  note ab = group_afterD [OF assms(1)] and bc = group_afterD [OF assms(2)]
  show "alaya_ok c" "watcher_a c = watcher_a a" "clusterPipelines c = clusterPipelines a"
    using ab bc by simp_all
  show "getRaftNode c pg = Some r" if "getRaftNode a pg = Some r" for pg r
    using that by (intro bc(1) ab(1))
  show "GetStorage (MetaStorageRegister c) pg = Inr s" if "GetStorage (MetaStorageRegister a) pg = Inr s" for pg s
    using that by (intro bc(2) ab(2))
  show "\<exists>p \<in> set (ps @ qs). PgId_p p = pg \<and> self \<in> set (RaftIds p) \<and> pipeline r = p"
    if r: "getRaftNode a pg = None \<and> getRaftNode c pg = Some r" for pg r
  proof (cases "getRaftNode b pg")
    case None
    then show ?thesis
      using bc(3) [OF None] r by auto
  next
    case (Some r')
    then have "r' = r"
      using bc(1) [OF Some] r by simp
    then show ?thesis
      using ab(3) [OF _ Some] r by auto
  qed
  show "getRaftNode c (PgId_p p) \<noteq> None" if p: "p \<in> set (ps @ qs)" "self \<in> set (RaftIds p)" for p
  proof (cases "p \<in> set qs")
    case True
    then show ?thesis
      using bc(4) p(2) by auto
  next
    case False
    then obtain r where "getRaftNode b (PgId_p p) = Some r"
      using ab(4) p by auto
    then show ?thesis
      using bc(1) by auto
  qed
qed

lemma start_group_ok:
  assumes "alaya_ok a" "\<And>old. oldPipelines = Some old \<Longrightarrow> \<exists>q. pipeline_at (MetaPipelines old) (PgId_p p) = Ret q"
  shows "\<exists>a'. start_group oldPipelines p a = Ret a' \<and> group_after (self_id a) [p] a a'"
proof -
  have ch: "sm_load (PGMessageChans a) (PgId_p p) = None \<longleftrightarrow> getRaftNode a (PgId_p p) = None"
    using assms(1) by (simp add: alaya_ok_def getRaftNode_def)
  show ?thesis
  proof (cases "self_id a \<notin> set (RaftIds p) \<or> getRaftNode a (PgId_p p) \<noteq> None")
    case True
    moreover have "group_after (self_id a) [p] a a"
      using assms(1) True by (auto simp: group_after_def)
    ultimately show ?thesis
      using ch by (auto simp: start_group_def)
  next
    case False
    have "\<exists>oldP. start_group oldPipelines p a = exec_bind (makeAlayaRaftInPipeline p oldP a)
        (\<lambda>a. Ret (if state_a a = UPDATING then a\<lparr>running_groups := PgId_p p # running_groups a\<rparr> else a))"
    proof (cases oldPipelines)
      case None
      then show ?thesis
        using False ch by (auto simp: start_group_def)
    next
      case (Some old)
      obtain q where q: "pipeline_at (MetaPipelines old) (PgId_p p) = Ret q"
        using assms(2) [OF Some] by blast
      then show ?thesis
        using False ch Some by (intro exI [of _ "Some q"]) (simp add: start_group_def)
    qed
    then obtain oldP where o: "start_group oldPipelines p a = exec_bind (makeAlayaRaftInPipeline p oldP a)
        (\<lambda>a. Ret (if state_a a = UPDATING then a\<lparr>running_groups := PgId_p p # running_groups a\<rparr> else a))"
      by blast
    obtain a' where a': "makeAlayaRaftInPipeline p oldP a = Ret a'" "group_after (self_id a) [p] a a'"
      using makeAlayaRaft_ok [OF assms(1), of p oldP] False by auto
    have "group_after (self_id a) [p] a (a'\<lparr>running_groups := x\<rparr>)" for x
      using a'(2) by (simp add: group_after_def alaya_ok_def getRaftNode_def)
    then show ?thesis
      using o a' by auto
  qed
qed

lemma start_groups_ok:
  assumes "alaya_ok a"
    "\<And>old p. oldPipelines = Some old \<Longrightarrow> p \<in> set qs \<Longrightarrow> \<exists>q. pipeline_at (MetaPipelines old) (PgId_p p) = Ret q"
  shows "\<exists>a'. exec_fold (start_group oldPipelines) qs a = Ret a' \<and> group_after (self_id a) qs a a'"
  using assms
proof (induction qs arbitrary: a)
  case Nil
  then show ?case
    by (simp add: group_after_refl)
next
  case (Cons p qs)
  obtain a1 where a1: "start_group oldPipelines p a = Ret a1" "group_after (self_id a) [p] a a1"
    using start_group_ok [OF Cons.prems(1), of oldPipelines p] Cons.prems(2) by (meson list.set_intros(1))
  have "alaya_ok a1" "self_id a1 = self_id a"
    using a1(2) by (simp_all add: group_after_def self_id_def)
  then obtain a2 where "exec_fold (start_group oldPipelines) qs a1 = Ret a2" "group_after (self_id a) qs a1 a2"
    using Cons.IH [of a1] Cons.prems(2) by (metis list.set_intros(2))
  then show ?case
    using a1 group_after_trans [OF a1(2)] by auto
qed

lemma meta_pipelines_at:
  assumes "NewClusterPipelines select c = Inr ps"
  shows "p \<in> set (MetaPipelines ps) \<Longrightarrow> pipeline_at (MetaPipelines ps) (PgId_p p) = Ret p"
    "1 \<le> pg \<Longrightarrow> pg \<le> uint64_of_i32 (MetaPgNum c) \<Longrightarrow>
       \<exists>p \<in> set (MetaPipelines ps). pipeline_at (MetaPipelines ps) pg = Ret p \<and> PgId_p p = pg"
proof -
  let ?n = "uint64_of_i32 (MetaPgNum c)" and ?g = "uint64_of_i32 (MetaPgSize c)"
  have ps: "MetaPipelines ps = GenPipelines select c ?n ?g" "GenPipelines select c ?n ?g \<noteq> []"
    using NewClusterPipelines_Inr [OF assms] by (simp_all add: GenMetaPipelines_def)
  note at = pipeline_at_GenPipelines [OF ps(2)]
  have mem: "set (MetaPipelines ps) = gen_pipeline select c ?g ` word_of_nat ` {1..unat ?n}"
    using ps by (auto simp: GenPipelines_def simp del: upt_Suc split: if_splits)
  show "pipeline_at (MetaPipelines ps) (PgId_p p) = Ret p" if p: "p \<in> set (MetaPipelines ps)"
  proof -
    obtain i where i: "1 \<le> i" "i \<le> unat ?n" "p = gen_pipeline select c ?g (word_of_nat i)"
      using p unfolding mem by auto
    have "unat (word_of_nat i :: u64) = i"
      using i(2) unsigned_less [of ?n, where ?'a = nat] by (intro unat_word_of_nat64) simp
    then have "1 \<le> (word_of_nat i :: u64)" "(word_of_nat i :: u64) \<le> ?n"
      using i by (simp_all add: word_le_nat_alt)
    then show ?thesis
      using i(3) unfolding ps(1) at by (simp add: gen_pipeline_def)
  qed
  show "\<exists>p \<in> set (MetaPipelines ps). pipeline_at (MetaPipelines ps) pg = Ret p \<and> PgId_p p = pg"
    if "1 \<le> pg" "pg \<le> ?n"
  proof -
    have "pg = word_of_nat (unat pg)" "unat pg \<in> {1..unat ?n}"
      using that by (simp_all add: word_le_nat_alt)
    then have "gen_pipeline select c ?g pg \<in> set (MetaPipelines ps)"
      unfolding mem by (metis imageI)
    then show ?thesis
      using that unfolding ps(1) at by (auto simp: gen_pipeline_def)
  qed
qed

lemma ProposeNewPipeline_fields [simp]:
  "pgID (ProposeNewPipeline p r) = pgID r" "metaStorage (ProposeNewPipeline p r) = metaStorage r"
  by (simp_all add: ProposeNewPipeline_def)

lemma alaya_ok_map:
  assumes "alaya_ok a" "sm_ok m" "\<And>pg. sm_load m pg = map_option (g pg) (sm_load (PGRaftNode a) pg)"
    "\<And>pg r. pgID (g pg r) = pgID r \<and> metaStorage (g pg r) = metaStorage r"
  shows "alaya_ok (a\<lparr>PGRaftNode := m\<rparr>)"
  using assms(1,2,4) unfolding alaya_ok_def by (auto simp: assms(3))

lemma propose_pipelines_ok:
  assumes "alaya_ok a" "NewClusterPipelines select c = Inr ps"
    "\<And>pg. getRaftNode a pg \<noteq> None \<Longrightarrow> 1 \<le> pg \<and> pg \<le> uint64_of_i32 (MetaPgNum c)"
  shows "\<exists>a'. propose_pipelines ps a = Ret a' \<and> alaya_ok a' \<and> watcher_a a' = watcher_a a
    \<and> clusterPipelines a' = clusterPipelines a \<and> MetaStorageRegister a' = MetaStorageRegister a
    \<and> (\<forall>pg. getRaftNode a pg = None \<longrightarrow> getRaftNode a' pg = None)
    \<and> (\<forall>p \<in> set (MetaPipelines ps). \<forall>r. getRaftNode a (PgId_p p) = Some r \<longrightarrow>
         getRaftNode a' (PgId_p p) = Some (ProposeNewPipeline p r))"
proof -
  let ?f = "\<lambda>pg. case pipeline_at (MetaPipelines ps) pg of Ret p \<Rightarrow> p | _ \<Rightarrow> zero_pipeline"
  have sm: "sm_ok (PGRaftNode a)" "distinct (map fst (PGRaftNode a))"
    using assms(1) by (simp_all add: alaya_ok_def sm_ok_def)
  have "pipeline_at (MetaPipelines ps) (fst kv) = Ret (?f (fst kv))" if "kv \<in> set (PGRaftNode a)" for kv
  proof -
    have "getRaftNode a (fst kv) \<noteq> None"
      using that sm_load_None [of "PGRaftNode a" "fst kv"] by (simp add: getRaftNode_def)
    then show ?thesis
      using meta_pipelines_at(2) [OF assms(2)] assms(3) by fastforce
  qed
  from propose_fold [OF sm this] obtain m where m: "propose_pipelines ps a = Ret (a\<lparr>PGRaftNode := m\<rparr>) \<and> sm_ok m
      \<and> (\<forall>pg. sm_load m pg = (case map_of (PGRaftNode a) pg of Some r \<Rightarrow> Some (ProposeNewPipeline (?f pg) r)
           | None \<Rightarrow> sm_load (PGRaftNode a) pg))"
    unfolding propose_pipelines_def ..
  have ld: "sm_load m pg = map_option (ProposeNewPipeline (?f pg)) (sm_load (PGRaftNode a) pg)" for pg
    using m by (simp add: sm_load_def split: option.splits)
  let ?a = "a\<lparr>PGRaftNode := m\<rparr>"
  have "alaya_ok ?a"
    using alaya_ok_map [OF assms(1) _ ld] m by simp
  moreover have "getRaftNode ?a (PgId_p p) = Some (ProposeNewPipeline p r)"
    if "p \<in> set (MetaPipelines ps)" "getRaftNode a (PgId_p p) = Some r" for p r
    using that meta_pipelines_at(1) [OF assms(2)] by (simp add: getRaftNode_def ld)
  ultimately show ?thesis
    using conjunct1 [OF m] by (intro exI [of _ ?a]) (simp add: getRaftNode_def ld)
qed

section \<open>Properties\<close>

text \<open>
  C6: what a client of the current term computes from a known bucket and a key whose clean form is a
  path of ordinary components (not empty, no dots that climb) is what the service checks.  Where the
  node holds the group of the object and the record needs no synchronisation with the cloud (it does
  not replace, at the edge only, metadata the cloud has; such a record crashes the node after its
  commit), the record request is accepted, the object is then read back as it was written whatever the
  group committed ahead of it, a delete request removes it, and afterwards it is unknown.
\<close>

theorem record_get_delete:
  assumes "alaya_ok a" "ring_ok (e_ring env)" "client_request env a ctx b key m" "getRaftNode a (PgId m) \<noteq> None"
    "needs_sync a m = Inr False"
    "codec_ok (e_codec env) (before @ [\<lparr>OperateId = i, Operate = PUT, Meta = m\<rparr>])"
    "codec_ok (e_codec env) [\<lparr>OperateId = j, Operate = DELETE, Meta = m\<rparr>]"
  shows "\<exists>a1 a2. RecordObjectMeta env i before reply ctx m a = Ret (a1, Inr result_ok)
    \<and> GetObjectMeta env a1 ctx (ObjId m) = Ret (Inr m)
    \<and> DeleteMeta env j [] ctx (ObjId m) a1 = Ret (a2, Inr result_ok, Some m)
    \<and> GetObjectMeta env a2 ctx (ObjId m) = Ret (Inl (Err MetaNotExist)) \<and> alaya_ok a2"
proof -
  note c = client_request_checks [OF assms(2,3)]
  obtain r where r: "getRaftNode a (PgId m) = Some r"
    using assms(4) by blast
  obtain r1 where r1: "propose_meta env i before (PgId m) PUT m a = Ret (put_raft (PgId m) r1 a, None)"
      "metaStorage r1 = fold apply_operate (before @ [\<lparr>OperateId = i, Operate = PUT, Meta = m\<rparr>]) (metaStorage r)"
      "alaya_ok (put_raft (PgId m) r1 a)"
    using propose_meta_Some [OF assms(1) r assms(6)] by blast
  let ?a1 = "put_raft (PgId m) r1 a"
  have q1: "client_request env ?a1 ctx b key m"
    using assms(3) client_request_watcher put_raft_other(3) [OF assms(1)] by blast
  have g1: "getRaftNode ?a1 (PgId m) = Some r1" "GetStorage (MetaStorageRegister ?a1) (PgId m) = Inr (metaStorage r1)"
    using put_raft_other [OF assms(1)] by simp_all
  have get1: "GetObjectMeta env ?a1 ctx (ObjId m) = Ret (Inr m)"
    using GetObjectMeta_client [OF assms(2) q1] g1(2) GetMeta_after [OF group_storage_ok [OF assms(1) r]] r1(2) by simp
  obtain r2 where r2: "propose_meta env j [] (PgId m) DELETE m ?a1 = Ret (put_raft (PgId m) r2 ?a1, None)"
      "metaStorage r2 = fold apply_operate ([] @ [\<lparr>OperateId = j, Operate = DELETE, Meta = m\<rparr>]) (metaStorage r1)"
      "alaya_ok (put_raft (PgId m) r2 ?a1)"
    using propose_meta_Some [OF r1(3) g1(1), of env "[]" j DELETE m] assms(7) by auto
  let ?a2 = "put_raft (PgId m) r2 ?a1"
  have q2: "client_request env ?a2 ctx b key m"
    using q1 client_request_watcher put_raft_other(3) [OF r1(3)] by blast
  have "GetObjectMeta env ?a2 ctx (ObjId m) = Ret (Inl (Err MetaNotExist))"
    using GetObjectMeta_client [OF assms(2) q2] put_raft_other(2) [OF r1(3), of "PgId m" r2]
      GetMeta_after [OF group_storage_ok [OF r1(3) g1(1)], of "[]"] r2(2) by simp
  moreover have "RecordObjectMeta env i before reply ctx m a = Ret (?a1, Inr result_ok)"
    using c r1(1) assms(5) by (simp add: RecordObjectMeta_def)
  moreover have "DeleteMeta env j [] ctx (ObjId m) ?a1 = Ret (?a2, Inr result_ok, Some m)"
    using c get1 r2(1) by (simp add: DeleteMeta_def)
  ultimately show ?thesis
    using get1 r2(3) by blast
qed

theorem record_get_delete_witness:
  "\<exists>w a1 a2. exec_bind example_watcher (commit_requests example_setup) = Ret w
     \<and> RecordObjectMeta example_env 9 [] Closed example_ctx example_record (example_alaya [] w) = Ret (a1, Inr result_ok)
     \<and> GetObjectMeta example_env a1 example_ctx (ObjId example_record) = Ret (Inr example_record)
     \<and> DeleteMeta example_env 9 [] example_ctx (ObjId example_record) a1 = Ret (a2, Inr result_ok, Some example_record)"
proof -
  obtain w where w: "exec_bind example_watcher (commit_requests example_setup) = Ret w"
      "client_request example_env (example_alaya [] w) example_ctx example_bucket ''a'' example_record"
    using example_service by blast
  have r: "ring_ok (e_ring example_env)"
    by (simp add: example_env_def first_ring_ok)
  have a: "getRaftNode (example_alaya [] w) (PgId example_record) \<noteq> None"
      "needs_sync (example_alaya [] w) example_record = Inr False"
    by (simp_all add: getRaftNode_def needs_sync_def GetStorage_def GetMeta_def NewMemoryMetaStorage_def
        example_alaya_def example_record_def example_meta_def Let_def sm_load_def)
  show ?thesis
    using record_get_delete [OF example_alaya_ok r w(2) a, of "[]" 9 9 Closed] example_codec_ok w(1) by auto
qed

text \<open>
  C16: a record request changes something only when the client's term is the current one and the
  placement group it names is the one the service computes for its identifier, and then only
  the group it names; a missing or stale term is reported as such.
\<close>

theorem RecordObjectMeta_guarded:
  assumes "alaya_ok a" "RecordObjectMeta env i before reply ctx m a = Ret (a', res)"
  shows "(GetTermFromContext ctx \<noteq> Inr (GetCurrentTerm (watcher_a a)) \<longrightarrow>
       a' = a \<and> (res = Inl (Err TermNotExist) \<or> res = Inl (Err TermNotMatch)))
    \<and> (a' \<noteq> a \<longrightarrow> calculateObjectPGID env a (GetCurrentTerm (watcher_a a)) (CleanObjectKey (ObjId m)) = Ret (PgId m))
    \<and> (\<forall>pg. pg \<noteq> PgId m \<longrightarrow> getRaftNode a' pg = getRaftNode a pg
         \<and> GetStorage (MetaStorageRegister a') pg = GetStorage (MetaStorageRegister a) pg)"
proof (cases "GetTermFromContext ctx = Inr (GetCurrentTerm (watcher_a a))")
  case False
  then have "a' = a \<and> (res = Inl (Err TermNotExist) \<or> res = Inl (Err TermNotMatch))"
    using assms(2) by (auto simp: RecordObjectMeta_def checkClientTerm_def GetTermFromContext_def split: option.splits if_splits)
  then show ?thesis
    by simp
next
  case True
  let ?t = "GetCurrentTerm (watcher_a a)" and ?m = "m\<lparr>ObjId := CleanObjectKey (ObjId m)\<rparr>"
  have c: "checkClientTerm a ctx = Inr ?t"
    using True by (simp add: checkClientTerm_def)
  then obtain pg where pg: "calculateObjectPGID env a ?t (CleanObjectKey (ObjId m)) = Ret pg"
    using assms(2) by (auto simp: RecordObjectMeta_def checkObject_def)
  have "a' = a \<or> (PgId m = pg \<and> (\<exists>err. propose_meta env i before (PgId m) PUT ?m a = Ret (a', err)))"
    using assms(2) c pg
    by (auto simp: RecordObjectMeta_def checkObject_def Let_def split: if_splits option.splits sum.splits)
  then show ?thesis
    using True pg propose_meta_frame [OF _ assms(1)] by blast
qed

theorem RecordObjectMeta_guarded_witness:
  "\<exists>w res. exec_bind example_watcher (commit_requests example_setup) = Ret w
     \<and> RecordObjectMeta example_env 9 [] Closed (example_ctx\<lparr>TagTerm := FormatUint 6\<rparr>) example_record (example_alaya [] w)
         = Ret (example_alaya [] w, res) \<and> (res = Inl (Err TermNotExist) \<or> res = Inl (Err TermNotMatch))"
proof -
  let ?ctx = "example_ctx\<lparr>TagTerm := FormatUint 6\<rparr>"
  obtain w where w: "exec_bind example_watcher (commit_requests example_setup) = Ret w"
      "client_request example_env (example_alaya [] w) example_ctx example_bucket ''a'' example_record"
    using example_service by blast
  have t: "GetCurrentTerm (watcher_a (example_alaya [] w)) = 7"
    using w(2) by (simp add: client_request_def example_ctx_def)
  then have "RecordObjectMeta example_env 9 [] Closed ?ctx example_record (example_alaya [] w) =
      Ret (example_alaya [] w, Inl (Err TermNotMatch))"
    by (simp add: RecordObjectMeta_def checkClientTerm_def GetTermFromContext_def)
  from RecordObjectMeta_guarded [OF example_alaya_ok this] show ?thesis
    using w(1) t \<open>RecordObjectMeta _ _ _ _ _ _ _ = _\<close> by blast
qed

text \<open>
  C17: applying the pipelines of a cluster information keeps the service well formed and its
  stored metadata, hands every running group its new pipeline, and starts a group for exactly
  those pipelines the node is in and has no group for.
\<close>

theorem ApplyNewPipelines_correct:
  assumes "alaya_ok a" "NewClusterPipelines select c = Inr ps"
    "\<forall>pg. getRaftNode a pg \<noteq> None \<longrightarrow> 1 \<le> pg \<and> pg \<le> uint64_of_i32 (MetaPgNum c)"
    "\<forall>o'. old = Some o' \<longrightarrow> (\<forall>p \<in> set (MetaPipelines ps). \<exists>q. pipeline_at (MetaPipelines o') (PgId_p p) = Ret q)"
  shows "\<exists>a'. ApplyNewPipelines ps old a = Ret a' \<and> alaya_ok a' \<and> clusterPipelines a' = Some ps
    \<and> (\<forall>pg s. GetStorage (MetaStorageRegister a) pg = Inr s \<longrightarrow> GetStorage (MetaStorageRegister a') pg = Inr s)
    \<and> (\<forall>p \<in> set (MetaPipelines ps).
         case getRaftNode a (PgId_p p) of
           Some r \<Rightarrow> getRaftNode a' (PgId_p p) = Some (ProposeNewPipeline p r)
         | None \<Rightarrow> (case getRaftNode a' (PgId_p p) of
               None \<Rightarrow> self_id a \<notin> set (RaftIds p)
             | Some r \<Rightarrow> self_id a \<in> set (RaftIds p) \<and> pipeline r = p))"
proof -
  let ?a = "a\<lparr>clusterPipelines := Some ps\<rparr>"
  have eq: "alaya_ok ?a" "getRaftNode ?a = getRaftNode a"
    using assms(1) by (simp_all add: alaya_ok_def getRaftNode_def fun_eq_iff)
  obtain a1 where a1: "propose_pipelines ps ?a = Ret a1" "alaya_ok a1" "watcher_a a1 = watcher_a a"
      "clusterPipelines a1 = Some ps" "MetaStorageRegister a1 = MetaStorageRegister a"
      "\<forall>pg. getRaftNode a pg = None \<longrightarrow> getRaftNode a1 pg = None"
      "\<forall>p \<in> set (MetaPipelines ps). \<forall>r. getRaftNode a (PgId_p p) = Some r \<longrightarrow>
         getRaftNode a1 (PgId_p p) = Some (ProposeNewPipeline p r)"
    using propose_pipelines_ok [OF eq(1) assms(2)] assms(3) unfolding eq(2) by auto
  have self: "self_id a1 = self_id a"
    using a1(3) by (simp add: self_id_def)
  obtain a2 where a2: "exec_fold (start_group old) (MetaPipelines ps) a1 = Ret a2" "group_after (self_id a) (MetaPipelines ps) a1 a2"
    using start_groups_ok [OF a1(2), of old "MetaPipelines ps"] assms(4) unfolding self by blast
  note g = group_afterD [OF a2(2)]
  have "case getRaftNode a (PgId_p p) of
      Some r \<Rightarrow> getRaftNode a2 (PgId_p p) = Some (ProposeNewPipeline p r)
    | None \<Rightarrow> (case getRaftNode a2 (PgId_p p) of
          None \<Rightarrow> self_id a \<notin> set (RaftIds p) | Some r \<Rightarrow> self_id a \<in> set (RaftIds p) \<and> pipeline r = p)"
    if p: "p \<in> set (MetaPipelines ps)" for p
  proof (cases "getRaftNode a (PgId_p p)")
    case (Some r)
    then show ?thesis
      using a1(7) g(1) p by simp
  next
    case None
    have "q = p" if "q \<in> set (MetaPipelines ps)" "PgId_p q = PgId_p p" for q
      using meta_pipelines_at(1) [OF assms(2)] that p by (metis exec.inject(1))
    moreover have "getRaftNode a1 (PgId_p p) = None"
      using None a1(6) by blast
    note new = g(3) [OF this]
    ultimately show ?thesis
      using None g(4) [OF p] new by (cases "getRaftNode a2 (PgId_p p)") auto
  qed
  then show ?thesis
    using a1(1,4,5) a2(1) g(2,5,7) by (auto simp: ApplyNewPipelines_def)
qed

theorem ApplyNewPipelines_correct_witness:
  "\<exists>ps a'. NewClusterPipelines take_crush example_cluster = Inr ps
     \<and> (\<forall>w. \<exists>a'. ApplyNewPipelines ps None ((example_alaya [] w)\<lparr>PGRaftNode := [], PGMessageChans := []\<rparr>) = Ret a' \<and> alaya_ok a')"
proof -
  obtain ps where ps: "NewClusterPipelines take_crush example_cluster = Inr ps"
    using example_cluster_pipelines by blast
  have "alaya_ok ((example_alaya [] w)\<lparr>PGRaftNode := [], PGMessageChans := []\<rparr>)" for w
    using example_alaya_ok [of "[]" w] by (simp add: alaya_ok_def sm_ok_def sm_load_def)
  moreover have "getRaftNode ((example_alaya [] w)\<lparr>PGRaftNode := [], PGMessageChans := []\<rparr>) pg = None" for w pg
    by (simp add: getRaftNode_def sm_load_def)
  ultimately show ?thesis
    using ps ApplyNewPipelines_correct [OF _ ps, of "(example_alaya [] _)\<lparr>PGRaftNode := [], PGMessageChans := []\<rparr>" None] by fastforce
qed



end
