(* ===== verification/Gaia.thy ===== *)
theory Gaia
  imports Alaya
begin

text \<open>
  Storage of object blocks (\<^verbatim>\<open>edge-node/gaia/gaia.go\<close>, \<^verbatim>\<open>shared/gaia/transporter.go\<close> and the cloud
  copy \<^verbatim>\<open>cloud/rainbow/cloud_gaia.go\<close>): a block arrives as a stream of messages, is written to a
  local file through a buffered writer and forwarded to the other nodes of its pipeline, each of
  which runs the same code with a pipeline of its own.  The files of all nodes are one store
  keyed by node and path.  The buffered writer and reader are those of the Go package
  \<^verbatim>\<open>bufio\<close> with their buffer of 4096 bytes.  A node that is not listed among the servers cannot
  be reached; a stream whose handler has returned refuses the next message; a panic of a node is
  a panic of the run.  File creation and writes succeed, and the metrics are left out.
\<close>

section \<open>Buffered files\<close>

text \<open>\<^verbatim>\<open>bufio.Writer.Write\<close>: what reaches the file, and what stays in the buffer.\<close>

function bufio_write :: "nat \<Rightarrow> bytes \<Rightarrow> bytes \<Rightarrow> bytes \<times> bytes" where
  "bufio_write n buf p =
     (if length p \<le> n - length buf then ([], buf @ p)
      else if buf = [] then (p, [])
      else let k = n - length buf; (out, b) = bufio_write n [] (drop k p)
           in (buf @ take k p @ out, b))"
  by pat_completeness auto
termination
  by (relation "measure (\<lambda>(n, buf, p). length buf)") auto

definition bufio_size :: nat where
  "bufio_size = 4096"

text \<open>\<^verbatim>\<open>bufio.Reader.Read\<close> into a slice of \<open>n\<close> bytes: the bytes read, the buffer and the rest of the file.\<close>

definition bufio_read :: "nat \<Rightarrow> bytes \<times> bytes \<Rightarrow> bytes \<times> bytes \<times> bytes" where
  "bufio_read n s =
     (let (buf, rest) = s
      in if buf \<noteq> [] then (take n buf, drop n buf, rest)
         else if bufio_size \<le> n then (take n rest, [], drop n rest)
         else (take n (take bufio_size rest), drop n (take bufio_size rest), drop bufio_size rest))"

section \<open>Files and the transporter\<close>

text \<open>\<^verbatim>\<open>os.Create\<close> truncates the file, and \<^verbatim>\<open>os.Remove\<close> fails on a file that does not exist.\<close>

type_synonym disk = "(u64 \<times> string, bytes) smap"

definition create_file :: "u64 \<Rightarrow> string \<Rightarrow> disk \<Rightarrow> disk" where
  "create_file self p d = sm_store (self, p) [] d"

definition append_file :: "u64 \<Rightarrow> string \<Rightarrow> bytes \<Rightarrow> disk \<Rightarrow> disk" where
  "append_file self p out d =
     (case sm_load d (self, p) of None \<Rightarrow> d | Some old \<Rightarrow> sm_store (self, p) (old @ out) d)"

definition remove_file :: "u64 \<Rightarrow> string \<Rightarrow> disk \<Rightarrow> disk \<times> go_error option" where
  "remove_file self p d =
     (if sm_load d (self, p) = None then (d, Some (ErrText ''no such file or directory''))
      else (sm_delete (self, p) d, None))"

record LocalWriter =
  lw_path :: string
  lw_buf :: bytes

record 'r PrimaryCopyTransporter =
  pct_self :: u64
  pct_info :: "BlockInfo option"
  basePath :: string
  localWriter :: "LocalWriter option"
  remoteWriters :: "'r list"

text \<open>
  The remote writers are known to the transporter by their operations only: how one is made for
  a node, and how it writes, closes and deletes.
\<close>

record 'r Remote =
  r_new :: "BlockInfo option \<Rightarrow> NodeInfo option \<Rightarrow> Pipeline \<Rightarrow> 'r exec"
  r_write :: "'r \<Rightarrow> bytes \<Rightarrow> disk \<Rightarrow> ('r \<times> disk \<times> go_error option) exec"
  r_close :: "'r \<Rightarrow> disk \<Rightarrow> ('r \<times> disk \<times> go_error option) exec"
  r_delete :: "'r \<Rightarrow> disk \<Rightarrow> (disk \<times> go_error option) exec"

definition getNodeInfo :: "ClusterInfo \<Rightarrow> u64 \<Rightarrow> NodeInfo option" where
  "getNodeInfo clusterInfo nodeID = find (\<lambda>info. RaftId info = nodeID) (NodesInfo clusterInfo)"

primrec new_remotes ::
    "'r Remote \<Rightarrow> u64 \<Rightarrow> BlockInfo option \<Rightarrow> Pipeline \<Rightarrow> ClusterInfo \<Rightarrow> u64 list \<Rightarrow> 'r list exec" where
  "new_remotes R self info p c [] = Ret []"
| "new_remotes R self info p c (n # ns) =
     (if self = n then new_remotes R self info p c ns
      else exec_bind (r_new R info (getNodeInfo c n) p) (\<lambda>w.
           exec_bind (new_remotes R self info p c ns) (\<lambda>ws. Ret (w # ws))))"

definition NewPrimaryCopyTransporter ::
    "'r Remote \<Rightarrow> BlockInfo option \<Rightarrow> Pipeline \<Rightarrow> u64 \<Rightarrow> ClusterInfo \<Rightarrow> string \<Rightarrow> 'r PrimaryCopyTransporter exec" where
  "NewPrimaryCopyTransporter R info p selfID clusterInfo base =
     exec_bind (new_remotes R selfID info p clusterInfo (RaftIds p)) (\<lambda>ws.
       Ret \<lparr>pct_self = selfID, pct_info = info, basePath = base, localWriter = None, remoteWriters = ws\<rparr>)"

text \<open>The block information is nil in the transporter a stream starts with.\<close>

definition GetStoragePath :: "'r PrimaryCopyTransporter \<Rightarrow> string exec" where
  "GetStoragePath t =
     (case pct_info t of
        None \<Rightarrow> Panic ''nil pointer dereference''
      | Some b \<Rightarrow> Ret (path_join [basePath t, BlockId b]))"

definition pct_init :: "'r PrimaryCopyTransporter \<Rightarrow> disk \<Rightarrow> (LocalWriter \<times> disk) exec" where
  "pct_init t d =
     exec_bind (GetStoragePath t) (\<lambda>p. Ret (\<lparr>lw_path = p, lw_buf = []\<rparr>, create_file (pct_self t) p d))"

definition lw_Write :: "u64 \<Rightarrow> LocalWriter \<Rightarrow> bytes \<Rightarrow> disk \<Rightarrow> LocalWriter \<times> disk" where
  "lw_Write self lw chunk d =
     (let (out, buf) = bufio_write bufio_size (lw_buf lw) chunk
      in (lw\<lparr>lw_buf := buf\<rparr>, append_file self (lw_path lw) out d))"

text \<open>The multi-writer stops at the first writer that fails; the local writer is its last one.\<close>

primrec each_remote ::
    "('r \<Rightarrow> disk \<Rightarrow> ('r \<times> disk \<times> go_error option) exec) \<Rightarrow> 'r list \<Rightarrow> disk \<Rightarrow> ('r list \<times> disk \<times> go_error option) exec" where
  "each_remote f [] d = Ret ([], d, None)"
| "each_remote f (w # ws) d =
     exec_bind (f w d) (\<lambda>(w, d, err).
       case err of
         Some e \<Rightarrow> Ret (w # ws, d, Some e)
       | None \<Rightarrow> exec_bind (each_remote f ws d) (\<lambda>(ws, d, err). Ret (w # ws, d, err)))"

abbreviation write_remotes ::
    "'r Remote \<Rightarrow> bytes \<Rightarrow> 'r list \<Rightarrow> disk \<Rightarrow> ('r list \<times> disk \<times> go_error option) exec" where
  "write_remotes R chunk \<equiv> each_remote (\<lambda>w. r_write R w chunk)"

definition pct_Write ::
    "'r Remote \<Rightarrow> 'r PrimaryCopyTransporter \<Rightarrow> bytes \<Rightarrow> disk \<Rightarrow> ('r PrimaryCopyTransporter \<times> disk \<times> go_error option) exec" where
  "pct_Write R t chunk d =
     exec_bind (case localWriter t of None \<Rightarrow> pct_init t d | Some lw \<Rightarrow> Ret (lw, d)) (\<lambda>(lw, d).
     exec_bind (write_remotes R chunk (remoteWriters t) d) (\<lambda>(ws, d, err).
       case err of
         Some e \<Rightarrow> Ret (t\<lparr>localWriter := Some lw, remoteWriters := ws\<rparr>, d, Some e)
       | None \<Rightarrow>
           (let (lw, d) = lw_Write (pct_self t) lw chunk d
            in Ret (t\<lparr>localWriter := Some lw, remoteWriters := ws\<rparr>, d, None))))"

text \<open>
  The local writer is a buffered writer, which the switch on its type does not know: it is not
  flushed, synced or closed.  The remote writers are closed in order up to the first failure.
\<close>

abbreviation close_remotes :: "'r Remote \<Rightarrow> 'r list \<Rightarrow> disk \<Rightarrow> ('r list \<times> disk \<times> go_error option) exec" where
  "close_remotes R \<equiv> each_remote (r_close R)"

definition pct_Close ::
    "'r Remote \<Rightarrow> 'r PrimaryCopyTransporter \<Rightarrow> disk \<Rightarrow> ('r PrimaryCopyTransporter \<times> disk \<times> go_error option) exec" where
  "pct_Close R t d =
     exec_bind (close_remotes R (remoteWriters t) d) (\<lambda>(ws, d, err). Ret (t\<lparr>remoteWriters := ws\<rparr>, d, err))"

primrec delete_remotes :: "'r Remote \<Rightarrow> 'r list \<Rightarrow> disk \<Rightarrow> (disk \<times> go_error option) exec" where
  "delete_remotes R [] d = Ret (d, None)"
| "delete_remotes R (w # ws) d =
     exec_bind (r_delete R w d) (\<lambda>(d, err).
       case err of Some e \<Rightarrow> Ret (d, Some e) | None \<Rightarrow> delete_remotes R ws d)"

definition pct_Delete :: "'r Remote \<Rightarrow> 'r PrimaryCopyTransporter \<Rightarrow> disk \<Rightarrow> (disk \<times> go_error option) exec" where
  "pct_Delete R t d =
     exec_bind (GetStoragePath t) (\<lambda>p.
     exec_bind (delete_remotes R (remoteWriters t) d) (\<lambda>(d, err).
       case err of Some e \<Rightarrow> Ret (d, Some e) | None \<Rightarrow> Ret (remove_file (pct_self t) p d)))"

section \<open>The upload stream\<close>

record CodedResult = Result +
  Code_r :: int

datatype ControlMessage =
    Message_BEGIN "BlockInfo option" "Pipeline option" u64
  | Message_EOF "BlockInfo option"
  | Message_other

datatype UploadBlockRequest = Payload_Message ControlMessage | Payload_Chunk bytes | Payload_nil

text \<open>
  The state of a handler: its transporter, the results it has sent, and what it returned once it
  has.  Sending a result does not end the handler: it reads on until the client closes.
\<close>

record 'r Upload =
  transporter :: "'r PrimaryCopyTransporter"
  sent :: "CodedResult list"
  returned :: "go_error option option"

definition zero_transporter :: "'r PrimaryCopyTransporter" where
  "zero_transporter = \<lparr>pct_self = 0, pct_info = None, basePath = [], localWriter = None, remoteWriters = []\<rparr>"

definition new_upload :: "'r Upload" where
  "new_upload = \<lparr>transporter = zero_transporter, sent = [], returned = None\<rparr>"

definition SendAndClose :: "ResultStatus \<Rightarrow> int \<Rightarrow> string \<Rightarrow> 'r Upload \<Rightarrow> 'r Upload" where
  "SendAndClose st code msg u = u\<lparr>sent := sent u @ [\<lparr>Status_r = st, Message = msg, Code_r = code\<rparr>]\<rparr>"

definition return_upload :: "go_error option \<Rightarrow> 'r Upload \<Rightarrow> 'r Upload" where
  "return_upload err u = u\<lparr>returned := Some err\<rparr>"

record Gaia =
  g_watcher :: Watcher
  g_basePath :: string
  g_chunkSize :: u64
  g_done :: bool

definition NewGaia :: "Watcher \<Rightarrow> string \<Rightarrow> u64 \<Rightarrow> Gaia" where
  "NewGaia watcher base chunkSize = \<lparr>g_watcher = watcher, g_basePath = base, g_chunkSize = chunkSize, g_done = False\<rparr>"

definition g_self :: "Gaia \<Rightarrow> u64" where
  "g_self g = RaftId (selfNodeInfo (g_watcher g))"

definition finish_block :: "'r Remote \<Rightarrow> BlockInfo option \<Rightarrow> 'r Upload \<Rightarrow> disk \<Rightarrow> ('r Upload \<times> disk) exec" where
  "finish_block R block u d =
     exec_bind (pct_Close R (transporter u) d) (\<lambda>(t, d, err).
       let u = u\<lparr>transporter := t\<rparr>
       in case err of
            Some e \<Rightarrow> Ret (SendAndClose Result_FAIL 0 (Error e) u, d)
          | None \<Rightarrow>
              if block = None then Panic ''nil pointer dereference'' else Ret (SendAndClose Result_OK 0 [] u, d))"

definition processControlMessage ::
    "'r Remote \<Rightarrow> Gaia \<Rightarrow> ControlMessage \<Rightarrow> 'r Upload \<Rightarrow> disk \<Rightarrow> ('r Upload \<times> disk) exec" where
  "processControlMessage R g msg u d =
     (case msg of
        Message_BEGIN block p term \<Rightarrow>
          exec_bind (GetClusterInfoByTerm (g_watcher g) term) (\<lambda>res.
            case p of
              None \<Rightarrow> Panic ''nil pointer dereference''
            | Some p \<Rightarrow>
                (case res of
                   Inl err \<Rightarrow> Ret (return_upload (Some err) u, d)
                 | Inr c \<Rightarrow>
                     exec_bind (NewPrimaryCopyTransporter R block p (g_self g) c (g_basePath g)) (\<lambda>t.
                       if block = None then Panic ''nil pointer dereference'' else Ret (u\<lparr>transporter := t\<rparr>, d))))
      | Message_EOF block \<Rightarrow> finish_block R block u d
      | Message_other \<Rightarrow> Ret (SendAndClose Result_FAIL 0 [] u, d))"

text \<open>The test for a nil transporter of the code never succeeds: a stream starts with an empty one.\<close>

definition processChunk :: "'r Remote \<Rightarrow> bytes \<Rightarrow> 'r Upload \<Rightarrow> disk \<Rightarrow> ('r Upload \<times> disk) exec" where
  "processChunk R data u d =
     exec_bind (pct_Write R (transporter u) data d) (\<lambda>(t, d, err).
       let u = u\<lparr>transporter := t\<rparr>
       in case err of
            Some e \<Rightarrow>
              Ret (SendAndClose Result_FAIL (errno_code TransporterWriteFail)
                     (Error (Err TransporterWriteFail) @ Error e) u, d)
          | None \<Rightarrow> Ret (u, d))"

text \<open>One round of the loop of \<^verbatim>\<open>UploadBlockData\<close> on the next request, or on the end of the stream.\<close>

definition upload_step :: "'r Remote \<Rightarrow> Gaia \<Rightarrow> UploadBlockRequest option \<Rightarrow> 'r Upload \<Rightarrow> disk \<Rightarrow> ('r Upload \<times> disk) exec" where
  "upload_step R g r u d =
     (if returned u \<noteq> None then Ret (u, d)
      else if g_done g then
        Ret (return_upload None (SendAndClose Result_FAIL (errno_code GaiaClosedErr) (Error (Err GaiaClosedErr)) u), d)
      else case r of
        None \<Rightarrow> Ret (return_upload None u, d)
      | Some (Payload_Message msg) \<Rightarrow> processControlMessage R g msg u d
      | Some (Payload_Chunk data) \<Rightarrow> processChunk R data u d
      | Some Payload_nil \<Rightarrow> Ret (return_upload None (SendAndClose Result_FAIL 0 [] u), d))"

text \<open>The client of a stream takes exactly one result, after the handler has returned without an error.\<close>

definition recv_result :: "'r Upload \<Rightarrow> CodedResult result" where
  "recv_result u =
     (case returned u of
        Some (Some err) \<Rightarrow> Inl err
      | _ \<Rightarrow> (case sent u of [] \<Rightarrow> Inl EOF | [res] \<Rightarrow> Inr res | _ \<Rightarrow> Inl (ErrText ''client streaming protocol violation'')))"

definition delete_info :: "string \<Rightarrow> BlockInfo" where
  "delete_info blockId = \<lparr>BlockId = blockId, PartId = 0, BlockSize_bi = 0, BlockHash = [], PgId_bi = 0\<rparr>"

definition delete_block :: "'r Remote \<Rightarrow> Gaia \<Rightarrow> DeleteBlockRequest \<Rightarrow> disk \<Rightarrow> (disk \<times> go_error option) exec" where
  "delete_block R g req d =
     exec_bind (GetClusterInfoByTerm (g_watcher g) (Term_d req)) (\<lambda>res.
       case res of
         Inl err \<Rightarrow> Ret (d, Some err)
       | Inr c \<Rightarrow>
           exec_bind (NewPrimaryCopyTransporter R (Some (delete_info (BlockId_d req))) (Pipeline_d req)
             (g_self g) c (g_basePath g)) (\<lambda>t. pct_Delete R t d))"

section \<open>Remote writers\<close>

text \<open>
  The node a remote writer sends to is given a pipeline that holds only this node, and every
  server is known by its own identifier, so its transporter has no remote writers of its own.
\<close>

definition no_remote :: "unit Remote" where
  "no_remote = \<lparr>r_new = (\<lambda>_ _ _. Panic ''no remote writer''), r_write = (\<lambda>_ _ _. Panic ''no remote writer''),
     r_close = (\<lambda>_ _. Panic ''no remote writer''), r_delete = (\<lambda>_ _. Panic ''no remote writer'')\<rparr>"

type_synonym servers = "u64 \<Rightarrow> Gaia option"

definition makeSingleNodePipeline :: "NodeInfo \<Rightarrow> Pipeline \<Rightarrow> Pipeline" where
  "makeSingleNodePipeline info p =
     \<lparr>PgId_p = PgId_p p, RaftIds = [RaftId info], SyncType_p = STREAM, ClusterTerm = 0\<rparr>"

record RemoteWriter =
  rw_node :: u64
  blockInfo_rw :: "BlockInfo option"
  pipeline_rw :: Pipeline
  stream_rw :: "unit Upload option"

definition NewRemoteWriter :: "BlockInfo option \<Rightarrow> NodeInfo option \<Rightarrow> Pipeline \<Rightarrow> RemoteWriter exec" where
  "NewRemoteWriter info nodeInfo p =
     (case nodeInfo of
        None \<Rightarrow> Panic ''nil pointer dereference''
      | Some n \<Rightarrow>
          Ret \<lparr>rw_node = RaftId n, blockInfo_rw = info, pipeline_rw = makeSingleNodePipeline n p, stream_rw = None\<rparr>)"

text \<open>A message sent on a stream is handled by the server at its other end.\<close>

definition stream_Send ::
    "Gaia \<Rightarrow> UploadBlockRequest \<Rightarrow> unit Upload \<Rightarrow> disk \<Rightarrow> (unit Upload \<times> disk \<times> go_error option) exec" where
  "stream_Send g r u d =
     (if returned u \<noteq> None then Ret (u, d, Some EOF)
      else exec_bind (upload_step no_remote g (Some r) u d) (\<lambda>(u, d). Ret (u, d, None)))"

definition rw_init :: "Gaia \<Rightarrow> RemoteWriter \<Rightarrow> disk \<Rightarrow> (RemoteWriter \<times> disk \<times> go_error option) exec" where
  "rw_init g w d =
     exec_bind (stream_Send g (Payload_Message (Message_BEGIN (blockInfo_rw w) (Some (pipeline_rw w)) 0)) new_upload d)
       (\<lambda>(u, d, err). Ret (w\<lparr>stream_rw := Some u\<rparr>, d, err))"

definition rw_Write :: "servers \<Rightarrow> RemoteWriter \<Rightarrow> bytes \<Rightarrow> disk \<Rightarrow> (RemoteWriter \<times> disk \<times> go_error option) exec" where
  "rw_Write net w chunk d =
     (case net (rw_node w) of
        None \<Rightarrow> Ret (w, d, Some (ErrText ''rpc error: code = Unavailable''))
      | Some g \<Rightarrow>
          exec_bind (if stream_rw w = None then rw_init g w d else Ret (w, d, None)) (\<lambda>(w, d, err).
            case err of
              Some e \<Rightarrow> Ret (w, d, Some e)
            | None \<Rightarrow>
                exec_bind (stream_Send g (Payload_Chunk chunk) (the (stream_rw w)) d) (\<lambda>(u, d, err).
                  Ret (w\<lparr>stream_rw := Some u\<rparr>, d, err))))"

text \<open>
  The error of sending the last message is overwritten by that of receiving the result.  A stream
  whose handler has returned holds an error, a failure, or a result that was already taken.
\<close>

definition rw_Close :: "servers \<Rightarrow> RemoteWriter \<Rightarrow> disk \<Rightarrow> (RemoteWriter \<times> disk \<times> go_error option) exec" where
  "rw_Close net w d =
     (case stream_rw w of
        None \<Rightarrow> Ret (w, d, Some (Err RemoteGaiaFail))
      | Some u \<Rightarrow>
          (case net (rw_node w) of
             None \<Rightarrow> Ret (w, d, Some (Err RemoteGaiaFail))
           | Some g \<Rightarrow>
               if returned u \<noteq> None then Ret (w, d, Some (Err RemoteGaiaFail))
               else
                 exec_bind (stream_Send g (Payload_Message (Message_EOF (blockInfo_rw w))) u d) (\<lambda>(u, d, _).
                 exec_bind (upload_step no_remote g None u d) (\<lambda>(u, d).
                   Ret (w\<lparr>stream_rw := Some u\<rparr>, d,
                     case recv_result u of
                       Inl err \<Rightarrow> Some (Err RemoteGaiaFail)
                     | Inr res \<Rightarrow> if Status_r res \<noteq> Result_OK then Some (Err RemoteGaiaFail) else None)))))"

definition rw_Delete :: "servers \<Rightarrow> RemoteWriter \<Rightarrow> disk \<Rightarrow> (disk \<times> go_error option) exec" where
  "rw_Delete net w d =
     (case blockInfo_rw w of
        None \<Rightarrow> Panic ''nil pointer dereference''
      | Some b \<Rightarrow>
          (case net (rw_node w) of
             None \<Rightarrow> Ret (d, Some (Err RemoteGaiaFail))
           | Some g \<Rightarrow>
               exec_bind (delete_block no_remote g \<lparr>BlockId_d = BlockId b, Pipeline_d = pipeline_rw w, Term_d = 0\<rparr> d)
                 (\<lambda>(d, err). Ret (d, if err \<noteq> None then Some (Err RemoteGaiaFail) else None))))"

definition remote_writer :: "servers \<Rightarrow> RemoteWriter Remote" where
  "remote_writer net = \<lparr>r_new = NewRemoteWriter, r_write = rw_Write net, r_close = rw_Close net, r_delete = rw_Delete net\<rparr>"

section \<open>The service of a node\<close>

primrec upload_loop ::
    "'r Remote \<Rightarrow> Gaia \<Rightarrow> UploadBlockRequest list \<Rightarrow> 'r Upload \<Rightarrow> disk \<Rightarrow> ('r Upload \<times> disk) exec" where
  "upload_loop R g [] u d = upload_step R g None u d"
| "upload_loop R g (r # rs) u d = exec_bind (upload_step R g (Some r) u d) (\<lambda>(u, d). upload_loop R g rs u d)"

definition UploadBlockData ::
    "servers \<Rightarrow> Gaia \<Rightarrow> UploadBlockRequest list \<Rightarrow> disk \<Rightarrow> (disk \<times> CodedResult result) exec" where
  "UploadBlockData net g rs d =
     exec_bind (upload_loop (remote_writer net) g rs new_upload d) (\<lambda>(u, d). Ret (d, recv_result u))"

definition DeleteBlock :: "servers \<Rightarrow> Gaia \<Rightarrow> DeleteBlockRequest \<Rightarrow> disk \<Rightarrow> (disk \<times> go_error option) exec" where
  "DeleteBlock net g req d = delete_block (remote_writer net) g req d"

text \<open>
  The chunks sent to a reader.  The fuel exceeds the size of the file, and every read but the
  last consumes something.  A read into an empty slice never reaches the end of the file.
\<close>

fun send_chunks :: "nat \<Rightarrow> nat \<Rightarrow> nat \<Rightarrow> bytes \<times> bytes \<Rightarrow> bytes list" where
  "send_chunks 0 n skip s = []"
| "send_chunks (Suc fuel) n skip s =
     (let (chunk, s) = bufio_read n s
      in if chunk = [] then []
         else if 0 < skip then send_chunks fuel n (skip - 1) s
         else chunk # send_chunks fuel n 0 s)"

definition read_block :: "u64 \<Rightarrow> string \<Rightarrow> u64 \<Rightarrow> u64 \<Rightarrow> disk \<Rightarrow> bytes list result exec" where
  "read_block self blockPath chunkSize curChunk d =
     (case sm_load d (self, blockPath) of
        None \<Rightarrow> Ret (Inl (ErrText ''no such file or directory''))
      | Some content \<Rightarrow>
          (if chunkSize = 0 then exec.Blocks ''the chunks are empty''
           else Ret (Inr (send_chunks (Suc (length content)) (unat chunkSize) (unat curChunk) ([], content)))))"

definition GetBlockData :: "Gaia \<Rightarrow> string \<Rightarrow> u64 \<Rightarrow> disk \<Rightarrow> bytes list result exec" where
  "GetBlockData g blockId curChunk d =
     read_block (g_self g) (path_join [g_basePath g, blockId]) (g_chunkSize g) curChunk d"

section \<open>The service of the cloud\<close>

text \<open>The cloud keeps every block in one place: its pipeline is the single node 0, and the pipeline of the request is not read.\<close>

record CloudGaia =
  cg_basePath :: string
  cg_chunkSize :: u64
  cg_done :: bool

definition NewCloudGaia :: "string \<Rightarrow> u64 \<Rightarrow> CloudGaia" where
  "NewCloudGaia base chunkSize = \<lparr>cg_basePath = base, cg_chunkSize = chunkSize, cg_done = False\<rparr>"

definition cloud_base :: "CloudGaia \<Rightarrow> string" where
  "cloud_base g = path_join [cg_basePath g, ''gaia'', ''blocks'']"

definition cloud_processControlMessage ::
    "CloudGaia \<Rightarrow> ControlMessage \<Rightarrow> unit Upload \<Rightarrow> disk \<Rightarrow> (unit Upload \<times> disk) exec" where
  "cloud_processControlMessage g msg u d =
     (case msg of
        Message_BEGIN block _ _ \<Rightarrow>
          (if block = None then Panic ''nil pointer dereference''
           else Ret (u\<lparr>transporter := \<lparr>pct_self = 0, pct_info = block, basePath = cloud_base g,
                  localWriter = None, remoteWriters = []\<rparr>\<rparr>, d))
      | Message_EOF block \<Rightarrow> finish_block no_remote block u d
      | Message_other \<Rightarrow> Ret (SendAndClose Result_FAIL 0 [] u, d))"

definition cloud_step :: "CloudGaia \<Rightarrow> UploadBlockRequest option \<Rightarrow> unit Upload \<Rightarrow> disk \<Rightarrow> (unit Upload \<times> disk) exec" where
  "cloud_step g r u d =
     (if returned u \<noteq> None then Ret (u, d)
      else if cg_done g then
        Ret (return_upload None (SendAndClose Result_FAIL (errno_code GaiaClosedErr) (Error (Err GaiaClosedErr)) u), d)
      else case r of
        None \<Rightarrow> Ret (return_upload None u, d)
      | Some (Payload_Message msg) \<Rightarrow> cloud_processControlMessage g msg u d
      | Some (Payload_Chunk data) \<Rightarrow> processChunk no_remote data u d
      | Some Payload_nil \<Rightarrow> Ret (return_upload None (SendAndClose Result_FAIL 0 [] u), d))"

primrec cloud_loop :: "CloudGaia \<Rightarrow> UploadBlockRequest list \<Rightarrow> unit Upload \<Rightarrow> disk \<Rightarrow> (unit Upload \<times> disk) exec" where
  "cloud_loop g [] u d = cloud_step g None u d"
| "cloud_loop g (r # rs) u d = exec_bind (cloud_step g (Some r) u d) (\<lambda>(u, d). cloud_loop g rs u d)"

definition CloudGaia_UploadBlockData :: "CloudGaia \<Rightarrow> UploadBlockRequest list \<Rightarrow> disk \<Rightarrow> (disk \<times> CodedResult result) exec" where
  "CloudGaia_UploadBlockData g rs d = exec_bind (cloud_loop g rs new_upload d) (\<lambda>(u, d). Ret (d, recv_result u))"

definition CloudGaia_GetBlockData :: "CloudGaia \<Rightarrow> string \<Rightarrow> u64 \<Rightarrow> disk \<Rightarrow> bytes list result exec" where
  "CloudGaia_GetBlockData g blockId curChunk d =
     read_block 0 (path_join [cg_basePath g, ''gaia'', ''blocks'', blockId]) (cg_chunkSize g) curChunk d"

definition CloudGaia_DeleteBlock :: "CloudGaia \<Rightarrow> DeleteBlockRequest \<Rightarrow> disk \<Rightarrow> (disk \<times> go_error option) exec" where
  "CloudGaia_DeleteBlock g req d = Panic ''implement me''"

section \<open>Buffered writes\<close>

lemma remote_writer_ops [simp]:
  "r_new (remote_writer net) = NewRemoteWriter" "r_write (remote_writer net) = rw_Write net"
  "r_close (remote_writer net) = rw_Close net" "r_delete (remote_writer net) = rw_Delete net"
  by (simp_all add: remote_writer_def)

declare bufio_write.simps [simp del]

lemma bufio_write_spec:
  "bufio_write n buf p = (out, b) \<Longrightarrow> length buf \<le> n \<Longrightarrow> out @ b = buf @ p \<and> length b \<le> n"
proof (induction n buf p arbitrary: out b rule: bufio_write.induct)
  case (1 n buf p)
  show ?case
  proof (cases "length p \<le> n - length buf \<or> buf = []")
    case True
    then show ?thesis
      using "1.prems" by (auto simp: bufio_write.simps [of n buf p] split: if_splits)
  next
    case False
    then obtain o' b' where rec: "bufio_write n [] (drop (n - length buf) p) = (o', b')"
      by (meson surj_pair)
    then have "o' @ b' = drop (n - length buf) p \<and> length b' \<le> n"
      using "1.IH" False by simp
    moreover have "out = buf @ take (n - length buf) p @ o'" "b = b'"
      using "1.prems"(1) False rec by (auto simp: bufio_write.simps [of n buf p])
    ultimately show ?thesis
      by simp
  qed
qed

lemma bufio_write_small: "length buf + length p \<le> n \<Longrightarrow> bufio_write n buf p = ([], buf @ p)"
  by (subst bufio_write.simps) (simp add: le_diff_conv2)

text \<open>What a sequence of chunks leaves in the file and in the buffer.\<close>

primrec buffered :: "bytes list \<Rightarrow> bytes \<times> bytes \<Rightarrow> bytes \<times> bytes" where
  "buffered [] s = s"
| "buffered (c # cs) s = (let (out, b) = bufio_write bufio_size (snd s) c in buffered cs (fst s @ out, b))"

lemma buffered_spec:
  "length b \<le> bufio_size \<Longrightarrow> buffered cs (f, b) = (f', b')
    \<Longrightarrow> f' @ b' = f @ b @ concat cs \<and> length b' \<le> bufio_size"
proof (induction cs arbitrary: f b)
  case (Cons c cs)
  obtain out b1 where w: "bufio_write bufio_size b c = (out, b1)"
    by (meson surj_pair)
  then show ?case
    using Cons.IH [of b1 "f @ out"] Cons.prems bufio_write_spec [OF w]
    by auto
qed simp

lemma buffered_small:
  "length b + length (concat cs) \<le> bufio_size \<Longrightarrow> buffered cs (f, b) = (f, b @ concat cs)"
  by (induction cs arbitrary: b) (simp_all add: bufio_write_small)

section \<open>One copy of a block\<close>

definition copy_key :: "'r PrimaryCopyTransporter \<Rightarrow> BlockInfo \<Rightarrow> u64 \<times> string" where
  "copy_key t b = (pct_self t, path_join [basePath t, BlockId b])"

text \<open>
  A transporter holds its local copy of a block with the bytes \<open>f\<close> in the file and \<open>buf\<close> in the
  buffer; before the first write there is no file yet.
\<close>

definition copy_at :: "disk \<Rightarrow> 'r PrimaryCopyTransporter \<Rightarrow> BlockInfo \<Rightarrow> bytes \<Rightarrow> bytes \<Rightarrow> bool" where
  "copy_at d t b f buf \<longleftrightarrow> pct_info t = Some b
     \<and> (case localWriter t of
          None \<Rightarrow> f = [] \<and> buf = []
        | Some lw \<Rightarrow> lw = \<lparr>lw_path = snd (copy_key t b), lw_buf = buf\<rparr> \<and> sm_load d (copy_key t b) = Some f)"

definition same_but :: "(u64 \<times> string) set \<Rightarrow> disk \<Rightarrow> disk \<Rightarrow> bool" where
  "same_but K d d' \<longleftrightarrow> (\<forall>k. k \<notin> K \<longrightarrow> sm_load d' k = sm_load d k)"

lemma sm_load_store: "sm_load (sm_store k v m) k' = (if k' = k then Some v else sm_load m k')"
  by (simp add: sm_load_def sm_store_def update_conv')

lemma sm_load_delete: "sm_load (sm_delete k m) k' = (if k' = k then None else sm_load m k')"
  by (simp add: sm_load_def sm_delete_def delete_conv')

lemma same_but_refl [simp]: "same_but K d d"
  by (simp add: same_but_def)

lemma same_but_trans: "same_but K d d' \<Longrightarrow> same_but L d' d'' \<Longrightarrow> same_but (K \<union> L) d d''"
  by (auto simp: same_but_def)

lemma same_but_load: "same_but K d d' \<Longrightarrow> k \<notin> K \<Longrightarrow> sm_load d' k = sm_load d k"
  unfolding same_but_def by blast

lemma copy_open:
  assumes "copy_at d t b f buf"
  obtains d1 where
    "(case localWriter t of None \<Rightarrow> pct_init t d | Some lw \<Rightarrow> Ret (lw, d)) = Ret (\<lparr>lw_path = snd (copy_key t b), lw_buf = buf\<rparr>, d1)"
    "sm_load d1 (copy_key t b) = Some f" "same_but {copy_key t b} d d1"
proof (cases "localWriter t")
  case None
  show ?thesis
    by (rule that [of "create_file (pct_self t) (snd (copy_key t b)) d"])
      (use None assms in \<open>simp_all add: copy_at_def pct_init_def GetStoragePath_def copy_key_def create_file_def
        same_but_def sm_load_store\<close>)
next
  case (Some lw)
  then show ?thesis
    using that [of d] assms by (simp add: copy_at_def)
qed

lemma lw_Write_file:
  assumes "bufio_write bufio_size buf chunk = (out, buf')" "sm_load d (n, p) = Some f"
  obtains d' where "lw_Write n \<lparr>lw_path = p, lw_buf = buf\<rparr> chunk d = (\<lparr>lw_path = p, lw_buf = buf'\<rparr>, d')"
    "sm_load d' (n, p) = Some (f @ out)" "same_but {(n, p)} d d'"
  by (rule that [of "sm_store (n, p) (f @ out) d"])
    (use assms in \<open>simp_all add: lw_Write_def append_file_def same_but_def sm_load_store\<close>)

text \<open>One write of the transporter, given what it does at its remote writers.\<close>

lemma pct_Write_copy:
  assumes copy: "copy_at d t b f buf" and w: "bufio_write bufio_size buf chunk = (out, buf')"
    and remotes: "\<And>d1. same_but {copy_key t b} d d1 \<Longrightarrow> \<exists>ws' d2.
      write_remotes R chunk (remoteWriters t) d1 = Ret (ws', d2, None) \<and> same_but K d1 d2 \<and> Q ws' d2"
    and K: "copy_key t b \<notin> K" and Q: "\<And>ws d1 d2. same_but {copy_key t b} d1 d2 \<Longrightarrow> Q ws d1 \<Longrightarrow> Q ws d2"
  shows "\<exists>t' d'. pct_Write R t chunk d = Ret (t', d', None) \<and> localWriter t' \<noteq> None
    \<and> copy_key t' b = copy_key t b \<and> copy_at d' t' b (f @ out) buf' \<and> pct_self t' = pct_self t
    \<and> basePath t' = basePath t
    \<and> same_but (insert (copy_key t b) K) d d' \<and> Q (remoteWriters t') d'"
proof -
  let ?k = "copy_key t b"
  obtain d1 where d1: "(case localWriter t of None \<Rightarrow> pct_init t d | Some lw \<Rightarrow> Ret (lw, d))
      = Ret (\<lparr>lw_path = snd ?k, lw_buf = buf\<rparr>, d1)" "sm_load d1 ?k = Some f" "same_but {?k} d d1"
    by (rule copy_open [OF copy])
  obtain ws' d2 where d2: "write_remotes R chunk (remoteWriters t) d1 = Ret (ws', d2, None)" "same_but K d1 d2" "Q ws' d2"
    using remotes [OF d1(3)] by blast
  have k: "?k = (pct_self t, snd ?k)"
    by (simp add: copy_key_def)
  have "sm_load d2 (pct_self t, snd ?k) = Some f"
    using same_but_load [OF d2(2) K] d1(2) k by simp
  from lw_Write_file [OF w this] obtain d3 where
    d3: "lw_Write (pct_self t) \<lparr>lw_path = snd ?k, lw_buf = buf\<rparr> chunk d2 = (\<lparr>lw_path = snd ?k, lw_buf = buf'\<rparr>, d3)"
      "sm_load d3 ?k = Some (f @ out)" "same_but {?k} d2 d3"
    using k by metis
  let ?t = "t\<lparr>localWriter := Some \<lparr>lw_path = snd ?k, lw_buf = buf'\<rparr>, remoteWriters := ws'\<rparr>"
  have "pct_Write R t chunk d = Ret (?t, d3, None)"
    by (simp add: pct_Write_def d1(1) d2(1) d3(1))
  moreover have key: "copy_key ?t b = ?k"
    by (simp add: copy_key_def)
  moreover have "copy_at d3 ?t b (f @ out) buf'"
    using copy key d3(2) by (simp add: copy_at_def)
  moreover have "same_but (insert ?k K) d d3"
    using d1(3) d2(2) d3(3) by (simp add: same_but_def)
  moreover have "Q ws' d3"
    using Q [OF d3(3) d2(3)] .
  ultimately show ?thesis
    by (intro exI [of _ ?t] exI [of _ d3]) simp
qed

section \<open>The copies of the other nodes\<close>

text \<open>A node that answers: it is known by its own identifier, is not shutting down and knows a cluster.\<close>

definition serving :: "servers \<Rightarrow> u64 \<Rightarrow> bool" where
  "serving net n \<longleftrightarrow>
     (case net n of
        None \<Rightarrow> False
      | Some g \<Rightarrow> g_self g = n \<and> \<not> g_done g \<and> Term (GetCurrentClusterInfo (g_watcher g)) \<noteq> 0)"

definition block_key :: "servers \<Rightarrow> BlockInfo \<Rightarrow> u64 \<Rightarrow> u64 \<times> string" where
  "block_key net b n = (n, case net n of None \<Rightarrow> [] | Some g \<Rightarrow> path_join [g_basePath g, BlockId b])"

definition open_upload :: "disk \<Rightarrow> BlockInfo \<Rightarrow> bytes \<Rightarrow> bytes \<Rightarrow> u64 \<times> string \<Rightarrow> unit Upload \<Rightarrow> bool" where
  "open_upload d b f buf k u \<longleftrightarrow> returned u = None \<and> sent u = [] \<and> remoteWriters (transporter u) = []
     \<and> copy_key (transporter u) b = k \<and> copy_at d (transporter u) b f buf"

definition replica :: "servers \<Rightarrow> disk \<Rightarrow> BlockInfo \<Rightarrow> bytes \<Rightarrow> bytes \<Rightarrow> RemoteWriter \<Rightarrow> bool" where
  "replica net d b f buf w \<longleftrightarrow> serving net (rw_node w) \<and> blockInfo_rw w = Some b \<and> RaftIds (pipeline_rw w) = [rw_node w]
     \<and> (case stream_rw w of
          None \<Rightarrow> f = [] \<and> buf = []
        | Some u \<Rightarrow> open_upload d b f buf (block_key net b (rw_node w)) u \<and> localWriter (transporter u) \<noteq> None)"

lemma copy_at_same: "copy_at d t b f buf \<Longrightarrow> sm_load d' (copy_key t b) = sm_load d (copy_key t b) \<Longrightarrow> copy_at d' t b f buf"
  by (simp add: copy_at_def split: option.splits)

lemma open_upload_same:
  assumes "open_upload d b f buf k u" "sm_load d' k = sm_load d k"
  shows "open_upload d' b f buf k u"
  using assms copy_at_same [of d "transporter u" b f buf d'] by (auto simp: open_upload_def)

lemma replica_same:
  assumes "replica net d b f buf w" "same_but K d d'" "block_key net b (rw_node w) \<notin> K"
  shows "replica net d' b f buf w"
  using assms(1) open_upload_same [OF _ same_but_load [OF assms(2,3)]]
  by (auto simp: replica_def split: option.splits)

lemma replicas_same:
  assumes "\<forall>w \<in> set ws. replica net d b f buf w" "same_but K d d'" "K \<inter> block_key net b ` rw_node ` set ws = {}"
  shows "\<forall>w \<in> set ws. replica net d' b f buf w"
proof
  fix w assume w: "w \<in> set ws"
  then have "block_key net b (rw_node w) \<notin> K"
    using assms(3) by blast
  then show "replica net d' b f buf w"
    using replica_same [OF _ assms(2)] assms(1) w by blast
qed

lemma leaf_chunk:
  assumes u: "open_upload d b f buf k u" and g: "\<not> g_done g" and w: "bufio_write bufio_size buf chunk = (out, buf')"
  shows "\<exists>u' d'. stream_Send g (Payload_Chunk chunk) u d = Ret (u', d', None)
    \<and> open_upload d' b (f @ out) buf' k u' \<and> localWriter (transporter u') \<noteq> None \<and> same_but {k} d d'"
proof -
  let ?t = "transporter u"
  have u': "returned u = None" "sent u = []" "remoteWriters ?t = []" "copy_key ?t b = k" "copy_at d ?t b f buf"
    using u by (simp_all add: open_upload_def)
  have "\<exists>t' d'. pct_Write no_remote ?t chunk d = Ret (t', d', None) \<and> localWriter t' \<noteq> None
    \<and> copy_key t' b = copy_key ?t b \<and> copy_at d' t' b (f @ out) buf' \<and> pct_self t' = pct_self ?t
    \<and> basePath t' = basePath ?t \<and> same_but (insert (copy_key ?t b) {}) d d' \<and> remoteWriters t' = []"
    by (rule pct_Write_copy [where Q = "\<lambda>ws d. ws = []" and K = "{}", OF u'(5) w]) (simp_all add: u'(3))
  then obtain t' d' where m: "pct_Write no_remote ?t chunk d = Ret (t', d', None)" "localWriter t' \<noteq> None"
    "copy_key t' b = k" "copy_at d' t' b (f @ out) buf'" "same_but {k} d d'" "remoteWriters t' = []"
    using u'(4) by auto
  have "stream_Send g (Payload_Chunk chunk) u d = Ret (u\<lparr>transporter := t'\<rparr>, d', None)"
    using g by (simp add: stream_Send_def upload_step_def processChunk_def u'(1) m(1))
  then show ?thesis
    using m u' by (intro exI [of _ "u\<lparr>transporter := t'\<rparr>"] exI [of _ d']) (simp add: open_upload_def)
qed

lemma rw_init_open:
  assumes "net n = Some g" "serving net n" "rw_node w = n" "blockInfo_rw w = Some b" "RaftIds (pipeline_rw w) = [n]"
  shows "\<exists>u. rw_init g w d = Ret (w\<lparr>stream_rw := Some u\<rparr>, d, None) \<and> open_upload d b [] [] (block_key net b n) u"
proof -
  let ?u = "new_upload\<lparr>transporter := \<lparr>pct_self = n, pct_info = Some b, basePath = g_basePath g, localWriter = None, remoteWriters = []\<rparr>\<rparr>"
  have g: "g_self g = n" "\<not> g_done g" "Term (GetCurrentClusterInfo (g_watcher g)) \<noteq> 0"
    using assms(1,2) by (simp_all add: serving_def)
  have "rw_init g w d = Ret (w\<lparr>stream_rw := Some ?u\<rparr>, d, None)"
    using g assms(4,5)
    by (simp add: rw_init_def stream_Send_def upload_step_def processControlMessage_def new_upload_def
        GetClusterInfoByTerm_def NewPrimaryCopyTransporter_def)
  then show ?thesis
    using assms(1) by (intro exI [of _ ?u])
      (simp add: open_upload_def new_upload_def copy_key_def block_key_def copy_at_def)
qed

lemma rw_Write_replica:
  assumes r: "replica net d b f buf w" and bw: "bufio_write bufio_size buf chunk = (out, buf')"
  shows "\<exists>w' d'. rw_Write net w chunk d = Ret (w', d', None) \<and> rw_node w' = rw_node w \<and> stream_rw w' \<noteq> None
    \<and> replica net d' b (f @ out) buf' w' \<and> same_but {block_key net b (rw_node w)} d d'"
proof -
  let ?k = "block_key net b (rw_node w)"
  obtain g where g: "net (rw_node w) = Some g"
    using r by (auto simp: replica_def serving_def split: option.splits)
  have s: "serving net (rw_node w)" "blockInfo_rw w = Some b" "RaftIds (pipeline_rw w) = [rw_node w]" "\<not> g_done g"
    using r g by (simp_all add: replica_def serving_def)
  have "\<exists>u. (if stream_rw w = None then rw_init g w d else Ret (w, d, None)) = Ret (w\<lparr>stream_rw := Some u\<rparr>, d, None)
    \<and> open_upload d b f buf ?k u"
  proof (cases "stream_rw w")
    case None
    then show ?thesis
      using rw_init_open [OF g s(1) refl s(2,3)] r by (auto simp: replica_def)
  next
    case (Some u)
    then have "w\<lparr>stream_rw := Some u\<rparr> = w"
      by (cases w) simp
    then show ?thesis
      using Some r by (intro exI [of _ u]) (simp add: replica_def)
  qed
  then obtain u where u: "(if stream_rw w = None then rw_init g w d else Ret (w, d, None)) = Ret (w\<lparr>stream_rw := Some u\<rparr>, d, None)"
      "open_upload d b f buf ?k u"
    by blast
  from leaf_chunk [OF this(2) s(4) bw] obtain u' d' where
    u': "stream_Send g (Payload_Chunk chunk) u d = Ret (u', d', None)" "open_upload d' b (f @ out) buf' ?k u'"
      "localWriter (transporter u') \<noteq> None" "same_but {?k} d d'"
    by blast
  have "rw_Write net w chunk d = Ret (w\<lparr>stream_rw := Some u'\<rparr>, d', None)"
    by (simp add: rw_Write_def g u(1) u'(1))
  then show ?thesis
    using s u' by (intro exI [of _ "w\<lparr>stream_rw := Some u'\<rparr>"] exI [of _ d']) (simp add: replica_def)
qed

lemma write_remotes_replicas:
  assumes bw: "bufio_write bufio_size buf chunk = (out, buf')"
  shows "distinct (map rw_node ws) \<Longrightarrow> \<forall>w \<in> set ws. replica net d b f buf w \<Longrightarrow>
    \<exists>ws' d'. write_remotes (remote_writer net) chunk ws d = Ret (ws', d', None) \<and> map rw_node ws' = map rw_node ws
      \<and> (\<forall>w \<in> set ws'. stream_rw w \<noteq> None \<and> replica net d' b (f @ out) buf' w)
      \<and> same_but (block_key net b ` rw_node ` set ws) d d'"
proof (induction ws arbitrary: d)
  case (Cons w ws)
  let ?k = "block_key net b (rw_node w)"
  have keys: "block_key net b x = block_key net b y \<longleftrightarrow> x = y" for x y
    by (auto simp: block_key_def)
  obtain w' d1 where w': "rw_Write net w chunk d = Ret (w', d1, None)" "rw_node w' = rw_node w" "stream_rw w' \<noteq> None"
      "replica net d1 b (f @ out) buf' w'" "same_but {?k} d d1"
    using rw_Write_replica [OF _ bw, of net d b f w] Cons.prems(2) by auto
  have "\<forall>v \<in> set ws. replica net d1 b f buf v"
    by (rule replicas_same [OF _ w'(5)]) (use Cons.prems in \<open>auto simp: image_iff keys\<close>)
  with Cons.IH [of d1] Cons.prems(1) obtain ws' d2 where
    ws': "write_remotes (remote_writer net) chunk ws d1 = Ret (ws', d2, None)" "map rw_node ws' = map rw_node ws"
      "\<forall>v \<in> set ws'. stream_rw v \<noteq> None \<and> replica net d2 b (f @ out) buf' v"
      "same_but (block_key net b ` rw_node ` set ws) d1 d2"
    by auto
  have "replica net d2 b (f @ out) buf' w'"
    by (rule replica_same [OF w'(4) ws'(4)]) (use Cons.prems(1) w'(2) keys in auto)
  moreover have "write_remotes (remote_writer net) chunk (w # ws) d = Ret (w' # ws', d2, None)"
    using w'(1) ws'(1) by simp
  moreover have "same_but (block_key net b ` rw_node ` set (w # ws)) d d2"
    using same_but_trans [OF w'(5) ws'(4)] by simp
  ultimately show ?case
    using w' ws' by (intro exI [of _ "w' # ws'"] exI [of _ d2]) simp
qed simp

lemma rw_Close_replica:
  assumes "replica net d b f buf w" "stream_rw w \<noteq> None"
  shows "\<exists>w'. rw_Close net w d = Ret (w', d, None)"
proof -
  obtain u where u: "stream_rw w = Some u"
    using assms(2) by blast
  obtain g where g: "net (rw_node w) = Some g" "\<not> g_done g"
    using assms(1) by (auto simp: replica_def serving_def split: option.splits)
  have o: "returned u = None" "sent u = []" "remoteWriters (transporter u) = []" "blockInfo_rw w = Some b"
    using assms(1) u by (simp_all add: replica_def open_upload_def)
  show ?thesis
    by (simp add: rw_Close_def u g o stream_Send_def upload_step_def processControlMessage_def finish_block_def
        pct_Close_def SendAndClose_def return_upload_def recv_result_def)
qed

lemma close_remotes_replicas:
  "\<forall>w \<in> set ws. replica net d b f buf w \<and> stream_rw w \<noteq> None \<Longrightarrow>
    \<exists>ws'. close_remotes (remote_writer net) ws d = Ret (ws', d, None)"
proof (induction ws)
  case (Cons w ws)
  obtain w' where "rw_Close net w d = Ret (w', d, None)"
    using rw_Close_replica Cons.prems by fastforce
  then show ?case
    using Cons by auto
qed simp

section \<open>A block at all nodes of its pipeline\<close>

definition uploading ::
    "servers \<Rightarrow> Gaia \<Rightarrow> u64 list \<Rightarrow> BlockInfo \<Rightarrow> bytes \<times> bytes \<Rightarrow> RemoteWriter Upload \<Rightarrow> disk \<Rightarrow> bool" where
  "uploading net g ns b s u d \<longleftrightarrow> returned u = None \<and> sent u = []
     \<and> copy_key (transporter u) b = block_key net b (g_self g) \<and> copy_at d (transporter u) b (fst s) (snd s)
     \<and> map rw_node (remoteWriters (transporter u)) = ns
     \<and> (\<forall>w \<in> set (remoteWriters (transporter u)). replica net d b (fst s) (snd s) w)"

definition opened :: "RemoteWriter Upload \<Rightarrow> bool" where
  "opened u \<longleftrightarrow> localWriter (transporter u) \<noteq> None \<and> (\<forall>w \<in> set (remoteWriters (transporter u)). stream_rw w \<noteq> None)"

lemma upload_chunk:
  assumes u: "uploading net g ns b s u d" and g: "\<not> g_done g" and ns: "distinct ns" "g_self g \<notin> set ns"
  shows "\<exists>u' d'. upload_step (remote_writer net) g (Some (Payload_Chunk chunk)) u d = Ret (u', d')
    \<and> uploading net g ns b (buffered [chunk] s) u' d' \<and> opened u'
    \<and> same_but (block_key net b ` set (g_self g # ns)) d d'"
proof -
  let ?t = "transporter u" and ?R = "remote_writer net" and ?K = "block_key net b ` set ns"
  obtain f buf where s: "s = (f, buf)"
    by fastforce
  obtain out buf' where bw: "bufio_write bufio_size buf chunk = (out, buf')"
    by fastforce
  have keys: "block_key net b x = block_key net b y \<longleftrightarrow> x = y" for x y
    by (auto simp: block_key_def)
  have t: "copy_key ?t b = block_key net b (g_self g)" "copy_at d ?t b f buf" "map rw_node (remoteWriters ?t) = ns"
      "\<forall>w \<in> set (remoteWriters ?t). replica net d b f buf w"
    using u s by (simp_all add: uploading_def)
  have nodes: "rw_node ` set (remoteWriters ?t) = set ns"
    using t(3) by (metis set_map)
  have own: "copy_key ?t b \<notin> ?K"
    using ns(2) by (auto simp: t(1) keys)
  define Q where "Q ws d' \<longleftrightarrow> map rw_node ws = ns \<and> (\<forall>w \<in> set ws. stream_rw w \<noteq> None \<and> replica net d' b (f @ out) buf' w)" for ws d'
  have "\<exists>t' d'. pct_Write ?R ?t chunk d = Ret (t', d', None) \<and> localWriter t' \<noteq> None
    \<and> copy_key t' b = copy_key ?t b \<and> copy_at d' t' b (f @ out) buf' \<and> pct_self t' = pct_self ?t
    \<and> basePath t' = basePath ?t \<and> same_but (insert (copy_key ?t b) ?K) d d' \<and> Q (remoteWriters t') d'"
  proof (rule pct_Write_copy [OF t(2) bw _ own])
    fix d1 assume d1: "same_but {copy_key ?t b} d d1"
    have "\<forall>w \<in> set (remoteWriters ?t). replica net d1 b f buf w"
      by (rule replicas_same [OF t(4) d1]) (use own nodes in simp)
    then show "\<exists>ws' d2. write_remotes ?R chunk (remoteWriters ?t) d1 = Ret (ws', d2, None) \<and> same_but ?K d1 d2 \<and> Q ws' d2"
      using write_remotes_replicas [OF bw, of "remoteWriters ?t" net d1 b f] ns(1) t(3) nodes by (auto simp: Q_def)
  next
    fix ws d1 d2 assume d12: "same_but {copy_key ?t b} d1 d2" and Q: "Q ws d1"
    have "rw_node ` set ws = set ns"
      using Q unfolding Q_def by (metis set_map)
    then have "{copy_key ?t b} \<inter> block_key net b ` rw_node ` set ws = {}"
      using own by simp
    then show "Q ws d2"
      using Q replicas_same [OF _ d12, of ws net b "f @ out" buf'] unfolding Q_def by blast
  qed
  then obtain t' d' where m: "pct_Write ?R ?t chunk d = Ret (t', d', None)" "localWriter t' \<noteq> None"
    "copy_key t' b = copy_key ?t b" "copy_at d' t' b (f @ out) buf'" "same_but (insert (copy_key ?t b) ?K) d d'"
    "Q (remoteWriters t') d'"
    by blast
  have "upload_step ?R g (Some (Payload_Chunk chunk)) u d = Ret (u\<lparr>transporter := t'\<rparr>, d')"
    using u g by (simp add: upload_step_def processChunk_def uploading_def m(1))
  moreover have "uploading net g ns b (buffered [chunk] s) (u\<lparr>transporter := t'\<rparr>) d'" "opened (u\<lparr>transporter := t'\<rparr>)"
    using u m t(1) by (simp_all add: uploading_def opened_def Q_def s bw)
  moreover have "same_but (block_key net b ` set (g_self g # ns)) d d'"
    using m(5) by (simp add: t(1))
  ultimately show ?thesis
    by blast
qed

lemma upload_chunks:
  assumes "uploading net g ns b s u d" "\<not> g_done g" "distinct ns" "g_self g \<notin> set ns" "opened u \<or> cs \<noteq> []"
  shows "\<exists>u' d'. upload_loop (remote_writer net) g (map Payload_Chunk cs @ rs) u d = upload_loop (remote_writer net) g rs u' d'
    \<and> uploading net g ns b (buffered cs s) u' d' \<and> opened u'
    \<and> same_but (block_key net b ` set (g_self g # ns)) d d'"
  using assms
proof (induction cs arbitrary: u d s)
  case Nil
  then show ?case
    by (intro exI [of _ u] exI [of _ d]) simp
next
  case (Cons c cs)
  let ?K = "block_key net b ` set (g_self g # ns)"
  obtain u1 d1 where s1: "upload_step (remote_writer net) g (Some (Payload_Chunk c)) u d = Ret (u1, d1)"
      "uploading net g ns b (buffered [c] s) u1 d1" "opened u1" "same_but ?K d d1"
    using upload_chunk [OF Cons.prems(1-4)] by blast
  from Cons.IH [OF s1(2) Cons.prems(2-4)] s1(3) obtain u2 d2 where
    s2: "upload_loop (remote_writer net) g (map Payload_Chunk cs @ rs) u1 d1 = upload_loop (remote_writer net) g rs u2 d2"
      "uploading net g ns b (buffered cs (buffered [c] s)) u2 d2" "opened u2" "same_but ?K d1 d2"
    by blast
  have "buffered cs (buffered [c] s) = buffered (c # cs) s"
    by (simp add: split_beta)
  then show ?case
    using s1(1) s2 same_but_trans [OF s1(4) s2(4)] by (intro exI [of _ u2] exI [of _ d2]) simp
qed

lemma upload_end:
  assumes "uploading net g ns b s u d" "\<not> g_done g" "opened u"
  shows "\<exists>u'. upload_loop (remote_writer net) g [Payload_Message (Message_EOF (Some b))] u d = Ret (u', d)
    \<and> recv_result u' = Inr \<lparr>Status_r = Result_OK, Message = [], Code_r = 0\<rparr>"
proof -
  have "\<forall>w \<in> set (remoteWriters (transporter u)). replica net d b (fst s) (snd s) w \<and> stream_rw w \<noteq> None"
    using assms(1,3) by (simp add: uploading_def opened_def)
  then obtain ws where "close_remotes (remote_writer net) (remoteWriters (transporter u)) d = Ret (ws, d, None)"
    using close_remotes_replicas by blast
  then show ?thesis
    using assms(1,2)
    by (simp add: upload_step_def processControlMessage_def finish_block_def pct_Close_def uploading_def
        SendAndClose_def return_upload_def recv_result_def)
qed

lemma getNodeInfo_Some: "getNodeInfo c n = Some i \<Longrightarrow> RaftId i = n"
  by (auto simp: getNodeInfo_def find_Some_iff)

definition fresh_writer :: "BlockInfo \<Rightarrow> Pipeline \<Rightarrow> ClusterInfo \<Rightarrow> u64 \<Rightarrow> RemoteWriter" where
  "fresh_writer b p c n =
     \<lparr>rw_node = n, blockInfo_rw = Some b, pipeline_rw = makeSingleNodePipeline (the (getNodeInfo c n)) p, stream_rw = None\<rparr>"

lemma new_remotes_fresh:
  "\<forall>n \<in> set ns. n \<noteq> self \<longrightarrow> getNodeInfo c n \<noteq> None \<Longrightarrow>
    new_remotes (remote_writer net) self (Some b) p c ns = Ret (map (fresh_writer b p c) (filter (\<lambda>n. n \<noteq> self) ns))"
  by (induction ns)
    (auto simp: remote_writer_def NewRemoteWriter_def fresh_writer_def getNodeInfo_Some)

lemma fresh_replica:
  "serving net n \<Longrightarrow> getNodeInfo c n \<noteq> None \<Longrightarrow> replica net d b [] [] (fresh_writer b p c n)"
  by (auto simp: replica_def fresh_writer_def makeSingleNodePipeline_def getNodeInfo_Some)

lemma upload_begin:
  assumes "net (g_self g) = Some g" "\<not> g_done g" "GetClusterInfoByTerm (g_watcher g) term = Ret (Inr c)"
    "\<forall>n \<in> set (RaftIds p). n \<noteq> g_self g \<longrightarrow> serving net n \<and> getNodeInfo c n \<noteq> None"
  shows "\<exists>u. upload_step (remote_writer net) g (Some (Payload_Message (Message_BEGIN (Some b) (Some p) term))) new_upload d = Ret (u, d)
    \<and> uploading net g (filter (\<lambda>n. n \<noteq> g_self g) (RaftIds p)) b ([], []) u d"
proof -
  let ?ns = "filter (\<lambda>n. n \<noteq> g_self g) (RaftIds p)"
  let ?t = "\<lparr>pct_self = g_self g, pct_info = Some b, basePath = g_basePath g, localWriter = None, remoteWriters = map (fresh_writer b p c) ?ns\<rparr>"
  have "upload_step (remote_writer net) g (Some (Payload_Message (Message_BEGIN (Some b) (Some p) term))) new_upload d
      = Ret (new_upload\<lparr>transporter := ?t\<rparr>, d)"
    using assms new_remotes_fresh [of "RaftIds p" "g_self g" c net b p]
    by (simp add: upload_step_def processControlMessage_def new_upload_def NewPrimaryCopyTransporter_def)
  moreover have "map rw_node (map (fresh_writer b p c) ?ns) = ?ns"
    by (simp add: fresh_writer_def comp_def)
  then have "uploading net g ?ns b ([], []) (new_upload\<lparr>transporter := ?t\<rparr>) d"
    using assms(1,4) by (auto simp: uploading_def new_upload_def copy_key_def block_key_def copy_at_def intro: fresh_replica)
  ultimately show ?thesis
    by blast
qed

lemma uploading_files:
  assumes "uploading net g ns b s u d" "opened u" "n \<in> set (g_self g # ns)"
  shows "sm_load d (block_key net b n) = Some (fst s)"
proof (cases "n = g_self g")
  case True
  then show ?thesis
    using assms(1,2) by (auto simp: uploading_def opened_def copy_at_def split: option.splits)
next
  case False
  then have "n \<in> rw_node ` set (remoteWriters (transporter u))"
    using assms(1,3) by (simp add: uploading_def) (metis set_map)
  then obtain w where w: "w \<in> set (remoteWriters (transporter u))" "rw_node w = n"
    by blast
  then have "replica net d b (fst s) (snd s) w" "stream_rw w \<noteq> None"
    using assms(1,2) by (simp_all add: uploading_def opened_def)
  then show ?thesis
    using w(2) by (auto simp: replica_def open_upload_def copy_at_def split: option.splits)
qed

text \<open>The requests by which a client stores a block.\<close>

definition store_requests :: "BlockInfo \<Rightarrow> Pipeline \<Rightarrow> u64 \<Rightarrow> bytes list \<Rightarrow> UploadBlockRequest list" where
  "store_requests b p term cs =
     Payload_Message (Message_BEGIN (Some b) (Some p) term) # map Payload_Chunk cs @ [Payload_Message (Message_EOF (Some b))]"

text \<open>The conditions under which every node of a pipeline takes part in an upload.\<close>

definition can_store :: "servers \<Rightarrow> Gaia \<Rightarrow> Pipeline \<Rightarrow> u64 \<Rightarrow> bool" where
  "can_store net g p term \<longleftrightarrow> net (g_self g) = Some g \<and> \<not> g_done g \<and> distinct (RaftIds p)
     \<and> (case GetClusterInfoByTerm (g_watcher g) term of
          Ret (Inr c) \<Rightarrow> list_all (\<lambda>n. n = g_self g \<or> (serving net n \<and> getNodeInfo c n \<noteq> None)) (RaftIds p)
        | _ \<Rightarrow> False)"

lemma upload_stored:
  assumes "can_store net g p term" "cs \<noteq> []"
  shows "\<exists>d'. UploadBlockData net g (store_requests b p term cs) d
      = Ret (d', Inr \<lparr>Status_r = Result_OK, Message = [], Code_r = 0\<rparr>)
    \<and> (\<forall>n \<in> set (g_self g # RaftIds p). sm_load d' (block_key net b n) = Some (fst (buffered cs ([], []))))
    \<and> same_but (block_key net b ` set (g_self g # RaftIds p)) d d'"
proof -
  let ?ns = "filter (\<lambda>n. n \<noteq> g_self g) (RaftIds p)" and ?R = "remote_writer net"
  obtain c where c: "GetClusterInfoByTerm (g_watcher g) term = Ret (Inr c)"
      "\<forall>n \<in> set (RaftIds p). n \<noteq> g_self g \<longrightarrow> serving net n \<and> getNodeInfo c n \<noteq> None"
    using assms(1) by (auto simp: can_store_def list_all_iff split: exec.splits sum.splits)
  have g: "net (g_self g) = Some g" "\<not> g_done g" "distinct ?ns" "g_self g \<notin> set ?ns"
    using assms(1) by (simp_all add: can_store_def)
  have nodes: "set (g_self g # ?ns) = set (g_self g # RaftIds p)"
    by auto
  obtain u where u: "upload_step ?R g (Some (Payload_Message (Message_BEGIN (Some b) (Some p) term))) new_upload d = Ret (u, d)"
      "uploading net g ?ns b ([], []) u d"
    using upload_begin [OF g(1,2) c] by blast
  obtain u' d' where u': "upload_loop ?R g (map Payload_Chunk cs @ [Payload_Message (Message_EOF (Some b))]) u d
        = upload_loop ?R g [Payload_Message (Message_EOF (Some b))] u' d'"
      "uploading net g ?ns b (buffered cs ([], [])) u' d'" "opened u'" "same_but (block_key net b ` set (g_self g # ?ns)) d d'"
    using upload_chunks [OF u(2) g(2-4)] assms(2) by blast
  obtain u2 where "upload_loop ?R g [Payload_Message (Message_EOF (Some b))] u' d' = Ret (u2, d')"
      "recv_result u2 = Inr \<lparr>Status_r = Result_OK, Message = [], Code_r = 0\<rparr>"
    using upload_end [OF u'(2) g(2) u'(3)] by blast
  then have "UploadBlockData net g (store_requests b p term cs) d = Ret (d', Inr \<lparr>Status_r = Result_OK, Message = [], Code_r = 0\<rparr>)"
    by (simp only: UploadBlockData_def store_requests_def upload_loop.simps u(1) u'(1) exec_bind.simps prod.case)
  then show ?thesis
    using uploading_files [OF u'(2,3)] u'(4) unfolding nodes by blast
qed

section \<open>Reading a block\<close>

lemma take_drop_take: "n \<le> m \<Longrightarrow> take n xs @ drop n (take m xs) @ drop m xs = xs"
  by (metis append.assoc append_take_drop_id min.absorb1 take_take)

lemma bufio_read_spec:
  assumes "bufio_read n (buf, rest) = (chunk, buf', rest')" "0 < n"
  shows "chunk @ buf' @ rest' = buf @ rest" "length chunk \<le> n" "chunk = [] \<longleftrightarrow> buf @ rest = []"
  using assms by (auto simp: bufio_read_def bufio_size_def take_drop_take split: if_splits)

lemma bufio_read_large:
  "bufio_size \<le> n \<Longrightarrow> bufio_read n ([], rest) = (take n rest, [], drop n rest)"
  by (simp add: bufio_read_def)

lemma send_chunks_all:
  "0 < n \<Longrightarrow> length (buf @ rest) < fuel \<Longrightarrow> concat (send_chunks fuel n 0 (buf, rest)) = buf @ rest"
proof (induction fuel arbitrary: buf rest)
  case (Suc fuel)
  obtain chunk buf' rest' where r: "bufio_read n (buf, rest) = (chunk, buf', rest')"
    by (metis surj_pair)
  note spec = bufio_read_spec [OF r Suc.prems(1)]
  show ?case
  proof (cases "chunk = []")
    case False
    then have "length (buf' @ rest') < fuel"
      using arg_cong [OF spec(1), of length] Suc.prems(2) by (cases chunk) simp_all
    then show ?thesis
      using Suc.IH [OF Suc.prems(1)] False spec(1) by (simp add: r)
  next
    case True
    then show ?thesis
      using spec(3) r by simp
  qed
qed simp

lemma send_chunks_skip:
  "bufio_size \<le> n \<Longrightarrow> length rest < fuel \<Longrightarrow> concat (send_chunks fuel n k ([], rest)) = drop (k * n) rest"
proof (induction fuel arbitrary: k rest)
  case (Suc fuel)
  have n: "0 < n"
    using Suc.prems(1) by (simp add: bufio_size_def)
  show ?case
  proof (cases "k = 0 \<or> rest = []")
    case True
    then show ?thesis
      using send_chunks_all [OF n, of "[]" rest "Suc fuel"] Suc.prems(2) by (auto simp: bufio_read_large [OF Suc.prems(1)])
  next
    case False
    then obtain j where j: "k = Suc j"
      by (cases k) auto
    have "length (drop n rest) < fuel"
      using False n Suc.prems(2) by (cases rest) auto
    then show ?thesis
      using False n Suc.IH [OF Suc.prems(1), of "drop n rest" j] by (simp add: bufio_read_large [OF Suc.prems(1)] j add.commute)
  qed
qed simp

lemma send_chunks_sizes: "0 < n \<Longrightarrow> c \<in> set (send_chunks fuel n k s) \<Longrightarrow> c \<noteq> [] \<and> length c \<le> n"
proof (induction fuel n k s rule: send_chunks.induct)
  case (2 fuel n k s)
  obtain chunk buf' rest' where r: "bufio_read n s = (chunk, buf', rest')"
    by (metis surj_pair)
  have "length chunk \<le> n"
    using bufio_read_spec(2) [of n "fst s" "snd s"] r 2(3) by simp
  then show ?case
    using 2 r by (auto split: if_splits)
qed simp

lemma read_block_all:
  assumes "sm_load d (n, path) = Some f" "k \<noteq> 0"
  shows "\<exists>cs. read_block n path k 0 d = Ret (Inr cs) \<and> concat cs = f"
  using assms send_chunks_all [of "unat k" "[]" f "Suc (length f)"]
  by (simp add: read_block_def unat_gt_0)

section \<open>Uploads that fail\<close>

definition leaf_upload :: "unit Upload \<Rightarrow> bool" where
  "leaf_upload u \<longleftrightarrow> (returned u = None \<longrightarrow> remoteWriters (transporter u) = [] \<and> pct_info (transporter u) \<noteq> None)"

text \<open>
  A remote writer whose node may be down, but is itself when it answers: it never panics, and a
  stream to it that is still open has begun a block.
\<close>

definition leaf_ok :: "servers \<Rightarrow> RemoteWriter \<Rightarrow> bool" where
  "leaf_ok net w \<longleftrightarrow> blockInfo_rw w \<noteq> None \<and> RaftIds (pipeline_rw w) = [rw_node w]
     \<and> (\<forall>g. net (rw_node w) = Some g \<longrightarrow> g_self g = rw_node w)
     \<and> (\<forall>u. stream_rw w = Some u \<longrightarrow> leaf_upload u)"

lemma leaf_Write:
  assumes "remoteWriters t = []" "pct_info t \<noteq> None"
  shows "\<exists>t' d' err. pct_Write no_remote t chunk d = Ret (t', d', err) \<and> remoteWriters t' = [] \<and> pct_info t' \<noteq> None"
  using assms by (auto simp: pct_Write_def pct_init_def GetStoragePath_def split_beta split: option.splits)

lemma leaf_Send_chunk:
  assumes "leaf_upload u"
  shows "\<exists>u' d' err. stream_Send g (Payload_Chunk chunk) u d = Ret (u', d', err) \<and> leaf_upload u'"
proof (cases "returned u = None \<and> \<not> g_done g")
  case True
  then obtain t' d' err where "pct_Write no_remote (transporter u) chunk d = Ret (t', d', err)"
      "remoteWriters t' = []" "pct_info t' \<noteq> None"
    using leaf_Write assms by (metis leaf_upload_def)
  then show ?thesis
    using True by (auto simp: stream_Send_def upload_step_def processChunk_def SendAndClose_def leaf_upload_def Let_def split: option.splits)
next
  case False
  then show ?thesis
    using assms by (auto simp: stream_Send_def upload_step_def return_upload_def leaf_upload_def)
qed

lemma leaf_Send_begin:
  assumes "RaftIds p = [g_self g]" "b \<noteq> None"
  shows "\<exists>u' d' err. stream_Send g (Payload_Message (Message_BEGIN b (Some p) 0)) new_upload d = Ret (u', d', err) \<and> leaf_upload u'"
  using assms
  by (auto simp: stream_Send_def upload_step_def return_upload_def leaf_upload_def processControlMessage_def
      GetClusterInfoByTerm_def NewPrimaryCopyTransporter_def Let_def new_upload_def)

lemma rw_Write_total:
  assumes "leaf_ok net w"
  shows "\<exists>w' d' err. rw_Write net w chunk d = Ret (w', d', err) \<and> leaf_ok net w' \<and> rw_node w' = rw_node w
    \<and> (net (rw_node w) = None \<longrightarrow> err \<noteq> None)"
proof (cases "net (rw_node w)")
  case None
  then show ?thesis
    using assms by (simp add: rw_Write_def)
next
  case (Some g)
  have w: "blockInfo_rw w \<noteq> None" "RaftIds (pipeline_rw w) = [g_self g]" "g_self g = rw_node w"
    using assms Some by (simp_all add: leaf_ok_def)
  have "\<exists>u d1 err. (if stream_rw w = None then rw_init g w d else Ret (w, d, None)) = Ret (w\<lparr>stream_rw := Some u\<rparr>, d1, err) \<and> leaf_upload u"
  proof (cases "stream_rw w")
    case None
    obtain u d1 err where "stream_Send g (Payload_Message (Message_BEGIN (blockInfo_rw w) (Some (pipeline_rw w)) 0)) new_upload d
        = Ret (u, d1, err)" "leaf_upload u"
      using leaf_Send_begin [OF w(2,1)] by blast
    then show ?thesis
      using None by (intro exI [of _ u] exI [of _ d1] exI [of _ err]) (simp add: rw_init_def)
  next
    case (Some u)
    then have "w\<lparr>stream_rw := Some u\<rparr> = w" "leaf_upload u"
      using assms by (cases w, simp_all add: leaf_ok_def)
    then show ?thesis
      using Some by (intro exI [of _ u] exI [of _ d] exI [of _ None]) simp
  qed
  then obtain u d1 err where u: "(if stream_rw w = None then rw_init g w d else Ret (w, d, None)) = Ret (w\<lparr>stream_rw := Some u\<rparr>, d1, err)"
      "leaf_upload u"
    by blast
  moreover obtain u2 d2 e2 where "stream_Send g (Payload_Chunk chunk) u d1 = Ret (u2, d2, e2)" "leaf_upload u2"
    using leaf_Send_chunk [OF u(2)] by blast
  ultimately show ?thesis
    using assms Some by (cases err) (simp_all add: rw_Write_def leaf_ok_def)
qed

lemma leaf_step_end:
  assumes "leaf_upload u"
  shows "\<exists>u' d'. upload_step no_remote g None u d = Ret (u', d') \<and> leaf_upload u'"
  using assms by (auto simp: upload_step_def return_upload_def leaf_upload_def)

lemma leaf_Send_EOF:
  assumes "leaf_upload u" "b \<noteq> None"
  shows "\<exists>u' d' err. stream_Send g (Payload_Message (Message_EOF b)) u d = Ret (u', d', err) \<and> leaf_upload u'"
  using assms
  by (auto simp: stream_Send_def upload_step_def return_upload_def leaf_upload_def processControlMessage_def
      finish_block_def pct_Close_def SendAndClose_def Let_def)

lemma rw_Close_total:
  assumes "leaf_ok net w"
  shows "\<exists>w' d' err. rw_Close net w d = Ret (w', d', err) \<and> leaf_ok net w' \<and> rw_node w' = rw_node w
    \<and> (net (rw_node w) = None \<longrightarrow> err \<noteq> None)"
proof (cases "stream_rw w = None \<or> net (rw_node w) = None \<or> returned (the (stream_rw w)) \<noteq> None")
  case True
  then show ?thesis
    using assms by (auto simp: rw_Close_def split: option.splits)
next
  case False
  then obtain u g where u: "stream_rw w = Some u" "net (rw_node w) = Some g" "returned u = None" "leaf_upload u" "blockInfo_rw w \<noteq> None"
    using assms by (auto simp: leaf_ok_def)
  obtain u1 d1 e1 where u1: "stream_Send g (Payload_Message (Message_EOF (blockInfo_rw w))) u d = Ret (u1, d1, e1)" "leaf_upload u1"
    using leaf_Send_EOF [OF u(4,5)] by blast
  obtain u2 d2 where u2: "upload_step no_remote g None u1 d1 = Ret (u2, d2)" "leaf_upload u2"
    using leaf_step_end [OF u1(2)] by blast
  show ?thesis
    using assms u u1 u2 by (simp add: rw_Close_def leaf_ok_def)
qed

definition some_down :: "servers \<Rightarrow> RemoteWriter list \<Rightarrow> bool" where
  "some_down net ws \<longleftrightarrow> (\<forall>w \<in> set ws. leaf_ok net w) \<and> (\<exists>n \<in> set (map rw_node ws). net n = None)"

lemma each_remote_down:
  assumes total: "\<And>w d. leaf_ok net w \<Longrightarrow> \<exists>w' d' err. f w d = Ret (w', d', err) \<and> leaf_ok net w' \<and> rw_node w' = rw_node w
      \<and> (net (rw_node w) = None \<longrightarrow> err \<noteq> None)"
  shows "some_down net ws \<Longrightarrow> \<exists>ws' d' e. each_remote f ws d = Ret (ws', d', Some e) \<and> some_down net ws'"
proof (induction ws arbitrary: d)
  case (Cons w ws)
  have "leaf_ok net w"
    using Cons.prems by (simp add: some_down_def)
  then obtain w' d1 err where w': "f w d = Ret (w', d1, err)" "leaf_ok net w'" "rw_node w' = rw_node w"
      "net (rw_node w) = None \<longrightarrow> err \<noteq> None"
    using total by blast
  show ?case
  proof (cases err)
    case None
    then have "some_down net ws"
      using Cons.prems w'(4) by (auto simp: some_down_def)
    then obtain ws' d2 e where "each_remote f ws d1 = Ret (ws', d2, Some e)" "some_down net ws'"
      using Cons.IH by blast
    then show ?thesis
      using None w' by (auto simp: some_down_def)
  next
    case (Some e)
    then show ?thesis
      using Cons.prems w' by (auto simp: some_down_def)
  qed
qed (simp add: some_down_def)

lemma write_remotes_down:
  "some_down net ws \<Longrightarrow> \<exists>ws' d' e. write_remotes (remote_writer net) chunk ws d = Ret (ws', d', Some e) \<and> some_down net ws'"
  by (rule each_remote_down) (unfold remote_writer_ops, rule rw_Write_total)

lemma close_remotes_down:
  "some_down net ws \<Longrightarrow> \<exists>ws' d' e. close_remotes (remote_writer net) ws d = Ret (ws', d', Some e) \<and> some_down net ws'"
  by (rule each_remote_down) (unfold remote_writer_ops, rule rw_Close_total)

text \<open>An upload one of whose nodes is down has reported failures only.\<close>

definition failing :: "servers \<Rightarrow> RemoteWriter Upload \<Rightarrow> bool" where
  "failing net u \<longleftrightarrow> returned u = None \<and> pct_info (transporter u) \<noteq> None \<and> some_down net (remoteWriters (transporter u))
     \<and> (\<forall>r \<in> set (sent u). Status_r r = Result_FAIL)"

lemma failing_chunk:
  assumes "failing net u" "\<not> g_done g"
  shows "\<exists>u' d'. upload_step (remote_writer net) g (Some (Payload_Chunk chunk)) u d = Ret (u', d') \<and> failing net u'"
proof -
  let ?t = "transporter u"
  have "\<exists>lw d1. (case localWriter ?t of None \<Rightarrow> pct_init ?t d | Some lw \<Rightarrow> Ret (lw, d)) = Ret (lw, d1)"
    using assms(1) by (cases "localWriter ?t") (auto simp: failing_def pct_init_def GetStoragePath_def)
  then obtain lw d1 where lw: "(case localWriter ?t of None \<Rightarrow> pct_init ?t d | Some lw \<Rightarrow> Ret (lw, d)) = Ret (lw, d1)"
    by blast
  obtain ws' d2 e where "write_remotes (remote_writer net) chunk (remoteWriters ?t) d1 = Ret (ws', d2, Some e)" "some_down net ws'"
    using write_remotes_down assms(1) by (fastforce simp: failing_def)
  then show ?thesis
    using assms lw by (auto simp: upload_step_def processChunk_def pct_Write_def SendAndClose_def failing_def Let_def)
qed

lemma failing_end:
  assumes "failing net u" "\<not> g_done g"
  shows "\<exists>u' d' e. upload_loop (remote_writer net) g [Payload_Message (Message_EOF b)] u d = Ret (u', d')
    \<and> (\<forall>r \<in> set (sent u'). Status_r r = Result_FAIL)"
proof -
  obtain ws' d2 e where "close_remotes (remote_writer net) (remoteWriters (transporter u)) d = Ret (ws', d2, Some e)" "some_down net ws'"
    using close_remotes_down assms(1) by (fastforce simp: failing_def)
  then show ?thesis
    using assms
    by (simp add: upload_step_def processControlMessage_def finish_block_def pct_Close_def SendAndClose_def return_upload_def failing_def)
qed

lemma failing_chunks:
  assumes "failing net u" "\<not> g_done g"
  shows "\<exists>u' d'. upload_loop (remote_writer net) g (map Payload_Chunk cs @ [Payload_Message (Message_EOF b)]) u d = Ret (u', d')
    \<and> (\<forall>r \<in> set (sent u'). Status_r r = Result_FAIL)"
  using assms
proof (induction cs arbitrary: u d)
  case Nil
  then show ?case
    using failing_end by (metis append_Nil list.simps(8))
next
  case (Cons c cs)
  obtain u1 d1 where "upload_step (remote_writer net) g (Some (Payload_Chunk c)) u d = Ret (u1, d1)" "failing net u1"
    using failing_chunk [OF Cons.prems] by blast
  then show ?case
    using Cons.IH [OF _ Cons.prems(2)] by simp
qed

section \<open>Deleting a block\<close>

lemma rw_Delete_replica:
  assumes "serving net n" "getNodeInfo c n \<noteq> None" "sm_load d (block_key net b n) \<noteq> None"
  shows "rw_Delete net (fresh_writer b p c n) d = Ret (sm_delete (block_key net b n) d, None)"
proof -
  obtain g where g: "net n = Some g" "g_self g = n" "Term (GetCurrentClusterInfo (g_watcher g)) \<noteq> 0"
    using assms(1) by (auto simp: serving_def split: option.splits)
  obtain i where i: "getNodeInfo c n = Some i" "RaftId i = n"
    using assms(2) getNodeInfo_Some by blast
  show ?thesis
    using g i assms(3)
    by (simp add: rw_Delete_def fresh_writer_def makeSingleNodePipeline_def delete_block_def GetClusterInfoByTerm_def
        NewPrimaryCopyTransporter_def pct_Delete_def GetStoragePath_def delete_info_def remove_file_def block_key_def)
qed

lemma delete_remotes_replicas:
  "distinct ns \<Longrightarrow> \<forall>n \<in> set ns. serving net n \<and> getNodeInfo c n \<noteq> None \<and> sm_load d (block_key net b n) \<noteq> None \<Longrightarrow>
    \<exists>d'. delete_remotes (remote_writer net) (map (fresh_writer b p c) ns) d = Ret (d', None)
      \<and> (\<forall>k. sm_load d' k = (if k \<in> block_key net b ` set ns then None else sm_load d k))"
proof (induction ns arbitrary: d)
  case (Cons n ns)
  let ?d = "sm_delete (block_key net b n) d"
  have ns: "\<forall>m \<in> set ns. serving net m \<and> getNodeInfo c m \<noteq> None \<and> sm_load ?d (block_key net b m) \<noteq> None"
    using Cons.prems by (auto simp: sm_load_delete block_key_def)
  have w: "rw_Delete net (fresh_writer b p c n) d = Ret (?d, None)"
    using Cons.prems(2) by (intro rw_Delete_replica) simp_all
  obtain d' where d': "delete_remotes (remote_writer net) (map (fresh_writer b p c) ns) ?d = Ret (d', None)"
      "\<forall>k. sm_load d' k = (if k \<in> block_key net b ` set ns then None else sm_load ?d k)"
    using Cons.IH [OF _ ns] Cons.prems(1) by auto
  show ?case
    using w d' by (intro exI [of _ d']) (simp add: sm_load_delete)
qed simp

lemma DeleteBlock_stored:
  assumes "can_store net g (Pipeline_d req) (Term_d req)"
    "\<forall>n \<in> set (g_self g # RaftIds (Pipeline_d req)). sm_load d (block_key net (delete_info (BlockId_d req)) n) \<noteq> None"
  shows "\<exists>d'. DeleteBlock net g req d = Ret (d', None)
    \<and> (\<forall>k. sm_load d' k = (if k \<in> block_key net (delete_info (BlockId_d req)) ` set (g_self g # RaftIds (Pipeline_d req)) then None else sm_load d k))"
proof -
  let ?b = "delete_info (BlockId_d req)" and ?p = "Pipeline_d req" and ?K = "block_key net (delete_info (BlockId_d req))"
  let ?ns = "filter (\<lambda>n. n \<noteq> g_self g) (RaftIds ?p)"
  obtain c where c: "GetClusterInfoByTerm (g_watcher g) (Term_d req) = Ret (Inr c)"
      "\<forall>n \<in> set (RaftIds ?p). n \<noteq> g_self g \<longrightarrow> serving net n \<and> getNodeInfo c n \<noteq> None"
    using assms(1) by (auto simp: can_store_def list_all_iff split: exec.splits sum.splits)
  have g: "net (g_self g) = Some g" "distinct ?ns"
    using assms(1) by (simp_all add: can_store_def)
  have "\<forall>n \<in> set ?ns. serving net n \<and> getNodeInfo c n \<noteq> None \<and> sm_load d (?K n) \<noteq> None"
    using assms(2) c(2) by auto
  then obtain d1 where d1: "delete_remotes (remote_writer net) (map (fresh_writer ?b ?p c) ?ns) d = Ret (d1, None)"
      "\<forall>k. sm_load d1 k = (if k \<in> ?K ` set ?ns then None else sm_load d k)"
    using delete_remotes_replicas [OF g(2)] by blast
  have own: "?K (g_self g) = (g_self g, path_join [g_basePath g, BlockId_d req])" "sm_load d1 (?K (g_self g)) \<noteq> None"
    using g(1) d1(2) assms(2) by (auto simp: block_key_def delete_info_def)
  have del: "DeleteBlock net g req d = Ret (sm_delete (?K (g_self g)) d1, None)"
    using c d1(1) own new_remotes_fresh [of "RaftIds ?p" "g_self g" c net ?b ?p]
    by (simp add: DeleteBlock_def delete_block_def NewPrimaryCopyTransporter_def pct_Delete_def GetStoragePath_def
        remove_file_def delete_info_def)
  have "sm_load (sm_delete (?K (g_self g)) d1) k = (if k \<in> ?K ` set (g_self g # RaftIds ?p) then None else sm_load d k)" for k
    using d1(2) [rule_format, of k] by (auto simp: sm_load_delete)
  then show ?thesis
    using del by blast
qed

lemma rw_Delete_missing:
  assumes "serving net n" "getNodeInfo c n \<noteq> None" "sm_load d (block_key net b n) = None"
  shows "\<exists>e. rw_Delete net (fresh_writer b p c n) d = Ret (d, Some e)"
proof -
  obtain g where g: "net n = Some g" "g_self g = n" "Term (GetCurrentClusterInfo (g_watcher g)) \<noteq> 0"
    using assms(1) by (auto simp: serving_def split: option.splits)
  obtain i where i: "getNodeInfo c n = Some i" "RaftId i = n"
    using assms(2) getNodeInfo_Some by blast
  show ?thesis
    using g i assms(3)
    by (simp add: rw_Delete_def fresh_writer_def makeSingleNodePipeline_def delete_block_def GetClusterInfoByTerm_def
        NewPrimaryCopyTransporter_def pct_Delete_def GetStoragePath_def delete_info_def remove_file_def block_key_def)
qed

text \<open>Deleting a block that no node of its pipeline holds changes nothing and fails.\<close>

lemma DeleteBlock_missing:
  assumes "can_store net g (Pipeline_d req) (Term_d req)"
    "\<forall>n \<in> set (g_self g # RaftIds (Pipeline_d req)). sm_load d (block_key net (delete_info (BlockId_d req)) n) = None"
  shows "\<exists>e. DeleteBlock net g req d = Ret (d, Some e)"
proof -
  let ?b = "delete_info (BlockId_d req)" and ?p = "Pipeline_d req" and ?K = "block_key net (delete_info (BlockId_d req))"
  let ?ns = "filter (\<lambda>n. n \<noteq> g_self g) (RaftIds ?p)"
  obtain c where c: "GetClusterInfoByTerm (g_watcher g) (Term_d req) = Ret (Inr c)"
      "\<forall>n \<in> set (RaftIds ?p). n \<noteq> g_self g \<longrightarrow> serving net n \<and> getNodeInfo c n \<noteq> None"
    using assms(1) by (auto simp: can_store_def list_all_iff split: exec.splits sum.splits)
  have "net (g_self g) = Some g"
    using assms(1) by (simp add: can_store_def)
  then have own: "?K (g_self g) = (g_self g, path_join [g_basePath g, BlockId_d req])" "sm_load d (?K (g_self g)) = None"
    using assms(2) by (auto simp: block_key_def delete_info_def)
  show ?thesis
  proof (cases ?ns)
    case Nil
    then show ?thesis
      using c own new_remotes_fresh [of "RaftIds ?p" "g_self g" c net ?b ?p]
      by (simp add: DeleteBlock_def delete_block_def NewPrimaryCopyTransporter_def pct_Delete_def GetStoragePath_def
          remove_file_def delete_info_def)
  next
    case (Cons n ns)
    then have "n \<in> set ?ns"
      by simp
    then obtain e where "rw_Delete net (fresh_writer ?b ?p c n) d = Ret (d, Some e)"
      using rw_Delete_missing [of net n c d ?b ?p] assms(2) c(2) by auto
    then show ?thesis
      using c Cons new_remotes_fresh [of "RaftIds ?p" "g_self g" c net ?b ?p]
      by (simp add: DeleteBlock_def delete_block_def NewPrimaryCopyTransporter_def pct_Delete_def GetStoragePath_def
          delete_info_def)
  qed
qed

section \<open>An example\<close>

definition example_gaia :: "u64 \<Rightarrow> Gaia" where
  "example_gaia n =
     \<lparr>g_watcher = \<lparr>selfNodeInfo = example_node n, wmoon = example_wmoon, wmonitor = NewMonitor, timer = False,
        currentClusterInfo = example_cluster, SunAddr = ''sun'', initPending = False, wctx_done = False\<rparr>,
      g_basePath = ''blocks'', g_chunkSize = 4096, g_done = False\<rparr>"

definition example_net :: servers where
  "example_net n = (if n \<in> {1, 2} then Some (example_gaia n) else None)"

definition example_pipeline :: "u64 list \<Rightarrow> Pipeline" where
  "example_pipeline ns = \<lparr>PgId_p = 1, RaftIds = ns, SyncType_p = STREAM, ClusterTerm = 7\<rparr>"

definition example_block :: BlockInfo where
  "example_block = delete_info ''b1''"

lemma example_gaia_sel [simp]:
  "g_self (example_gaia n) = n" "g_done (example_gaia n) = False" "g_chunkSize (example_gaia n) = 4096"
  "g_basePath (example_gaia n) = ''blocks''" "GetClusterInfoByTerm (g_watcher (example_gaia n)) 0 = Ret (Inr example_cluster)"
  by (simp_all add: example_gaia_def g_self_def example_node_def GetClusterInfoByTerm_def GetCurrentClusterInfo_def
      example_cluster_def)

lemma example_net_serving: "n \<in> {1, 2} \<Longrightarrow> serving example_net n"
  by (auto simp: serving_def example_net_def) (simp_all add: example_gaia_def GetCurrentClusterInfo_def example_cluster_def)

lemma example_nodes: "n \<in> {1, 2} \<Longrightarrow> getNodeInfo example_cluster n \<noteq> None"
  by (auto simp: getNodeInfo_def example_cluster_def example_node_def)

lemma example_can_store: "can_store example_net (example_gaia 1) (example_pipeline [1, 2]) 0"
  using example_net_serving [of 2] example_nodes [of 2]
  by (simp add: can_store_def example_net_def example_pipeline_def)

section \<open>Properties\<close>

text \<open>
  C11: A block stored through a node whose whole pipeline answers is acknowledged, and every node
  of the pipeline then holds the same bytes: a read of the block at any of them gives the bytes
  received up to a tail of at most 4096 bytes, and no other file of any node is touched.
\<close>

theorem UploadBlockData_replicates:
  assumes "can_store net g p term" "cs \<noteq> []" "\<forall>n \<in> set (g_self g # RaftIds p). g_self (the (net n)) = n \<and> g_chunkSize (the (net n)) \<noteq> 0"
  shows "\<exists>d' f tail. UploadBlockData net g (store_requests b p term cs) d
      = Ret (d', Inr \<lparr>Status_r = Result_OK, Message = [], Code_r = 0\<rparr>)
    \<and> f @ tail = concat cs \<and> length tail \<le> 4096
    \<and> (\<forall>n \<in> set (g_self g # RaftIds p). \<exists>chunks. GetBlockData (the (net n)) (BlockId b) 0 d' = Ret (Inr chunks) \<and> concat chunks = f)
    \<and> (\<forall>k. k \<notin> block_key net b ` set (g_self g # RaftIds p) \<longrightarrow> sm_load d' k = sm_load d k)"
proof -
  obtain f tail where f: "buffered cs ([], []) = (f, tail)"
    by fastforce
  then have data: "f @ tail = concat cs" "length tail \<le> 4096"
    using buffered_spec [of "[]" cs "[]" f tail] by (simp_all add: bufio_size_def)
  obtain d' where d': "UploadBlockData net g (store_requests b p term cs) d = Ret (d', Inr \<lparr>Status_r = Result_OK, Message = [], Code_r = 0\<rparr>)"
      "\<forall>n \<in> set (g_self g # RaftIds p). sm_load d' (block_key net b n) = Some f"
      "same_but (block_key net b ` set (g_self g # RaftIds p)) d d'"
    using upload_stored [OF assms(1,2), of b d] f by auto
  have "\<exists>chunks. GetBlockData (the (net n)) (BlockId b) 0 d' = Ret (Inr chunks) \<and> concat chunks = f"
    if n: "n \<in> set (g_self g # RaftIds p)" for n
  proof -
    have "net n \<noteq> None"
      using n assms(1) by (auto simp: can_store_def serving_def list_all_iff split: exec.splits sum.splits option.splits)
    then have "sm_load d' (n, path_join [g_basePath (the (net n)), BlockId b]) = Some f"
      using d'(2) n by (auto simp: block_key_def)
    moreover have "g_self (the (net n)) = n" "g_chunkSize (the (net n)) \<noteq> 0"
      using assms(3) n by blast+
    ultimately show ?thesis
      using read_block_all by (simp add: GetBlockData_def)
  qed
  then show ?thesis
    using data d'(1) same_but_load [OF d'(3)] by blast
qed

theorem UploadBlockData_replicates_witness:
  "\<exists>d' f tail. UploadBlockData example_net (example_gaia 1) (store_requests example_block (example_pipeline [1, 2]) 0 [[1, 2, 3]]) []
      = Ret (d', Inr \<lparr>Status_r = Result_OK, Message = [], Code_r = 0\<rparr>)
    \<and> f @ tail = ([1, 2, 3] :: bytes) \<and> length tail \<le> 4096"
  using UploadBlockData_replicates [OF example_can_store, of "[[1, 2, 3]]" example_block "[]"]
  by (auto simp: example_net_def example_pipeline_def)

text \<open>
  C33: A block of at most 4096 bytes is acknowledged by a pipeline that answers, and the file every
  node then holds for it is empty: the buffered writer is never flushed.
\<close>

theorem UploadBlockData_small_lost:
  assumes "can_store net g p term" "cs \<noteq> []" "length (concat cs) \<le> 4096"
  shows "\<exists>d'. UploadBlockData net g (store_requests b p term cs) d
      = Ret (d', Inr \<lparr>Status_r = Result_OK, Message = [], Code_r = 0\<rparr>)
    \<and> (\<forall>n \<in> set (g_self g # RaftIds p). sm_load d' (block_key net b n) = Some [])"
  using upload_stored [OF assms(1,2), of b d] buffered_small [of "[]" cs "[]"] assms(3) by (auto simp: bufio_size_def)

theorem UploadBlockData_small_lost_witness:
  "\<exists>d'. UploadBlockData example_net (example_gaia 1) (store_requests example_block (example_pipeline [1, 2]) 0 [[1, 2, 3]]) []
      = Ret (d', Inr \<lparr>Status_r = Result_OK, Message = [], Code_r = 0\<rparr>)
    \<and> sm_load d' (block_key example_net example_block 1) = Some [] \<and> sm_load d' (block_key example_net example_block 2) = Some []"
  using UploadBlockData_small_lost [OF example_can_store, of "[[1, 2, 3]]" example_block "[]"]
  by (auto simp: example_pipeline_def)

text \<open>
  C12: A block sent to a node one of whose pipeline's other nodes cannot be reached is never
  acknowledged: whatever chunks are sent, the client receives an error or a failure.
\<close>

theorem UploadBlockData_unreachable:
  assumes "net (g_self g) = Some g" "\<not> g_done g" "GetClusterInfoByTerm (g_watcher g) term = Ret (Inr c)"
    "\<forall>n \<in> set (RaftIds p). getNodeInfo c n \<noteq> None \<and> (\<forall>h. net n = Some h \<longrightarrow> g_self h = n)"
    "m \<in> set (RaftIds p)" "net m = None"
  shows "\<exists>d' res. UploadBlockData net g (store_requests b p term cs) d = Ret (d', res)
    \<and> (\<forall>r. res = Inr r \<longrightarrow> Status_r r = Result_FAIL)"
proof -
  let ?ns = "filter (\<lambda>n. n \<noteq> g_self g) (RaftIds p)"
  let ?t = "\<lparr>pct_self = g_self g, pct_info = Some b, basePath = g_basePath g, localWriter = None, remoteWriters = map (fresh_writer b p c) ?ns\<rparr>"
  let ?u = "new_upload\<lparr>transporter := ?t\<rparr>"
  have step: "upload_step (remote_writer net) g (Some (Payload_Message (Message_BEGIN (Some b) (Some p) term))) new_upload d = Ret (?u, d)"
    using assms(2-4) new_remotes_fresh [of "RaftIds p" "g_self g" c net b p]
    by (simp add: upload_step_def processControlMessage_def new_upload_def NewPrimaryCopyTransporter_def)
  have "leaf_ok net (fresh_writer b p c n)" if "n \<in> set ?ns" for n
    using that assms(4) getNodeInfo_Some [of c n] by (auto simp: leaf_ok_def fresh_writer_def makeSingleNodePipeline_def)
  moreover have "m \<in> set ?ns"
    using assms(1,5,6) by auto
  ultimately have "failing net ?u"
    using assms(6) by (auto simp: failing_def some_down_def new_upload_def fresh_writer_def image_iff)
  from failing_chunks [OF this assms(2), of cs "Some b" d] obtain u' d' where
    u': "upload_loop (remote_writer net) g (map Payload_Chunk cs @ [Payload_Message (Message_EOF (Some b))]) ?u d = Ret (u', d')"
      "\<forall>r \<in> set (sent u'). Status_r r = Result_FAIL"
    by blast
  have "UploadBlockData net g (store_requests b p term cs) d = Ret (d', recv_result u')"
    using step u'(1) by (simp only: UploadBlockData_def store_requests_def upload_loop.simps exec_bind.simps prod.case)
  moreover have "recv_result u' = Inr r \<Longrightarrow> r \<in> set (sent u')" for r
    by (auto simp: recv_result_def split: option.splits list.splits)
  ultimately show ?thesis
    using u'(2) by blast
qed

theorem UploadBlockData_unreachable_witness:
  "\<exists>d' res. UploadBlockData (example_net(2 := None)) (example_gaia 1)
      (store_requests example_block (example_pipeline [1, 2]) 0 [[1], [2, 3]]) [] = Ret (d', res)
    \<and> (\<forall>r. res = Inr r \<longrightarrow> Status_r r = Result_FAIL)"
  by (rule UploadBlockData_unreachable [where c = example_cluster and m = 2])
    (use example_nodes in \<open>simp_all add: example_net_def example_pipeline_def\<close>)

text \<open>
  C26: Deleting a block through a node whose whole pipeline answers and holds it removes the file
  at every node of the pipeline and no other file, so that no node serves the block any more.
\<close>

theorem DeleteBlock_correct:
  assumes "can_store net g (Pipeline_d req) (Term_d req)"
    "\<forall>n \<in> set (g_self g # RaftIds (Pipeline_d req)). g_self (the (net n)) = n \<and> sm_load d (block_key net (delete_info (BlockId_d req)) n) \<noteq> None"
  shows "\<exists>d'. DeleteBlock net g req d = Ret (d', None)
    \<and> (\<forall>n \<in> set (g_self g # RaftIds (Pipeline_d req)). \<exists>err. GetBlockData (the (net n)) (BlockId_d req) cur d' = Ret (Inl err))
    \<and> (\<forall>k. k \<notin> block_key net (delete_info (BlockId_d req)) ` set (g_self g # RaftIds (Pipeline_d req)) \<longrightarrow> sm_load d' k = sm_load d k)"
proof -
  let ?K = "block_key net (delete_info (BlockId_d req))" and ?N = "set (g_self g # RaftIds (Pipeline_d req))"
  obtain d' where d': "DeleteBlock net g req d = Ret (d', None)"
      "\<forall>k. sm_load d' k = (if k \<in> ?K ` ?N then None else sm_load d k)"
    using DeleteBlock_stored [OF assms(1), of d] assms(2) by blast
  have "\<exists>err. GetBlockData (the (net n)) (BlockId_d req) cur d' = Ret (Inl err)" if n: "n \<in> ?N" for n
  proof -
    have "net n \<noteq> None"
      using n assms(1) by (auto simp: can_store_def serving_def list_all_iff split: exec.splits sum.splits option.splits)
    then have "?K n = (n, path_join [g_basePath (the (net n)), BlockId_d req])"
      by (auto simp: block_key_def delete_info_def)
    moreover have "sm_load d' (?K n) = None"
      using imageI [OF n, of ?K] by (simp only: d'(2) if_True)
    moreover have "g_self (the (net n)) = n"
      using assms(2) n by blast
    ultimately show ?thesis
      by (simp add: GetBlockData_def read_block_def)
  qed
  then show ?thesis
    using d' by (intro exI [of _ d']) simp
qed

theorem DeleteBlock_correct_witness:
  "\<exists>d'. DeleteBlock example_net (example_gaia 1) \<lparr>BlockId_d = ''b1'', Pipeline_d = example_pipeline [1, 2], Term_d = 0\<rparr>
      [(block_key example_net example_block 1, [5]), (block_key example_net example_block 2, [5]), ((1, ''other''), [6])] = Ret (d', None)
    \<and> sm_load d' (1, ''other'') = Some [6]"
proof -
  let ?r = "\<lparr>BlockId_d = ''b1'', Pipeline_d = example_pipeline [1, 2], Term_d = 0\<rparr>"
  let ?d = "[(block_key example_net example_block 1, [5]), (block_key example_net example_block 2, [5]), ((1, ''other''), [6])]"
  have path: "path_join [''blocks'', ''b1''] = ''blocks/b1''"
    by code_simp
  have keys: "block_key example_net example_block n = (n, ''blocks/b1'')" if "n \<in> {1, 2}" for n
    using that path by (auto simp: block_key_def example_net_def example_block_def delete_info_def)
  have "can_store example_net (example_gaia 1) (Pipeline_d ?r) (Term_d ?r)"
    using example_can_store by simp
  moreover have "\<forall>n \<in> set (g_self (example_gaia 1) # RaftIds (Pipeline_d ?r)). g_self (the (example_net n)) = n
      \<and> sm_load ?d (block_key example_net (delete_info (BlockId_d ?r)) n) \<noteq> None"
    using keys by (simp add: example_pipeline_def example_net_def sm_load_def flip: example_block_def)
  ultimately obtain d' where "DeleteBlock example_net (example_gaia 1) ?r ?d = Ret (d', None)"
      "\<forall>k. k \<notin> block_key example_net (delete_info (BlockId_d ?r)) ` set (g_self (example_gaia 1) # RaftIds (Pipeline_d ?r)) \<longrightarrow> sm_load d' k = sm_load ?d k"
    using DeleteBlock_correct [of example_net "example_gaia 1" ?r ?d] by blast
  then show ?thesis
    using keys by (intro exI [of _ d']) (simp add: example_pipeline_def sm_load_def flip: example_block_def)
qed

text \<open>
  C27: Reading a block ends, every chunk sent is non-empty and within the chunk size, the chunks of
  a read from the start are the file, and with a chunk size of at least the read buffer a read
  from a later chunk is the rest of the file from that chunk on.
\<close>

theorem GetBlockData_correct:
  assumes "sm_load d (g_self g, path_join [g_basePath g, blockId]) = Some f" "g_chunkSize g \<noteq> 0"
  shows "\<exists>chunks. GetBlockData g blockId cur d = Ret (Inr chunks)
    \<and> (\<forall>c \<in> set chunks. c \<noteq> [] \<and> length c \<le> unat (g_chunkSize g))
    \<and> (cur = 0 \<longrightarrow> concat chunks = f)
    \<and> (4096 \<le> unat (g_chunkSize g) \<longrightarrow> concat chunks = drop (unat cur * unat (g_chunkSize g)) f)"
proof -
  let ?n = "unat (g_chunkSize g)" and ?chunks = "send_chunks (Suc (length f)) (unat (g_chunkSize g)) (unat cur) ([], f)"
  have n: "0 < ?n"
    using assms(2) by (simp add: unat_gt_0)
  have "GetBlockData g blockId cur d = Ret (Inr ?chunks)"
    using assms by (simp add: GetBlockData_def read_block_def)
  moreover have "\<forall>c \<in> set ?chunks. c \<noteq> [] \<and> length c \<le> ?n"
    using send_chunks_sizes [OF n] by blast
  moreover have "cur = 0 \<longrightarrow> concat ?chunks = f"
    using send_chunks_all [OF n, of "[]" f "Suc (length f)"] by (simp del: send_chunks.simps)
  moreover have "4096 \<le> ?n \<longrightarrow> concat ?chunks = drop (unat cur * ?n) f"
    using send_chunks_skip [of ?n f "Suc (length f)"] by (simp add: bufio_size_def del: send_chunks.simps)
  ultimately show ?thesis
    by blast
qed

theorem GetBlockData_correct_witness:
  "\<exists>chunks. GetBlockData (example_gaia 1) ''b1'' 0 [((1, ''blocks/b1''), [5, 6])] = Ret (Inr chunks) \<and> concat chunks = [5, 6]"
proof -
  have path: "path_join [''blocks'', ''b1''] = ''blocks/b1''"
    by code_simp
  show ?thesis
    using GetBlockData_correct [of "[((1, ''blocks/b1''), [5, 6])]" "example_gaia 1" "''b1''" "[5, 6]" 0] path
    by (auto simp: sm_load_def)
qed

end
