(* ===== verification/Client_Agent.thy ===== *)
theory Client_Agent
  imports Gaia
begin

text \<open>
  What a client asks of the servers about the cluster and about metadata:
  \<^verbatim>\<open>client/info-agent/info_agent.go\<close> keeps the cluster information and a cache of the information it was
  given, \<^verbatim>\<open>client/io/meta.go\<close> finds the metadata server of an object.  The servers are represented
  by their answers.  A connection is made without waiting, so a server that cannot be reached
  answers with an error.
\<close>

section \<open>Answers\<close>

datatype ConnectType = ConnectEdge | ConnectCloud

text \<open>The server of a metadata request is a node of the edge or, without one, the cloud.\<close>

record Answers =
  a_info :: "NodeInfo \<Rightarrow> InfoType \<Rightarrow> string \<Rightarrow> BaseInfo result"
  a_info_cloud :: "InfoType \<Rightarrow> string \<Rightarrow> BaseInfo result"
  a_cluster :: "NodeInfo \<Rightarrow> ClusterInfo result"
  a_record :: "NodeInfo option \<Rightarrow> Ctx \<Rightarrow> ObjectMeta \<Rightarrow> Result result"
  a_meta :: "NodeInfo option \<Rightarrow> Ctx \<Rightarrow> string \<Rightarrow> ObjectMeta result"

section \<open>The information agent\<close>

record InfoAgent =
  ia_connectType :: ConnectType
  ia_cluster :: "ClusterInfo option"
  ia_register :: "unit StorageRegister"

definition NewInfoAgent :: "ClusterInfo \<Rightarrow> ConnectType \<Rightarrow> InfoAgent" where
  "NewInfoAgent clusterInfo connectType =
     \<lparr>ia_connectType = connectType, ia_cluster = Some clusterInfo, ia_register = GetStorageRegister\<rparr>"

definition ia_Update :: "Information \<Rightarrow> InfoAgent \<Rightarrow> InfoAgent \<times> go_error option" where
  "ia_Update info agent =
     (let (reg, calls, err) = reg_Update info (ia_register agent) in (agent\<lparr>ia_register := reg\<rparr>, err))"

definition ia_Delete :: "InfoType \<Rightarrow> string \<Rightarrow> InfoAgent \<Rightarrow> InfoAgent \<times> go_error option" where
  "ia_Delete infoType i agent =
     (let (reg, err) = reg_Delete infoType i (ia_register agent) in (agent\<lparr>ia_register := reg\<rparr>, err))"

definition ia_GetStorage :: "InfoAgent \<Rightarrow> InfoType \<Rightarrow> unit MemoryInfoStorage exec" where
  "ia_GetStorage agent infoType = reg_GetStorage (ia_register agent) infoType"

primrec ask_nodes :: "(NodeInfo \<Rightarrow> 'a result) \<Rightarrow> NodeInfo list \<Rightarrow> 'a option" where
  "ask_nodes ask [] = None"
| "ask_nodes ask (n # ns) = (case ask n of Inl err \<Rightarrow> ask_nodes ask ns | Inr x \<Rightarrow> Some x)"

definition GetInfoByEdge ::
    "Answers \<Rightarrow> InfoType \<Rightarrow> string \<Rightarrow> InfoAgent \<Rightarrow> (InfoAgent \<times> Information \<times> go_error option) exec" where
  "GetInfoByEdge ans infoType i agent =
     (case ia_cluster agent of
        None \<Rightarrow> Panic ''nil pointer dereference''
      | Some c \<Rightarrow>
          (case ask_nodes (\<lambda>n. a_info ans n infoType i) (NodesInfo c) of
             None \<Rightarrow> Ret (agent, InvalidInfo, Some (Err ConnectionIssue))
           | Some info \<Rightarrow> Ret (fst (ia_Update (IBase info) agent), IBase info, None)))"

definition GetInfoByCloud :: "Answers \<Rightarrow> InfoType \<Rightarrow> string \<Rightarrow> InfoAgent \<Rightarrow> InfoAgent \<times> Information \<times> go_error option" where
  "GetInfoByCloud ans infoType i agent =
     (case a_info_cloud ans infoType i of
        Inl err \<Rightarrow> (agent, InvalidInfo, Some (Err ConnectionIssue))
      | Inr info \<Rightarrow> (fst (ia_Update (IBase info) agent), IBase info, None))"

definition ia_Get :: "Answers \<Rightarrow> InfoType \<Rightarrow> string \<Rightarrow> InfoAgent \<Rightarrow> (InfoAgent \<times> Information \<times> go_error option) exec" where
  "ia_Get ans infoType i agent =
     (case reg_Get (ia_register agent) infoType i of
        Inr info \<Rightarrow> Ret (agent, info, None)
      | Inl err \<Rightarrow>
          (case ia_connectType agent of
             ConnectEdge \<Rightarrow> GetInfoByEdge ans infoType i agent
           | ConnectCloud \<Rightarrow> Ret (GetInfoByCloud ans infoType i agent)))"

text \<open>No answer of any node leaves the cluster information as it was, without an error.\<close>

definition UpdateCurClusterInfo :: "Answers \<Rightarrow> InfoAgent \<Rightarrow> (InfoAgent \<times> go_error option) exec" where
  "UpdateCurClusterInfo ans agent =
     (case ia_connectType agent of
        ConnectCloud \<Rightarrow>
          (let (agent, info, err) = GetInfoByCloud ans CLUSTER_INFO ''0'' agent
           in if err \<noteq> None then Ret (agent, err)
              else Ret (agent\<lparr>ia_cluster := GetClusterInfo_base info\<rparr>, None))
      | ConnectEdge \<Rightarrow>
          (case ia_cluster agent of
             None \<Rightarrow> Panic ''nil pointer dereference''
           | Some c \<Rightarrow>
               (case ask_nodes (a_cluster ans) (NodesInfo c) of
                  None \<Rightarrow> Ret (agent, None)
                | Some c' \<Rightarrow> Ret (agent\<lparr>ia_cluster := Some c'\<rparr>, None))))"

definition GetCurClusterInfo :: "Answers \<Rightarrow> InfoAgent \<Rightarrow> (InfoAgent \<times> ClusterInfo) exec" where
  "GetCurClusterInfo ans agent =
     exec_bind (UpdateCurClusterInfo ans agent) (\<lambda>(agent, err).
       case ia_cluster agent of
         None \<Rightarrow> Panic ''nil pointer dereference''
       | Some c \<Rightarrow> Ret (agent, c))"

text \<open>
  The address of a node, as every caller takes it: the error is ignored, and an answer without
  node information is dereferenced when the connection is made.
\<close>

definition node_of :: "Answers \<Rightarrow> string \<Rightarrow> InfoAgent \<Rightarrow> (InfoAgent \<times> NodeInfo) exec" where
  "node_of ans i agent =
     exec_bind (ia_Get ans NODE_INFO i agent) (\<lambda>(agent, info, err).
       case GetNodeInfo_base info of
         None \<Rightarrow> Panic ''nil pointer dereference''
       | Some n \<Rightarrow> Ret (agent, n))"

section \<open>The metadata agent\<close>

definition first_node :: "'a list \<Rightarrow> 'a exec" where
  "first_node ns = (case ns of [] \<Rightarrow> Panic ''index out of range'' | n # _ \<Rightarrow> Ret n)"

text \<open>The error of generating the pipelines is ignored and the pipelines are dereferenced.\<close>

definition client_pipelines :: "crush \<Rightarrow> ClusterInfo \<Rightarrow> ClusterPipelines exec" where
  "client_pipelines select c =
     (case NewClusterPipelines select c of
        Inl err \<Rightarrow> Panic ''nil pointer dereference''
      | Inr ps \<Rightarrow> Ret ps)"

definition getEdgeAlayaClient ::
    "hash_ring \<Rightarrow> crush \<Rightarrow> Answers \<Rightarrow> BucketInfo \<Rightarrow> string \<Rightarrow> InfoAgent \<Rightarrow> (InfoAgent \<times> NodeInfo) exec" where
  "getEdgeAlayaClient ring select ans bucket key agent =
     exec_bind (GetCurClusterInfo ans agent) (\<lambda>(agent, c).
     exec_bind (GenObjPgID ring bucket key (MetaPgNum c)) (\<lambda>pgId.
     exec_bind (client_pipelines select c) (\<lambda>ps.
     exec_bind (GetMetaPGNodeID ps pgId) (\<lambda>ids.
     exec_bind (first_node ids) (\<lambda>i. node_of ans i agent)))))"

definition getAlayaClient ::
    "hash_ring \<Rightarrow> crush \<Rightarrow> Answers \<Rightarrow> BucketInfo \<Rightarrow> string \<Rightarrow> InfoAgent \<Rightarrow> (InfoAgent \<times> NodeInfo option) exec" where
  "getAlayaClient ring select ans bucket key agent =
     (case ia_connectType agent of
        ConnectCloud \<Rightarrow> Ret (agent, None)
      | ConnectEdge \<Rightarrow>
          exec_bind (getEdgeAlayaClient ring select ans bucket key agent) (\<lambda>(agent, n). Ret (agent, Some n)))"

definition term_ctx :: "u64 \<Rightarrow> Ctx" where
  "term_ctx term = SetTermToContext term \<lparr>TagTerm = [], Done = False\<rparr>"

text \<open>The key is taken from the object identifier; an identifier that does not split gives the empty key.\<close>

definition SubmitMeta ::
    "hash_ring \<Rightarrow> crush \<Rightarrow> Answers \<Rightarrow> BucketInfo \<Rightarrow> ObjectMeta \<Rightarrow> InfoAgent \<Rightarrow> (InfoAgent \<times> ObjectMeta \<times> Result result) exec" where
  "SubmitMeta ring select ans bucket meta agent =
     (let key = (case SplitID (ObjId meta) of Inr (_, _, key, _) \<Rightarrow> key | Inl err \<Rightarrow> []);
          meta = meta\<lparr>Position := (case ia_connectType agent of ConnectCloud \<Rightarrow> POSITION_CLOUD | ConnectEdge \<Rightarrow> POSITION_EDGE)\<rparr>
      in exec_bind (getAlayaClient ring select ans bucket key agent) (\<lambda>(agent, server).
         exec_bind (GetCurClusterInfo ans agent) (\<lambda>(agent, c).
           Ret (agent, meta, a_record ans server (term_ctx (Term c)) meta))))"

definition GetObjMeta ::
    "hash_ring \<Rightarrow> crush \<Rightarrow> Answers \<Rightarrow> BucketInfo \<Rightarrow> string \<Rightarrow> InfoAgent \<Rightarrow> (InfoAgent \<times> ObjectMeta result) exec" where
  "GetObjMeta ring select ans bucket key agent =
     exec_bind (getAlayaClient ring select ans bucket key agent) (\<lambda>(agent, server).
     exec_bind (GetCurClusterInfo ans agent) (\<lambda>(agent, c).
     exec_bind (GenObjectId ring bucket key) (\<lambda>objID.
       Ret (agent, a_meta ans server (term_ctx (Term c)) objID))))"

text \<open>Whether a server refused a request because of its term.\<close>

definition term_refused :: "go_error \<Rightarrow> bool" where
  "term_refused err = contains (Error err) (Error (Err TermNotMatch))"

section \<open>Truthful answers\<close>

text \<open>
  The nodes of a cluster answer every question about one of its nodes with that node, know no
  newer cluster and keep this one under its term; what the agent has cached was such an answer.
\<close>

definition answers_ok :: "Answers \<Rightarrow> ClusterInfo \<Rightarrow> bool" where
  "answers_ok ans c \<longleftrightarrow>
     (\<forall>n \<in> RaftId ` set (NodesInfo c). \<exists>i. RaftId i = n
        \<and> ask_nodes (\<lambda>m. a_info ans m NODE_INFO (FormatUint n)) (NodesInfo c) = Some (BaseInfo_NodeInfo i))
     \<and> ask_nodes (\<lambda>m. a_info ans m CLUSTER_INFO (FormatUint (Term c))) (NodesInfo c) = Some (BaseInfo_ClusterInfo c)
     \<and> ask_nodes (a_cluster ans) (NodesInfo c) = Some c"

definition cache_truthful :: "ClusterInfo \<Rightarrow> unit StorageRegister \<Rightarrow> bool" where
  "cache_truthful c r \<longleftrightarrow> reg_ok r
     \<and> (\<forall>n info. reg_Get r NODE_INFO (FormatUint n) = Inr info \<longrightarrow> (\<exists>i. GetNodeInfo_base info = Some i \<and> RaftId i = n))
     \<and> (\<forall>info. reg_Get r CLUSTER_INFO (FormatUint (Term c)) = Inr info \<longrightarrow> GetClusterInfo_base info = Some c)"

definition agent_ok :: "ClusterInfo \<Rightarrow> InfoAgent \<Rightarrow> bool" where
  "agent_ok c agent \<longleftrightarrow> ia_connectType agent = ConnectEdge \<and> ia_cluster agent = Some c \<and> cache_truthful c (ia_register agent)"

lemma cache_truthful_Update:
  assumes "cache_truthful c r" "i = BaseInfo_NodeInfo n \<or> i = BaseInfo_ClusterInfo c"
  shows "cache_truthful c (fst (reg_Update (IBase i) r))"
proof (cases "sm_load (storageMap r) (GetInfoType (IBase i)) = None")
  case True
  then show ?thesis
    using assms(1) by (simp add: reg_Update_def)
next
  case False
  have ok: "reg_ok r"
    using assms(1) by (simp add: cache_truthful_def)
  have new: "GetInfoType (IBase i) = NODE_INFO \<and> GetID (IBase i) = FormatUint (RaftId n) \<and> GetNodeInfo_base (IBase i) = Some n
      \<or> GetInfoType (IBase i) = CLUSTER_INFO \<and> GetID (IBase i) = FormatUint (Term c) \<and> GetClusterInfo_base (IBase i) = Some c"
    using assms(2) by (auto simp: GetNodeInfo_base_def GetClusterInfo_base_def NodeInfo_GetID_def ClusterInfo_GetID_def)
  then have "\<exists>j. GetNodeInfo_base info = Some j \<and> RaftId j = m"
    if "reg_Get (fst (reg_Update (IBase i) r)) NODE_INFO (FormatUint m) = Inr info" for m info
    using that assms(1) unfolding reg_Get_Update [OF ok False] cache_truthful_def by (auto split: if_splits)
  moreover have "GetClusterInfo_base info = Some c"
    if "reg_Get (fst (reg_Update (IBase i) r)) CLUSTER_INFO (FormatUint (Term c)) = Inr info" for info
    using that assms(1) new unfolding reg_Get_Update [OF ok False] cache_truthful_def by (auto split: if_splits)
  ultimately show ?thesis
    using reg_ok_Update [OF ok] by (simp add: cache_truthful_def)
qed

lemma agent_ok_Update:
  assumes "agent_ok c agent" "i = BaseInfo_NodeInfo n \<or> i = BaseInfo_ClusterInfo c"
  shows "agent_ok c (fst (ia_Update (IBase i) agent))"
  using assms(1) cache_truthful_Update [OF _ assms(2)] by (simp add: agent_ok_def ia_Update_def split_beta)

lemma node_info_ok:
  assumes "answers_ok ans c" "agent_ok c agent" "n \<in> RaftId ` set (NodesInfo c)"
  shows "\<exists>agent' info i. ia_Get ans NODE_INFO (FormatUint n) agent = Ret (agent', info, None) \<and> GetNodeInfo_base info = Some i
    \<and> RaftId i = n \<and> agent_ok c agent'"
proof (cases "reg_Get (ia_register agent) NODE_INFO (FormatUint n)")
  case (Inr info)
  then obtain i where "GetNodeInfo_base info = Some i" "RaftId i = n"
    using assms(2) unfolding agent_ok_def cache_truthful_def by blast
  then show ?thesis
    using Inr assms(2) by (simp add: ia_Get_def)
next
  case (Inl err)
  obtain i where "RaftId i = n" "ask_nodes (\<lambda>m. a_info ans m NODE_INFO (FormatUint n)) (NodesInfo c) = Some (BaseInfo_NodeInfo i)"
    using assms(1,3) unfolding answers_ok_def by blast
  then show ?thesis
    using Inl assms(2) agent_ok_Update [OF assms(2), of "BaseInfo_NodeInfo i" i]
    by (simp add: ia_Get_def agent_ok_def GetInfoByEdge_def GetNodeInfo_base_def)
qed

lemma node_of_ok:
  assumes "answers_ok ans c" "agent_ok c agent" "n \<in> RaftId ` set (NodesInfo c)"
  shows "\<exists>agent' i. node_of ans (FormatUint n) agent = Ret (agent', i) \<and> RaftId i = n \<and> agent_ok c agent'"
  using node_info_ok [OF assms] by (auto simp: node_of_def)

lemma history_ok:
  assumes "answers_ok ans c" "agent_ok c agent"
  shows "\<exists>agent' info. ia_Get ans CLUSTER_INFO (FormatUint (Term c)) agent = Ret (agent', info, None)
    \<and> GetClusterInfo_base info = Some c \<and> agent_ok c agent'"
proof (cases "reg_Get (ia_register agent) CLUSTER_INFO (FormatUint (Term c))")
  case (Inr info)
  then have "GetClusterInfo_base info = Some c"
    using assms(2) by (simp add: agent_ok_def cache_truthful_def)
  then show ?thesis
    using Inr assms(2) by (simp add: ia_Get_def)
next
  case (Inl err)
  have "ask_nodes (\<lambda>m. a_info ans m CLUSTER_INFO (FormatUint (Term c))) (NodesInfo c) = Some (BaseInfo_ClusterInfo c)"
    using assms(1) by (simp add: answers_ok_def)
  then show ?thesis
    using Inl assms(2) agent_ok_Update [OF assms(2), of "BaseInfo_ClusterInfo c"]
    by (simp add: ia_Get_def agent_ok_def GetInfoByEdge_def GetClusterInfo_base_def)
qed

lemma GetCurClusterInfo_ok:
  assumes "answers_ok ans c" "agent_ok c agent"
  shows "GetCurClusterInfo ans agent = Ret (agent, c)"
proof -
  have "agent\<lparr>ia_cluster := Some c\<rparr> = agent"
    using assms(2) by (cases agent) (simp add: agent_ok_def)
  then show ?thesis
    using assms by (simp add: GetCurClusterInfo_def UpdateCurClusterInfo_def agent_ok_def answers_ok_def)
qed

text \<open>Every metadata group of the cluster has a first node that belongs to the cluster.\<close>

definition meta_served :: "crush \<Rightarrow> ClusterInfo \<Rightarrow> ClusterPipelines \<Rightarrow> bool" where
  "meta_served select c ps \<longleftrightarrow> NewClusterPipelines select c = Inr ps \<and> 0 < sint (MetaPgNum c)
     \<and> list_all (\<lambda>p. RaftIds p \<noteq> [] \<and> hd (RaftIds p) \<in> RaftId ` set (NodesInfo c)) (MetaPipelines ps)"

lemma getAlayaClient_ok:
  assumes "ring_ok ring" "bucket_ok bucket" "meta_served select c ps" "answers_ok ans c" "agent_ok c agent"
  shows "\<exists>agent' server. getAlayaClient ring select ans bucket key agent = Ret (agent', Some server) \<and> agent_ok c agent'"
proof -
  have ps: "NewClusterPipelines select c = Inr ps" "0 < sint (MetaPgNum c)"
    using assms(3) by (simp_all add: meta_served_def)
  obtain pg where pg: "GenObjPgID ring bucket key (MetaPgNum c) = Ret pg" "1 \<le> pg" "pg \<le> uint64_of_i32 (MetaPgNum c)"
    using GenObjPgID_bounds [OF assms(1,2) ps(2)] by blast
  then obtain p where p: "pipeline_at (MetaPipelines ps) pg = Ret p"
    using NewClusterPipelines_Inr [OF ps(1)] by (simp add: GenMetaPipelines_def pipeline_at_GenPipelines)
  then have "p \<in> set (MetaPipelines ps)"
    by (auto simp: pipeline_at_def nth_opt_def split: option.splits if_splits)
  then obtain n ns where n: "RaftIds p = n # ns" "n \<in> RaftId ` set (NodesInfo c)"
    using assms(3) by (cases "RaftIds p") (auto simp: meta_served_def list_all_iff)
  obtain agent' i where "node_of ans (FormatUint n) agent = Ret (agent', i)" "agent_ok c agent'"
    using node_of_ok [OF assms(4,5) n(2)] by blast
  moreover have "ia_connectType agent = ConnectEdge"
    using assms(5) by (simp add: agent_ok_def)
  ultimately show ?thesis
    using pg(1) ps(1) p n(1) GetCurClusterInfo_ok [OF assms(4,5)]
    by (simp add: getAlayaClient_def getEdgeAlayaClient_def client_pipelines_def GetMetaPGNodeID_def first_node_def)
qed

lemma SubmitMeta_ok:
  assumes "ring_ok ring" "bucket_ok bucket" "meta_served select c ps" "answers_ok ans c" "agent_ok c agent"
  shows "\<exists>agent' server. SubmitMeta ring select ans bucket meta agent
      = Ret (agent', meta\<lparr>Position := POSITION_EDGE\<rparr>, a_record ans (Some server) (term_ctx (Term c)) (meta\<lparr>Position := POSITION_EDGE\<rparr>))
    \<and> agent_ok c agent'"
proof -
  let ?key = "case SplitID (ObjId meta) of Inr (_, _, key, _) \<Rightarrow> key | Inl err \<Rightarrow> []"
  obtain agent' server where "getAlayaClient ring select ans bucket ?key agent = Ret (agent', Some server)" "agent_ok c agent'"
    using getAlayaClient_ok [OF assms] by blast
  moreover have "ia_connectType agent = ConnectEdge"
    using assms(5) by (simp add: agent_ok_def)
  ultimately show ?thesis
    using GetCurClusterInfo_ok [OF assms(4), of agent']
    by (intro exI [of _ agent'] exI [of _ server]) (simp add: SubmitMeta_def Let_def)
qed

lemma GetObjMeta_ok:
  assumes "ring_ok ring" "bucket_ok bucket" "meta_served select c ps" "answers_ok ans c" "agent_ok c agent"
    "GenObjectId ring bucket key = Ret objID"
  shows "\<exists>agent' server. GetObjMeta ring select ans bucket key agent
      = Ret (agent', a_meta ans (Some server) (term_ctx (Term c)) objID) \<and> agent_ok c agent'"
proof -
  obtain agent' server where "getAlayaClient ring select ans bucket key agent = Ret (agent', Some server)" "agent_ok c agent'"
    using getAlayaClient_ok [OF assms(1-5)] by blast
  then show ?thesis
    using GetCurClusterInfo_ok [OF assms(4), of agent'] assms(6)
    by (intro exI [of _ agent'] exI [of _ server]) (simp add: GetObjMeta_def)
qed

end
