(* ===== verification/Client_Block.thy ===== *)
theory Client_Block
  imports Client_Agent
begin

text \<open>
  The pool of buffers of a client (\<^verbatim>\<open>utils/common/pool.go\<close>) and the blocks it uploads
  (\<^verbatim>\<open>client/io/block.go\<close>).  An upload runs against the block services of theory \<open>Gaia\<close>: the state of
  the world is the files of the nodes and of the cloud.  Block identifiers come from the library
  that generates unique identifiers, given as a sequence, and hashes from hash libraries.
\<close>

section \<open>The pool\<close>

text \<open>A channel of bounded capacity; a send on a full one and a receive on an empty one block.\<close>

record 'r Pool =
  resources :: "'r list"
  pool_cap :: nat
  curCount :: nat
  maxCount :: nat

definition NewPool :: "nat \<Rightarrow> nat \<Rightarrow> 'r Pool result" where
  "NewPool n maxN =
     (if n = 0 then Inl (Err ZeroSize)
      else Inr \<lparr>resources = [], pool_cap = n, curCount = 0, maxCount = maxN\<rparr>)"

definition Release :: "'r \<Rightarrow> 'r Pool \<Rightarrow> 'r Pool exec" where
  "Release r p =
     (if length (resources p) < pool_cap p then Ret (p\<lparr>resources := resources p @ [r]\<rparr>)
      else exec.Blocks ''send on a full channel'')"

definition Acquire :: "'r \<Rightarrow> 'r Pool \<Rightarrow> ('r \<times> 'r Pool) exec" where
  "Acquire new p =
     exec_bind
       (if curCount p < maxCount p \<and> length (resources p) < maxCount p
        then exec_bind (Release new p) (\<lambda>p. Ret (p\<lparr>curCount := curCount p + 1\<rparr>))
        else Ret p)
       (\<lambda>p. case resources p of
              [] \<Rightarrow> exec.Blocks ''receive on an empty channel''
            | r # rs \<Rightarrow> Ret (r, p\<lparr>resources := rs\<rparr>))"

primrec acquire_n :: "nat \<Rightarrow> 'r \<Rightarrow> 'r Pool \<Rightarrow> ('r list \<times> 'r Pool) exec" where
  "acquire_n 0 new p = Ret ([], p)"
| "acquire_n (Suc n) new p =
     exec_bind (Acquire new p) (\<lambda>(r, p). exec_bind (acquire_n n new p) (\<lambda>(rs, p). Ret (r # rs, p)))"

text \<open>The factory of the client never fails, so an acquisition has no error to undo.\<close>

text \<open>A pool is never made with capacity 0, so capacity 0 stands for the pool that could not be made: nil.\<close>

definition AcquireMultiple :: "nat \<Rightarrow> 'r \<Rightarrow> 'r Pool \<Rightarrow> ('r list result \<times> 'r Pool) exec" where
  "AcquireMultiple count new p =
     (if pool_cap p = 0 then Panic ''nil pointer dereference''
      else if count = 0 then Ret (Inl (Err ZeroSize), p)
      else exec_bind (acquire_n count new p) (\<lambda>(rs, p). Ret (Inr rs, p)))"

section \<open>Chunks and blocks\<close>

record localChunk =
  cdata :: bytes
  freeSize :: u64

text \<open>\<^verbatim>\<open>chunk.data[:len(chunk.data)-freeSize]\<close>; a free size beyond the length would be out of range.\<close>

definition chunk_len :: "localChunk \<Rightarrow> u64" where
  "chunk_len c = word_of_nat (length (cdata c)) - freeSize c"

definition chunk_content :: "localChunk \<Rightarrow> bytes exec" where
  "chunk_content c =
     (if length (cdata c) < unat (chunk_len c) then Panic ''slice bounds out of range''
      else Ret (take (unat (chunk_len c)) (cdata c)))"

primrec chunk_contents :: "localChunk list \<Rightarrow> bytes list exec" where
  "chunk_contents [] = Ret []"
| "chunk_contents (c # cs) =
     exec_bind (chunk_content c) (\<lambda>x. exec_bind (chunk_contents cs) (\<lambda>xs. Ret (x # xs)))"

datatype BlockStatus = READING | UPLOADING | FAILED | FINISHED | ABORTED

record Block =
  bl_info :: BlockInfo
  bl_status :: BlockStatus
  bl_chunks :: "localChunk list"
  bl_cluster :: ClusterInfo
  bl_pipes :: ClusterPipelines
  bl_hashType :: HashType

definition zero_info :: BlockInfo where
  "zero_info = \<lparr>BlockId = [], PartId = 0, BlockSize_bi = 0, BlockHash = [], PgId_bi = 0\<rparr>"

text \<open>\<^verbatim>\<open>hex.EncodeToString\<close>.\<close>

definition hex_digit :: "nat \<Rightarrow> char" where
  "hex_digit n = (if n < 10 then char_of (48 + n) else char_of (87 + n))"

definition hex_encode :: "bytes \<Rightarrow> string" where
  "hex_encode bs = concat (map (\<lambda>b. [hex_digit (unat b div 16), hex_digit (unat b mod 16)]) bs)"

text \<open>
  The hash is that of the whole data of the chunks, the free part included.  The program never
  sets the hash type of a block, so every block has the zero value, which is off.
\<close>

definition genBlockHash :: "(HashType \<Rightarrow> bytes \<Rightarrow> bytes) \<Rightarrow> Block \<Rightarrow> Block \<times> go_error option" where
  "genBlockHash hash b =
     (if bl_status b \<noteq> UPLOADING then (b, Some (Err IllegalStatus))
      else if bl_hashType b = OFF then (b\<lparr>bl_info := (bl_info b)\<lparr>BlockHash := []\<rparr>\<rparr>, None)
      else (b\<lparr>bl_info := (bl_info b)\<lparr>BlockHash := hex_encode (hash (bl_hashType b) (concat (map cdata (bl_chunks b))))\<rparr>\<rparr>, None))"

definition blockPgNum :: u64 where
  "blockPgNum = 100"

definition GenBlockPG :: "hash_ring \<Rightarrow> BlockInfo \<Rightarrow> u64 exec" where
  "GenBlockPG ring block = map_pg ring blockPgNum (BlockId block)"

definition updateBlockInfo :: "(HashType \<Rightarrow> bytes \<Rightarrow> bytes) \<Rightarrow> hash_ring \<Rightarrow> string \<Rightarrow> Block \<Rightarrow> (Block \<times> go_error option) exec" where
  "updateBlockInfo hash ring uuid b =
     (let b = (if PartId (bl_info b) = 0
               then b\<lparr>bl_info := (bl_info b)\<lparr>BlockSize_bi := sum_list (map chunk_len (bl_chunks b))\<rparr>\<rparr> else b);
          (b, err) = genBlockHash hash b
      in if err \<noteq> None then Ret (b, err)
         else let b = b\<lparr>bl_info := (bl_info b)\<lparr>BlockId := (if bl_hashType b \<noteq> OFF then BlockHash (bl_info b) else uuid)\<rparr>\<rparr>
              in exec_bind (GenBlockPG ring (bl_info b)) (\<lambda>pg.
                   Ret (b\<lparr>bl_info := (bl_info b)\<lparr>PgId_bi := pg\<rparr>\<rparr>, None)))"

definition block_Close :: "(HashType \<Rightarrow> bytes \<Rightarrow> bytes) \<Rightarrow> hash_ring \<Rightarrow> string \<Rightarrow> Block \<Rightarrow> (Block \<times> go_error option) exec" where
  "block_Close hash ring uuid b =
     (if PartId (bl_info b) \<noteq> 0 then Ret (b, None)
      else if bl_chunks b = [] then Ret (b, None)
      else if bl_status b \<noteq> READING then Ret (b, Some (Err RepeatedClose))
      else updateBlockInfo hash ring uuid (b\<lparr>bl_status := UPLOADING\<rparr>))"

section \<open>Uploads\<close>

record World =
  w_servers :: servers
  w_cloud :: "CloudGaia option"
  w_disk :: disk
  w_cloud_disk :: disk

text \<open>
  The requests sent on a stream, unless the sizes of the chunks do not add up, in which case the
  stream is left without its last message.
\<close>

definition stream_requests :: "Block \<Rightarrow> Pipeline \<Rightarrow> bytes list \<Rightarrow> UploadBlockRequest list" where
  "stream_requests b pipe cs =
     Payload_Message (Message_BEGIN (Some (bl_info b)) (Some pipe) (Term (bl_cluster b))) # map Payload_Chunk cs"

text \<open>Only an error of the call is looked at; the status of the result is not.\<close>

definition uploadByStream ::
    "(UploadBlockRequest list \<Rightarrow> disk \<Rightarrow> (disk \<times> CodedResult result) exec) \<Rightarrow> Block \<Rightarrow> disk \<Rightarrow> (disk \<times> go_error option) exec" where
  "uploadByStream send b d =
     exec_bind (GetBlockPipeline (bl_pipes b) (PgId_bi (bl_info b))) (\<lambda>pipe.
     exec_bind (chunk_contents (bl_chunks b)) (\<lambda>cs.
       if sum_list (map chunk_len (bl_chunks b)) \<noteq> BlockSize_bi (bl_info b)
       then exec_bind (send (stream_requests b pipe cs) d) (\<lambda>(d, _).
              Ret (d, Some (ErrText ''incompatible upload size'')))
       else exec_bind (send (stream_requests b pipe cs @ [Payload_Message (Message_EOF (Some (bl_info b)))]) d)
              (\<lambda>(d, res). Ret (d, case res of Inl err \<Rightarrow> Some err | Inr _ \<Rightarrow> None))))"

primrec upload_to_nodes ::
    "Answers \<Rightarrow> string list \<Rightarrow> Block \<Rightarrow> InfoAgent \<Rightarrow> World \<Rightarrow> (InfoAgent \<times> World \<times> go_error option) exec" where
  "upload_to_nodes ans [] b agent wd = Ret (agent, wd, Some (Err RemoteGaiaFail))"
| "upload_to_nodes ans (i # is) b agent wd =
     exec_bind (node_of ans i agent) (\<lambda>(agent, node).
       case w_servers wd (RaftId node) of
         None \<Rightarrow> upload_to_nodes ans is b agent wd
       | Some g \<Rightarrow>
           exec_bind (uploadByStream (UploadBlockData (w_servers wd) g) b (w_disk wd)) (\<lambda>(d, err).
             if err \<noteq> None then upload_to_nodes ans is b agent (wd\<lparr>w_disk := d\<rparr>)
             else Ret (agent, wd\<lparr>w_disk := d\<rparr>, None)))"

definition uploadByEdge :: "Answers \<Rightarrow> Block \<Rightarrow> InfoAgent \<Rightarrow> World \<Rightarrow> (InfoAgent \<times> World \<times> go_error option) exec" where
  "uploadByEdge ans b agent wd =
     exec_bind (GetBlockPGNodeID (bl_pipes b) (PgId_bi (bl_info b))) (\<lambda>ids. upload_to_nodes ans ids b agent wd)"

definition uploadByCloud :: "Block \<Rightarrow> World \<Rightarrow> (World \<times> go_error option) exec" where
  "uploadByCloud b wd =
     (case w_cloud wd of
        None \<Rightarrow> Ret (wd, Some (ErrText ''rpc error: code = Unavailable''))
      | Some g \<Rightarrow>
          exec_bind (uploadByStream (CloudGaia_UploadBlockData g) b (w_cloud_disk wd)) (\<lambda>(d, err).
            Ret (wd\<lparr>w_cloud_disk := d\<rparr>, err)))"

definition block_Upload :: "Answers \<Rightarrow> Block \<Rightarrow> InfoAgent \<Rightarrow> World \<Rightarrow> (InfoAgent \<times> World \<times> go_error option) exec" where
  "block_Upload ans b agent wd =
     (case ia_connectType agent of
        ConnectCloud \<Rightarrow> exec_bind (uploadByCloud b wd) (\<lambda>(wd, err). Ret (agent, wd, err))
      | ConnectEdge \<Rightarrow> uploadByEdge ans b agent wd)"

definition block_Abort :: "NodeInfo \<Rightarrow> Block \<Rightarrow> World \<Rightarrow> (World \<times> go_error option) exec" where
  "block_Abort node b wd =
     exec_bind (GetBlockPipeline (bl_pipes b) (PgId_bi (bl_info b))) (\<lambda>pipe.
       case w_servers wd (RaftId node) of
         None \<Rightarrow> Ret (wd, Some (ErrText ''rpc error: code = Unavailable''))
       | Some g \<Rightarrow>
           exec_bind (DeleteBlock (w_servers wd) g
             \<lparr>BlockId_d = BlockId (bl_info b), Pipeline_d = pipe, Term_d = Term (bl_cluster b)\<rparr> (w_disk wd))
             (\<lambda>(d, err). Ret (wd\<lparr>w_disk := d\<rparr>, map_option rpc_error err)))"

section \<open>The pool is never exhausted by less than its size\<close>

text \<open>
  The pool with \<open>x\<close> resources out, all resources in it satisfying \<open>P\<close>.
\<close>

definition pool_ok :: "('r \<Rightarrow> bool) \<Rightarrow> nat \<Rightarrow> 'r Pool \<Rightarrow> bool" where
  "pool_ok P x p \<longleftrightarrow> length (resources p) + x = curCount p \<and> curCount p \<le> maxCount p \<and> pool_cap p = maxCount p
     \<and> list_all P (resources p)"

lemma pool_ok_new: "NewPool n n = Inr p \<Longrightarrow> pool_ok P 0 p"
  by (auto simp: NewPool_def pool_ok_def split: if_splits)

lemma Release_ok:
  assumes "pool_ok P (Suc x) p" "P r"
  shows "\<exists>p'. Release r p = Ret p' \<and> pool_ok P x p' \<and> maxCount p' = maxCount p"
  using assms by (simp add: pool_ok_def Release_def)

lemma Acquire_ok:
  assumes "pool_ok P x p" "P new" "x < maxCount p"
  shows "\<exists>r p'. Acquire new p = Ret (r, p') \<and> P r \<and> pool_ok P (Suc x) p' \<and> maxCount p' = maxCount p"
proof (cases "curCount p < maxCount p \<and> length (resources p) < maxCount p")
  case True
  then show ?thesis
    using assms by (cases "resources p") (auto simp: Acquire_def Release_def pool_ok_def)
next
  case False
  then obtain r rs where "resources p = r # rs"
    using assms by (cases "resources p") (auto simp: pool_ok_def)
  then show ?thesis
    using False assms by (auto simp: Acquire_def pool_ok_def)
qed

lemma acquire_n_ok:
  "pool_ok P x p \<Longrightarrow> P new \<Longrightarrow> x + n \<le> maxCount p \<Longrightarrow>
    \<exists>rs p'. acquire_n n new p = Ret (rs, p') \<and> length rs = n \<and> list_all P rs \<and> pool_ok P (x + n) p' \<and> maxCount p' = maxCount p"
proof (induction n arbitrary: x p)
  case (Suc n)
  obtain r p1 where p1: "Acquire new p = Ret (r, p1)" "P r" "pool_ok P (Suc x) p1" "maxCount p1 = maxCount p"
    using Acquire_ok [OF Suc.prems(1,2)] Suc.prems(3) by auto
  obtain rs p2 where "acquire_n n new p1 = Ret (rs, p2)" "length rs = n" "list_all P rs" "pool_ok P (Suc x + n) p2" "maxCount p2 = maxCount p"
    using Suc.IH [OF p1(3) Suc.prems(2)] Suc.prems(3) p1(4) by auto
  then show ?case
    using p1 by simp
qed simp

lemma release_n_ok:
  "pool_ok P (length rs + x) p \<Longrightarrow> list_all P rs \<Longrightarrow>
    \<exists>p'. exec_fold Release rs p = Ret p' \<and> pool_ok P x p' \<and> maxCount p' = maxCount p"
proof (induction rs arbitrary: p)
  case (Cons r rs)
  obtain p1 where p1: "Release r p = Ret p1" "pool_ok P (length rs + x) p1" "maxCount p1 = maxCount p"
    using Release_ok [of P "length rs + x" p r] Cons.prems by auto
  obtain p2 where "exec_fold Release rs p1 = Ret p2" "pool_ok P x p2" "maxCount p2 = maxCount p"
    using Cons.IH [OF p1(2)] Cons.prems(2) p1(3) by auto
  then show ?case
    using p1 by simp
qed simp

section \<open>A block that is uploaded\<close>

definition chunk_bytes :: "localChunk \<Rightarrow> bytes" where
  "chunk_bytes c = take (length (cdata c) - unat (freeSize c)) (cdata c)"

definition chunk_ok :: "localChunk \<Rightarrow> bool" where
  "chunk_ok c \<longleftrightarrow> unat (freeSize c) \<le> length (cdata c) \<and> length (cdata c) < 2 ^ 64"

lemma chunk_len_ok: "chunk_ok c \<Longrightarrow> unat (chunk_len c) = length (cdata c) - unat (freeSize c)"
proof -
  assume c: "chunk_ok c"
  have "unat (word_of_nat (length (cdata c)) :: u64) = length (cdata c)"
    using c by (intro unat_word_of_nat64) (simp add: chunk_ok_def)
  moreover have "freeSize c \<le> word_of_nat (length (cdata c))"
    using c calculation by (simp add: chunk_ok_def word_le_nat_alt)
  ultimately show ?thesis
    by (simp add: chunk_len_def unat_sub)
qed

lemma chunk_content_ok: "chunk_ok c \<Longrightarrow> chunk_content c = Ret (chunk_bytes c)"
  by (simp add: chunk_content_def chunk_len_ok chunk_bytes_def)

lemma chunk_contents_ok: "list_all chunk_ok cs \<Longrightarrow> chunk_contents cs = Ret (map chunk_bytes cs)"
  by (induction cs) (simp_all add: chunk_content_ok)

lemma length_chunk_bytes: "chunk_ok c \<Longrightarrow> length (chunk_bytes c) = unat (chunk_len c)"
  by (simp add: chunk_bytes_def chunk_len_ok)

text \<open>A pipeline whose first node stores and serves blocks together with all the others.\<close>

definition pipeline_serves :: "servers \<Rightarrow> ClusterInfo \<Rightarrow> Pipeline \<Rightarrow> bool" where
  "pipeline_serves net c p \<longleftrightarrow>
     (case RaftIds p of
        [] \<Rightarrow> False
      | n # _ \<Rightarrow> n \<in> RaftId ` set (NodesInfo c)
          \<and> (case net n of None \<Rightarrow> False | Some g \<Rightarrow> g_self g = n \<and> g_chunkSize g \<noteq> 0 \<and> can_store net g p (Term c)))"

text \<open>A block of the cluster is on the disk of every node of its pipeline.\<close>

definition stored :: "hash_ring \<Rightarrow> ClusterPipelines \<Rightarrow> servers \<Rightarrow> disk \<Rightarrow> string \<Rightarrow> bytes \<Rightarrow> bool" where
  "stored ring ps net d i f \<longleftrightarrow>
     (\<exists>pg p n ns. map_pg ring blockPgNum i = Ret pg \<and> pipeline_at (BlockPipelines ps) pg = Ret p \<and> RaftIds p = n # ns
        \<and> (\<forall>m \<in> set (RaftIds p). sm_load d (block_key net (delete_info i) m) = Some f))"

lemma block_key_id: "BlockId b = BlockId b' \<Longrightarrow> block_key net b n = block_key net b' n"
  by (simp add: block_key_def cong: option.case_cong)

lemma uploadByEdge_ok:
  assumes "answers_ok ans c" "agent_ok c agent" "bl_cluster b = c" "bl_pipes b = ps"
    "pipeline_at (BlockPipelines ps) (PgId_bi (bl_info b)) = Ret p" "pipeline_serves (w_servers wd) c p"
    "list_all chunk_ok (bl_chunks b)" "bl_chunks b \<noteq> []" "sum_list (map chunk_len (bl_chunks b)) = BlockSize_bi (bl_info b)"
  shows "\<exists>agent' d'. uploadByEdge ans b agent wd = Ret (agent', wd\<lparr>w_disk := d'\<rparr>, None) \<and> agent_ok c agent'
    \<and> (\<forall>n \<in> set (RaftIds p). sm_load d' (block_key (w_servers wd) (bl_info b) n) = Some (fst (buffered (map chunk_bytes (bl_chunks b)) ([], []))))
    \<and> same_but (block_key (w_servers wd) (bl_info b) ` set (RaftIds p)) (w_disk wd) d'"
proof -
  obtain n ns g where p: "RaftIds p = n # ns" "n \<in> RaftId ` set (NodesInfo c)" "w_servers wd n = Some g" "g_self g = n"
      "can_store (w_servers wd) g p (Term c)"
    using assms(6) by (auto simp: pipeline_serves_def split: list.splits option.splits)
  obtain agent' i where a: "node_of ans (FormatUint n) agent = Ret (agent', i)" "RaftId i = n" "agent_ok c agent'"
    using node_of_ok [OF assms(1,2) p(2)] by blast
  let ?cs = "map chunk_bytes (bl_chunks b)" and ?d = "w_disk wd" and ?net = "w_servers wd"
  have ns: "set (g_self g # RaftIds p) = set (RaftIds p)"
    using p(1,4) by auto
  obtain d' where d': "UploadBlockData ?net g (store_requests (bl_info b) p (Term c) ?cs) ?d
        = Ret (d', Inr \<lparr>Status_r = Result_OK, Message = [], Code_r = 0\<rparr>)"
      "\<forall>n \<in> set (RaftIds p). sm_load d' (block_key ?net (bl_info b) n) = Some (fst (buffered ?cs ([], [])))"
      "same_but (block_key ?net (bl_info b) ` set (RaftIds p)) ?d d'"
    using upload_stored [OF p(5), of ?cs "bl_info b" ?d] assms(8) unfolding ns by auto
  have "uploadByStream (UploadBlockData ?net g) b ?d = Ret (d', None)"
    using d'(1) assms(3,4,5,7,9)
    by (simp add: uploadByStream_def GetBlockPipeline_def chunk_contents_ok stream_requests_def store_requests_def)
  then have "uploadByEdge ans b agent wd = Ret (agent', wd\<lparr>w_disk := d'\<rparr>, None)"
    using a p(1,3) assms(4,5) by (simp add: uploadByEdge_def GetBlockPGNodeID_def)
  then show ?thesis
    using a(3) d'(2,3) p(1) by (intro exI [of _ agent'] exI [of _ d']) simp
qed

end
