(* ===== verification/Ecos_Writer.thy ===== *)
theory Ecos_Writer
  imports Client_Block
begin

text \<open>
  Writing an object (\<^verbatim>\<open>client/io/ecos_writer.go\<close>): bytes fill chunks, chunks fill blocks, full blocks are
  uploaded, and closing the writer records the metadata; or the object is uploaded in parts, one
  block for each.  An upload started with \<^verbatim>\<open>go\<close> runs when it is started; the send of the finished
  block, which waits for the writer to receive it, is kept in the list of finished blocks.
  Receiving from an empty list blocks.  The factory rejects a chunk size of zero by dividing by
  it, so a writer has a positive one.
\<close>

section \<open>State\<close>

record Libs =
  c_ring :: hash_ring
  c_crush :: crush
  c_hash :: "HashType \<Rightarrow> bytes \<Rightarrow> bytes"
  c_uuid :: "nat \<Rightarrow> string"

record IOEnv = Libs +
  c_bucket :: BucketInfo
  c_config :: BucketConfig
  c_chunkSize :: u64

record IO =
  io_agent :: InfoAgent
  io_pool :: "localChunk Pool"
  io_world :: World
  io_next :: nat

record EcosWriter =
  ew_key :: string
  ew_Status :: BlockStatus
  curChunk :: "localChunk option"
  reserveChunks :: "localChunk list"
  chunkCount :: nat
  ew_clusterInfo :: ClusterInfo
  ew_pipes :: ClusterPipelines
  ew_blocks :: "(int, Block) smap"
  curBlock :: "Block option"
  blockCount :: nat
  finishedBlocks :: "Block list"
  writeSize :: u64
  objHash :: "bytes option"
  partObject :: bool
  partIDs :: "i32 list"

definition chunks_per_block :: "IOEnv \<Rightarrow> nat" where
  "chunks_per_block env = unat (BlockSize (c_config env) div c_chunkSize env)"

definition newLocalChunk :: "IOEnv \<Rightarrow> localChunk" where
  "newLocalChunk env = \<lparr>cdata = replicate (unat (c_chunkSize env)) 0, freeSize = c_chunkSize env\<rparr>"

definition getNewBlock :: "EcosWriter \<Rightarrow> Block" where
  "getNewBlock w =
     \<lparr>bl_info = zero_info, bl_status = READING, bl_chunks = [], bl_cluster = ew_clusterInfo w, bl_pipes = ew_pipes w,
      bl_hashType = OFF\<rparr>"

section \<open>Uploading blocks\<close>

definition release_all :: "localChunk list \<Rightarrow> IO \<Rightarrow> IO exec" where
  "release_all cs io = exec_bind (exec_fold Release cs (io_pool io)) (\<lambda>p. Ret (io\<lparr>io_pool := p\<rparr>))"

text \<open>The chunks of an ordinary block go back to the pool, emptied; those of a part are dropped.\<close>

definition delFunc :: "IOEnv \<Rightarrow> Block \<Rightarrow> IO \<Rightarrow> (Block \<times> IO) exec" where
  "delFunc env b io =
     exec_bind
       (if PartId (bl_info b) \<noteq> 0 then Ret io
        else release_all (map (\<lambda>c. c\<lparr>freeSize := c_chunkSize env\<rparr>) (bl_chunks b)) io)
       (\<lambda>io. Ret (b\<lparr>bl_chunks := []\<rparr>, io))"

text \<open>The block and whether it is sent to the writer as finished.\<close>

definition uploadBlock :: "IOEnv \<Rightarrow> Answers \<Rightarrow> Block \<Rightarrow> IO \<Rightarrow> (Block \<times> bool \<times> IO) exec" where
  "uploadBlock env ans b io =
     exec_bind (block_Close (c_hash env) (c_ring env) (c_uuid env (io_next io)) b) (\<lambda>(b, err).
       let io = io\<lparr>io_next := io_next io + 1\<rparr>
       in if err \<noteq> None then Ret (b, False, io)
          else exec_bind (block_Upload ans b (io_agent io) (io_world io)) (\<lambda>(agent, wd, err).
            let io = io\<lparr>io_agent := agent, io_world := wd\<rparr>;
                b = b\<lparr>bl_status := (if err \<noteq> None then FAILED else FINISHED)\<rparr>
            in exec_bind (delFunc env b io) (\<lambda>(b, io). Ret (b, True, io))))"

definition commitCurBlock :: "IOEnv \<Rightarrow> Answers \<Rightarrow> EcosWriter \<Rightarrow> IO \<Rightarrow> (EcosWriter \<times> IO) exec" where
  "commitCurBlock env ans w io =
     exec_bind (release_all (reserveChunks w) io) (\<lambda>io.
       let w = w\<lparr>reserveChunks := []\<rparr>
       in case curBlock w of
            None \<Rightarrow> Ret (w, io)
          | Some b \<Rightarrow>
              exec_bind (uploadBlock env ans b io) (\<lambda>(b, finished, io).
                Ret (w\<lparr>ew_blocks := sm_store (int (blockCount w)) b (ew_blocks w), curBlock := None,
                       finishedBlocks := finishedBlocks w @ (if finished then [b] else [])\<rparr>, io)))"

definition getCurBlock :: "IOEnv \<Rightarrow> Answers \<Rightarrow> EcosWriter \<Rightarrow> IO \<Rightarrow> (EcosWriter \<times> Block \<times> IO) exec" where
  "getCurBlock env ans w io =
     exec_bind
       (case curBlock w of
          Some b \<Rightarrow> if length (bl_chunks b) = chunks_per_block env then commitCurBlock env ans w io else Ret (w, io)
        | None \<Rightarrow> Ret (w, io))
       (\<lambda>(w, io).
          case curBlock w of
            Some b \<Rightarrow> Ret (w, b, io)
          | None \<Rightarrow> Ret (w\<lparr>curBlock := Some (getNewBlock w), blockCount := blockCount w + 1\<rparr>, getNewBlock w, io))"

definition getCurChunk :: "IOEnv \<Rightarrow> EcosWriter \<Rightarrow> IO \<Rightarrow> (EcosWriter \<times> IO \<times> localChunk result) exec" where
  "getCurChunk env w io =
     (case curChunk w of
        Some c \<Rightarrow> Ret (w, io, Inr c)
      | None \<Rightarrow>
          exec_bind
            (if reserveChunks w = []
             then exec_bind (AcquireMultiple (chunks_per_block env) (newLocalChunk env) (io_pool io)) (\<lambda>(res, p).
                    Ret (res, io\<lparr>io_pool := p\<rparr>))
             else Ret (Inr (reserveChunks w), io))
            (\<lambda>(res, io).
               case res of
                 Inl err \<Rightarrow> Ret (w, io, Inl err)
               | Inr [] \<Rightarrow> Panic ''index out of range''
               | Inr (c # cs) \<Rightarrow>
                   Ret (w\<lparr>reserveChunks := cs, chunkCount := chunkCount w + 1, curChunk := Some c\<rparr>, io, Inr c)))"

definition commitCurChunk :: "IOEnv \<Rightarrow> Answers \<Rightarrow> EcosWriter \<Rightarrow> IO \<Rightarrow> (EcosWriter \<times> IO) exec" where
  "commitCurChunk env ans w io =
     (case curChunk w of
        None \<Rightarrow> Ret (w, io)
      | Some c \<Rightarrow>
          exec_bind (getCurBlock env ans w io) (\<lambda>(w, b, io).
            let b = b\<lparr>bl_chunks := bl_chunks b @ [c]\<rparr>;
                w = w\<lparr>curBlock := Some b\<rparr>
            in exec_bind (if length (bl_chunks b) = chunks_per_block env then commitCurBlock env ans w io else Ret (w, io))
                 (\<lambda>(w, io). Ret (w\<lparr>curChunk := None\<rparr>, io))))"

section \<open>Writing\<close>

text \<open>\<^verbatim>\<open>copy(chunk.data[chunkSize-freeSize:], p)\<close>: the number of bytes copied and the chunk.\<close>

definition fill_chunk :: "IOEnv \<Rightarrow> bytes \<Rightarrow> localChunk \<Rightarrow> (nat \<times> localChunk) exec" where
  "fill_chunk env p c =
     (let off = unat (c_chunkSize env - freeSize c); n = min (length (cdata c) - off) (length p)
      in if length (cdata c) < off then Panic ''slice bounds out of range''
         else Ret (n, c\<lparr>cdata := take off (cdata c) @ take n p @ drop (off + n) (cdata c),
                        freeSize := freeSize c - word_of_nat n\<rparr>))"

text \<open>
  The loop of \<^verbatim>\<open>Write\<close>.  The fuel is the number of pending bytes: every round copies at least one
  byte into a chunk that is not full.
\<close>

primrec write_loop ::
    "IOEnv \<Rightarrow> Answers \<Rightarrow> nat \<Rightarrow> bytes \<Rightarrow> EcosWriter \<Rightarrow> IO \<Rightarrow> (EcosWriter \<times> IO \<times> nat \<times> go_error option) exec" where
  "write_loop env ans 0 p w io = (if p = [] then Ret (w, io, 0, None) else exec.Blocks ''no progress'')"
| "write_loop env ans (Suc fuel) p w io =
     (if p = [] then Ret (w, io, 0, None)
      else exec_bind (getCurChunk env w io) (\<lambda>(w, io, res).
        case res of
          Inl err \<Rightarrow> Ret (w, io, 0, Some err)
        | Inr c \<Rightarrow>
            exec_bind (fill_chunk env p c) (\<lambda>(n, c).
              let w = w\<lparr>curChunk := Some c\<rparr>
              in exec_bind (if freeSize c = 0 then commitCurChunk env ans w io else Ret (w, io)) (\<lambda>(w, io).
                 exec_bind (write_loop env ans fuel (drop n p) w io) (\<lambda>(w, io, k, err). Ret (w, io, n + k, err))))))"

definition ew_Write :: "IOEnv \<Rightarrow> Answers \<Rightarrow> bytes \<Rightarrow> EcosWriter \<Rightarrow> IO \<Rightarrow> (EcosWriter \<times> IO \<times> nat \<times> go_error option) exec" where
  "ew_Write env ans p w io =
     (if partObject w then Ret (w, io, 0, Some (Err MethodNotAllowed))
      else if ew_Status w \<noteq> READING then Ret (w, io, 0, Some (Err IllegalStatus))
      else exec_bind (write_loop env ans (length p) p w io) (\<lambda>(w, io, offset, err).
        if err \<noteq> None then Ret (w, io, offset, err)
        else
          let w = w\<lparr>writeSize := writeSize w + word_of_nat offset\<rparr>
          in if ObjectHashType (c_config env) \<noteq> OFF
             then (case objHash w of
                     None \<Rightarrow> Panic ''nil pointer dereference''
                   | Some h \<Rightarrow> Ret (w\<lparr>objHash := Some (h @ take offset p)\<rparr>, io, offset, None))
             else Ret (w, io, offset, None)))"

section \<open>Metadata\<close>

definition object_hash :: "IOEnv \<Rightarrow> EcosWriter \<Rightarrow> string exec" where
  "object_hash env w =
     (case objHash w of
        None \<Rightarrow> Panic ''nil pointer dereference''
      | Some h \<Rightarrow> Ret (hex_encode (c_hash env (ObjectHashType (c_config env)) h)))"

primrec block_infos :: "(int, Block) smap \<Rightarrow> int list \<Rightarrow> BlockInfo list exec" where
  "block_infos m [] = Ret []"
| "block_infos m (i # is) =
     (case sm_load m i of
        None \<Rightarrow> Panic ''nil pointer dereference''
      | Some b \<Rightarrow> exec_bind (block_infos m is) (\<lambda>bs. Ret (bl_info b # bs)))"

text \<open>The number of metadata groups is fixed to ten.\<close>

definition genMeta :: "IOEnv \<Rightarrow> Timestamp \<Rightarrow> EcosWriter \<Rightarrow> ObjectMeta exec" where
  "genMeta env now w =
     exec_bind (GenObjPgID (c_ring env) (c_bucket env) (ew_key w) 10) (\<lambda>pgID.
     exec_bind (GenObjectId (c_ring env) (c_bucket env) (ew_key w)) (\<lambda>objID.
     exec_bind (if ObjectHashType (c_config env) \<noteq> OFF then object_hash env w else Ret []) (\<lambda>h.
     exec_bind (block_infos (ew_blocks w) (map int [1..<Suc (length (ew_blocks w))])) (\<lambda>bs.
       Ret \<lparr>ObjId = objID, Status = STATUS_UNKNOWN, Position = POSITION_UNKNOWN, ObjSize = writeSize w,
            UpdateTime = Some now, ObjHash = h, PgId = pgID, Blocks = bs, Term_m = Term (ew_clusterInfo w)\<rparr>))))"

text \<open>
  The request is repeated as long as the server refuses its term; every attempt has its own
  answers.
\<close>

primrec uploadMeta :: "IOEnv \<Rightarrow> Answers list \<Rightarrow> ObjectMeta \<Rightarrow> InfoAgent \<Rightarrow> (InfoAgent \<times> ObjectMeta \<times> go_error option) exec" where
  "uploadMeta env [] meta agent = exec.Blocks ''waiting for an answer''"
| "uploadMeta env (ans # anss) meta agent =
     exec_bind (SubmitMeta (c_ring env) (c_crush env) ans (c_bucket env) meta agent) (\<lambda>(agent, meta, res).
       case res of
         Inr _ \<Rightarrow> Ret (agent, meta, None)
       | Inl err \<Rightarrow>
           (if term_refused err
            then exec_bind (UpdateCurClusterInfo ans agent) (\<lambda>(agent, err).
                   if err \<noteq> None then Ret (agent, meta, err) else uploadMeta env anss meta agent)
            else Ret (agent, meta, Some err)))"

definition commitMeta ::
    "IOEnv \<Rightarrow> Answers list \<Rightarrow> Timestamp \<Rightarrow> EcosWriter \<Rightarrow> IO \<Rightarrow> (IO \<times> ObjectMeta \<times> go_error option) exec" where
  "commitMeta env anss now w io =
     exec_bind (genMeta env now w) (\<lambda>meta.
     exec_bind (uploadMeta env anss meta (io_agent io)) (\<lambda>(agent, meta, err).
       Ret (io\<lparr>io_agent := agent\<rparr>, meta, err)))"

section \<open>Closing\<close>

definition receive_blocks :: "nat \<Rightarrow> EcosWriter \<Rightarrow> (EcosWriter \<times> Block list) exec" where
  "receive_blocks n w =
     (if length (finishedBlocks w) < n then exec.Blocks ''receive on an empty channel''
      else Ret (w\<lparr>finishedBlocks := drop n (finishedBlocks w)\<rparr>, take n (finishedBlocks w)))"

text \<open>The status of the received blocks is not looked at.  The metadata submitted is returned for the theorems.\<close>

definition ew_Close ::
    "IOEnv \<Rightarrow> Answers \<Rightarrow> Answers list \<Rightarrow> Timestamp \<Rightarrow> EcosWriter \<Rightarrow> IO
     \<Rightarrow> (EcosWriter \<times> IO \<times> ObjectMeta option \<times> go_error option) exec" where
  "ew_Close env ans anss now w io =
     (if ew_Status w \<noteq> READING then Ret (w, io, None, Some (Err RepeatedClose))
      else exec_bind (commitCurChunk env ans w io) (\<lambda>(w, io).
           exec_bind (commitCurBlock env ans w io) (\<lambda>(w, io).
           exec_bind (receive_blocks (blockCount w) (w\<lparr>ew_Status := UPLOADING\<rparr>)) (\<lambda>(w, bs).
           exec_bind (commitMeta env anss now w io) (\<lambda>(io, meta, err).
             if err \<noteq> None then Ret (w, io, Some meta, err)
             else Ret (w\<lparr>ew_Status := FINISHED\<rparr>, io, Some meta, None))))))"

definition abortBlock :: "Answers \<Rightarrow> Block \<Rightarrow> IO \<Rightarrow> IO exec" where
  "abortBlock ans b io =
     exec_bind (GetBlockPGNodeID (bl_pipes b) (PgId_bi (bl_info b))) (\<lambda>ids.
     exec_bind (first_node ids) (\<lambda>i.
     exec_bind (node_of ans i (io_agent io)) (\<lambda>(agent, node).
     exec_bind (block_Abort node b (io_world io)) (\<lambda>(wd, err).
       Ret (io\<lparr>io_agent := agent, io_world := wd\<rparr>)))))"

definition ew_Abort :: "Answers \<Rightarrow> EcosWriter \<Rightarrow> IO \<Rightarrow> (EcosWriter \<times> IO \<times> go_error option) exec" where
  "ew_Abort ans w io =
     (if ew_Status w \<noteq> READING then Ret (w, io, Some (Err RepeatedClose))
      else exec_bind (receive_blocks (blockCount w) (w\<lparr>ew_Status := ABORTED\<rparr>)) (\<lambda>(w, bs).
           exec_bind (exec_fold (abortBlock ans) bs io) (\<lambda>io. Ret (w, io, None))))"

definition ew_Copy ::
    "IOEnv \<Rightarrow> Answers list \<Rightarrow> ObjectMeta \<Rightarrow> EcosWriter \<Rightarrow> IO \<Rightarrow> (IO \<times> ObjectMeta \<times> string result) exec" where
  "ew_Copy env anss meta w io =
     exec_bind (GenObjPgID (c_ring env) (c_bucket env) (ew_key w) 10) (\<lambda>pgID.
     exec_bind (GenObjectId (c_ring env) (c_bucket env) (ew_key w)) (\<lambda>objID.
     exec_bind (uploadMeta env anss (meta\<lparr>ObjId := objID, PgId := pgID\<rparr>) (io_agent io)) (\<lambda>(agent, meta, err).
       Ret (io\<lparr>io_agent := agent\<rparr>, meta, case err of Some e \<Rightarrow> Inl e | None \<Rightarrow> Inr (ObjId meta)))))"

section \<open>A cluster that stores blocks\<close>

text \<open>
  The parameters of a client: the ring, unique identifiers that are plain names, a chunk larger
  than the buffer of the block services, and blocks of at least one chunk.
\<close>

definition env_ok :: "IOEnv \<Rightarrow> bool" where
  "env_ok env \<longleftrightarrow> ring_ok (c_ring env) \<and> inj (c_uuid env) \<and> (\<forall>i. good_comp (c_uuid env i))
     \<and> 4096 < unat (c_chunkSize env) \<and> 0 < chunks_per_block env"

definition cluster_stores :: "servers \<Rightarrow> ClusterInfo \<Rightarrow> ClusterPipelines \<Rightarrow> bool" where
  "cluster_stores net c ps \<longleftrightarrow> length (BlockPipelines ps) = 100 \<and> list_all (pipeline_serves net c) (BlockPipelines ps)"

definition sized :: "IOEnv \<Rightarrow> localChunk \<Rightarrow> bool" where
  "sized env c \<longleftrightarrow> length (cdata c) = unat (c_chunkSize env) \<and> freeSize c \<le> c_chunkSize env"

definition blank :: "IOEnv \<Rightarrow> localChunk \<Rightarrow> bool" where
  "blank env c \<longleftrightarrow> length (cdata c) = unat (c_chunkSize env) \<and> freeSize c = c_chunkSize env"

lemma sized_ok: "sized env c \<Longrightarrow> chunk_ok c"
  using unsigned_less [of "c_chunkSize env", where ?'a = nat] by (simp add: sized_def chunk_ok_def word_le_nat_alt)

lemma all_sized_ok: "list_all (sized env) cs \<Longrightarrow> list_all chunk_ok cs"
  by (auto simp: list_all_iff intro: sized_ok)

lemma blank_sized: "blank env c \<Longrightarrow> sized env c"
  by (simp add: blank_def sized_def)

lemma block_group:
  assumes "ring_ok ring" "cluster_stores net c ps"
  shows "\<exists>pg p. map_pg ring blockPgNum i = Ret pg \<and> pipeline_at (BlockPipelines ps) pg = Ret p \<and> pipeline_serves net c p"
proof -
  have "unat blockPgNum = 100"
    by (simp add: blockPgNum_def)
  then obtain pg where pg: "map_pg ring blockPgNum i = Ret pg" "1 \<le> pg" "pg \<le> blockPgNum"
    using map_pg_bounds [OF assms(1), of blockPgNum i] by (auto simp: blockPgNum_def)
  have "unat (pg - 1) < 100"
    using pg(2,3) by (simp add: blockPgNum_def word_le_nat_alt unat_sub)
  then show ?thesis
    using pg(1) assms(2) by (auto simp: cluster_stores_def pipeline_at_def nth_opt_def list_all_length)
qed

lemma serves_first:
  assumes "pipeline_serves net c p" "RaftIds p = n # ns"
  shows "\<exists>g. net n = Some g \<and> g_self g = n \<and> g_chunkSize g \<noteq> 0 \<and> n \<in> RaftId ` set (NodesInfo c)"
  using assms by (auto simp: pipeline_serves_def split: option.splits)

lemma pipeline_at_mem: "pipeline_at ps pg = Ret p \<Longrightarrow> p \<in> set ps"
  by (auto simp: pipeline_at_def nth_opt_def split: option.splits if_splits)

text \<open>Storing one block keeps what is stored of every other.\<close>

lemma serves_all:
  assumes "pipeline_serves net c p" "m \<in> set (RaftIds p)"
  shows "\<exists>g. net m = Some g"
  using assms
  by (auto simp: pipeline_serves_def can_store_def serving_def list_all_iff split: list.splits option.splits exec.splits sum.splits)

lemma stored_other:
  assumes "stored ring ps net d i f" "cluster_stores net c ps" "good_comp i" "good_comp (BlockId b)" "i \<noteq> BlockId b"
    "same_but (block_key net b ` N) d d'"
  shows "stored ring ps net d' i f"
proof -
  obtain pg p n ns where s: "map_pg ring blockPgNum i = Ret pg" "pipeline_at (BlockPipelines ps) pg = Ret p" "RaftIds p = n # ns"
      "\<forall>m \<in> set (RaftIds p). sm_load d (block_key net (delete_info i) m) = Some f"
    using assms(1) unfolding stored_def by blast
  have serves: "pipeline_serves net c p"
    using pipeline_at_mem [OF s(2)] assms(2) by (auto simp: cluster_stores_def list_all_iff)
  have "block_key net (delete_info i) m \<notin> block_key net b ` N" if m: "m \<in> set (RaftIds p)" for m
  proof -
    obtain g where "net m = Some g"
      using serves_all [OF serves m] by blast
    then show ?thesis
      using path_join_inject [OF assms(3,4)] assms(5) by (auto simp: block_key_def delete_info_def)
  qed
  then have "\<forall>m \<in> set (RaftIds p). sm_load d' (block_key net (delete_info i) m) = Some f"
    using s(4) same_but_load [OF assms(6)] by metis
  then show ?thesis
    using s(1-3) unfolding stored_def by blast
qed

text \<open>What a successful upload does to the state of the client.\<close>

definition uploaded ::
    "IOEnv \<Rightarrow> ClusterInfo \<Rightarrow> ClusterPipelines \<Rightarrow> bytes list \<Rightarrow> BlockInfo \<Rightarrow> IO \<Rightarrow> IO \<Rightarrow> bool" where
  "uploaded env c ps cs info io io' \<longleftrightarrow>
     BlockId info = c_uuid env (io_next io) \<and> io_next io' = Suc (io_next io) \<and> agent_ok c (io_agent io')
     \<and> (\<exists>d'. io_world io' = (io_world io)\<lparr>w_disk := d'\<rparr>
          \<and> stored (c_ring env) ps (w_servers (io_world io)) d' (BlockId info) (fst (buffered cs ([], [])))
          \<and> (\<forall>i f. good_comp i \<and> i \<noteq> BlockId info \<and> stored (c_ring env) ps (w_servers (io_world io)) (w_disk (io_world io)) i f
               \<longrightarrow> stored (c_ring env) ps (w_servers (io_world io)) d' i f))"

lemma block_Upload_ok:
  assumes ring: "ring_ok (c_ring env)" "good_comp (BlockId (bl_info b))" and cl: "cluster_stores (w_servers wd) c ps"
    and ans: "answers_ok ans c" "agent_ok c agent" and b: "bl_cluster b = c" "bl_pipes b = ps"
      "map_pg (c_ring env) blockPgNum (BlockId (bl_info b)) = Ret (PgId_bi (bl_info b))"
      "list_all chunk_ok (bl_chunks b)" "bl_chunks b \<noteq> []" "sum_list (map chunk_len (bl_chunks b)) = BlockSize_bi (bl_info b)"
  shows "\<exists>agent' d'. block_Upload ans b agent wd = Ret (agent', wd\<lparr>w_disk := d'\<rparr>, None) \<and> agent_ok c agent'
    \<and> stored (c_ring env) ps (w_servers wd) d' (BlockId (bl_info b)) (fst (buffered (map chunk_bytes (bl_chunks b)) ([], [])))
    \<and> (\<forall>i f. good_comp i \<and> i \<noteq> BlockId (bl_info b) \<and> stored (c_ring env) ps (w_servers wd) (w_disk wd) i f
         \<longrightarrow> stored (c_ring env) ps (w_servers wd) d' i f)"
proof -
  let ?i = "BlockId (bl_info b)"
  obtain p where pg: "pipeline_at (BlockPipelines ps) (PgId_bi (bl_info b)) = Ret p" "pipeline_serves (w_servers wd) c p"
    using block_group [OF ring(1) cl, of ?i] b(3) by auto
  obtain agent' d' where up: "uploadByEdge ans b agent wd = Ret (agent', wd\<lparr>w_disk := d'\<rparr>, None)" "agent_ok c agent'"
      "\<forall>n \<in> set (RaftIds p). sm_load d' (block_key (w_servers wd) (bl_info b) n) = Some (fst (buffered (map chunk_bytes (bl_chunks b)) ([], [])))"
      "same_but (block_key (w_servers wd) (bl_info b) ` set (RaftIds p)) (w_disk wd) d'"
    using uploadByEdge_ok [OF ans b(1,2) pg b(4,5,6)] by blast
  have "ia_connectType agent = ConnectEdge"
    using ans(2) by (simp add: agent_ok_def)
  then have "block_Upload ans b agent wd = Ret (agent', wd\<lparr>w_disk := d'\<rparr>, None)"
    using up(1) by (simp add: block_Upload_def)
  moreover have "stored (c_ring env) ps (w_servers wd) d' ?i (fst (buffered (map chunk_bytes (bl_chunks b)) ([], [])))"
  proof -
    obtain n ns where "RaftIds p = n # ns"
      using pg(2) by (auto simp: pipeline_serves_def split: list.splits)
    moreover have "block_key (w_servers wd) (delete_info ?i) m = block_key (w_servers wd) (bl_info b) m" for m
      by (rule block_key_id) (simp add: delete_info_def)
    ultimately show ?thesis
      using b(3) pg(1) up(3) unfolding stored_def by metis
  qed
  moreover have "stored (c_ring env) ps (w_servers wd) d' i f" if "good_comp i" "i \<noteq> ?i" "stored (c_ring env) ps (w_servers wd) (w_disk wd) i f" for i f
    using stored_other [OF that(3) cl that(1) ring(2) that(2) up(4)] .
  ultimately show ?thesis
    using up(2) by blast
qed

lemma uploadBlock_ok:
  assumes env: "env_ok env" and cl: "cluster_stores (w_servers (io_world io)) c ps"
    and ans: "answers_ok ans c" "agent_ok c (io_agent io)"
    and b: "b = \<lparr>bl_info = zero_info, bl_status = READING, bl_chunks = cs, bl_cluster = c, bl_pipes = ps, bl_hashType = OFF\<rparr>" "cs \<noteq> []"
      "list_all (sized env) cs"
    and pool: "pool_ok (blank env) (length cs + x) (io_pool io)"
  shows "\<exists>b' io'. uploadBlock env ans b io = Ret (b', True, io') \<and> bl_status b' = FINISHED
    \<and> BlockSize_bi (bl_info b') = sum_list (map chunk_len cs)
    \<and> uploaded env c ps (map chunk_bytes cs) (bl_info b') io io'
    \<and> pool_ok (blank env) x (io_pool io') \<and> maxCount (io_pool io') = maxCount (io_pool io)"
proof -
  let ?u = "c_uuid env (io_next io)" and ?net = "w_servers (io_world io)" and ?d = "w_disk (io_world io)"
  have r: "ring_ok (c_ring env)" "good_comp ?u"
    using env by (simp_all add: env_ok_def)
  obtain pg where pg: "map_pg (c_ring env) blockPgNum ?u = Ret pg"
    using block_group [OF r(1) cl, of ?u] by auto
  let ?b = "\<lparr>bl_info = \<lparr>BlockId = ?u, PartId = 0, BlockSize_bi = sum_list (map chunk_len cs), BlockHash = [], PgId_bi = pg\<rparr>,
      bl_status = UPLOADING, bl_chunks = cs, bl_cluster = c, bl_pipes = ps, bl_hashType = OFF\<rparr>"
  have close: "block_Close (c_hash env) (c_ring env) ?u b = Ret (?b, None)"
    using pg b by (simp add: block_Close_def zero_info_def updateBlockInfo_def genBlockHash_def GenBlockPG_def)
  obtain agent' d' where up: "block_Upload ans ?b (io_agent io) (io_world io) = Ret (agent', (io_world io)\<lparr>w_disk := d'\<rparr>, None)"
      "agent_ok c agent'" "stored (c_ring env) ps ?net d' ?u (fst (buffered (map chunk_bytes cs) ([], [])))"
      "\<forall>i f. good_comp i \<and> i \<noteq> ?u \<and> stored (c_ring env) ps ?net ?d i f \<longrightarrow> stored (c_ring env) ps ?net d' i f"
    using block_Upload_ok [OF r(1) _ cl ans, of ?b] r(2) pg b(2) all_sized_ok [OF b(3)] by auto
  have "list_all (blank env) (map (\<lambda>c. c\<lparr>freeSize := c_chunkSize env\<rparr>) cs)"
    using b(3) by (simp add: list_all_iff sized_def blank_def)
  from release_n_ok [OF _ this, of x "io_pool io"] pool obtain q where
    q: "exec_fold Release (map (\<lambda>c. c\<lparr>freeSize := c_chunkSize env\<rparr>) cs) (io_pool io) = Ret q" "pool_ok (blank env) x q" "maxCount q = maxCount (io_pool io)"
    by auto
  let ?io = "io\<lparr>io_agent := agent', io_world := (io_world io)\<lparr>w_disk := d'\<rparr>, io_next := io_next io + 1, io_pool := q\<rparr>"
  have "uploadBlock env ans b io = Ret (?b\<lparr>bl_status := FINISHED, bl_chunks := []\<rparr>, True, ?io)"
    using close up(1) q(1) by (simp add: uploadBlock_def delFunc_def release_all_def)
  then show ?thesis
    using q(2,3) up(2-4) by (intro exI [of _ "?b\<lparr>bl_status := FINISHED, bl_chunks := []\<rparr>"] exI [of _ ?io]) (auto simp: uploaded_def)
qed

section \<open>The blocks a writer has uploaded\<close>

text \<open>
  \<open>dn\<close> lists the uploaded blocks in order, each with the contents of its chunks.
\<close>

type_synonym done_blocks = "(BlockInfo \<times> bytes list) list"

definition done_inv :: "IOEnv \<Rightarrow> ClusterInfo \<Rightarrow> ClusterPipelines \<Rightarrow> done_blocks \<Rightarrow> EcosWriter \<Rightarrow> IO \<Rightarrow> bool" where
  "done_inv env c ps dn w io \<longleftrightarrow>
     agent_ok c (io_agent io) \<and> cluster_stores (w_servers (io_world io)) c ps
     \<and> length (finishedBlocks w) = length dn \<and> length (ew_blocks w) = length dn
     \<and> (\<forall>i < length dn. \<exists>b. sm_load (ew_blocks w) (int (Suc i)) = Some b \<and> bl_info b = fst (dn ! i))
     \<and> (\<forall>k. int (length dn) < k \<longrightarrow> sm_load (ew_blocks w) k = None)
     \<and> (\<forall>(info, cs) \<in> set dn. (\<exists>i < io_next io. BlockId info = c_uuid env i)
          \<and> BlockSize_bi info = word_of_nat (length (concat cs))
          \<and> stored (c_ring env) ps (w_servers (io_world io)) (w_disk (io_world io)) (BlockId info) (fst (buffered cs ([], []))))"

lemma length_sm_store: "sm_load m k = None \<Longrightarrow> length (sm_store k v m) = Suc (length m)"
  by (induction m) (auto simp: sm_load_def sm_store_def split: if_splits)

lemma done_inv_pool [simp]: "done_inv env c ps dn w (io\<lparr>io_pool := q\<rparr>) \<longleftrightarrow> done_inv env c ps dn w io"
  by (simp add: done_inv_def)

lemma done_inv_same:
  "done_inv env c ps dn w io \<Longrightarrow> ew_blocks w' = ew_blocks w \<Longrightarrow> finishedBlocks w' = finishedBlocks w \<Longrightarrow> done_inv env c ps dn w' io"
  by (simp add: done_inv_def)

lemma done_inv_upload:
  assumes d: "done_inv env c ps dn w io" and u: "uploaded env c ps cs (bl_info b) io io'" and env: "env_ok env"
    and size: "BlockSize_bi (bl_info b) = word_of_nat (length (concat cs))"
    and w': "ew_blocks w' = sm_store (int (Suc (length dn))) b (ew_blocks w)" "finishedBlocks w' = finishedBlocks w @ [b]"
  shows "done_inv env c ps (dn @ [(bl_info b, cs)]) w' io'"
proof -
  let ?k = "int (Suc (length dn))" and ?net = "w_servers (io_world io)"
  obtain d' where u': "BlockId (bl_info b) = c_uuid env (io_next io)" "io_next io' = Suc (io_next io)" "agent_ok c (io_agent io')"
      "io_world io' = (io_world io)\<lparr>w_disk := d'\<rparr>" "stored (c_ring env) ps ?net d' (BlockId (bl_info b)) (fst (buffered cs ([], [])))"
      "\<forall>i f. good_comp i \<and> i \<noteq> BlockId (bl_info b) \<and> stored (c_ring env) ps ?net (w_disk (io_world io)) i f
         \<longrightarrow> stored (c_ring env) ps ?net d' i f"
    using u by (auto simp: uploaded_def)
  have new: "sm_load (ew_blocks w) ?k = None"
    using d by (simp add: done_inv_def)
  have old: "(\<exists>i < io_next io'. BlockId info = c_uuid env i) \<and> BlockSize_bi info = word_of_nat (length (concat ks))
      \<and> stored (c_ring env) ps ?net d' (BlockId info) (fst (buffered ks ([], [])))"
    if m: "(info, ks) \<in> set dn" for info ks
  proof -
    obtain i where i: "i < io_next io" "BlockId info = c_uuid env i"
      and st: "stored (c_ring env) ps ?net (w_disk (io_world io)) (BlockId info) (fst (buffered ks ([], [])))"
      and sz: "BlockSize_bi info = word_of_nat (length (concat ks))"
      using d m unfolding done_inv_def by fastforce
    have "BlockId info \<noteq> BlockId (bl_info b)"
      using i u'(1) env by (auto simp: env_ok_def dest: injD)
    moreover have "good_comp (BlockId info)"
      using i(2) env by (simp add: env_ok_def)
    ultimately show ?thesis
      using i sz st u'(2,6) by (intro conjI exI [of _ i]) auto
  qed
  have map: "\<exists>b'. sm_load (ew_blocks w') (int (Suc i)) = Some b' \<and> bl_info b' = fst ((dn @ [(bl_info b, cs)]) ! i)"
    if "i < Suc (length dn)" for i
    using that d by (auto simp: w' sm_load_store done_inv_def nth_append less_Suc_eq)
  show ?thesis
    unfolding done_inv_def
    using d new old map u' size
    by (auto simp: done_inv_def w' length_sm_store sm_load_store)
qed

lemma chunk_len_bytes: "chunk_ok c \<Longrightarrow> chunk_len c = word_of_nat (length (chunk_bytes c))"
  by (simp add: length_chunk_bytes)

lemma sum_chunk_len:
  "list_all chunk_ok cs \<Longrightarrow> sum_list (map chunk_len cs) = word_of_nat (length (concat (map chunk_bytes cs)))"
  by (induction cs) (simp_all add: chunk_len_bytes)

definition current_block :: "ClusterInfo \<Rightarrow> ClusterPipelines \<Rightarrow> localChunk list \<Rightarrow> Block" where
  "current_block c ps cs = \<lparr>bl_info = zero_info, bl_status = READING, bl_chunks = cs, bl_cluster = c, bl_pipes = ps, bl_hashType = OFF\<rparr>"

lemma commitCurBlock_ok:
  assumes "env_ok env" "answers_ok ans c" "done_inv env c ps dn w io"
    "curBlock w = Some (current_block c ps cs)" "cs \<noteq> []" "list_all (sized env) cs" "blockCount w = Suc (length dn)"
    "list_all (blank env) (reserveChunks w)" "pool_ok (blank env) (length (reserveChunks w) + (length cs + x)) (io_pool io)"
  shows "\<exists>b io'. commitCurBlock env ans w io
      = Ret (w\<lparr>reserveChunks := [], ew_blocks := sm_store (int (Suc (length dn))) b (ew_blocks w), curBlock := None,
               finishedBlocks := finishedBlocks w @ [b]\<rparr>, io')
    \<and> done_inv env c ps (dn @ [(bl_info b, map chunk_bytes cs)])
        (w\<lparr>reserveChunks := [], ew_blocks := sm_store (int (Suc (length dn))) b (ew_blocks w), curBlock := None,
               finishedBlocks := finishedBlocks w @ [b]\<rparr>) io'
    \<and> pool_ok (blank env) x (io_pool io') \<and> maxCount (io_pool io') = maxCount (io_pool io)"
proof -
  obtain q where q: "exec_fold Release (reserveChunks w) (io_pool io) = Ret q" "pool_ok (blank env) (length cs + x) q" "maxCount q = maxCount (io_pool io)"
    using release_n_ok [OF assms(9,8)] by blast
  let ?io = "io\<lparr>io_pool := q\<rparr>"
  have inv: "cluster_stores (w_servers (io_world ?io)) c ps" "agent_ok c (io_agent ?io)"
    using assms(3) by (simp_all add: done_inv_def)
  obtain b io' where b: "uploadBlock env ans (current_block c ps cs) ?io = Ret (b, True, io')"
      "BlockSize_bi (bl_info b) = sum_list (map chunk_len cs)" "uploaded env c ps (map chunk_bytes cs) (bl_info b) ?io io'"
      "pool_ok (blank env) x (io_pool io')" "maxCount (io_pool io') = maxCount (io_pool io)"
    using uploadBlock_ok [OF assms(1) inv(1) assms(2) inv(2) current_block_def assms(5,6), of x] q(2,3) by auto
  let ?w = "w\<lparr>reserveChunks := [], ew_blocks := sm_store (int (Suc (length dn))) b (ew_blocks w), curBlock := None,
               finishedBlocks := finishedBlocks w @ [b]\<rparr>"
  have "commitCurBlock env ans w io = Ret (?w, io')"
    using assms(4,7) q(1) b(1) by (simp add: commitCurBlock_def release_all_def)
  moreover have "BlockSize_bi (bl_info b) = word_of_nat (length (concat (map chunk_bytes cs)))"
    using b(2) sum_chunk_len [OF all_sized_ok [OF assms(6)]] by simp
  then have "done_inv env c ps (dn @ [(bl_info b, map chunk_bytes cs)]) ?w io'"
    using done_inv_upload [of env c ps dn w ?io "map chunk_bytes cs" b io' ?w] assms(1,3) b(3) by simp
  ultimately show ?thesis
    using b(4,5) by blast
qed

section \<open>The invariant of a writer\<close>

text \<open>
  Besides the uploaded blocks \<open>dn\<close>, all of them full, a writer holds the chunks \<open>cs\<close> of a block that
  is not full yet, a chunk that is being filled, and the rest of the chunks it acquired for the
  block; \<open>x\<close> chunks of the pool are out elsewhere.
\<close>

definition full :: "IOEnv \<Rightarrow> localChunk \<Rightarrow> bool" where
  "full env c \<longleftrightarrow> sized env c \<and> freeSize c = 0"

definition full_blocks :: "IOEnv \<Rightarrow> done_blocks \<Rightarrow> bool" where
  "full_blocks env dn \<longleftrightarrow>
     (\<forall>(info, ks) \<in> set dn. length ks = chunks_per_block env \<and> (\<forall>k \<in> set ks. length k = unat (c_chunkSize env)))"

definition in_use :: "EcosWriter \<Rightarrow> localChunk list \<Rightarrow> nat" where
  "in_use w cs = length (reserveChunks w) + length cs + (if curChunk w = None then 0 else 1)"

definition winv ::
    "IOEnv \<Rightarrow> ClusterInfo \<Rightarrow> ClusterPipelines \<Rightarrow> nat \<Rightarrow> done_blocks \<Rightarrow> localChunk list \<Rightarrow> EcosWriter \<Rightarrow> IO \<Rightarrow> bool" where
  "winv env c ps x dn cs w io \<longleftrightarrow>
     done_inv env c ps dn w io \<and> full_blocks env dn
     \<and> ew_clusterInfo w = c \<and> ew_pipes w = ps
     \<and> curBlock w = (if cs = [] then None else Some (current_block c ps cs))
     \<and> blockCount w = length dn + (if cs = [] then 0 else 1)
     \<and> list_all (full env) cs \<and> length cs < chunks_per_block env
     \<and> (case curChunk w of None \<Rightarrow> True | Some k \<Rightarrow> sized env k \<and> freeSize k \<noteq> 0)
     \<and> list_all (blank env) (reserveChunks w)
     \<and> in_use w cs = (if cs = [] \<and> curChunk w = None then 0 else chunks_per_block env)
     \<and> pool_ok (blank env) (in_use w cs + x) (io_pool io) \<and> chunks_per_block env + x \<le> maxCount (io_pool io)"

definition written :: "done_blocks \<Rightarrow> localChunk list \<Rightarrow> EcosWriter \<Rightarrow> bytes" where
  "written dn cs w =
     concat (concat (map snd dn)) @ concat (map chunk_bytes cs) @ (case curChunk w of None \<Rightarrow> [] | Some k \<Rightarrow> chunk_bytes k)"

lemma winv_busy:
  assumes "winv env c ps x dn cs w io" "curChunk w \<noteq> None"
  shows "pool_ok (blank env) (chunks_per_block env + x) (io_pool io)"
    "length (reserveChunks w) + length cs + 1 = chunks_per_block env"
proof -
  have "pool_ok (blank env) (in_use w cs + x) (io_pool io)"
    using assms(1) unfolding winv_def by blast
  moreover have use: "in_use w cs = chunks_per_block env"
    using assms by (simp add: winv_def)
  ultimately show "pool_ok (blank env) (chunks_per_block env + x) (io_pool io)"
    by (simp only: use)
  show "length (reserveChunks w) + length cs + 1 = chunks_per_block env"
    using use assms(2) by (simp add: in_use_def)
qed

lemma blank_new: "blank env (newLocalChunk env)"
  by (simp add: blank_def newLocalChunk_def)

lemma blank_chunk: "env_ok env \<Longrightarrow> blank env k \<Longrightarrow> chunk_bytes k = [] \<and> sized env k \<and> freeSize k \<noteq> 0"
  by (auto simp: blank_def sized_def chunk_bytes_def env_ok_def)

lemma getCurChunk_ok:
  assumes env: "env_ok env" and inv: "winv env c ps x dn cs w io"
  shows "\<exists>k rs n q. getCurChunk env w io
      = Ret (w\<lparr>reserveChunks := rs, chunkCount := n, curChunk := Some k\<rparr>, io\<lparr>io_pool := q\<rparr>, Inr k)
    \<and> winv env c ps x dn cs (w\<lparr>reserveChunks := rs, chunkCount := n, curChunk := Some k\<rparr>) (io\<lparr>io_pool := q\<rparr>)
    \<and> written dn cs (w\<lparr>reserveChunks := rs, chunkCount := n, curChunk := Some k\<rparr>) = written dn cs w
    \<and> sized env k \<and> freeSize k \<noteq> 0"
proof (cases "curChunk w")
  case (Some k)
  then have eq: "w\<lparr>curChunk := Some k\<rparr> = w"
    by (cases w) simp
  have "sized env k" "freeSize k \<noteq> 0"
    using Some inv by (simp_all add: winv_def)
  then show ?thesis
    using Some inv
    by (intro exI [of _ k] exI [of _ "reserveChunks w"] exI [of _ "chunkCount w"] exI [of _ "io_pool io"])
      (simp add: getCurChunk_def eq)
next
  case None
  have "\<exists>k ks q. (if reserveChunks w = []
      then exec_bind (AcquireMultiple (chunks_per_block env) (newLocalChunk env) (io_pool io)) (\<lambda>(res, p). Ret (res, io\<lparr>io_pool := p\<rparr>))
      else Ret (Inr (reserveChunks w), io)) = Ret (Inr (k # ks), io\<lparr>io_pool := q\<rparr>)
    \<and> list_all (blank env) (k # ks) \<and> Suc (length ks + length cs) = chunks_per_block env
    \<and> pool_ok (blank env) (chunks_per_block env + x) q \<and> maxCount q = maxCount (io_pool io)"
  proof (cases "reserveChunks w = []")
    case True
    then have cs: "cs = []" "pool_ok (blank env) x (io_pool io)"
      using None inv by (auto simp: winv_def in_use_def split: if_splits)
    obtain rs q where "acquire_n (chunks_per_block env) (newLocalChunk env) (io_pool io) = Ret (rs, q)"
        "length rs = chunks_per_block env" "list_all (blank env) rs" "pool_ok (blank env) (x + chunks_per_block env) q" "maxCount q = maxCount (io_pool io)"
      using acquire_n_ok [OF cs(2) blank_new, of "chunks_per_block env"] inv by (auto simp: winv_def add.commute)
    moreover have "0 < chunks_per_block env"
      using env by (simp add: env_ok_def)
    moreover from this have "0 < pool_cap (io_pool io)"
      using cs(2) inv unfolding pool_ok_def winv_def by linarith
    ultimately show ?thesis
      using True cs(1) by (cases rs) (auto simp: AcquireMultiple_def add.commute)
  next
    case False
    then obtain k ks where "reserveChunks w = k # ks"
      by (cases "reserveChunks w") auto
    moreover have "in_use w cs = chunks_per_block env"
      using inv None False by (auto simp: winv_def in_use_def split: if_splits)
    moreover have "io\<lparr>io_pool := io_pool io\<rparr> = io"
      by simp
    ultimately show ?thesis
      using False inv None by (intro exI [of _ k] exI [of _ ks] exI [of _ "io_pool io"]) (auto simp: winv_def in_use_def)
  qed
  then obtain k ks q where m: "(if reserveChunks w = []
      then exec_bind (AcquireMultiple (chunks_per_block env) (newLocalChunk env) (io_pool io)) (\<lambda>(res, p). Ret (res, io\<lparr>io_pool := p\<rparr>))
      else Ret (Inr (reserveChunks w), io)) = Ret (Inr (k # ks), io\<lparr>io_pool := q\<rparr>)"
    "list_all (blank env) (k # ks)" "Suc (length ks + length cs) = chunks_per_block env"
    "pool_ok (blank env) (chunks_per_block env + x) q" "maxCount q = maxCount (io_pool io)"
    by blast
  let ?w = "w\<lparr>reserveChunks := ks, chunkCount := chunkCount w + 1, curChunk := Some k\<rparr>"
  have k: "chunk_bytes k = []" "sized env k" "freeSize k \<noteq> 0"
    using blank_chunk [OF env] m(2) by simp_all
  have "getCurChunk env w io = Ret (?w, io\<lparr>io_pool := q\<rparr>, Inr k)"
    unfolding getCurChunk_def None by (simp add: m(1))
  moreover have "winv env c ps x dn cs ?w (io\<lparr>io_pool := q\<rparr>)"
    using inv m k by (auto simp: winv_def in_use_def intro: done_inv_same)
  ultimately show ?thesis
    using k None by (intro exI [of _ k] exI [of _ ks] exI [of _ "chunkCount w + 1"] exI [of _ q]) (simp add: written_def)
qed

lemma fill_chunk_ok:
  assumes "sized env k" "freeSize k \<noteq> 0" "p \<noteq> []"
  shows "\<exists>n k'. fill_chunk env p k = Ret (n, k') \<and> 0 < n \<and> n \<le> length p \<and> sized env k'
    \<and> chunk_bytes k' = chunk_bytes k @ take n p"
proof -
  define f off n where "f = unat (freeSize k)" and "off = unat (c_chunkSize env - freeSize k)"
    and "n = min (length (cdata k) - off) (length p)"
  define k' where "k' = k\<lparr>cdata := take off (cdata k) @ take n p @ drop (off + n) (cdata k), freeSize := freeSize k - word_of_nat n\<rparr>"
  have len: "length (cdata k) = unat (c_chunkSize env)" and le: "f \<le> length (cdata k)" and f: "0 < f"
    using assms(1,2) by (simp_all add: sized_def word_le_nat_alt unat_gt_0 f_def)
  have off: "off = length (cdata k) - f"
    using assms(1) by (simp add: off_def f_def sized_def unat_sub)
  have "length p \<noteq> 0"
    using assms(3) by simp
  then have n: "0 < n" "n \<le> f" "n \<le> length p"
    using off le f unfolding n_def by linarith+
  have sum: "off + n \<le> length (cdata k)"
    using off le n(2) by linarith
  have "unat (word_of_nat n :: u64) = n"
    using n(2) unsigned_less [of "freeSize k", where ?'a = nat] by (intro unat_word_of_nat64) (simp add: f_def)
  moreover from this have "word_of_nat n \<le> freeSize k"
    using n(2) by (simp add: word_le_nat_alt f_def)
  ultimately have free: "unat (freeSize k') = f - n"
    by (simp add: unat_sub k'_def f_def)
  have len': "length (cdata k') = length (cdata k)"
    using sum n(3) by (simp add: k'_def)
  have "freeSize k' \<le> c_chunkSize env"
    using free le len by (simp add: word_le_nat_alt)
  then have "sized env k'"
    using len len' by (simp add: sized_def)
  moreover have "chunk_bytes k' = chunk_bytes k @ take n p"
  proof -
    have "length (cdata k') - unat (freeSize k') = off + n"
      using len' free off le n(2) by linarith
    then have "chunk_bytes k' = take (off + n) (cdata k')"
      by (simp add: chunk_bytes_def)
    also have "\<dots> = take off (cdata k) @ take n p"
      using sum n(3) by (simp add: k'_def)
    finally show ?thesis
      by (simp add: chunk_bytes_def off f_def)
  qed
  moreover have "fill_chunk env p k = Ret (n, k')"
    using off by (simp add: fill_chunk_def Let_def k'_def n_def flip: off_def)
  ultimately show ?thesis
    using n by blast
qed

section \<open>Filling blocks\<close>

definition same_writer :: "EcosWriter \<Rightarrow> EcosWriter \<Rightarrow> bool" where
  "same_writer w w' \<longleftrightarrow> ew_key w' = ew_key w \<and> ew_Status w' = ew_Status w \<and> writeSize w' = writeSize w \<and> objHash w' = objHash w
     \<and> partObject w' = partObject w \<and> ew_clusterInfo w' = ew_clusterInfo w \<and> ew_pipes w' = ew_pipes w"

lemma same_writer_refl [simp]: "same_writer w w"
  by (simp add: same_writer_def)

lemma same_writer_trans: "same_writer w w' \<Longrightarrow> same_writer w' w'' \<Longrightarrow> same_writer w w''"
  by (simp add: same_writer_def)

text \<open>
  A chunk, full or not, is added to the current block, which is uploaded when it is complete.
\<close>

lemma commitCurChunk_gen:
  assumes env: "env_ok env" "answers_ok ans c" and inv: "winv env c ps x dn cs (w\<lparr>curChunk := Some k0\<rparr>) io"
    and k: "curChunk w = Some k" "sized env k"
  shows "\<exists>w' io'. commitCurChunk env ans w io = Ret (w', io') \<and> same_writer w w' \<and> curChunk w' = None
    \<and> blockCount w' = Suc (length dn) \<and> maxCount (io_pool io') = maxCount (io_pool io)
    \<and> (if Suc (length cs) = chunks_per_block env
       then \<exists>info. done_inv env c ps (dn @ [(info, map chunk_bytes (cs @ [k]))]) w' io' \<and> curBlock w' = None
              \<and> reserveChunks w' = [] \<and> pool_ok (blank env) x (io_pool io')
       else done_inv env c ps dn w' io' \<and> curBlock w' = Some (current_block c ps (cs @ [k]))
              \<and> reserveChunks w' = reserveChunks w \<and> io' = io)"
proof -
  let ?b = "current_block c ps (cs @ [k])"
  let ?w = "w\<lparr>blockCount := Suc (length dn), curBlock := Some ?b\<rparr>"
  have dn: "done_inv env c ps dn w io"
    using inv by (auto simp: winv_def intro: done_inv_same)
  have f: "curBlock w = (if cs = [] then None else Some (current_block c ps cs))"
      "blockCount w = length dn + (if cs = [] then 0 else 1)" "length cs < chunks_per_block env" "list_all (full env) cs"
      "ew_clusterInfo w = c" "ew_pipes w = ps" "list_all (blank env) (reserveChunks w)"
      "length (reserveChunks w) + length cs + 1 = chunks_per_block env" "pool_ok (blank env) (chunks_per_block env + x) (io_pool io)"
    using inv winv_busy [OF inv] by (simp_all add: winv_def)
  have get: "getCurBlock env ans w io
      = Ret (w\<lparr>curBlock := Some (current_block c ps cs), blockCount := Suc (length dn)\<rparr>, current_block c ps cs, io)"
    using f(1-3,5,6)
    by (cases w) (simp add: getCurBlock_def current_block_def getNewBlock_def)
  have commit: "commitCurChunk env ans w io
      = exec_bind (if Suc (length cs) = chunks_per_block env then commitCurBlock env ans ?w io else Ret (?w, io))
          (\<lambda>(w, io). Ret (w\<lparr>curChunk := None\<rparr>, io))"
    using k(1) by (simp add: commitCurChunk_def get current_block_def Let_def)
  show ?thesis
  proof (cases "Suc (length cs) = chunks_per_block env")
    case False
    then show ?thesis
      using dn by (auto simp: commit same_writer_def intro: done_inv_same)
  next
    case True
    then have "length (reserveChunks w) = 0"
      using f(8) by linarith
    then have r: "reserveChunks w = []"
      by simp
    have cs: "list_all (sized env) (cs @ [k])"
      using f(4) k(2) by (auto simp: list_all_iff full_def)
    have dn': "done_inv env c ps dn ?w io"
      using dn by (rule done_inv_same) simp_all
    have pool: "pool_ok (blank env) (length (reserveChunks ?w) + (length (cs @ [k]) + x)) (io_pool io)"
      using f(9) True r by simp
    obtain b io' where m: "commitCurBlock env ans ?w io
        = Ret (?w\<lparr>reserveChunks := [], ew_blocks := sm_store (int (Suc (length dn))) b (ew_blocks ?w), curBlock := None,
                 finishedBlocks := finishedBlocks ?w @ [b]\<rparr>, io')"
      "done_inv env c ps (dn @ [(bl_info b, map chunk_bytes (cs @ [k]))])
         (?w\<lparr>reserveChunks := [], ew_blocks := sm_store (int (Suc (length dn))) b (ew_blocks ?w), curBlock := None,
                 finishedBlocks := finishedBlocks ?w @ [b]\<rparr>) io'"
      "pool_ok (blank env) x (io_pool io')" "maxCount (io_pool io') = maxCount (io_pool io)"
      using commitCurBlock_ok [OF env dn' _ _ cs _ _ pool] r by auto
    let ?w' = "?w\<lparr>reserveChunks := [], ew_blocks := sm_store (int (Suc (length dn))) b (ew_blocks ?w), curBlock := None,
                 finishedBlocks := finishedBlocks ?w @ [b], curChunk := None\<rparr>"
    have "commitCurChunk env ans w io = Ret (?w', io')"
      using True by (simp add: commit m(1))
    moreover have "done_inv env c ps (dn @ [(bl_info b, map chunk_bytes (cs @ [k]))]) ?w' io'"
      using m(2) by (rule done_inv_same) simp_all
    ultimately show ?thesis
      using True m(3,4) by (intro exI [of _ ?w'] exI [of _ io']) (auto simp: same_writer_def)
  qed
qed

lemma commitCurChunk_full:
  assumes env: "env_ok env" "answers_ok ans c" and inv: "winv env c ps x dn cs (w\<lparr>curChunk := Some k0\<rparr>) io"
    and k: "curChunk w = Some k" "full env k"
  shows "\<exists>w' io' dn' cs'. commitCurChunk env ans w io = Ret (w', io') \<and> same_writer w w'
    \<and> winv env c ps x dn' cs' w' io' \<and> written dn' cs' w' = written dn cs w"
proof -
  have ks: "sized env k"
    using k(2) by (simp add: full_def)
  obtain w' io' where m: "commitCurChunk env ans w io = Ret (w', io')" "same_writer w w'" "curChunk w' = None"
      "blockCount w' = Suc (length dn)" "maxCount (io_pool io') = maxCount (io_pool io)"
      "if Suc (length cs) = chunks_per_block env
       then \<exists>info. done_inv env c ps (dn @ [(info, map chunk_bytes (cs @ [k]))]) w' io' \<and> curBlock w' = None
              \<and> reserveChunks w' = [] \<and> pool_ok (blank env) x (io_pool io')
       else done_inv env c ps dn w' io' \<and> curBlock w' = Some (current_block c ps (cs @ [k]))
              \<and> reserveChunks w' = reserveChunks w \<and> io' = io"
    using commitCurChunk_gen [OF env inv k(1) ks] by blast
  have f: "length cs < chunks_per_block env" "list_all (full env) cs" "full_blocks env dn" "list_all (blank env) (reserveChunks w)"
      "length (reserveChunks w) + length cs + 1 = chunks_per_block env" "pool_ok (blank env) (chunks_per_block env + x) (io_pool io)"
      "chunks_per_block env + x \<le> maxCount (io_pool io)" "ew_clusterInfo w = c" "ew_pipes w = ps"
    using inv winv_busy [OF inv] by (simp_all add: winv_def)
  have fr: "ew_clusterInfo w' = c" "ew_pipes w' = ps"
    using m(2) f(8,9) by (simp_all add: same_writer_def)
  show ?thesis
  proof (cases "Suc (length cs) = chunks_per_block env")
    case True
    then obtain info where i: "done_inv env c ps (dn @ [(info, map chunk_bytes (cs @ [k]))]) w' io'" "curBlock w' = None"
        "reserveChunks w' = []" "pool_ok (blank env) x (io_pool io')"
      using m(6) by auto
    have "length (chunk_bytes j) = unat (c_chunkSize env)" if "full env j" for j
      using that by (simp add: full_def sized_def chunk_bytes_def)
    then have "full_blocks env (dn @ [(info, map chunk_bytes (cs @ [k]))])"
      using f(2,3) k(2) True by (auto simp: full_blocks_def list_all_iff)
    then have "winv env c ps x (dn @ [(info, map chunk_bytes (cs @ [k]))]) [] w' io'"
      using i m(3-5) f(1,7) fr by (simp add: winv_def in_use_def)
    then show ?thesis
      using m(1-3) k(1) by (intro exI [of _ w'] exI [of _ io'] exI [of _ "dn @ [(info, map chunk_bytes (cs @ [k]))]"] exI [of _ "[]"])
        (simp add: written_def)
  next
    case False
    then have i: "done_inv env c ps dn w' io'" "curBlock w' = Some (current_block c ps (cs @ [k]))"
        "reserveChunks w' = reserveChunks w" "io' = io"
      using m(6) by auto
    then have "winv env c ps x dn (cs @ [k]) w' io'"
      using m(3,4) f fr k(2) False by (simp add: winv_def in_use_def)
    then show ?thesis
      using m(1-3) k(1) by (intro exI [of _ w'] exI [of _ io'] exI [of _ dn] exI [of _ "cs @ [k]"]) (simp add: written_def)
  qed
qed

section \<open>Writing\<close>

lemma winv_curChunk:
  assumes "winv env c ps x dn cs (w\<lparr>curChunk := Some k\<rparr>) io" "sized env k'" "freeSize k' \<noteq> 0"
  shows "winv env c ps x dn cs (w\<lparr>curChunk := Some k'\<rparr>) io"
  using assms winv_busy [OF assms(1)] by (auto simp: winv_def in_use_def intro: done_inv_same)

lemma write_loop_ok:
  assumes env: "env_ok env" "answers_ok ans c"
  shows "winv env c ps x dn cs w io \<Longrightarrow> length p \<le> fuel \<Longrightarrow>
    \<exists>w' io' dn' cs'. write_loop env ans fuel p w io = Ret (w', io', length p, None) \<and> same_writer w w'
      \<and> winv env c ps x dn' cs' w' io' \<and> written dn' cs' w' = written dn cs w @ p"
proof (induction fuel arbitrary: p w io dn cs)
  case 0
  then show ?case
    by auto
next
  case (Suc fuel)
  show ?case
  proof (cases "p = []")
    case True
    then show ?thesis
      using Suc.prems(1) by auto
  next
    case False
    obtain k rs m q where g: "getCurChunk env w io = Ret (w\<lparr>reserveChunks := rs, chunkCount := m, curChunk := Some k\<rparr>, io\<lparr>io_pool := q\<rparr>, Inr k)"
        "winv env c ps x dn cs (w\<lparr>reserveChunks := rs, chunkCount := m, curChunk := Some k\<rparr>) (io\<lparr>io_pool := q\<rparr>)"
        "written dn cs (w\<lparr>reserveChunks := rs, chunkCount := m, curChunk := Some k\<rparr>) = written dn cs w" "sized env k" "freeSize k \<noteq> 0"
      using getCurChunk_ok [OF env(1) Suc.prems(1)] by blast
    obtain n k' where f: "fill_chunk env p k = Ret (n, k')" "0 < n" "n \<le> length p" "sized env k'" "chunk_bytes k' = chunk_bytes k @ take n p"
      using fill_chunk_ok [OF g(4,5) False] by blast
    let ?w = "w\<lparr>reserveChunks := rs, chunkCount := m, curChunk := Some k'\<rparr>" and ?io = "io\<lparr>io_pool := q\<rparr>"
    have wr: "written dn cs ?w = written dn cs w @ take n p"
      using g(3) f(5) by (simp add: written_def)
    have inv: "winv env c ps x dn cs (?w\<lparr>curChunk := Some k\<rparr>) ?io"
      using g(2) by simp
    have "\<exists>w1 io1 dn1 cs1. (if freeSize k' = 0 then commitCurChunk env ans ?w ?io else Ret (?w, ?io)) = Ret (w1, io1)
        \<and> same_writer ?w w1 \<and> winv env c ps x dn1 cs1 w1 io1 \<and> written dn1 cs1 w1 = written dn cs ?w"
    proof (cases "freeSize k' = 0")
      case True
      then show ?thesis
        using commitCurChunk_full [OF env inv, of k'] f(4) by (simp add: full_def)
    next
      case False
      then have "winv env c ps x dn cs (?w\<lparr>curChunk := Some k'\<rparr>) ?io"
        using winv_curChunk [OF inv f(4)] by blast
      then show ?thesis
        using False by auto
    qed
    then obtain w1 io1 dn1 cs1 where c1: "(if freeSize k' = 0 then commitCurChunk env ans ?w ?io else Ret (?w, ?io)) = Ret (w1, io1)"
        "same_writer ?w w1" "winv env c ps x dn1 cs1 w1 io1" "written dn1 cs1 w1 = written dn cs ?w"
      by blast
    have "length (drop n p) \<le> fuel"
      using f(2,3) Suc.prems(2) by simp
    from Suc.IH [OF c1(3) this] obtain w2 io2 dn2 cs2 where
      c2: "write_loop env ans fuel (drop n p) w1 io1 = Ret (w2, io2, length (drop n p), None)" "same_writer w1 w2"
        "winv env c ps x dn2 cs2 w2 io2" "written dn2 cs2 w2 = written dn1 cs1 w1 @ drop n p"
      by blast
    have "write_loop env ans (Suc fuel) p w io = Ret (w2, io2, length p, None)"
      using False g(1) f(1,3) c1(1) c2(1) by simp
    moreover have "same_writer w w2"
      using c1(2) c2(2) by (simp add: same_writer_def)
    ultimately show ?thesis
      using c2(3,4) c1(4) wr by (metis append_assoc append_take_drop_id)
  qed
qed

text \<open>A writer into which \<open>data\<close> has been written.\<close>

definition writing :: "IOEnv \<Rightarrow> ClusterInfo \<Rightarrow> ClusterPipelines \<Rightarrow> nat \<Rightarrow> bytes \<Rightarrow> EcosWriter \<Rightarrow> IO \<Rightarrow> bool" where
  "writing env c ps x data w io \<longleftrightarrow> ew_Status w = READING \<and> \<not> partObject w
     \<and> writeSize w = word_of_nat (length data)
     \<and> objHash w = (if ObjectHashType (c_config env) = OFF then None else Some data)
     \<and> (\<exists>dn cs. winv env c ps x dn cs w io \<and> written dn cs w = data)"

lemma ew_Write_ok:
  assumes env: "env_ok env" "answers_ok ans c" and w: "writing env c ps x data w io"
  shows "\<exists>w' io'. ew_Write env ans p w io = Ret (w', io', length p, None) \<and> writing env c ps x (data @ p) w' io' \<and> ew_key w' = ew_key w"
proof -
  obtain dn cs where inv: "winv env c ps x dn cs w io" "written dn cs w = data"
    using w by (auto simp: writing_def)
  obtain w1 io1 dn' cs' where l: "write_loop env ans (length p) p w io = Ret (w1, io1, length p, None)" "same_writer w w1"
      "winv env c ps x dn' cs' w1 io1" "written dn' cs' w1 = data @ p"
    using write_loop_ok [OF env inv(1) order_refl] inv(2) by metis
  let ?h = "if ObjectHashType (c_config env) = OFF then None else Some (data @ p)"
  let ?w = "w1\<lparr>writeSize := word_of_nat (length (data @ p)), objHash := ?h\<rparr>"
  have fr: "ew_Status w1 = READING" "\<not> partObject w1" "writeSize w1 = word_of_nat (length data)"
      "objHash w1 = (if ObjectHashType (c_config env) = OFF then None else Some data)" "ew_key w1 = ew_key w"
      "ew_Status w = READING" "\<not> partObject w"
    using l(2) w by (simp_all add: same_writer_def writing_def)
  have "ew_Write env ans p w io = Ret (?w, io1, length p, None)"
    using fr by (cases w1) (simp add: ew_Write_def l(1))
  moreover have "winv env c ps x dn' cs' ?w io1" "written dn' cs' ?w = data @ p"
    using l(3,4) by (auto simp: winv_def in_use_def written_def intro: done_inv_same)
  moreover from this have "writing env c ps x (data @ p) ?w io1"
    using fr(1,2) unfolding writing_def by (intro conjI exI [of _ dn'] exI [of _ cs']) simp_all
  ultimately show ?thesis
    using fr(5) by (intro exI [of _ ?w] exI [of _ io1]) simp
qed

section \<open>Closing\<close>

text \<open>All blocks are full but the last, all chunks are full but the last of it.\<close>

definition closed_shape :: "IOEnv \<Rightarrow> done_blocks \<Rightarrow> bool" where
  "closed_shape env dn \<longleftrightarrow>
     (\<exists>fb lb. dn = fb @ lb \<and> full_blocks env fb
        \<and> (lb = [] \<or> (\<exists>info ks l. lb = [(info, ks @ [l])] \<and> length ks < chunks_per_block env
             \<and> (\<forall>k \<in> set ks. length k = unat (c_chunkSize env)) \<and> length l \<le> unat (c_chunkSize env))))"

lemma length_sized: "sized env k \<Longrightarrow> length (chunk_bytes k) \<le> unat (c_chunkSize env)"
  by (simp add: sized_def chunk_bytes_def)

lemma length_full: "full env k \<Longrightarrow> length (chunk_bytes k) = unat (c_chunkSize env)"
  by (simp add: full_def sized_def chunk_bytes_def)

lemma closed_shape_snoc:
  assumes "full_blocks env dn" "list_all (full env) cs" "sized env k" "length cs < chunks_per_block env"
  shows "closed_shape env (dn @ [(info, map chunk_bytes (cs @ [k]))])"
  unfolding closed_shape_def
  by (intro exI [of _ dn] exI [of _ "[(info, map chunk_bytes (cs @ [k]))]"] conjI disjI2 exI [of _ info] exI [of _ "map chunk_bytes cs"]
      exI [of _ "chunk_bytes k"])
    (use assms in \<open>auto simp: list_all_iff length_full length_sized\<close>)

text \<open>The state in which all blocks of a writer have been uploaded.\<close>

definition closed :: "IOEnv \<Rightarrow> ClusterInfo \<Rightarrow> ClusterPipelines \<Rightarrow> bytes \<Rightarrow> done_blocks \<Rightarrow> EcosWriter \<Rightarrow> IO \<Rightarrow> bool" where
  "closed env c ps data dn w io \<longleftrightarrow> done_inv env c ps dn w io \<and> blockCount w = length dn \<and> closed_shape env dn
     \<and> concat (concat (map snd dn)) = data"

lemma commit_none:
  "curBlock w = None \<Longrightarrow> reserveChunks w = [] \<Longrightarrow> commitCurBlock env ans w io = Ret (w, io)"
  by (cases w, cases io) (simp add: commitCurBlock_def release_all_def)

lemma commit_last:
  assumes env: "env_ok env" "answers_ok ans c" and dn: "done_inv env c ps dn w io" "full_blocks env dn"
    and cs: "curBlock w = Some (current_block c ps (cs @ [k]))" "list_all (full env) cs" "sized env k" "length cs < chunks_per_block env"
    and w: "blockCount w = Suc (length dn)" "list_all (blank env) (reserveChunks w)"
      "pool_ok (blank env) (length (reserveChunks w) + (Suc (length cs) + x)) (io_pool io)"
    and data: "data = concat (concat (map snd dn)) @ concat (map chunk_bytes (cs @ [k]))"
  shows "\<exists>w' io' dn'. commitCurBlock env ans w io = Ret (w', io') \<and> same_writer w w' \<and> closed env c ps data dn' w' io'"
proof -
  have sz: "list_all (sized env) (cs @ [k])"
    using cs(2,3) by (auto simp: list_all_iff full_def)
  obtain b io' where b: "commitCurBlock env ans w io
      = Ret (w\<lparr>reserveChunks := [], ew_blocks := sm_store (int (Suc (length dn))) b (ew_blocks w), curBlock := None,
               finishedBlocks := finishedBlocks w @ [b]\<rparr>, io')"
      "done_inv env c ps (dn @ [(bl_info b, map chunk_bytes (cs @ [k]))])
        (w\<lparr>reserveChunks := [], ew_blocks := sm_store (int (Suc (length dn))) b (ew_blocks w), curBlock := None,
               finishedBlocks := finishedBlocks w @ [b]\<rparr>) io'"
    using commitCurBlock_ok [OF env dn(1) cs(1) _ sz w(1,2), of x] w(3) by auto
  then have "closed env c ps data (dn @ [(bl_info b, map chunk_bytes (cs @ [k]))])
        (w\<lparr>reserveChunks := [], ew_blocks := sm_store (int (Suc (length dn))) b (ew_blocks w), curBlock := None,
               finishedBlocks := finishedBlocks w @ [b]\<rparr>) io'"
    using closed_shape_snoc [OF dn(2) cs(2-4), of "bl_info b"] w(1) data by (simp add: closed_def)
  then show ?thesis
    using b(1) by (auto simp: same_writer_def)
qed

lemma close_blocks:
  assumes env: "env_ok env" "answers_ok ans c" and inv: "winv env c ps x dn cs w io" and data: "written dn cs w = data"
  shows "\<exists>w1 io1 w2 io2 dn'. commitCurChunk env ans w io = Ret (w1, io1) \<and> commitCurBlock env ans w1 io1 = Ret (w2, io2)
    \<and> same_writer w w2 \<and> closed env c ps data dn' w2 io2"
proof (cases "curChunk w")
  case None
  then have c0: "commitCurChunk env ans w io = Ret (w, io)"
    by (simp add: commitCurChunk_def)
  have f: "done_inv env c ps dn w io" "full_blocks env dn" "list_all (full env) cs" "length cs < chunks_per_block env"
      "list_all (blank env) (reserveChunks w)" "curBlock w = (if cs = [] then None else Some (current_block c ps cs))"
      "blockCount w = length dn + (if cs = [] then 0 else 1)" "in_use w cs = (if cs = [] then 0 else chunks_per_block env)"
    using inv None by (simp_all add: winv_def)
  have pool: "pool_ok (blank env) (in_use w cs + x) (io_pool io)"
    using inv unfolding winv_def by blast
  show ?thesis
  proof (cases cs rule: rev_cases)
    case Nil
    then have "curBlock w = None" "reserveChunks w = []"
      using f(6,8) by (simp_all add: in_use_def)
    then have "commitCurBlock env ans w io = Ret (w, io)"
      by (rule commit_none)
    moreover have "closed_shape env dn"
      unfolding closed_shape_def using f(2) by (intro exI [of _ dn] exI [of _ "[]"]) simp
    then have "closed env c ps data dn w io"
      using f(1,7) data Nil None by (simp add: closed_def written_def)
    ultimately show ?thesis
      using c0 same_writer_refl by blast
  next
    case (snoc ks k)
    have "pool_ok (blank env) (length (reserveChunks w) + (Suc (length ks) + x)) (io_pool io)"
      using pool None snoc by (simp add: in_use_def add.assoc)
    then have "\<exists>w' io' dn'. commitCurBlock env ans w io = Ret (w', io') \<and> same_writer w w' \<and> closed env c ps data dn' w' io'"
      using f snoc data None
      by (intro commit_last [OF env f(1,2), where cs = ks and k = k and x = x]) (auto simp: written_def full_def)
    then show ?thesis
      using c0 by blast
  qed
next
  case (Some k)
  have "w\<lparr>curChunk := Some k\<rparr> = w"
    using Some by (cases w) simp
  then have inv': "winv env c ps x dn cs (w\<lparr>curChunk := Some k\<rparr>) io"
    using inv by (simp only:)
  have f: "full_blocks env dn" "list_all (full env) cs" "length cs < chunks_per_block env" "sized env k"
      "list_all (blank env) (reserveChunks w)"
    using inv Some by (simp_all add: winv_def)
  note busy = winv_busy [OF inv]
  obtain w1 io1 where m: "commitCurChunk env ans w io = Ret (w1, io1)" "same_writer w w1" "curChunk w1 = None"
      "blockCount w1 = Suc (length dn)" "if Suc (length cs) = chunks_per_block env
       then \<exists>info. done_inv env c ps (dn @ [(info, map chunk_bytes (cs @ [k]))]) w1 io1 \<and> curBlock w1 = None
              \<and> reserveChunks w1 = [] \<and> pool_ok (blank env) x (io_pool io1)
       else done_inv env c ps dn w1 io1 \<and> curBlock w1 = Some (current_block c ps (cs @ [k]))
              \<and> reserveChunks w1 = reserveChunks w \<and> io1 = io"
    using commitCurChunk_gen [OF env inv' Some f(4)] by blast
  have dat: "data = concat (concat (map snd dn)) @ concat (map chunk_bytes (cs @ [k]))"
    using data Some by (simp add: written_def)
  show ?thesis
  proof (cases "Suc (length cs) = chunks_per_block env")
    case True
    then obtain info where i: "done_inv env c ps (dn @ [(info, map chunk_bytes (cs @ [k]))]) w1 io1" "curBlock w1 = None" "reserveChunks w1 = []"
      using m(5) by auto
    have "closed env c ps data (dn @ [(info, map chunk_bytes (cs @ [k]))]) w1 io1"
      using i(1) m(4) closed_shape_snoc [OF f(1,2,4,3), of info] dat by (simp add: closed_def)
    then show ?thesis
      using m(1,2) commit_none [OF i(2,3)] by blast
  next
    case False
    then have i: "done_inv env c ps dn w1 io1" "curBlock w1 = Some (current_block c ps (cs @ [k]))"
        "reserveChunks w1 = reserveChunks w" "io1 = io"
      using m(5) by auto
    have pl: "pool_ok (blank env) (length (reserveChunks w1) + (Suc (length cs) + x)) (io_pool io1)"
      using busy Some i(3,4) by (metis Suc_eq_plus1 add.assoc add_Suc_right option.distinct(1))
    have "list_all (blank env) (reserveChunks w1)"
      using f(5) i(3) by simp
    from commit_last [OF env i(1) f(1) i(2) f(2,4,3) m(4) this pl dat] obtain w2 io2 dn' where
      "commitCurBlock env ans w1 io1 = Ret (w2, io2)" "same_writer w1 w2" "closed env c ps data dn' w2 io2"
      by blast
    then show ?thesis
      using m(1) same_writer_trans [OF m(2)] by blast
  qed
qed

section \<open>The metadata of a closed writer\<close>

definition stored_all :: "IOEnv \<Rightarrow> ClusterInfo \<Rightarrow> ClusterPipelines \<Rightarrow> done_blocks \<Rightarrow> IO \<Rightarrow> bool" where
  "stored_all env c ps dn io \<longleftrightarrow> agent_ok c (io_agent io) \<and> cluster_stores (w_servers (io_world io)) c ps
     \<and> (\<forall>(info, cs) \<in> set dn. BlockSize_bi info = word_of_nat (length (concat cs))
          \<and> stored (c_ring env) ps (w_servers (io_world io)) (w_disk (io_world io)) (BlockId info) (fst (buffered cs ([], []))))"

lemma block_infos_ok:
  "\<forall>i \<in> set is. \<exists>b. sm_load m (int (Suc i)) = Some b \<and> bl_info b = f i \<Longrightarrow>
    block_infos m (map (\<lambda>i. int (Suc i)) is) = Ret (map f is)"
  by (induction "is") auto

lemma GenObjectId_Ret:
  assumes "ring_ok ring" "bucket_ok b"
  shows "\<exists>objID. GenObjectId ring b key = Ret objID"
proof -
  obtain c where c: "Config b = Some c" "0 < sint (KeySlotNum c)"
    using assms(2) by (auto simp: bucket_ok_def split: option.splits)
  obtain slot where "CalculateSlot ring (trim_char (CHR ''/'') (path_clean key)) (KeySlotNum c) = Ret slot"
    using CalculateSlot_bounds [OF assms(1) c(2)] by blast
  then show ?thesis
    using c(1) by (simp add: GenObjectId_def key_slot_num_def)
qed

lemma map_nth_eq_fst: "map (\<lambda>i. fst (dn ! i)) [0..<length dn] = map fst dn"
  by (rule nth_equalityI) simp_all

lemma genMeta_ok:
  assumes "ring_ok (c_ring env)" "bucket_ok (c_bucket env)" "closed env c ps data dn w io"
    "objHash w = (if ObjectHashType (c_config env) = OFF then None else Some data)"
  shows "\<exists>meta. genMeta env now w = Ret meta \<and> Blocks meta = map fst dn \<and> ObjSize meta = writeSize w
    \<and> Term_m meta = Term (ew_clusterInfo w) \<and> GenObjectId (c_ring env) (c_bucket env) (ew_key w) = Ret (ObjId meta)
    \<and> UpdateTime meta = Some now"
proof -
  have n: "length (ew_blocks w) = length dn"
      "\<forall>i \<in> set [0..<length dn]. \<exists>b. sm_load (ew_blocks w) (int (Suc i)) = Some b \<and> bl_info b = (\<lambda>i. fst (dn ! i)) i"
    using assms(3) by (simp_all add: closed_def done_inv_def)
  have "map int [1..<Suc (length dn)] = map (\<lambda>i. int (Suc i)) [0..<length dn]"
    by (simp add: map_Suc_upt [symmetric] del: upt_Suc map_Suc_upt)
  then have bs: "block_infos (ew_blocks w) (map int [1..<Suc (length (ew_blocks w))]) = Ret (map fst dn)"
    using block_infos_ok [OF n(2)] n(1) by (simp add: map_nth_eq_fst del: upt_Suc)
  obtain pg where "GenObjPgID (c_ring env) (c_bucket env) (ew_key w) 10 = Ret pg"
    using GenObjPgID_bounds [OF assms(1,2), of 10 "ew_key w"] by auto
  moreover obtain objID where "GenObjectId (c_ring env) (c_bucket env) (ew_key w) = Ret objID"
    using GenObjectId_Ret [OF assms(1,2)] by blast
  moreover have "\<exists>h. (if ObjectHashType (c_config env) \<noteq> OFF then object_hash env w else Ret []) = Ret h"
    using assms(4) by (simp add: object_hash_def)
  ultimately show ?thesis
    using bs by (auto simp: genMeta_def simp del: upt_Suc)
qed

lemma ew_Close_ok:
  assumes env: "env_ok env" "bucket_ok (c_bucket env)" and ans: "answers_ok ans c" "answers_ok ans' c"
    and ps: "meta_served (c_crush env) c ps" and acc: "\<And>server ctx m. \<exists>r. a_record ans' server ctx m = Inr r"
    and w: "writing env c ps x data w io"
  shows "\<exists>w' io' meta dn. ew_Close env ans (ans' # anss) now w io = Ret (w', io', Some meta, None) \<and> ew_Status w' = FINISHED
    \<and> Blocks meta = map fst dn \<and> ObjSize meta = word_of_nat (length data) \<and> Term_m meta = Term c
    \<and> GenObjectId (c_ring env) (c_bucket env) (ew_key w) = Ret (ObjId meta)
    \<and> closed_shape env dn \<and> concat (concat (map snd dn)) = data \<and> stored_all env c ps dn io' \<and> UpdateTime meta = Some now"
proof -
  obtain dn0 cs where inv: "winv env c ps x dn0 cs w io" "written dn0 cs w = data"
    using w by (auto simp: writing_def)
  obtain w1 io1 w2 io2 dn where m: "commitCurChunk env ans w io = Ret (w1, io1)" "commitCurBlock env ans w1 io1 = Ret (w2, io2)"
      "same_writer w w2" "closed env c ps data dn w2 io2"
    using close_blocks [OF env(1) ans(1) inv] by blast
  have fr: "ew_Status w = READING" "ew_clusterInfo w2 = c" "writeSize w2 = word_of_nat (length data)" "ew_key w2 = ew_key w"
      "objHash w2 = (if ObjectHashType (c_config env) = OFF then None else Some data)"
    using w inv(1) m(3) by (simp_all add: writing_def same_writer_def winv_def)
  let ?w = "w2\<lparr>ew_Status := UPLOADING, finishedBlocks := []\<rparr>"
  have recv: "receive_blocks (blockCount w2) (w2\<lparr>ew_Status := UPLOADING\<rparr>) = Ret (?w, finishedBlocks w2)"
    using m(4) by (simp add: receive_blocks_def closed_def done_inv_def)
  have r: "ring_ok (c_ring env)"
    using env(1) by (simp add: env_ok_def)
  have "genMeta env now ?w = genMeta env now w2"
    by (simp add: genMeta_def object_hash_def)
  then obtain meta where g: "genMeta env now ?w = Ret meta" "Blocks meta = map fst dn" "ObjSize meta = word_of_nat (length data)"
      "Term_m meta = Term c" "GenObjectId (c_ring env) (c_bucket env) (ew_key w) = Ret (ObjId meta)" "UpdateTime meta = Some now"
    using genMeta_ok [OF r env(2) m(4) fr(5), of now] fr by auto
  have ag: "agent_ok c (io_agent io2)"
    using m(4) by (simp add: closed_def done_inv_def)
  obtain agent' server where sub: "SubmitMeta (c_ring env) (c_crush env) ans' (c_bucket env) meta (io_agent io2)
      = Ret (agent', meta\<lparr>Position := POSITION_EDGE\<rparr>, a_record ans' (Some server) (term_ctx (Term c)) (meta\<lparr>Position := POSITION_EDGE\<rparr>))"
      "agent_ok c agent'"
    using SubmitMeta_ok [OF r env(2) ps ans(2) ag] by blast
  obtain res where "a_record ans' (Some server) (term_ctx (Term c)) (meta\<lparr>Position := POSITION_EDGE\<rparr>) = Inr res"
    using acc by blast
  then have "commitMeta env (ans' # anss) now ?w io2 = Ret (io2\<lparr>io_agent := agent'\<rparr>, meta\<lparr>Position := POSITION_EDGE\<rparr>, None)"
    using g(1) sub(1) by (simp add: commitMeta_def)
  then have "ew_Close env ans (ans' # anss) now w io
      = Ret (?w\<lparr>ew_Status := FINISHED\<rparr>, io2\<lparr>io_agent := agent'\<rparr>, Some (meta\<lparr>Position := POSITION_EDGE\<rparr>), None)"
    using fr(1) m(1,2) recv by (simp add: ew_Close_def)
  moreover have "stored_all env c ps dn (io2\<lparr>io_agent := agent'\<rparr>)"
    using m(4) sub(2) by (auto simp: stored_all_def closed_def done_inv_def)
  ultimately show ?thesis
    using g m(4) by (intro exI [of _ "?w\<lparr>ew_Status := FINISHED\<rparr>"] exI [of _ "io2\<lparr>io_agent := agent'\<rparr>"]
        exI [of _ "meta\<lparr>Position := POSITION_EDGE\<rparr>"] exI [of _ dn]) (simp add: closed_def)
qed

end
