(* ===== verification/Ecos_Reader.thy ===== *)
theory Ecos_Reader
  imports Ecos_Writer
begin

text \<open>
  Reading an object (\<^verbatim>\<open>client/io/ecos_reader.go\<close>): the blocks that cover a request are computed from the
  position of the reader, fetched, and copied into the buffer of the caller.  The pieces are
  copied one after the other; the code copies them concurrently into disjoint ranges and waits
  for all, so a block that cannot be fetched, whose goroutine leaves without signalling, blocks
  the read.  Offsets are Go integers and stay below the largest one.
\<close>

section \<open>Slices\<close>

text \<open>
  A byte slice with its capacity: slicing beyond the length and within the capacity shows the
  zeroed rest of the allocation.
\<close>

record slice =
  s_bytes :: bytes
  s_cap :: nat

definition visible :: "slice \<Rightarrow> bytes" where
  "visible s = s_bytes s @ replicate (s_cap s - length (s_bytes s)) 0"

definition slice_range :: "slice \<Rightarrow> int \<Rightarrow> int \<Rightarrow> bytes exec" where
  "slice_range s l r =
     (if 0 \<le> l \<and> l \<le> r \<and> r \<le> int (length (visible s)) then Ret (take (nat (r - l)) (drop (nat l) (visible s)))
      else Panic ''slice bounds out of range'')"

text \<open>
  A slice made with a capacity and appended to: it keeps its capacity unless it has to grow.
\<close>

definition appended :: "nat \<Rightarrow> bytes \<Rightarrow> slice" where
  "appended c bs = \<lparr>s_bytes = bs, s_cap = max c (length bs)\<rparr>"

section \<open>State\<close>

record EcosReader =
  er_key :: string
  er_clusterInfo :: "ClusterInfo option"
  er_pipes :: "ClusterPipelines option"
  curBlockIndex :: nat
  curBlockOffset :: int
  er_meta :: "ObjectMeta option"
  cachedBlocks :: "(string, slice) smap"

definition GetEcosReader :: "string \<Rightarrow> EcosReader" where
  "GetEcosReader key =
     \<lparr>er_key = key, er_clusterInfo = None, er_pipes = None, curBlockIndex = 0, curBlockOffset = 0, er_meta = None,
      cachedBlocks = []\<rparr>"

section \<open>Metadata of the object\<close>

primrec getObjMeta :: "IOEnv \<Rightarrow> Answers list \<Rightarrow> EcosReader \<Rightarrow> InfoAgent \<Rightarrow> (InfoAgent \<times> ObjectMeta result) exec" where
  "getObjMeta env [] r agent = exec.Blocks ''waiting for an answer''"
| "getObjMeta env (ans # anss) r agent =
     exec_bind (GetObjMeta (c_ring env) (c_crush env) ans (c_bucket env) (er_key r) agent) (\<lambda>(agent, res).
       case res of
         Inr meta \<Rightarrow> Ret (agent, Inr meta)
       | Inl err \<Rightarrow>
           (if term_refused err
            then exec_bind (UpdateCurClusterInfo ans agent) (\<lambda>(agent, err).
                   case err of Some e \<Rightarrow> Ret (agent, Inl e) | None \<Rightarrow> getObjMeta env anss r agent)
            else Ret (agent, Inl err)))"

definition getHistoryClusterInfo ::
    "Answers \<Rightarrow> ObjectMeta \<Rightarrow> EcosReader \<Rightarrow> InfoAgent \<Rightarrow> (EcosReader \<times> InfoAgent \<times> go_error option) exec" where
  "getHistoryClusterInfo ans meta r agent =
     exec_bind (ia_Get ans CLUSTER_INFO (FormatUint (Term_m meta)) agent) (\<lambda>(agent, info, err).
       if err \<noteq> None then Ret (r, agent, err)
       else Ret (r\<lparr>er_clusterInfo := GetClusterInfo_base info\<rparr>, agent, None))"

definition genPipelines ::
    "IOEnv \<Rightarrow> Answers \<Rightarrow> Answers list \<Rightarrow> EcosReader \<Rightarrow> InfoAgent \<Rightarrow> (EcosReader \<times> InfoAgent \<times> go_error option) exec" where
  "genPipelines env ans anss r agent =
     exec_bind (getObjMeta env anss r agent) (\<lambda>(agent, res).
       case res of
         Inl err \<Rightarrow> Ret (r\<lparr>er_meta := None\<rparr>, agent, Some err)
       | Inr meta \<Rightarrow>
           exec_bind (getHistoryClusterInfo ans meta (r\<lparr>er_meta := Some meta\<rparr>) agent) (\<lambda>(r, agent, err).
             if err \<noteq> None then Ret (r, agent, err)
             else case er_clusterInfo r of
               None \<Rightarrow> Panic ''nil pointer dereference''
             | Some c \<Rightarrow>
                 (case NewClusterPipelines (c_crush env) c of
                    Inl err \<Rightarrow> Ret (r\<lparr>er_pipes := None\<rparr>, agent, Some err)
                  | Inr ps \<Rightarrow> Ret (r\<lparr>er_pipes := Some ps\<rparr>, agent, None))))"

section \<open>Fetching blocks\<close>

definition block_cap :: "IOEnv \<Rightarrow> nat" where
  "block_cap env = unat (BlockSize (c_config env))"

definition GetBlockByCloud :: "IOEnv \<Rightarrow> World \<Rightarrow> BlockInfo \<Rightarrow> slice result exec" where
  "GetBlockByCloud env wd b =
     (case w_cloud wd of
        None \<Rightarrow> Ret (Inl (ErrText ''rpc error: code = Unavailable''))
      | Some g \<Rightarrow>
          exec_bind (CloudGaia_GetBlockData g (BlockId b) 0 (w_cloud_disk wd)) (\<lambda>res.
            Ret (case res of Inl err \<Rightarrow> Inl (rpc_error err) | Inr cs \<Rightarrow> Inr (appended (block_cap env) (concat cs)))))"

definition GetBlockByEdge ::
    "IOEnv \<Rightarrow> Answers \<Rightarrow> World \<Rightarrow> BlockInfo \<Rightarrow> EcosReader \<Rightarrow> InfoAgent \<Rightarrow> (InfoAgent \<times> slice result) exec" where
  "GetBlockByEdge env ans wd b r agent =
     (case (er_clusterInfo r, er_pipes r) of
        (Some c, Some ps) \<Rightarrow>
          exec_bind (GenBlockPgID (c_ring env) (BlockId b) (BlockPgNum c)) (\<lambda>pgID.
          exec_bind (GetBlockPG ps pgID) (\<lambda>ids.
          exec_bind (first_node ids) (\<lambda>i.
          exec_bind (node_of ans (FormatUint i) agent) (\<lambda>(agent, node).
            case w_servers wd (RaftId node) of
              None \<Rightarrow> Ret (agent, Inl (ErrText ''rpc error: code = Unavailable''))
            | Some g \<Rightarrow>
                exec_bind (GetBlockData g (BlockId b) 0 (w_disk wd)) (\<lambda>res.
                  Ret (agent, case res of
                    Inl err \<Rightarrow> Inl (rpc_error err)
                  | Inr cs \<Rightarrow> Inr (appended (block_cap env) (concat cs))))))))
      | _ \<Rightarrow> Panic ''nil pointer dereference'')"

definition GetBlock ::
    "IOEnv \<Rightarrow> Answers \<Rightarrow> World \<Rightarrow> BlockInfo \<Rightarrow> EcosReader \<Rightarrow> InfoAgent \<Rightarrow> (EcosReader \<times> InfoAgent \<times> slice result) exec" where
  "GetBlock env ans wd b r agent =
     (case sm_load (cachedBlocks r) (BlockId b) of
        Some s \<Rightarrow> Ret (r, agent, Inr s)
      | None \<Rightarrow>
          exec_bind
            (case ia_connectType agent of
               ConnectCloud \<Rightarrow> exec_bind (GetBlockByCloud env wd b) (\<lambda>res. Ret (agent, res))
             | ConnectEdge \<Rightarrow> GetBlockByEdge env ans wd b r agent)
            (\<lambda>(agent, res).
               case res of
                 Inl err \<Rightarrow> Ret (r, agent, Inl err)
               | Inr s \<Rightarrow> Ret (r\<lparr>cachedBlocks := sm_store (BlockId b) s (cachedBlocks r)\<rparr>, agent, Inr s)))"

section \<open>The blocks of a request\<close>

record calcBlock =
  cb_index :: nat
  cb_blockStart :: int
  cb_blockEnd :: int
  cb_bufferStart :: int
  cb_bufferEnd :: int

text \<open>
  The loop over the blocks from the current one on, whose index is \<open>i\<close>: the pieces, the last index
  and offset, and whether the request ended inside a block.
\<close>

primrec calc_loop ::
    "int \<Rightarrow> BlockInfo list \<Rightarrow> nat \<Rightarrow> int \<Rightarrow> int \<Rightarrow> nat \<times> int \<Rightarrow> calcBlock list \<times> (nat \<times> int) \<times> bool" where
  "calc_loop expect [] i blockOffset bufferOffset pos = ([], pos, False)"
| "calc_loop expect (b # bs) i blockOffset bufferOffset pos =
     (let pending = expect - bufferOffset; n = sint (BlockSize_bi b)
      in if BlockSize_bi b \<le> word_of_int (blockOffset + pending)
         then let (cs, pos, finish) = calc_loop expect bs (Suc i) 0 (bufferOffset + n - blockOffset) (i, 0)
              in (\<lparr>cb_index = i, cb_blockStart = blockOffset, cb_blockEnd = n,
                   cb_bufferStart = bufferOffset, cb_bufferEnd = bufferOffset + n - blockOffset\<rparr> # cs, pos, finish)
         else ([\<lparr>cb_index = i, cb_blockStart = blockOffset, cb_blockEnd = blockOffset + pending,
                 cb_bufferStart = bufferOffset, cb_bufferEnd = bufferOffset + pending\<rparr>], (i, blockOffset + pending), True))"

definition calcBlocks :: "int \<Rightarrow> ObjectMeta \<Rightarrow> EcosReader \<Rightarrow> EcosReader \<times> calcBlock list \<times> go_error option" where
  "calcBlocks expect meta r =
     (let (cs, (i, off), finish) =
            calc_loop expect (drop (curBlockIndex r) (Blocks meta)) (curBlockIndex r) (curBlockOffset r) 0
              (curBlockIndex r, curBlockOffset r)
      in (r\<lparr>curBlockIndex := i, curBlockOffset := off\<rparr>, cs, if finish then None else Some EOF))"

section \<open>Reading and seeking\<close>

text \<open>\<^verbatim>\<open>copy(p[bufferL:bufferR], piece)\<close>.\<close>

definition copy_range :: "bytes \<Rightarrow> int \<Rightarrow> int \<Rightarrow> bytes \<Rightarrow> bytes exec" where
  "copy_range p l r piece =
     (let n = min (nat (r - l)) (length piece)
      in if 0 \<le> l \<and> l \<le> r \<and> r \<le> int (length p) then Ret (take (nat l) p @ take n piece @ drop (nat l + n) p)
         else Panic ''slice bounds out of range'')"

primrec read_pieces ::
    "IOEnv \<Rightarrow> Answers \<Rightarrow> World \<Rightarrow> ObjectMeta \<Rightarrow> calcBlock list \<Rightarrow> EcosReader \<Rightarrow> InfoAgent \<Rightarrow> bytes
     \<Rightarrow> (EcosReader \<times> InfoAgent \<times> bytes \<times> int) exec" where
  "read_pieces env ans wd meta [] r agent p = Ret (r, agent, p, 0)"
| "read_pieces env ans wd meta (c # cs) r agent p =
     (case nth_opt (Blocks meta) (cb_index c) of
        None \<Rightarrow> Panic ''index out of range''
      | Some b \<Rightarrow>
          exec_bind (GetBlock env ans wd b r agent) (\<lambda>(r, agent, res).
            case res of
              Inl err \<Rightarrow> exec.Blocks ''waiting for a piece that failed''
            | Inr s \<Rightarrow>
                exec_bind (slice_range s (cb_blockStart c) (cb_blockEnd c)) (\<lambda>piece.
                exec_bind (copy_range p (cb_bufferStart c) (cb_bufferEnd c) piece) (\<lambda>p.
                  let r = (if cb_blockEnd c = int (length (s_bytes s))
                           then r\<lparr>cachedBlocks := sm_delete (BlockId b) (cachedBlocks r)\<rparr> else r)
                  in exec_bind (read_pieces env ans wd meta cs r agent p) (\<lambda>(r, agent, p, count).
                       Ret (r, agent, p, cb_bufferEnd c - cb_bufferStart c + count))))))"

text \<open>The error of preparing the reader is only logged.\<close>

definition prepare ::
    "IOEnv \<Rightarrow> Answers \<Rightarrow> Answers list \<Rightarrow> EcosReader \<Rightarrow> InfoAgent \<Rightarrow> (EcosReader \<times> InfoAgent \<times> go_error option) exec" where
  "prepare env ans anss r agent =
     (if er_meta r = None \<or> er_pipes r = None then genPipelines env ans anss r agent else Ret (r, agent, None))"

definition er_Read ::
    "IOEnv \<Rightarrow> Answers \<Rightarrow> Answers list \<Rightarrow> World \<Rightarrow> bytes \<Rightarrow> EcosReader \<Rightarrow> InfoAgent
     \<Rightarrow> (EcosReader \<times> InfoAgent \<times> bytes \<times> int \<times> go_error option) exec" where
  "er_Read env ans anss wd p r agent =
     exec_bind (prepare env ans anss r agent) (\<lambda>(r, agent, _).
       case er_meta r of
         None \<Rightarrow> Panic ''nil pointer dereference''
       | Some meta \<Rightarrow>
           (let (r, cs, err) = calcBlocks (int (length p)) meta r
            in exec_bind (read_pieces env ans wd meta cs r agent p) (\<lambda>(r, agent, p, count).
                 Ret (r, agent, p, count, err))))"

text \<open>\<^verbatim>\<open>io.SeekStart\<close>, \<^verbatim>\<open>io.SeekCurrent\<close> and \<^verbatim>\<open>io.SeekEnd\<close> are 0, 1 and 2.\<close>

definition er_Seek ::
    "IOEnv \<Rightarrow> Answers \<Rightarrow> Answers list \<Rightarrow> int \<Rightarrow> int \<Rightarrow> EcosReader \<Rightarrow> InfoAgent
     \<Rightarrow> (EcosReader \<times> InfoAgent \<times> int \<times> go_error option) exec" where
  "er_Seek env ans anss offset whence r agent =
     exec_bind (prepare env ans anss r agent) (\<lambda>(r, agent, err).
       if err \<noteq> None then Ret (r, agent, 0, err)
       else case er_meta r of
         None \<Rightarrow> Panic ''nil pointer dereference''
       | Some meta \<Rightarrow>
           if length (Blocks meta) \<le> curBlockIndex r then Panic ''index out of range''
           else
             let curOffset = sum_list (map (\<lambda>b. sint (BlockSize_bi b)) (take (Suc (curBlockIndex r)) (Blocks meta)));
                 seek = (\<lambda>r newOffset offset.
                   let (r, cs, err) = calcBlocks offset meta r
                   in if err \<noteq> None then Ret (r, agent, newOffset, err)
                      else if newOffset < 0 \<or> sint (ObjSize meta) < newOffset
                      then Ret (r, agent, 0, Some (ErrText ''seek out of range''))
                      else Ret (r, agent, newOffset, None))
             in if whence = 0 then seek (r\<lparr>curBlockIndex := 0, curBlockOffset := 0\<rparr>) offset offset
                else if whence = 1 then seek r (curOffset + offset) offset
                else if whence = 2 then seek r (sint (ObjSize meta) - offset) (sint (ObjSize meta) - offset - curOffset)
                else Ret (r, agent, 0, Some (Err IllegalStatus)))"

section \<open>Sizes\<close>

lemma size_cmp:
  assumes "n < 2 ^ 62" "0 \<le> z" "z < 2 ^ 63"
  shows "(word_of_nat n :: u64) \<le> word_of_int z \<longleftrightarrow> int n \<le> z"
proof -
  have "uint (word_of_nat n :: u64) = int n"
    using assms(1) by (simp add: uint_nat unat_of_nat)
  moreover have "uint (word_of_int z :: u64) = z"
    using assms(2,3) by (simp add: uint_word_of_int)
  ultimately show ?thesis
    by (simp add: word_le_def)
qed

lemma sint_size: "n < 2 ^ 62 \<Longrightarrow> sint (word_of_nat n :: u64) = int n"
  by (subst signed_of_nat) (simp add: signed_take_bit_int_eq_self)

section \<open>Reading pieces\<close>

definition same_pos :: "EcosReader \<Rightarrow> EcosReader \<Rightarrow> bool" where
  "same_pos r r' \<longleftrightarrow> curBlockIndex r' = curBlockIndex r \<and> curBlockOffset r' = curBlockOffset r \<and> er_meta r' = er_meta r
     \<and> er_pipes r' = er_pipes r \<and> er_clusterInfo r' = er_clusterInfo r"

text \<open>
  Every block of the object can be fetched and shows the bytes of \<open>views\<close>; \<open>P\<close> is what the reader and
  the agent keep.
\<close>

definition fetches ::
    "IOEnv \<Rightarrow> Answers \<Rightarrow> World \<Rightarrow> ObjectMeta \<Rightarrow> bytes list \<Rightarrow> (EcosReader \<Rightarrow> InfoAgent \<Rightarrow> bool) \<Rightarrow> bool" where
  "fetches env ans wd meta views P \<longleftrightarrow> length views = length (Blocks meta)
     \<and> (\<forall>i < length views. length (views ! i) < 2 ^ 62 \<and> BlockSize_bi (Blocks meta ! i) = word_of_nat (length (views ! i))
          \<and> (\<forall>r agent. P r agent \<longrightarrow> (\<exists>r' agent' s. GetBlock env ans wd (Blocks meta ! i) r agent = Ret (r', agent', Inr s)
                \<and> P r' agent' \<and> same_pos r r' \<and> length (views ! i) \<le> length (visible s) \<and> take (length (views ! i)) (visible s) = views ! i)))
     \<and> (\<forall>r agent k. P r agent \<longrightarrow> P (r\<lparr>cachedBlocks := sm_delete k (cachedBlocks r)\<rparr>) agent)
     \<and> (\<forall>r agent i z. P r agent \<longrightarrow> P (r\<lparr>curBlockIndex := i, curBlockOffset := z\<rparr>) agent)"

lemma read_piece:
  assumes f: "fetches env ans wd meta views P" and i: "i < length views" and P: "P r agent"
    and c: "o1 \<le> o2" "o2 \<le> length (views ! i)" "k + (o2 - o1) \<le> length p"
  shows "\<exists>r1 agent1. P r1 agent1 \<and> same_pos r r1
    \<and> read_pieces env ans wd meta (\<lparr>cb_index = i, cb_blockStart = int o1, cb_blockEnd = int o2,
            cb_bufferStart = int k, cb_bufferEnd = int (k + (o2 - o1))\<rparr> # cs) r agent p
      = exec_bind (read_pieces env ans wd meta cs r1 agent1
            (take k p @ take (o2 - o1) (drop o1 (views ! i)) @ drop (k + (o2 - o1)) p))
          (\<lambda>(r, agent, p, count). Ret (r, agent, p, int (o2 - o1) + count))"
proof -
  let ?v = "views ! i" and ?b = "Blocks meta ! i"
  obtain r' agent' s where g: "GetBlock env ans wd ?b r agent = Ret (r', agent', Inr s)" "P r' agent'" "same_pos r r'"
      "length ?v \<le> length (visible s)" "take (length ?v) (visible s) = ?v"
    using f i P unfolding fetches_def by blast
  let ?r = "if int o2 = int (length (s_bytes s)) then r'\<lparr>cachedBlocks := sm_delete (BlockId ?b) (cachedBlocks r')\<rparr> else r'"
  have nth: "nth_opt (Blocks meta) i = Some ?b"
    using f i by (simp add: nth_opt_def fetches_def)
  have "take (o2 - o1) (drop o1 ?v) = take (o2 - o1) (drop o1 (visible s))"
    using c(1,2) by (subst g(5) [symmetric]) (simp add: drop_take min_def)
  then have sl: "slice_range s (int o1) (int o2) = Ret (take (o2 - o1) (drop o1 ?v))"
    using c(1,2) g(4) by (simp add: slice_range_def nat_diff_distrib)
  have len: "length (take (o2 - o1) (drop o1 ?v)) = o2 - o1"
    using c(2) by simp
  have cp: "copy_range p (int k) (int (k + (o2 - o1))) (take (o2 - o1) (drop o1 ?v))
      = Ret (take k p @ take (o2 - o1) (drop o1 ?v) @ drop (k + (o2 - o1)) p)"
    using c(3) len by (simp add: copy_range_def Let_def)
  have "P ?r agent'" "same_pos r ?r"
    using f g(2,3) by (auto simp: fetches_def same_pos_def)
  moreover have "read_pieces env ans wd meta (\<lparr>cb_index = i, cb_blockStart = int o1, cb_blockEnd = int o2,
            cb_bufferStart = int k, cb_bufferEnd = int (k + (o2 - o1))\<rparr> # cs) r agent p
      = exec_bind (read_pieces env ans wd meta cs ?r agent'
            (take k p @ take (o2 - o1) (drop o1 ?v) @ drop (k + (o2 - o1)) p))
          (\<lambda>(r, agent, p, count). Ret (r, agent, p, int (o2 - o1) + count))"
    using cp by (simp add: nth g(1) sl Let_def)
  ultimately show ?thesis
    by blast
qed

text \<open>One round of the computation of pieces, in natural numbers.\<close>

lemma calc_loop_step:
  assumes "length v < 2 ^ 62" "BlockSize_bi b = word_of_nat (length v)" "o1 \<le> length v" "k \<le> e" "e < 2 ^ 62"
  shows "calc_loop (int e) (b # bs) i (int o1) (int k) pos =
     (if length v \<le> o1 + (e - k)
      then let (cs, pos, finish) = calc_loop (int e) bs (Suc i) 0 (int (k + (length v - o1))) (i, 0)
           in (\<lparr>cb_index = i, cb_blockStart = int o1, cb_blockEnd = int (length v),
                cb_bufferStart = int k, cb_bufferEnd = int (k + (length v - o1))\<rparr> # cs, pos, finish)
      else ([\<lparr>cb_index = i, cb_blockStart = int o1, cb_blockEnd = int (o1 + (e - k)),
              cb_bufferStart = int k, cb_bufferEnd = int (k + (e - k))\<rparr>], (i, int (o1 + (e - k))), True))"
proof -
  let ?z = "int o1 + (int e - int k)"
  have z: "?z = int (o1 + (e - k))" "int (o1 + (e - k)) < 2 ^ 63"
    using assms(1,3,4,5) by simp_all
  have cmp: "BlockSize_bi b \<le> word_of_int (int (o1 + (e - k))) \<longleftrightarrow> length v \<le> o1 + (e - k)"
    unfolding assms(2) size_cmp [OF assms(1) of_nat_0_le_iff z(2)] by (rule of_nat_le_iff)
  have sz: "sint (BlockSize_bi b) = int (length v)"
    unfolding assms(2) by (rule sint_size [OF assms(1)])
  have n: "int k + int (length v) - int o1 = int (k + (length v - o1))" "int k + (int e - int k) = int (k + (e - k))"
    using assms(3,4) by simp_all
  show ?thesis
    unfolding calc_loop.simps Let_def z(1) cmp sz n by (rule refl)
qed

lemma drop_append_len: "length xs = n \<Longrightarrow> drop (n + m) (xs @ ys) = drop m ys"
  by simp

lemma read_calc:
  assumes f: "fetches env ans wd meta views P"
  shows "i + length bs = length views \<Longrightarrow> bs = drop i (Blocks meta) \<Longrightarrow> vs = drop i views \<Longrightarrow> o1 \<le> length (concat (take 1 vs)) \<Longrightarrow> k \<le> length p
    \<Longrightarrow> length p < 2 ^ 62 \<Longrightarrow> P r agent \<Longrightarrow>
    \<exists>r' agent'. read_pieces env ans wd meta (fst (calc_loop (int (length p)) bs i (int o1) (int k) pos)) r agent p
      = Ret (r', agent', take k p @ take (length p - k) (drop o1 (concat vs)) @ drop (k + (length (concat vs) - o1)) p,
          int (min (length p - k) (length (concat vs) - o1))) \<and> P r' agent' \<and> same_pos r r'"
proof (induction bs arbitrary: i vs o1 k p r agent pos)
  case Nil
  then have "vs = []"
    by simp
  then show ?case
    using Nil by (simp add: same_pos_def)
next
  case (Cons b bs)
  have i: "i < length views"
    using Cons.prems(1) by simp
  let ?v = "views ! i" and ?e = "length p"
  have vs: "vs = ?v # drop (Suc i) views"
    using Cons.prems(3) i by (simp add: Cons_nth_drop_Suc)
  have "i < length (Blocks meta)"
    using f i unfolding fetches_def by linarith
  then have bs: "b = Blocks meta ! i" "bs = drop (Suc i) (Blocks meta)"
    using Cons.prems(2) Cons_nth_drop_Suc [of i "Blocks meta"] by (metis list.inject)+
  have o1: "o1 \<le> length ?v"
    using Cons.prems(4) vs by simp
  have v: "length ?v < 2 ^ 62" "BlockSize_bi b = word_of_nat (length ?v)"
    using f i bs(1) by (simp_all add: fetches_def)
  note step = calc_loop_step [OF v o1 Cons.prems(5,6), of bs i pos]
  show ?case
  proof (cases "length ?v \<le> o1 + (?e - k)")
    case True
    let ?n = "length ?v - o1"
    let ?p = "take k p @ take ?n (drop o1 ?v) @ drop (k + ?n) p"
    let ?cs = "fst (calc_loop (int ?e) bs (Suc i) 0 (int (k + ?n)) (i, 0))"
    have fit: "k + ?n \<le> ?e"
      using True o1 Cons.prems(5) by linarith
    obtain r1 agent1 where r1: "P r1 agent1" "same_pos r r1"
      "read_pieces env ans wd meta (\<lparr>cb_index = i, cb_blockStart = int o1, cb_blockEnd = int (length ?v),
            cb_bufferStart = int k, cb_bufferEnd = int (k + ?n)\<rparr> # ?cs) r agent p
        = exec_bind (read_pieces env ans wd meta ?cs r1 agent1 ?p) (\<lambda>(r, agent, p, count). Ret (r, agent, p, int ?n + count))"
      using read_piece [OF f i Cons.prems(7) o1 _ fit] by blast
    have len: "length ?p = ?e"
      using fit by simp
    obtain r2 agent2 where r2: "P r2 agent2" "same_pos r1 r2"
      "read_pieces env ans wd meta ?cs r1 agent1 ?p
        = Ret (r2, agent2, take (k + ?n) ?p @ take (?e - (k + ?n)) (concat (drop (Suc i) views)) @ drop (k + ?n + length (concat (drop (Suc i) views))) ?p,
            int (min (?e - (k + ?n)) (length (concat (drop (Suc i) views)))))"
      using Cons.IH [of "Suc i" "drop (Suc i) views" 0 "k + ?n" ?p r1 agent1 "(i, 0)"] Cons.prems(1,6) bs(2) fit r1(1) len by auto
    have e1: "fst (calc_loop (int ?e) (b # bs) i (int o1) (int k) pos) = \<lparr>cb_index = i, cb_blockStart = int o1, cb_blockEnd = int (length ?v),
            cb_bufferStart = int k, cb_bufferEnd = int (k + ?n)\<rparr> # ?cs"
      using step True by (simp add: Let_def split_beta)
    have e2: "take (k + ?n) ?p @ take (?e - (k + ?n)) (concat (drop (Suc i) views)) @ drop (k + ?n + length (concat (drop (Suc i) views))) ?p
        = take k p @ take (?e - k) (drop o1 (concat vs)) @ drop (k + (length (concat vs) - o1)) p"
    proof -
      have "length (take k p @ take ?n (drop o1 ?v)) = k + ?n"
        using fit by simp
      then have "take (k + ?n) ?p = take k p @ drop o1 ?v"
        by simp
      moreover have "drop (k + ?n + length (concat (drop (Suc i) views))) ?p = drop (k + ?n + length (concat (drop (Suc i) views))) p"
        using drop_append_len [OF \<open>length (take k p @ take ?n (drop o1 ?v)) = k + ?n\<close>,
            of "length (concat (drop (Suc i) views))" "drop (k + ?n) p"]
        by (simp only: append_assoc drop_drop add.commute add.left_commute)
      moreover have "take (?e - k) (drop o1 (concat vs)) = drop o1 ?v @ take (?e - (k + ?n)) (concat (drop (Suc i) views))"
        using vs o1 fit by simp
      moreover have "k + ?n + length (concat (drop (Suc i) views)) = k + (length (concat vs) - o1)"
        using vs o1 by simp
      ultimately show ?thesis
        by (simp only: append_assoc)
    qed
    have e3: "int ?n + int (min (?e - (k + ?n)) (length (concat (drop (Suc i) views)))) = int (min (?e - k) (length (concat vs) - o1))"
      using vs o1 fit by simp
    have "same_pos r r2"
      using r1(2) r2(2) by (simp add: same_pos_def)
    moreover have "read_pieces env ans wd meta (fst (calc_loop (int ?e) (b # bs) i (int o1) (int k) pos)) r agent p
        = Ret (r2, agent2, take k p @ take (?e - k) (drop o1 (concat vs)) @ drop (k + (length (concat vs) - o1)) p,
            int (min (?e - k) (length (concat vs) - o1)))"
      unfolding e1 r1(3) r2(3) by (simp only: exec_bind.simps prod.case e2 e3)
    ultimately show ?thesis
      using r2(1) by blast
  next
    case False
    let ?n = "?e - k"
    have fit: "o1 + ?n \<le> length ?v" "k + ?n \<le> ?e" "o1 \<le> o1 + ?n"
      using False Cons.prems(5) by linarith+
    have len: "o1 + ?n - o1 = ?n" "?e - length (take k p @ take ?n (drop o1 ?v)) = 0" "length (concat vs) - o1 \<ge> ?n"
      using vs fit Cons.prems(5) by simp_all
    obtain r1 agent1 where r1: "P r1 agent1" "same_pos r r1"
      "read_pieces env ans wd meta [\<lparr>cb_index = i, cb_blockStart = int o1, cb_blockEnd = int (o1 + ?n),
            cb_bufferStart = int k, cb_bufferEnd = int (k + ?n)\<rparr>] r agent p
        = Ret (r1, agent1, take k p @ take ?n (drop o1 ?v) @ drop (k + ?n) p, int ?n)"
      using read_piece [OF f i Cons.prems(7) fit(3,1), of k p "[]"] fit(2) len(1) by auto
    have "fst (calc_loop (int ?e) (b # bs) i (int o1) (int k) pos) = [\<lparr>cb_index = i, cb_blockStart = int o1, cb_blockEnd = int (o1 + ?n),
            cb_bufferStart = int k, cb_bufferEnd = int (k + ?n)\<rparr>]"
      using step False by simp
    moreover have "take k p @ take ?n (drop o1 ?v) @ drop (k + ?n) p = take k p @ take ?n (drop o1 (concat vs)) @ drop (k + (length (concat vs) - o1)) p"
      using vs fit by simp
    moreover have "min ?n (length (concat vs) - o1) = ?n"
      using len(3) by simp
    ultimately show ?thesis
      using r1 by metis
  qed
qed

section \<open>The position after a request\<close>

lemma calc_pos:
  assumes f: "fetches env ans wd meta views P"
  shows "i + length bs = length views \<Longrightarrow> bs = drop i (Blocks meta) \<Longrightarrow> o1 \<le> length (concat (take 1 (drop i views)))
    \<Longrightarrow> k \<le> e \<Longrightarrow> e < 2 ^ 62 \<Longrightarrow> calc_loop (int e) bs i (int o1) (int k) pos = (cs, (i', z), finish) \<Longrightarrow>
    finish = (e - k < length (concat (drop i views)) - o1)
    \<and> (finish \<longrightarrow> (\<exists>o2. z = int o2 \<and> i' < length views \<and> o2 \<le> length (views ! i')
          \<and> drop o2 (concat (drop i' views)) = drop (e - k) (drop o1 (concat (drop i views)))))"
proof (induction bs arbitrary: i o1 k pos cs)
  case (Cons b bs)
  have i: "i < length views"
    using Cons.prems(1) by simp
  let ?v = "views ! i" and ?rest = "concat (drop (Suc i) views)"
  have vs: "drop i views = ?v # drop (Suc i) views"
    using i by (simp add: Cons_nth_drop_Suc)
  have "i < length (Blocks meta)"
    using f i unfolding fetches_def by linarith
  then have bs: "b = Blocks meta ! i" "bs = drop (Suc i) (Blocks meta)"
    using Cons.prems(2) Cons_nth_drop_Suc [of i "Blocks meta"] by (metis list.inject)+
  have o1: "o1 \<le> length ?v"
    using Cons.prems(3) vs by simp
  have v: "length ?v < 2 ^ 62" "BlockSize_bi b = word_of_nat (length ?v)"
    using f i bs(1) unfolding fetches_def by blast+
  note step = calc_loop_step [OF v o1 Cons.prems(4,5), of bs i pos]
  show ?case
  proof (cases "length ?v \<le> o1 + (e - k)")
    case True
    let ?n = "length ?v - o1"
    obtain cs1 where c: "calc_loop (int e) bs (Suc i) 0 (int (k + ?n)) (i, 0) = (cs1, (i', z), finish)"
      using Cons.prems(6) step True by (auto simp: Let_def split_beta prod_eq_iff)
    have fit: "k + ?n \<le> e"
      using True o1 Cons.prems(4) by linarith
    have "finish = (e - (k + ?n) < length ?rest) \<and> (finish \<longrightarrow> (\<exists>o2. z = int o2 \<and> i' < length views \<and> o2 \<le> length (views ! i')
          \<and> drop o2 (concat (drop i' views)) = drop (e - (k + ?n)) ?rest))"
      using Cons.IH [of "Suc i" 0 "k + ?n" "(i, 0)" cs1] c bs(2) fit Cons.prems(1,5) by auto
    moreover have "e - k - ?n = e - (k + ?n)"
      by simp
    then have "drop (e - k) (drop o1 (concat (drop i views))) = drop (e - (k + ?n)) ?rest"
      using vs o1 fit by simp
    moreover have "e - (k + ?n) < length ?rest \<longleftrightarrow> e - k < length (concat (drop i views)) - o1"
      using vs o1 fit by simp linarith
    ultimately show ?thesis
      by metis
  next
    case False
    then have "finish" "i' = i" "z = int (o1 + (e - k))"
      using Cons.prems(6) step by simp_all
    moreover have "e - k < length (concat (drop i views)) - o1" "o1 + (e - k) \<le> length ?v"
      using False vs by simp_all
    ultimately show ?thesis
      using i by (intro conjI impI exI [of _ "o1 + (e - k)"]) (simp_all add: add.commute)
  qed
qed simp

section \<open>Reading\<close>

text \<open>A reader that still has the bytes \<open>rest\<close> of an object before it.\<close>

definition reading :: "ObjectMeta \<Rightarrow> bytes list \<Rightarrow> (EcosReader \<Rightarrow> InfoAgent \<Rightarrow> bool) \<Rightarrow> bytes \<Rightarrow> EcosReader \<Rightarrow> InfoAgent \<Rightarrow> bool" where
  "reading meta views P rest r agent \<longleftrightarrow> P r agent \<and> er_meta r = Some meta \<and> er_pipes r \<noteq> None
     \<and> (\<exists>o1. curBlockOffset r = int o1 \<and> curBlockIndex r \<le> length views
          \<and> o1 \<le> length (concat (take 1 (drop (curBlockIndex r) views)))
          \<and> rest = drop o1 (concat (drop (curBlockIndex r) views)))"

lemma er_Read_ok:
  assumes f: "fetches env ans wd meta views P" and r: "reading meta views P rest r agent" and p: "length p < 2 ^ 62"
  shows "\<exists>r' agent'. er_Read env ans anss wd p r agent
      = Ret (r', agent', take (length p) rest @ drop (length rest) p, int (min (length p) (length rest)),
          if length p < length rest then None else Some EOF)
    \<and> (length p < length rest \<longrightarrow> reading meta views P (drop (length p) rest) r' agent')"
proof -
  let ?i = "curBlockIndex r"
  obtain o1 where o1: "curBlockOffset r = int o1" "?i \<le> length views" "o1 \<le> length (concat (take 1 (drop ?i views)))"
      "rest = drop o1 (concat (drop ?i views))"
    using r unfolding reading_def by blast
  have P: "P r agent" "er_meta r = Some meta" "er_pipes r \<noteq> None"
    using r by (simp_all add: reading_def)
  obtain cs i' z finish where c: "calc_loop (int (length p)) (drop ?i (Blocks meta)) ?i (int o1) (int 0) (?i, int o1) = (cs, (i', z), finish)"
    by (metis prod.collapse)
  have n: "?i + length (drop ?i (Blocks meta)) = length views"
    using f o1(2) by (simp add: fetches_def)
  have pos: "finish = (length p < length rest)" "finish \<longrightarrow> (\<exists>o2. z = int o2 \<and> i' < length views \<and> o2 \<le> length (views ! i')
        \<and> drop o2 (concat (drop i' views)) = drop (length p) rest)"
    using calc_pos [OF f n refl o1(3) le0 p c] o1(4) by simp_all
  let ?r = "r\<lparr>curBlockIndex := i', curBlockOffset := z\<rparr>"
  have P1: "P ?r agent"
    using f P(1) unfolding fetches_def by blast
  obtain r' agent' where rd: "read_pieces env ans wd meta cs ?r agent p
      = Ret (r', agent', take (length p) rest @ drop (length rest) p, int (min (length p) (length rest)))"
      "P r' agent'" "same_pos ?r r'"
    using read_calc [OF f n refl refl o1(3) le0 p P1, of "(?i, int o1)"] c o1(4) by auto
  have "er_Read env ans anss wd p r agent = Ret (r', agent', take (length p) rest @ drop (length rest) p, int (min (length p) (length rest)),
          if length p < length rest then None else Some EOF)"
    using P(2,3) c o1(1) rd(1) pos(1) by (auto simp: er_Read_def prepare_def calcBlocks_def)
  moreover have "reading meta views P (drop (length p) rest) r' agent'" if lt: "length p < length rest"
  proof -
    obtain o2 where o2: "z = int o2" "i' < length views" "o2 \<le> length (views ! i')" "drop o2 (concat (drop i' views)) = drop (length p) rest"
      using pos lt by blast
    have "concat (take 1 (drop i' views)) = views ! i'"
      using o2(2) by (simp add: take_Suc hd_drop_conv_nth)
    then show ?thesis
      using rd(2,3) o2 P(2,3) by (auto simp: reading_def same_pos_def)
  qed
  ultimately show ?thesis
    by blast
qed

text \<open>
  A caller that reads with buffers of the sizes \<open>ns\<close>, keeps the bytes it is told of and stops at the
  first error.
\<close>

primrec read_seq ::
    "IOEnv \<Rightarrow> Answers \<Rightarrow> Answers list \<Rightarrow> World \<Rightarrow> nat list \<Rightarrow> EcosReader \<Rightarrow> InfoAgent \<Rightarrow> (bytes \<times> go_error option) exec" where
  "read_seq env ans anss wd [] r agent = Ret ([], None)"
| "read_seq env ans anss wd (n # ns) r agent =
     exec_bind (er_Read env ans anss wd (replicate n 0) r agent) (\<lambda>(r, agent, p, count, err).
       if err \<noteq> None then Ret (take (nat count) p, err)
       else exec_bind (read_seq env ans anss wd ns r agent) (\<lambda>(rest, err). Ret (take (nat count) p @ rest, err)))"

lemma read_seq_ok:
  assumes f: "fetches env ans wd meta views P"
  shows "reading meta views P rest r agent \<Longrightarrow> list_all (\<lambda>n. n < 2 ^ 62) ns \<Longrightarrow>
    read_seq env ans anss wd ns r agent = Ret (take (sum_list ns) rest, if ns \<noteq> [] \<and> length rest \<le> sum_list ns then Some EOF else None)"
proof (induction ns arbitrary: rest r agent)
  case (Cons n ns)
  obtain r' agent' where rd: "er_Read env ans anss wd (replicate n 0) r agent
      = Ret (r', agent', take n rest @ replicate (n - length rest) 0, int (min n (length rest)), if n < length rest then None else Some EOF)"
      "n < length rest \<longrightarrow> reading meta views P (drop n rest) r' agent'"
    using er_Read_ok [OF f Cons.prems(1), of "replicate n 0" anss] Cons.prems(2) by auto
  have t: "take (min n (length rest)) (take n rest @ replicate (n - length rest) 0) = take n rest"
    by (simp add: min_def)
  show ?case
  proof (cases "n < length rest")
    case True
    have "ns = [] \<Longrightarrow> sum_list ns = 0"
      by simp
    then show ?thesis
      using Cons.IH [of "drop n rest" r' agent'] Cons.prems(2) rd True t by (auto simp: take_add)
  next
    case False
    then show ?thesis
      using rd(1) t by simp
  qed
qed simp

section \<open>Blocks of a closed writer\<close>

text \<open>
  What a reader sees of a block written in the pieces \<open>ks\<close>: the bytes in the file, then zeros up to
  the size of the block, from the capacity of the slice it is read into.
\<close>

definition block_view :: "bytes list \<Rightarrow> bytes" where
  "block_view ks = (let f = fst (buffered ks ([], [])) in f @ replicate (length (concat ks) - length f) 0)"

lemma buffered_length: "length (fst (buffered ks ([], []))) \<le> length (concat ks)"
proof -
  obtain f b where "buffered ks ([], []) = (f, b)"
    by (meson surj_pair)
  moreover from this have "f @ b = concat ks"
    using buffered_spec [of "[]" ks "[]" f b] by simp
  then have "length (concat ks) = length f + length b"
    by (metis length_append)
  ultimately show ?thesis
    by simp
qed

lemma length_block_view: "length (block_view ks) = length (concat ks)"
  using buffered_length [of ks] by (simp add: block_view_def Let_def)

definition served :: "IOEnv \<Rightarrow> ClusterInfo \<Rightarrow> ClusterPipelines \<Rightarrow> World \<Rightarrow> EcosReader \<Rightarrow> InfoAgent \<Rightarrow> bool" where
  "served env c ps wd r agent \<longleftrightarrow> agent_ok c agent \<and> er_clusterInfo r = Some c \<and> er_pipes r = Some ps
     \<and> (\<forall>i s f. sm_load (cachedBlocks r) i = Some s \<longrightarrow> stored (c_ring env) ps (w_servers wd) (w_disk wd) i f
          \<longrightarrow> s = appended (block_cap env) f)"

lemma stored_unique: "stored ring ps net d i f \<Longrightarrow> stored ring ps net d i f' \<Longrightarrow> f = f'"
  by (fastforce simp: stored_def)

lemma GetBlock_ok:
  assumes env: "answers_ok ans c" "cluster_stores (w_servers wd) c ps" "BlockPgNum c = 100"
    and st: "stored (c_ring env) ps (w_servers wd) (w_disk wd) (BlockId b) f" and P: "served env c ps wd r agent"
  shows "\<exists>r' agent'. GetBlock env ans wd b r agent = Ret (r', agent', Inr (appended (block_cap env) f))
    \<and> served env c ps wd r' agent' \<and> same_pos r r'"
proof (cases "sm_load (cachedBlocks r) (BlockId b)")
  case (Some s)
  then have "s = appended (block_cap env) f"
    using P st unfolding served_def by blast
  then show ?thesis
    using Some P by (auto simp: GetBlock_def same_pos_def)
next
  case None
  obtain pg p n ns where s: "map_pg (c_ring env) blockPgNum (BlockId b) = Ret pg" "pipeline_at (BlockPipelines ps) pg = Ret p" "RaftIds p = n # ns"
      "sm_load (w_disk wd) (block_key (w_servers wd) (delete_info (BlockId b)) n) = Some f"
    using st by (fastforce simp: stored_def)
  have "pipeline_serves (w_servers wd) c p"
    using pipeline_at_mem [OF s(2)] env(2) by (auto simp: cluster_stores_def list_all_iff)
  then obtain g where g: "w_servers wd n = Some g" "g_self g = n" "g_chunkSize g \<noteq> 0" "n \<in> RaftId ` set (NodesInfo c)"
    using serves_first s(3) by blast
  have a: "agent_ok c agent" "er_clusterInfo r = Some c" "er_pipes r = Some ps" "ia_connectType agent = ConnectEdge"
    using P by (simp_all add: served_def agent_ok_def)
  obtain agent' i where nd: "node_of ans (FormatUint n) agent = Ret (agent', i)" "RaftId i = n" "agent_ok c agent'"
    using node_of_ok [OF env(1) a(1) g(4)] by blast
  have "sm_load (w_disk wd) (g_self g, path_join [g_basePath g, BlockId b]) = Some f"
    using s(4) g(1,2) by (simp add: block_key_def delete_info_def)
  then obtain cs where cs: "GetBlockData g (BlockId b) 0 (w_disk wd) = Ret (Inr cs)" "concat cs = f"
    using read_block_all g(3) unfolding GetBlockData_def by blast
  have "GenBlockPgID (c_ring env) (BlockId b) (BlockPgNum c) = Ret pg"
    using s(1) env(3) by (simp add: GenBlockPgID_def blockPgNum_def uint64_of_i32_def)
  then have "GetBlockByEdge env ans wd b r agent = Ret (agent', Inr (appended (block_cap env) f))"
    using a(2,3) s(2,3) nd(1,2) g(1) cs by (simp add: GetBlockByEdge_def GetBlockPG_def first_node_def)
  then have "GetBlock env ans wd b r agent
      = Ret (r\<lparr>cachedBlocks := sm_store (BlockId b) (appended (block_cap env) f) (cachedBlocks r)\<rparr>, agent', Inr (appended (block_cap env) f))"
    using None a(4) by (simp add: GetBlock_def)
  moreover have "served env c ps wd (r\<lparr>cachedBlocks := sm_store (BlockId b) (appended (block_cap env) f) (cachedBlocks r)\<rparr>) agent'"
    using P nd(3) stored_unique [OF st] by (auto simp: served_def sm_load_store split: if_splits)
  ultimately show ?thesis
    by (intro exI [of _ "r\<lparr>cachedBlocks := sm_store (BlockId b) (appended (block_cap env) f) (cachedBlocks r)\<rparr>"] exI [of _ agent'])
      (simp add: same_pos_def)
qed

lemma visible_view:
  assumes "length (concat ks) \<le> n"
  shows "length (block_view ks) \<le> length (visible (appended n (fst (buffered ks ([], [])))))"
    "take (length (block_view ks)) (visible (appended n (fst (buffered ks ([], []))))) = block_view ks"
  using assms buffered_length [of ks] by (simp_all add: visible_def appended_def length_block_view block_view_def Let_def)

lemma concat_bound: "(\<And>k. k \<in> set ks \<Longrightarrow> length k \<le> n) \<Longrightarrow> length (concat ks) \<le> length ks * n"
proof (induction ks)
  case (Cons k ks)
  then have "length k \<le> n" "length (concat ks) \<le> length ks * n"
    by simp_all
  then show ?case
    by simp
qed simp

lemma block_cap_bound: "chunks_per_block env * unat (c_chunkSize env) \<le> block_cap env"
  by (simp add: chunks_per_block_def block_cap_def unat_div div_times_less_eq_dividend)

lemma full_blocksD:
  "full_blocks env dn \<Longrightarrow> (info, ks) \<in> set dn \<Longrightarrow> length ks = chunks_per_block env \<and> (\<forall>k \<in> set ks. length k = unat (c_chunkSize env))"
  by (auto simp: full_blocks_def)

lemma closed_shape_bound:
  assumes "closed_shape env dn" "(info, ks) \<in> set dn"
  shows "length (concat ks) \<le> block_cap env"
proof -
  have "length ks \<le> chunks_per_block env \<and> (\<forall>k \<in> set ks. length k \<le> unat (c_chunkSize env))"
    using assms full_blocksD [of env _ info ks] by (fastforce simp: closed_shape_def)
  then have "length (concat ks) \<le> length ks * unat (c_chunkSize env)" "length ks \<le> chunks_per_block env"
    using concat_bound by blast+
  moreover from this have "length ks * unat (c_chunkSize env) \<le> chunks_per_block env * unat (c_chunkSize env)"
    by simp
  ultimately show ?thesis
    using block_cap_bound [of env] by linarith
qed

lemma length_concat_mem: "ks \<in> set kss \<Longrightarrow> length (concat ks) \<le> length (concat (concat kss))"
  by (induction kss) auto

lemma fetches_stored:
  assumes ans: "answers_ok ans c" "BlockPgNum c = 100"
    and dn: "\<forall>(info, ks) \<in> set dn. length (concat ks) \<le> block_cap env" "stored_all env c ps dn io"
    and meta: "Blocks meta = map fst dn" and n: "length (concat (concat (map snd dn))) < 2 ^ 62"
  shows "fetches env ans (io_world io) meta (map (\<lambda>x. block_view (snd x)) dn) (served env c ps (io_world io))"
proof -
  let ?wd = "io_world io" and ?vs = "map (\<lambda>x. block_view (snd x)) dn"
  have block: "length (?vs ! i) < 2 ^ 62 \<and> BlockSize_bi (Blocks meta ! i) = word_of_nat (length (?vs ! i))
      \<and> (\<forall>r agent. served env c ps ?wd r agent \<longrightarrow> (\<exists>r' agent' s. GetBlock env ans ?wd (Blocks meta ! i) r agent = Ret (r', agent', Inr s)
           \<and> served env c ps ?wd r' agent' \<and> same_pos r r' \<and> length (?vs ! i) \<le> length (visible s) \<and> take (length (?vs ! i)) (visible s) = ?vs ! i))"
    if i: "i < length dn" for i
  proof -
    obtain info ks where e: "dn ! i = (info, ks)"
      by (meson surj_pair)
    then have m: "(info, ks) \<in> set dn" "ks \<in> set (map snd dn)"
      using i nth_mem [of i dn] by force+
    have st: "BlockSize_bi info = word_of_nat (length (concat ks))"
        "stored (c_ring env) ps (w_servers ?wd) (w_disk ?wd) (BlockId info) (fst (buffered ks ([], [])))"
        "cluster_stores (w_servers ?wd) c ps"
      using dn(2) m(1) unfolding stored_all_def by blast+
    have bound: "length (concat ks) \<le> block_cap env"
      using dn(1) m(1) by blast
    have "length (concat ks) < 2 ^ 62"
      using length_concat_mem [OF m(2)] n by linarith
    moreover have vi: "?vs ! i = block_view ks" "Blocks meta ! i = info"
      using e i meta by simp_all
    ultimately show ?thesis
      using GetBlock_ok [OF ans(1) st(3) ans(2) st(2)] visible_view [of ks "block_cap env"] bound st(1)
      unfolding vi length_block_view by blast
  qed
  show ?thesis
    unfolding fetches_def
  proof (intro conjI)
    show "length ?vs = length (Blocks meta)"
      using meta by simp
    show "\<forall>i < length ?vs. length (?vs ! i) < 2 ^ 62 \<and> BlockSize_bi (Blocks meta ! i) = word_of_nat (length (?vs ! i))
      \<and> (\<forall>r agent. served env c ps ?wd r agent \<longrightarrow> (\<exists>r' agent' s. GetBlock env ans ?wd (Blocks meta ! i) r agent = Ret (r', agent', Inr s)
           \<and> served env c ps ?wd r' agent' \<and> same_pos r r' \<and> length (?vs ! i) \<le> length (visible s) \<and> take (length (?vs ! i)) (visible s) = ?vs ! i))"
      using block by simp
  qed (auto simp: served_def sm_load_delete split: if_splits)
qed

section \<open>What is lost\<close>

text \<open>
  The last chunk of an object, when it is not larger than the buffer of the block services, stays in
  that buffer.
\<close>

definition lost :: "IOEnv \<Rightarrow> nat \<Rightarrow> nat" where
  "lost env n = (let r = n mod unat (c_chunkSize env) in if r \<le> bufio_size then r else 0)"

lemma buffered_large:
  "\<forall>k \<in> set ks. bufio_size < length k \<Longrightarrow> buffered ks (f, []) = (f @ concat ks, [])"
  by (induction ks arbitrary: f) (simp_all add: bufio_write.simps)

lemma block_view_full: "\<forall>k \<in> set ks. bufio_size < length k \<Longrightarrow> block_view ks = concat ks"
  by (simp add: block_view_def buffered_large)

lemma buffered_append: "buffered (xs @ ys) s = buffered ys (buffered xs s)"
  by (induction xs arbitrary: s) (simp_all add: split_beta Let_def)

text \<open>Only a tail of at most 4096 bytes is lost.\<close>

lemma block_view_tail:
  "\<exists>d t. d = concat ks \<and> t \<le> 4096 \<and> t \<le> length d \<and> block_view ks = take (length d - t) d @ replicate t 0"
proof -
  obtain f b where e: "buffered ks ([], []) = (f, b)"
    by (meson surj_pair)
  then have b: "concat ks = f @ b" "length b \<le> bufio_size"
    using buffered_spec [of "[]" ks "[]" f b] by simp_all
  have "block_view ks = take (length (f @ b) - length b) (f @ b) @ replicate (length b) 0"
    using e b(1) by (simp add: block_view_def)
  then show ?thesis
    using b by (intro exI [of _ "concat ks"] exI [of _ "length b"]) (simp add: bufio_size_def)
qed

lemma block_view_last:
  assumes "\<forall>k \<in> set ks. bufio_size < length k"
  shows "block_view (ks @ [l]) = concat ks @ (if length l \<le> bufio_size then replicate (length l) 0 else l)"
  using assms by (simp add: block_view_def Let_def buffered_append buffered_large bufio_write.simps)

lemma views_full:
  "bufio_size < unat (c_chunkSize env) \<Longrightarrow> full_blocks env dn \<Longrightarrow>
    concat (map (\<lambda>x. block_view (snd x)) dn) = concat (concat (map snd dn))"
  by (induction dn) (auto simp: full_blocks_def block_view_full)

lemma full_length: "\<forall>k \<in> set ks. length k = n \<Longrightarrow> length (concat ks) = length ks * n"
  by (induction ks) auto

lemma full_dvd: "\<forall>k \<in> set ks. length k = n \<Longrightarrow> n dvd length (concat ks)"
  using full_length [of ks n] by simp

lemma full_blocks_length:
  "full_blocks env dn \<Longrightarrow> unat (c_chunkSize env) dvd length (concat (concat (map snd dn)))"
  by (induction dn) (auto simp: full_blocks_def intro!: dvd_add full_dvd)

lemma views_closed:
  assumes env: "bufio_size < unat (c_chunkSize env)" and dn: "closed_shape env dn" and data: "concat (concat (map snd dn)) = data"
  shows "concat (map (\<lambda>x. block_view (snd x)) dn)
    = take (length data - lost env (length data)) data @ replicate (lost env (length data)) 0"
proof -
  let ?n = "unat (c_chunkSize env)"
  obtain fb lb where fb: "dn = fb @ lb" "full_blocks env fb" "lb = [] \<or> (\<exists>info ks l. lb = [(info, ks @ [l])]
      \<and> (\<forall>k \<in> set ks. length k = ?n) \<and> length l \<le> ?n)"
    using dn unfolding closed_shape_def by blast
  have dvd: "?n dvd length (concat (concat (map snd fb)))"
    by (rule full_blocks_length [OF fb(2)])
  show ?thesis
  proof (cases "lb = []")
    case True
    then have "lost env (length data) = 0"
      using dvd data fb(1) by (simp add: lost_def)
    then show ?thesis
      using views_full [OF env fb(2)] fb(1) True data by simp
  next
    case False
    then obtain info ks l where lb: "lb = [(info, ks @ [l])]" "\<forall>k \<in> set ks. length k = ?n" "length l \<le> ?n"
      using fb(3) by blast
    have d: "data = concat (concat (map snd fb)) @ concat ks @ l"
      using data fb(1) lb(1) by simp
    have "length data mod ?n = length l mod ?n"
      unfolding d using dvd full_length [OF lb(2)] by (simp add: mod_add_eq [symmetric] dvd_imp_mod_0)
    then have "lost env (length data) = (if length l \<le> bufio_size then length l else 0)"
      using lb(3) env by (cases "length l = ?n") (simp_all add: lost_def)
    moreover have "block_view (ks @ [l]) = concat ks @ (if length l \<le> bufio_size then replicate (length l) 0 else l)"
      using lb(2) env by (intro block_view_last) simp
    ultimately show ?thesis
      using views_full [OF env fb(2)] fb(1) lb(1) d by simp
  qed
qed

section \<open>Opening an object\<close>

lemma prepare_ok:
  assumes env: "ring_ok (c_ring env)" "bucket_ok (c_bucket env)" "meta_served (c_crush env) c ps"
    and ans: "answers_ok ans c" "answers_ok ans' c" "agent_ok c agent"
    and meta: "GenObjectId (c_ring env) (c_bucket env) key = Ret (ObjId meta)" "\<And>server ctx. a_meta ans' server ctx (ObjId meta) = Inr meta"
      "Term_m meta = Term c"
  shows "\<exists>r agent'. prepare env ans (ans' # anss) (GetEcosReader key) agent = Ret (r, agent', None)
    \<and> reading meta views (served env c ps wd) (concat views) r agent'"
proof -
  obtain agent1 server where a1: "GetObjMeta (c_ring env) (c_crush env) ans' (c_bucket env) key agent
      = Ret (agent1, a_meta ans' (Some server) (term_ctx (Term c)) (ObjId meta))" "agent_ok c agent1"
    using GetObjMeta_ok [OF env ans(2,3) meta(1)] by blast
  obtain agent2 info where a2: "ia_Get ans CLUSTER_INFO (FormatUint (Term c)) agent1 = Ret (agent2, info, None)"
      "GetClusterInfo_base info = Some c" "agent_ok c agent2"
    using history_ok [OF ans(1) a1(2)] by blast
  have "NewClusterPipelines (c_crush env) c = Inr ps"
    using env(3) by (simp add: meta_served_def)
  then have "prepare env ans (ans' # anss) (GetEcosReader key) agent
      = Ret ((GetEcosReader key)\<lparr>er_meta := Some meta, er_clusterInfo := Some c, er_pipes := Some ps\<rparr>, agent2, None)"
    using a1(1) a2(1,2) meta(2,3)
    by (simp add: prepare_def GetEcosReader_def genPipelines_def getHistoryClusterInfo_def)
  then show ?thesis
    using a2(3) by (auto simp: reading_def served_def GetEcosReader_def sm_load_def)
qed

lemma er_Read_prepared:
  assumes "prepare env ans anss r agent = Ret (r1, agent1, None)" "reading meta views P rest r1 agent1"
  shows "er_Read env ans anss wd p r agent = er_Read env ans anss wd p r1 agent1"
proof -
  have "prepare env ans anss r1 agent1 = Ret (r1, agent1, None)"
    using assms(2) by (auto simp: reading_def prepare_def)
  then show ?thesis
    using assms(1) by (simp add: er_Read_def)
qed

lemma read_seq_prepared:
  assumes "prepare env ans anss r agent = Ret (r1, agent1, None)" "reading meta views P rest r1 agent1"
  shows "read_seq env ans anss wd ns r agent = read_seq env ans anss wd ns r1 agent1"
  using er_Read_prepared [OF assms] by (cases ns) simp_all

text \<open>An object whose blocks were all uploaded can be opened and is read in full by buffers of any sizes.\<close>

lemma open_stored:
  assumes env: "ring_ok (c_ring env)" "bucket_ok (c_bucket env)" "meta_served (c_crush env) c ps" "BlockPgNum c = 100"
    and ans: "answers_ok ans c" "answers_ok ans' c"
    and meta: "GenObjectId (c_ring env) (c_bucket env) key = Ret (ObjId meta)" "\<And>server ctx. a_meta ans' server ctx (ObjId meta) = Inr meta"
      "Term_m meta = Term c" "Blocks meta = map fst dn"
    and dn: "\<forall>(info, ks) \<in> set dn. length (concat ks) \<le> block_cap env" "stored_all env c ps dn io"
      "length (concat (concat (map snd dn))) < 2 ^ 62"
    and views: "views = map (\<lambda>x. block_view (snd x)) dn"
  obtains r1 agent1 where "prepare env ans (ans' # anss) (GetEcosReader key) (io_agent io) = Ret (r1, agent1, None)"
    "fetches env ans (io_world io) meta views (served env c ps (io_world io))"
    "reading meta views (served env c ps (io_world io)) (concat views) r1 agent1"
proof -
  have a: "agent_ok c (io_agent io)"
    using dn(2) by (simp add: stored_all_def)
  have "fetches env ans (io_world io) meta views (served env c ps (io_world io))"
    unfolding views by (rule fetches_stored [OF ans(1) env(4) dn(1,2) meta(4) dn(3)])
  then show ?thesis
    using prepare_ok [OF env(1-3) ans a meta(1-3)] that by blast
qed

lemma read_stored:
  assumes env: "ring_ok (c_ring env)" "bucket_ok (c_bucket env)" "meta_served (c_crush env) c ps" "BlockPgNum c = 100"
    and ans: "answers_ok ans c" "answers_ok ans' c"
    and meta: "GenObjectId (c_ring env) (c_bucket env) key = Ret (ObjId meta)" "\<And>server ctx. a_meta ans' server ctx (ObjId meta) = Inr meta"
      "Term_m meta = Term c" "Blocks meta = map fst dn"
    and dn: "\<forall>(info, ks) \<in> set dn. length (concat ks) \<le> block_cap env" "stored_all env c ps dn io"
      "length (concat (concat (map snd dn))) < 2 ^ 62"
    and ns: "list_all (\<lambda>n. n < 2 ^ 62) ns" and v: "v = concat (map (\<lambda>x. block_view (snd x)) dn)"
  shows "read_seq env ans (ans' # anss) (io_world io) ns (GetEcosReader key) (io_agent io)
    = Ret (take (sum_list ns) v, if ns \<noteq> [] \<and> length v \<le> sum_list ns then Some EOF else None)"
proof -
  let ?vs = "map (\<lambda>x. block_view (snd x)) dn" and ?P = "served env c ps (io_world io)"
  obtain r1 agent1 where p: "prepare env ans (ans' # anss) (GetEcosReader key) (io_agent io) = Ret (r1, agent1, None)"
      "fetches env ans (io_world io) meta ?vs ?P" "reading meta ?vs ?P (concat ?vs) r1 agent1"
    using open_stored [OF env ans meta dn refl] by blast
  show ?thesis
    using read_seq_ok [OF p(2,3) ns, of "ans' # anss"] unfolding read_seq_prepared [OF p(1,3)] v by simp
qed

lemma read_closed:
  assumes env: "env_ok env" "bucket_ok (c_bucket env)" "meta_served (c_crush env) c ps" "BlockPgNum c = 100"
    and ans: "answers_ok ans c" "answers_ok ans' c"
    and meta: "GenObjectId (c_ring env) (c_bucket env) key = Ret (ObjId meta)" "\<And>server ctx. a_meta ans' server ctx (ObjId meta) = Inr meta"
      "Term_m meta = Term c" "Blocks meta = map fst dn"
    and dn: "closed_shape env dn" "stored_all env c ps dn io" "concat (concat (map snd dn)) = data" "length data < 2 ^ 62"
    and ns: "list_all (\<lambda>n. n < 2 ^ 62) ns"
  shows "read_seq env ans (ans' # anss) (io_world io) ns (GetEcosReader key) (io_agent io)
    = Ret (take (sum_list ns) (take (length data - lost env (length data)) data @ replicate (lost env (length data)) 0),
        if ns \<noteq> [] \<and> length data \<le> sum_list ns then Some EOF else None)"
proof -
  let ?v = "take (length data - lost env (length data)) data @ replicate (lost env (length data)) 0"
  have r: "ring_ok (c_ring env)" "bufio_size < unat (c_chunkSize env)"
    using env(1) by (simp_all add: env_ok_def bufio_size_def)
  have b: "\<forall>(info, ks) \<in> set dn. length (concat ks) \<le> block_cap env"
    using closed_shape_bound [OF dn(1)] by blast
  have n: "length (concat (concat (map snd dn))) < 2 ^ 62"
    using dn(4) unfolding dn(3) .
  have "lost env (length data) \<le> length data"
    by (auto simp: lost_def Let_def)
  then have "length ?v = length data"
    by simp
  moreover have "?v = concat (map (\<lambda>x. block_view (snd x)) dn)"
    by (rule views_closed [OF r(2) dn(1,3), symmetric])
  ultimately show ?thesis
    using read_stored [OF r(1) env(2-4) ans meta b dn(2) n ns, of ?v anss] by simp
qed

end
