(* ===== verification/Ecos_Factory.thy ===== *)
theory Ecos_Factory
  imports Ecos_Reader
begin

text \<open>
  The factory of readers and writers, \<^verbatim>\<open>client/io/ecos_io.go\<close>, and the client as a whole: an object
  written through a writer of the factory is read back.
\<close>

section \<open>The factory\<close>

record ClientConfig =
  ChunkSize :: u64
  UploadBuffer :: u64
  NodeAddr :: string
  NodePort :: u64
  ConnectType_cc :: ConnectType

definition DefaultConfig :: ClientConfig where
  "DefaultConfig =
     \<lparr>ChunkSize = 2 ^ 20, UploadBuffer = 2 ^ 25, NodeAddr = ''ecos-edge-dev.ecos.svc.cluster.local'', NodePort = 3267,
      ConnectType_cc = ConnectEdge\<rparr>"

record EcosIOFactory =
  f_config :: ClientConfig
  f_bucketInfo :: "BucketInfo option"
  f_io :: IO
  multipartJobs :: "(string, EcosWriter) smap"

text \<open>The cluster the agent starts with: the configured node alone.\<close>

definition configured_cluster :: "ClientConfig \<Rightarrow> ClusterInfo" where
  "configured_cluster conf =
     \<lparr>Term = 0, LeaderInfo = None,
      NodesInfo = [\<lparr>RaftId = 0, Uuid = [], IpAddr = NodeAddr conf, RpcPort = NodePort conf, Capacity = 0, State = ONLINE\<rparr>],
      UpdateTimestamp = None, MetaPgNum = 0, MetaPgSize = 0, BlockPgNum = 0, BlockPgSize = 0, LastTerm = 0\<rparr>"

text \<open>The error of making the pool is ignored; a pool of capacity 0 is the nil pool.\<close>

definition chunk_pool :: "ClientConfig \<Rightarrow> localChunk Pool exec" where
  "chunk_pool conf =
     (if ChunkSize conf = 0 then Panic ''integer divide by zero''
      else let maxChunk = unat (UploadBuffer conf div ChunkSize conf)
           in Ret (case NewPool maxChunk maxChunk of
                     Inr p \<Rightarrow> p
                   | Inl err \<Rightarrow> \<lparr>resources = [], pool_cap = 0, curCount = 0, maxCount = 0\<rparr>))"

definition NewEcosIOFactory ::
    "Answers \<Rightarrow> ClientConfig \<Rightarrow> string \<Rightarrow> string \<Rightarrow> World \<Rightarrow> nat \<Rightarrow> EcosIOFactory result exec" where
  "NewEcosIOFactory ans conf volumeID bucketName wd next =
     exec_bind (chunk_pool conf) (\<lambda>pool.
     exec_bind (ia_Get ans BUCKET_INFO (GetBucketID volumeID bucketName)
         (NewInfoAgent (configured_cluster conf) (ConnectType_cc conf))) (\<lambda>(agent, info, err).
       case err of
         Some e \<Rightarrow> Ret (Inl e)
       | None \<Rightarrow>
           Ret (Inr \<lparr>f_config = conf, f_bucketInfo = GetBucketInfo_base info,
             f_io = \<lparr>io_agent = agent, io_pool = pool, io_world = wd, io_next = next\<rparr>, multipartJobs = []\<rparr>)))"

definition IsConnected :: "EcosIOFactory \<Rightarrow> bool" where
  "IsConnected f \<longleftrightarrow> f_bucketInfo f \<noteq> None"

text \<open>
  What the readers and writers of a factory look up in it.  A bucket without configuration is
  dereferenced by every writer.
\<close>

definition factory_env :: "Libs \<Rightarrow> EcosIOFactory \<Rightarrow> IOEnv exec" where
  "factory_env libs f =
     (case f_bucketInfo f of
        None \<Rightarrow> Panic ''nil pointer dereference''
      | Some b \<Rightarrow>
          (case Config b of
             None \<Rightarrow> Panic ''nil pointer dereference''
           | Some conf \<Rightarrow>
               Ret \<lparr>c_ring = c_ring libs, c_crush = c_crush libs, c_hash = c_hash libs, c_uuid = c_uuid libs,
                    c_bucket = b, c_config = conf, c_chunkSize = ChunkSize (f_config f)\<rparr>))"

definition GetEcosWriter :: "IOEnv \<Rightarrow> Answers \<Rightarrow> string \<Rightarrow> IO \<Rightarrow> (EcosWriter \<times> IO) exec" where
  "GetEcosWriter env ans key io =
     exec_bind (GetCurClusterInfo ans (io_agent io)) (\<lambda>(agent, c).
     exec_bind (client_pipelines (c_crush env) c) (\<lambda>ps.
       Ret (\<lparr>ew_key = key, ew_Status = READING, curChunk = None, reserveChunks = [], chunkCount = 0,
             ew_clusterInfo = c, ew_pipes = ps, ew_blocks = [], curBlock = None, blockCount = 0, finishedBlocks = [],
             writeSize = 0, objHash = (if ObjectHashType (c_config env) = OFF then None else Some []),
             partObject = False, partIDs = []\<rparr>,
            io\<lparr>io_agent := agent\<rparr>)))"

section \<open>An object written and read back\<close>

text \<open>A caller that writes pieces until one fails.\<close>

primrec write_seq :: "IOEnv \<Rightarrow> Answers \<Rightarrow> bytes list \<Rightarrow> EcosWriter \<Rightarrow> IO \<Rightarrow> (EcosWriter \<times> IO \<times> go_error option) exec" where
  "write_seq env ans [] w io = Ret (w, io, None)"
| "write_seq env ans (p # ps) w io =
     exec_bind (ew_Write env ans p w io) (\<lambda>(w, io, n, err).
       if err \<noteq> None then Ret (w, io, err) else write_seq env ans ps w io)"

lemma write_seq_ok:
  assumes env: "env_ok env" "answers_ok ans c"
  shows "writing env c ps x data w io \<Longrightarrow>
    \<exists>w' io'. write_seq env ans ds w io = Ret (w', io', None) \<and> writing env c ps x (data @ concat ds) w' io' \<and> ew_key w' = ew_key w"
proof (induction ds arbitrary: data w io)
  case (Cons d ds)
  obtain w1 io1 where w1: "ew_Write env ans d w io = Ret (w1, io1, length d, None)" "writing env c ps x (data @ d) w1 io1" "ew_key w1 = ew_key w"
    using ew_Write_ok [OF env Cons.prems] by blast
  then show ?case
    using Cons.IH [OF w1(2)] by simp
qed simp

text \<open>A client of a cluster: its agent, its pool and the servers.\<close>

definition client_ok :: "IOEnv \<Rightarrow> ClusterInfo \<Rightarrow> ClusterPipelines \<Rightarrow> IO \<Rightarrow> bool" where
  "client_ok env c ps io \<longleftrightarrow> env_ok env \<and> bucket_ok (c_bucket env) \<and> meta_served (c_crush env) c ps \<and> BlockPgNum c = 100
     \<and> agent_ok c (io_agent io) \<and> cluster_stores (w_servers (io_world io)) c ps
     \<and> pool_ok (blank env) 0 (io_pool io) \<and> chunks_per_block env \<le> maxCount (io_pool io)"

lemma GetEcosWriter_ok:
  assumes "client_ok env c ps io" "answers_ok ans c"
  shows "\<exists>w. GetEcosWriter env ans key io = Ret (w, io) \<and> writing env c ps 0 [] w io \<and> ew_key w = key"
proof -
  have p: "NewClusterPipelines (c_crush env) c = Inr ps" "agent_ok c (io_agent io)" "0 < chunks_per_block env"
    using assms(1) by (simp_all add: client_ok_def meta_served_def env_ok_def)
  let ?w = "\<lparr>ew_key = key, ew_Status = READING, curChunk = None, reserveChunks = [], chunkCount = 0,
             ew_clusterInfo = c, ew_pipes = ps, ew_blocks = [], curBlock = None, blockCount = 0, finishedBlocks = [],
             writeSize = 0, objHash = (if ObjectHashType (c_config env) = OFF then None else Some []),
             partObject = False, partIDs = []\<rparr>"
  have "GetEcosWriter env ans key io = Ret (?w, io)"
    using GetCurClusterInfo_ok [OF assms(2) p(2)] p(1) by (simp add: GetEcosWriter_def client_pipelines_def)
  moreover have "winv env c ps 0 [] [] ?w io"
    using assms(1) p(3) by (simp add: winv_def done_inv_def full_blocks_def in_use_def client_ok_def sm_load_def)
  moreover have "written [] [] ?w = []"
    by (simp add: written_def)
  ultimately show ?thesis
    unfolding writing_def by (intro exI [of _ ?w] conjI exI [of _ "[]"]) simp_all
qed

text \<open>What is read back of an object: its bytes, with those that stayed in a buffer replaced by zeros.\<close>

definition object_view :: "IOEnv \<Rightarrow> bytes \<Rightarrow> bytes" where
  "object_view env data = take (length data - lost env (length data)) data @ replicate (lost env (length data)) 0"

section \<open>An example\<close>

definition client_cluster :: ClusterInfo where
  "client_cluster = example_cluster\<lparr>MetaPgNum := 10, BlockPgNum := 100\<rparr>"

definition client_pipes :: ClusterPipelines where
  "client_pipes = \<lparr>Term_cp = 7, MetaPipelines = GenMetaPipelines take_crush client_cluster,
     BlockPipelines = GenBlockPipelines take_crush client_cluster\<rparr>"

definition client_gaia :: "u64 \<Rightarrow> Gaia" where
  "client_gaia n = (example_gaia n)\<lparr>g_watcher := (g_watcher (example_gaia n))\<lparr>
     wmoon := example_wmoon\<lparr>infoStorageRegister := fst (reg_Update (IBase (BaseInfo_ClusterInfo client_cluster)) (infoStorageRegister example_wmoon))\<rparr>,
     currentClusterInfo := client_cluster\<rparr>\<rparr>"

definition client_net :: servers where
  "client_net n = (if n \<in> {1, 2} then Some (client_gaia n) else None)"

definition client_answers :: Answers where
  "client_answers =
     \<lparr>a_info = (\<lambda>m t i. Inr (if t = CLUSTER_INFO then BaseInfo_ClusterInfo client_cluster
        else if i = ''1'' then BaseInfo_NodeInfo (example_node 1) else BaseInfo_NodeInfo (example_node 2))),
      a_info_cloud = (\<lambda>t i. Inl (Err ConnectionIssue)), a_cluster = (\<lambda>m. Inr client_cluster),
      a_record = (\<lambda>server ctx meta. Inr \<lparr>Status_r = Result_OK, Message = []\<rparr>),
      a_meta = (\<lambda>server ctx i. Inl (Err MetaNotExist))\<rparr>"

definition client_env :: IOEnv where
  "client_env =
     \<lparr>c_ring = first_ring, c_crush = take_crush, c_hash = (\<lambda>t bs. take 16 bs), c_uuid = (\<lambda>i. replicate (Suc i) (CHR ''u'')),
      c_bucket = example_bucket, c_config = the (Config example_bucket), c_chunkSize = ChunkSize DefaultConfig\<rparr>"

definition client_io :: IO where
  "client_io =
     \<lparr>io_agent = NewInfoAgent client_cluster ConnectEdge,
      io_pool = \<lparr>resources = [], pool_cap = 32, curCount = 0, maxCount = 32\<rparr>,
      io_world = \<lparr>w_servers = client_net, w_cloud = None, w_disk = [], w_cloud_disk = []\<rparr>, io_next = 0\<rparr>"

lemma client_answers_ok: "answers_ok client_answers client_cluster"
proof -
  have "FormatUint 1 = ''1''" "FormatUint 2 = ''2''"
    by code_simp+
  then show ?thesis
    by (auto simp: answers_ok_def client_answers_def client_cluster_def example_cluster_def example_node_def)
qed

lemma client_agent_ok: "agent_ok client_cluster (io_agent client_io)"
proof -
  have "\<exists>e. reg_Get (GetStorageRegister :: unit StorageRegister) t i = Inl e" for t i
    by (cases t) (simp_all add: reg_Get_def mis_Get_def GetStorageRegister_def registerAllStorage_def reg_Register_def
        sm_load_def sm_store_def NewMemoryInfoStorage_def)
  then show ?thesis
    unfolding agent_ok_def cache_truthful_def by (simp add: client_io_def NewInfoAgent_def reg_ok_GetStorageRegister) (metis Inl_Inr_False)
qed

lemma client_pipeline: "RaftIds (gen_pipeline take_crush client_cluster 2 i) = [1, 2]"
  by (simp add: gen_pipeline_def take_crush_def crush_children_def client_cluster_def example_cluster_def example_node_def)

lemma client_pipelines_ok:
  "NewClusterPipelines take_crush client_cluster = Inr client_pipes"
  "length (BlockPipelines client_pipes) = 100" "p \<in> set (BlockPipelines client_pipes) \<Longrightarrow> RaftIds p = [1, 2]"
  "p \<in> set (MetaPipelines client_pipes) \<Longrightarrow> RaftIds p = [1, 2]"
proof -
  have u: "uint64_of_i32 100 = 100" "uint64_of_i32 10 = 10" "uint64_of_i32 2 = 2"
    by (simp_all add: uint64_of_i32_def)
  have n: "length (crush_children client_cluster) = 2"
    by (simp add: crush_children_def client_cluster_def example_cluster_def example_node_def)
  have g: "GenBlockPipelines take_crush client_cluster = map (\<lambda>i. gen_pipeline take_crush client_cluster 2 (word_of_nat i)) [1..<Suc 100]"
      "GenMetaPipelines take_crush client_cluster = map (\<lambda>i. gen_pipeline take_crush client_cluster 2 (word_of_nat i)) [1..<Suc 10]"
    using n u by (simp_all add: GenBlockPipelines_def GenMetaPipelines_def GenPipelines_def client_cluster_def example_cluster_def del: upt_Suc)
  show "NewClusterPipelines take_crush client_cluster = Inr client_pipes"
    using g by (simp add: NewClusterPipelines_def client_pipes_def client_cluster_def example_cluster_def del: upt_Suc)
  show "length (BlockPipelines client_pipes) = 100"
    using g by (simp add: client_pipes_def del: upt_Suc)
  show "p \<in> set (BlockPipelines client_pipes) \<Longrightarrow> RaftIds p = [1, 2]" "p \<in> set (MetaPipelines client_pipes) \<Longrightarrow> RaftIds p = [1, 2]"
    using g by (auto simp: client_pipes_def client_pipeline simp del: upt_Suc)
qed

lemma client_gaia_sel [simp]:
  "g_self (client_gaia n) = n" "g_done (client_gaia n) = False" "g_chunkSize (client_gaia n) = 4096"
  "GetClusterInfoByTerm (g_watcher (client_gaia n)) 7 = Ret (Inr client_cluster)" "GetCurrentClusterInfo (g_watcher (client_gaia n)) = client_cluster"
proof -
  show "GetClusterInfoByTerm (g_watcher (client_gaia n)) 7 = Ret (Inr client_cluster)"
    by code_simp
qed (simp_all add: client_gaia_def example_gaia_def g_self_def example_node_def GetCurrentClusterInfo_def)

lemma client_serves: "RaftIds p = [1, 2] \<Longrightarrow> pipeline_serves client_net client_cluster p"
  by (auto simp: pipeline_serves_def can_store_def serving_def client_net_def getNodeInfo_def client_cluster_def example_cluster_def example_node_def)

lemma client_example_ok: "client_ok client_env client_cluster client_pipes client_io"
proof -
  have "inj (\<lambda>i. replicate (Suc i) (CHR ''u''))"
    by (rule injI) (metis length_replicate nat.inject)
  moreover have "good_comp (replicate (Suc i) (CHR ''u''))" for i
    by (simp add: good_comp_def)
  ultimately have "env_ok client_env"
    by (simp add: env_ok_def client_env_def first_ring_ok DefaultConfig_def chunks_per_block_def example_bucket_def del: replicate_Suc)
  moreover have "cluster_stores client_net client_cluster client_pipes"
    using client_pipelines_ok(2,3) client_serves by (simp add: cluster_stores_def list_all_iff)
  moreover have "meta_served take_crush client_cluster client_pipes"
    using client_pipelines_ok(1,4) by (simp add: meta_served_def list_all_iff client_cluster_def example_cluster_def example_node_def)
  moreover have "chunks_per_block client_env \<le> 32"
    by (simp add: chunks_per_block_def client_env_def DefaultConfig_def example_bucket_def)
  ultimately show ?thesis
    using client_agent_ok
    by (simp add: client_ok_def example_bucket_ok pool_ok_def)
      (simp add: client_io_def client_env_def example_bucket_ok client_cluster_def)
qed

text \<open>
  C3: A client of a cluster that answers and stores writes an object in any number of pieces and
  closes the writer.  Reading the object back with buffers of any sizes returns its bytes in order
  and the end of the object exactly when all of them have been read, except that a last chunk of at
  most 4096 bytes, which stays in the write buffers of the nodes, is read as zeros.
\<close>

theorem put_get_object:
  assumes client: "client_ok env c ps io" and ans: "answers_ok ans c" "\<forall>server ctx m. \<exists>r. a_record ans server ctx m = Inr r"
    and data: "data = concat ds" "length data < 2 ^ 62"
  shows "\<exists>w1 io1 w2 io2 w3 io3 meta. GetEcosWriter env ans key io = Ret (w1, io1)
    \<and> write_seq env ans ds w1 io1 = Ret (w2, io2, None)
    \<and> ew_Close env ans [ans] now w2 io2 = Ret (w3, io3, Some meta, None)
    \<and> ObjSize meta = word_of_nat (length data)
    \<and> (\<forall>rans ns. answers_ok rans c \<longrightarrow> (\<forall>server ctx. a_meta rans server ctx (ObjId meta) = Inr meta) \<longrightarrow> list_all (\<lambda>n. n < 2 ^ 62) ns
        \<longrightarrow> read_seq env rans [rans] (io_world io3) ns (GetEcosReader key) (io_agent io3)
            = Ret (take (sum_list ns) (object_view env data), if ns \<noteq> [] \<and> length data \<le> sum_list ns then Some EOF else None))"
proof -
  have c: "env_ok env" "bucket_ok (c_bucket env)" "meta_served (c_crush env) c ps" "BlockPgNum c = 100"
    using client by (simp_all add: client_ok_def)
  obtain w1 where w1: "GetEcosWriter env ans key io = Ret (w1, io)" "writing env c ps 0 [] w1 io" "ew_key w1 = key"
    using GetEcosWriter_ok [OF client ans(1)] by blast
  obtain w2 io2 where w2: "write_seq env ans ds w1 io = Ret (w2, io2, None)" "writing env c ps 0 data w2 io2" "ew_key w2 = key"
    using write_seq_ok [OF c(1) ans(1) w1(2), of ds] w1(3) data(1) by auto
  have acc: "\<And>server ctx m. \<exists>r. a_record ans server ctx m = Inr r"
    using ans(2) by blast
  obtain w3 io3 meta dn where w3: "ew_Close env ans [ans] now w2 io2 = Ret (w3, io3, Some meta, None)"
      "Blocks meta = map fst dn" "ObjSize meta = word_of_nat (length data)" "Term_m meta = Term c"
      "GenObjectId (c_ring env) (c_bucket env) key = Ret (ObjId meta)"
      "closed_shape env dn" "concat (concat (map snd dn)) = data" "stored_all env c ps dn io3"
    using ew_Close_ok [OF c(1,2) ans(1) ans(1) c(3) acc w2(2), of "[]" now] w2(3) by auto
  have "read_seq env rans [rans] (io_world io3) ns (GetEcosReader key) (io_agent io3)
      = Ret (take (sum_list ns) (object_view env data), if ns \<noteq> [] \<and> length data \<le> sum_list ns then Some EOF else None)"
    if r: "answers_ok rans c" "\<forall>server ctx. a_meta rans server ctx (ObjId meta) = Inr meta" "list_all (\<lambda>n. n < 2 ^ 62) ns" for rans ns
    unfolding object_view_def
    using r by (intro read_closed [OF c r(1,1) w3(5) _ w3(4,2,6,8,7) data(2) r(3)]) blast
  then show ?thesis
    using w1(1) w2(1) w3(1,3) by blast
qed

lemma answers_ok_meta [simp]: "answers_ok (ans\<lparr>a_meta := f\<rparr>) c = answers_ok ans c"
  by (simp add: answers_ok_def)

theorem put_get_object_witness:
  "\<exists>w1 io1 w2 io2 w3 io3 meta. GetEcosWriter client_env client_answers ''k'' client_io = Ret (w1, io1)
    \<and> write_seq client_env client_answers [[1, 2, 3], replicate 5000 7] w1 io1 = Ret (w2, io2, None)
    \<and> ew_Close client_env client_answers [client_answers] \<lparr>Seconds = 0, Nanos = 0\<rparr> w2 io2 = Ret (w3, io3, Some meta, None)
    \<and> read_seq client_env (client_answers\<lparr>a_meta := \<lambda>server ctx i. Inr meta\<rparr>) [client_answers\<lparr>a_meta := \<lambda>server ctx i. Inr meta\<rparr>]
        (io_world io3) [4000, 2000] (GetEcosReader ''k'') (io_agent io3)
      = Ret ([1, 2, 3] @ replicate 5000 7, Some EOF)"
proof -
  let ?data = "concat [[1, 2, 3 :: byte], replicate 5000 7]"
  have len: "length ?data = 5003"
    by (simp add: length_replicate)
  have small: "length ?data < 2 ^ 62"
    unfolding len by simp
  have "lost client_env (length ?data) = 0"
    unfolding len by (simp add: lost_def client_env_def DefaultConfig_def bufio_size_def)
  then have view: "object_view client_env ?data = [1, 2, 3] @ replicate 5000 7"
    unfolding object_view_def by (simp del: replicate.simps)
  have acc: "\<forall>server ctx m. \<exists>r. a_record client_answers server ctx m = Inr r"
    by (simp add: client_answers_def)
  obtain w1 io1 w2 io2 w3 io3 meta where e: "GetEcosWriter client_env client_answers ''k'' client_io = Ret (w1, io1)"
      "write_seq client_env client_answers [[1, 2, 3], replicate 5000 7] w1 io1 = Ret (w2, io2, None)"
      "ew_Close client_env client_answers [client_answers] \<lparr>Seconds = 0, Nanos = 0\<rparr> w2 io2 = Ret (w3, io3, Some meta, None)"
      "\<forall>rans ns. answers_ok rans client_cluster \<longrightarrow> (\<forall>server ctx. a_meta rans server ctx (ObjId meta) = Inr meta) \<longrightarrow> list_all (\<lambda>n. n < 2 ^ 62) ns
        \<longrightarrow> read_seq client_env rans [rans] (io_world io3) ns (GetEcosReader ''k'') (io_agent io3)
            = Ret (take (sum_list ns) (object_view client_env ?data), if ns \<noteq> [] \<and> length ?data \<le> sum_list ns then Some EOF else None)"
    using put_get_object [OF client_example_ok client_answers_ok acc refl, of "[[1, 2, 3], replicate 5000 7]" "''k''" "\<lparr>Seconds = 0, Nanos = 0\<rparr>"] small by blast
  have "read_seq client_env (client_answers\<lparr>a_meta := \<lambda>server ctx i. Inr meta\<rparr>) [client_answers\<lparr>a_meta := \<lambda>server ctx i. Inr meta\<rparr>]
        (io_world io3) [4000, 2000] (GetEcosReader ''k'') (io_agent io3)
      = Ret (take (sum_list [4000, 2000]) ([1, 2, 3] @ replicate 5000 7), if length ?data \<le> sum_list [4000, 2000] then Some EOF else None)"
    using e(4) [rule_format, of "client_answers\<lparr>a_meta := \<lambda>server ctx i. Inr meta\<rparr>" "[4000, 2000]"] client_answers_ok view
    by (simp del: read_seq.simps)
  moreover have "take (sum_list [4000, 2000]) ([1, 2, 3 :: byte] @ replicate 5000 7) = [1, 2, 3] @ replicate 5000 7"
    by (rule take_all) (simp add: length_replicate)
  moreover have "length ?data \<le> sum_list [4000, 2000]"
    unfolding len by simp
  ultimately show ?thesis
    using e(1-3) by (intro exI conjI) (assumption, assumption, assumption, simp only: if_True)
qed

end
