(* ===== verification/Ecos_Parts.thy ===== *)
theory Ecos_Parts
  imports Ecos_Factory
begin

text \<open>
  Multipart uploads: the second half of \<^verbatim>\<open>client/io/ecos_writer.go\<close> and the jobs of
  \<^verbatim>\<open>client/io/ecos_io.go\<close>.  The writer of a multipart upload is shared through the table of
  jobs: a caller takes it from the table and, in the model, puts it back changed.  A part is read
  from a request body, which is the list of what its \<^verbatim>\<open>Read\<close> calls return; a body that neither ends
  nor fails keeps the caller waiting.  The upload of a part, started in the background, is done at
  once.  Two blocks are the same object when they are equal: every uploaded block has its own
  identifier.
\<close>

section \<open>Jobs of a factory\<close>

definition CreateMultipartUploadJob ::
    "Libs \<Rightarrow> Answers \<Rightarrow> string \<Rightarrow> EcosIOFactory \<Rightarrow> (EcosIOFactory \<times> string) exec" where
  "CreateMultipartUploadJob libs ans key f =
     exec_bind (factory_env libs f) (\<lambda>env.
     exec_bind (GetEcosWriter env ans key (f_io f)) (\<lambda>(w, io).
       let uploadId = c_uuid libs (io_next io)
       in Ret (f\<lparr>f_io := io\<lparr>io_next := io_next io + 1\<rparr>,
                multipartJobs := sm_store uploadId (w\<lparr>partObject := True\<rparr>) (multipartJobs f)\<rparr>, uploadId)))"

definition GetMultipartUploadWriter :: "string \<Rightarrow> EcosIOFactory \<Rightarrow> EcosWriter result" where
  "GetMultipartUploadWriter jobID f =
     (case sm_load (multipartJobs f) jobID of None \<Rightarrow> Inl (Err NoSuchUpload) | Some w \<Rightarrow> Inr w)"

section \<open>Parts\<close>

text \<open>Insertion into the increasing list of part numbers, and whether the number is new.\<close>

primrec insert_part :: "i32 \<Rightarrow> i32 list \<Rightarrow> i32 list \<times> bool" where
  "insert_part p [] = ([p], True)"
| "insert_part p (i # is) =
     (if p = i then (i # is, False)
      else if p <s i then (p # i # is, True)
      else let (is, fresh) = insert_part p is in (i # is, fresh))"

definition addPartID :: "i32 \<Rightarrow> EcosWriter \<Rightarrow> EcosWriter \<times> bool" where
  "addPartID p w = (let (is, fresh) = insert_part p (partIDs w) in (w\<lparr>partIDs := is\<rparr>, fresh))"

text \<open>The node of a block, with the error of the lookup.\<close>

definition block_node :: "Answers \<Rightarrow> Block \<Rightarrow> IO \<Rightarrow> (IO \<times> NodeInfo result) exec" where
  "block_node ans b io =
     exec_bind (GetBlockPGNodeID (bl_pipes b) (PgId_bi (bl_info b))) (\<lambda>ids.
     exec_bind (first_node ids) (\<lambda>i.
     exec_bind (ia_Get ans NODE_INFO i (io_agent io)) (\<lambda>(agent, info, err).
       case err of
         Some e \<Rightarrow> Ret (io\<lparr>io_agent := agent\<rparr>, Inl e)
       | None \<Rightarrow>
           (case GetNodeInfo_base info of
              None \<Rightarrow> Panic ''nil pointer dereference''
            | Some n \<Rightarrow> Ret (io\<lparr>io_agent := agent\<rparr>, Inr n)))))"

text \<open>An earlier upload of the same part is deleted, and deleted once more in the background.\<close>

definition replace_part :: "Answers \<Rightarrow> i32 \<Rightarrow> EcosWriter \<Rightarrow> IO \<Rightarrow> (EcosWriter \<times> IO \<times> go_error option) exec" where
  "replace_part ans p w io =
     (case sm_load (ew_blocks w) (sint p) of
        None \<Rightarrow> Panic ''nil pointer dereference''
      | Some victim \<Rightarrow>
          exec_bind (block_node ans victim io) (\<lambda>(io, res).
            case res of
              Inl e \<Rightarrow> Ret (w, io, Some e)
            | Inr node \<Rightarrow>
                exec_bind (block_Abort node victim (io_world io)) (\<lambda>(wd, err).
                  let io = io\<lparr>io_world := wd\<rparr>
                  in if err \<noteq> None then Ret (w, io, err)
                     else exec_bind (abortBlock ans victim io) (\<lambda>io.
                       Ret (w\<lparr>ew_blocks := sm_delete (sint p) (ew_blocks w)\<rparr>, io, None)))))"

text \<open>
  Reading the body: the chunks, also those before an error, the input of the object hash and the
  error.  Without an object hash there is no hash to write to.
\<close>

primrec read_body ::
    "nat \<Rightarrow> (bytes \<times> go_error option) list \<Rightarrow> bytes option \<Rightarrow> (localChunk list \<times> bytes \<times> go_error option) exec" where
  "read_body n [] hash = exec.Blocks ''waiting for the body''"
| "read_body n (r # rs) hash =
     (case r of (bs, err) \<Rightarrow>
        if n < length bs then Panic ''slice bounds out of range''
        else case hash of
            None \<Rightarrow> Panic ''nil pointer dereference''
          | Some h \<Rightarrow>
              (case err of
                 Some e \<Rightarrow> Ret ([\<lparr>cdata = bs, freeSize = 0\<rparr>], h @ bs, if e = EOF then None else Some e)
               | None \<Rightarrow>
                   exec_bind (read_body n rs (Some (h @ bs))) (\<lambda>(cs, h, err). Ret (\<lparr>cdata = bs, freeSize = 0\<rparr> # cs, h, err))))"

definition set_block :: "i32 \<Rightarrow> Block \<Rightarrow> EcosWriter \<Rightarrow> EcosWriter" where
  "set_block p b w = w\<lparr>ew_blocks := sm_store (sint p) b (ew_blocks w)\<rparr>"

definition WritePart ::
    "IOEnv \<Rightarrow> Answers \<Rightarrow> i32 \<Rightarrow> (bytes \<times> go_error option) list \<Rightarrow> EcosWriter \<Rightarrow> IO \<Rightarrow> (EcosWriter \<times> IO \<times> string result) exec" where
  "WritePart env ans p body w io =
     (if \<not> partObject w then Ret (w, io, Inl (Err MethodNotAllowed))
      else if ew_Status w \<noteq> READING then Ret (w, io, Inl (Err RepeatedClose))
      else if sint p < 1 \<or> 10000 < sint p then Ret (w, io, Inl (Err InvalidArgument))
      else
        let (w, fresh) = addPartID p w
        in exec_bind (if fresh then Ret (w, io, None) else replace_part ans p w io) (\<lambda>(w, io, err).
             case err of
               Some e \<Rightarrow> Ret (w, io, Inl e)
             | None \<Rightarrow>
                 let b = (getNewBlock w)\<lparr>bl_info := zero_info\<lparr>PartId := p\<rparr>\<rparr>
                 in exec_bind (read_body (unat (c_chunkSize env)) body (objHash w)) (\<lambda>(cs, h, err).
                      let b = b\<lparr>bl_chunks := cs\<rparr>; w = w\<lparr>objHash := Some h\<rparr>
                      in case err of
                           Some e \<Rightarrow> Ret (set_block p b w, io, Inl e)
                         | None \<Rightarrow>
                             let b = b\<lparr>bl_info := (bl_info b)\<lparr>BlockSize_bi := word_of_nat (length (concat (map cdata cs)))\<rparr>,
                                       bl_status := UPLOADING\<rparr>
                             in exec_bind (updateBlockInfo (c_hash env) (c_ring env) (c_uuid env (io_next io)) b) (\<lambda>(b, err).
                                let io = io\<lparr>io_next := io_next io + 1\<rparr>
                                in case err of
                                     Some e \<Rightarrow> Ret (set_block p b w, io, Inl e)
                                   | None \<Rightarrow>
                                       exec_bind (uploadBlock env ans b io) (\<lambda>(b, finished, io).
                                         Ret (set_block p b (w\<lparr>finishedBlocks := finishedBlocks w @ (if finished then [b] else [])\<rparr>),
                                              io, Inr (BlockId (bl_info b))))))))"

record Part =
  ETag :: string
  PartNumber :: i32
  Size_p :: int

definition part_block :: "i32 \<Rightarrow> EcosWriter \<Rightarrow> Block exec" where
  "part_block p w =
     (case sm_load (ew_blocks w) (sint p) of None \<Rightarrow> Panic ''nil pointer dereference'' | Some b \<Rightarrow> Ret b)"

primrec part_blocks :: "EcosWriter \<Rightarrow> i32 list \<Rightarrow> Block list exec" where
  "part_blocks w [] = Ret []"
| "part_blocks w (p # ps) =
     exec_bind (part_block p w) (\<lambda>b. exec_bind (part_blocks w ps) (\<lambda>bs. Ret (b # bs)))"

definition ListParts :: "EcosWriter \<Rightarrow> Part list exec" where
  "ListParts w =
     exec_bind (part_blocks w (partIDs w)) (\<lambda>bs.
       Ret (map2 (\<lambda>p b. \<lparr>ETag = BlockId (bl_info b), PartNumber = p, Size_p = sint (BlockSize_bi (bl_info b))\<rparr>) (partIDs w) bs))"

definition GetPartBlockInfo :: "i32 \<Rightarrow> EcosWriter \<Rightarrow> BlockInfo result" where
  "GetPartBlockInfo p w =
     (if \<not> partObject w then Inl (Err MethodNotAllowed)
      else if ew_Status w \<noteq> READING then Inl (Err MethodNotAllowed)
      else if sint p < 0 \<or> int (length (partIDs w)) \<le> sint p then Inl (Err InvalidArgument)
      else case sm_load (ew_blocks w) (sint p) of
             None \<Rightarrow> Inl (Err InvalidPart)
           | Some b \<Rightarrow> if bl_status b \<noteq> FINISHED then Inl (Err InvalidObjectState) else Inr (bl_info b))"

section \<open>Completing an upload\<close>

text \<open>\<^verbatim>\<open>[]byte(s)\<close> of a string.\<close>

definition bytes_of :: "string \<Rightarrow> bytes" where
  "bytes_of s = map (\<lambda>c. word_of_nat (of_char c)) s"

definition genPartialHash :: "IOEnv \<Rightarrow> EcosWriter \<Rightarrow> (EcosWriter \<times> string) exec" where
  "genPartialHash env w =
     (if ObjectHashType (c_config env) = OFF then Ret (w, [])
      else case objHash w of
          None \<Rightarrow> Panic ''nil pointer dereference''
        | Some _ \<Rightarrow>
            exec_bind (part_blocks w (partIDs w)) (\<lambda>bs.
              let w = w\<lparr>objHash := Some (concat (map (\<lambda>b. bytes_of (BlockHash (bl_info b))) bs))\<rparr>
              in exec_bind (object_hash env w) (\<lambda>h. Ret (w, h))))"

definition genPartialMeta :: "IOEnv \<Rightarrow> Timestamp \<Rightarrow> EcosWriter \<Rightarrow> (EcosWriter \<times> ObjectMeta) exec" where
  "genPartialMeta env now w =
     exec_bind (GenObjPgID (c_ring env) (c_bucket env) (ew_key w) 10) (\<lambda>pgID.
     exec_bind (part_blocks w (partIDs w)) (\<lambda>bs.
     exec_bind (GenObjectId (c_ring env) (c_bucket env) (ew_key w)) (\<lambda>objID.
     exec_bind (genPartialHash env w) (\<lambda>(w, h).
       Ret (w, \<lparr>ObjId = objID, Status = STATUS_UNKNOWN, Position = POSITION_UNKNOWN,
            ObjSize = sum_list (map (\<lambda>b. BlockSize_bi (bl_info b)) bs), UpdateTime = Some now, ObjHash = h, PgId = pgID,
            Blocks = map bl_info bs, Term_m = Term (ew_clusterInfo w)\<rparr>)))))"

text \<open>Every attempt generates the metadata anew, at its own time.\<close>

primrec commit_partial ::
    "IOEnv \<Rightarrow> (Timestamp \<times> Answers) list \<Rightarrow> EcosWriter \<Rightarrow> IO \<Rightarrow> (EcosWriter \<times> IO \<times> ObjectMeta option \<times> go_error option) exec" where
  "commit_partial env [] w io = exec.Blocks ''waiting for an answer''"
| "commit_partial env (a # as) w io =
     (case a of (now, ans) \<Rightarrow>
       exec_bind (genPartialMeta env now w) (\<lambda>(w, meta).
       exec_bind (SubmitMeta (c_ring env) (c_crush env) ans (c_bucket env) meta (io_agent io)) (\<lambda>(agent, meta, res).
         let io = io\<lparr>io_agent := agent\<rparr>
         in case res of
              Inr _ \<Rightarrow> Ret (w, io, Some meta, None)
            | Inl err \<Rightarrow>
                (if term_refused err
                 then exec_bind (UpdateCurClusterInfo ans agent) (\<lambda>(agent, err).
                        let io = io\<lparr>io_agent := agent\<rparr>
                        in if err \<noteq> None then Ret (w, io, Some meta, err) else commit_partial env as w io)
                 else Ret (w, io, Some meta, Some err)))))"

definition CommitPartialMeta ::
    "IOEnv \<Rightarrow> (Timestamp \<times> Answers) list \<Rightarrow> EcosWriter \<Rightarrow> IO \<Rightarrow> (EcosWriter \<times> IO \<times> ObjectMeta option \<times> go_error option) exec" where
  "CommitPartialMeta env as w io =
     (if \<not> partObject w then Ret (w, io, None, Some (Err MethodNotAllowed)) else commit_partial env as w io)"

text \<open>The check of the given part numbers; the numbers that are waited for.\<close>

primrec check_parts :: "EcosWriter \<Rightarrow> i32 list \<Rightarrow> i32 list result" where
  "check_parts w [] = Inr []"
| "check_parts w (p # ps) =
     (if sint p < 1 \<or> 10000 < sint p then Inl (Err InvalidArgument)
      else if sm_load (ew_blocks w) (sint p) = None then Inl (Err InvalidPart)
      else case check_parts w ps of Inl e \<Rightarrow> Inl e | Inr qs \<Rightarrow> Inr (p # qs))"

text \<open>
  Receiving finished blocks until as many as the given parts have come; a part counts once, and a
  block that was replaced does not count.
\<close>

fun wait_parts :: "(int, Block) smap \<Rightarrow> Block list \<Rightarrow> nat \<Rightarrow> i32 list \<Rightarrow> Block list exec" where
  "wait_parts m fs 0 pend = Ret fs"
| "wait_parts m [] (Suc n) pend = exec.Blocks ''receive on an empty channel''"
| "wait_parts m (b # fs) (Suc n) pend =
     (let p = PartId (bl_info b)
      in if sm_load m (sint p) = Some b \<and> p \<in> set pend then wait_parts m fs n (removeAll p pend)
         else wait_parts m fs (Suc n) pend)"

definition CloseMultiPart ::
    "IOEnv \<Rightarrow> (Timestamp \<times> Answers) list \<Rightarrow> i32 list \<Rightarrow> EcosWriter \<Rightarrow> IO
     \<Rightarrow> (EcosWriter \<times> IO \<times> ObjectMeta option \<times> string result) exec" where
  "CloseMultiPart env as parts w io =
     (if \<not> partObject w then Ret (w, io, None, Inl (Err MethodNotAllowed))
      else if ew_Status w \<noteq> READING then Ret (w, io, None, Inl (Err RepeatedClose))
      else
        let w = w\<lparr>ew_Status := UPLOADING\<rparr>
        in case check_parts w parts of
             Inl e \<Rightarrow> Ret (w, io, None, Inl e)
           | Inr pend \<Rightarrow>
               exec_bind (wait_parts (ew_blocks w) (finishedBlocks w) (length parts) pend) (\<lambda>fs.
               exec_bind (CommitPartialMeta env as (w\<lparr>finishedBlocks := fs\<rparr>) io) (\<lambda>(w, io, meta, err).
                 case err of
                   Some e \<Rightarrow> Ret (w, io, meta, Inl e)
                 | None \<Rightarrow>
                     exec_bind (object_hash env w) (\<lambda>etag. Ret (w\<lparr>ew_Status := FINISHED\<rparr>, io, meta, Inr etag)))))"

text \<open>The parts that could not be deleted, with the last error.\<close>

primrec abort_parts ::
    "Answers \<Rightarrow> i32 list \<Rightarrow> EcosWriter \<Rightarrow> IO \<Rightarrow> (EcosWriter \<times> IO \<times> i32 list \<times> go_error option) exec" where
  "abort_parts ans [] w io = Ret (w, io, [], None)"
| "abort_parts ans (p # ps) w io =
     exec_bind (part_block p w) (\<lambda>b.
     exec_bind (block_node ans b io) (\<lambda>(io, res).
     exec_bind (case res of
                  Inl e \<Rightarrow> Ret (w, io, Some e)
                | Inr node \<Rightarrow>
                    exec_bind (block_Abort node b (io_world io)) (\<lambda>(wd, err).
                      let io = io\<lparr>io_world := wd\<rparr>
                      in if err \<noteq> None then Ret (w, io, err) else Ret (set_block p (b\<lparr>bl_status := ABORTED\<rparr>) w, io, None)))
       (\<lambda>(w, io, e).
          exec_bind (abort_parts ans ps w io) (\<lambda>(w, io, failed, err).
            Ret (w, io, if e = None then failed else p # failed, if err = None then e else err)))))"

definition AbortMultiPart :: "Answers \<Rightarrow> EcosWriter \<Rightarrow> IO \<Rightarrow> (EcosWriter \<times> IO \<times> go_error option) exec" where
  "AbortMultiPart ans w io =
     (if \<not> partObject w then Ret (w, io, Some (Err MethodNotAllowed))
      else if ew_Status w \<noteq> READING then Ret (w, io, Some (Err RepeatedClose))
      else exec_bind (abort_parts ans (partIDs w) (w\<lparr>ew_Status := ABORTED\<rparr>) io) (\<lambda>(w, io, failed, err).
        Ret (w\<lparr>partIDs := failed\<rparr>, io, err)))"

section \<open>Jobs\<close>

definition put_job :: "string \<Rightarrow> EcosWriter \<Rightarrow> IO \<Rightarrow> EcosIOFactory \<Rightarrow> EcosIOFactory" where
  "put_job jobID w io f = f\<lparr>f_io := io, multipartJobs := sm_store jobID w (multipartJobs f)\<rparr>"

definition drop_job :: "string \<Rightarrow> EcosIOFactory \<Rightarrow> EcosIOFactory" where
  "drop_job jobID f = f\<lparr>multipartJobs := sm_delete jobID (multipartJobs f)\<rparr>"

text \<open>A job is aborted like an ordinary writer, not like a multipart one.\<close>

definition AbortMultipartUploadJob :: "Answers \<Rightarrow> string \<Rightarrow> EcosIOFactory \<Rightarrow> (EcosIOFactory \<times> go_error option) exec" where
  "AbortMultipartUploadJob ans jobID f =
     (case GetMultipartUploadWriter jobID f of
        Inl e \<Rightarrow> Ret (f, Some e)
      | Inr w \<Rightarrow>
          exec_bind (ew_Abort ans w (f_io f)) (\<lambda>(w, io, err).
            let f = put_job jobID w io f
            in if err \<noteq> None then Ret (f, err) else Ret (drop_job jobID f, None)))"

text \<open>The parts have to be in increasing order; equal neighbours pass.\<close>

definition parts_ordered :: "i32 list \<Rightarrow> bool" where
  "parts_ordered ps \<longleftrightarrow> list_all (\<lambda>(p, q). \<not> q <s p) (zip (0 # ps) ps)"

definition CompleteMultipartUploadJob ::
    "IOEnv \<Rightarrow> (Timestamp \<times> Answers) list \<Rightarrow> string \<Rightarrow> i32 list \<Rightarrow> EcosIOFactory
     \<Rightarrow> (EcosIOFactory \<times> ObjectMeta option \<times> string result) exec" where
  "CompleteMultipartUploadJob env as jobID parts f =
     (if \<not> parts_ordered parts then Ret (f, None, Inl (Err InvalidPartOrder))
      else case GetMultipartUploadWriter jobID f of
          Inl e \<Rightarrow> Ret (f, None, Inl e)
        | Inr w \<Rightarrow>
            exec_bind (CloseMultiPart env as parts w (f_io f)) (\<lambda>(w, io, meta, res).
              let f = put_job jobID w io f
              in case res of
                   Inl e \<Rightarrow> Ret (f, meta, Inl e)
                 | Inr etag \<Rightarrow> Ret (drop_job jobID f, meta, Inr etag)))"

definition AbortAllMultipartUploadJob :: "Answers \<Rightarrow> EcosIOFactory \<Rightarrow> EcosIOFactory exec" where
  "AbortAllMultipartUploadJob ans f =
     exec_fold (\<lambda>jobID f.
        case GetMultipartUploadWriter jobID f of
          Inl e \<Rightarrow> Ret f
        | Inr w \<Rightarrow> exec_bind (ew_Abort ans w (f_io f)) (\<lambda>(w, io, err). Ret (drop_job jobID (put_job jobID w io f))))
       (map fst (multipartJobs f)) f"

record MultipartUpload =
  Key_mu :: string
  UploadId :: string

definition ListMultipartUploadJob :: "EcosIOFactory \<Rightarrow> MultipartUpload list" where
  "ListMultipartUploadJob f = map (\<lambda>(jobID, w). \<lparr>Key_mu = ew_key w, UploadId = jobID\<rparr>) (multipartJobs f)"

section \<open>Part numbers\<close>

definition increasing :: "i32 list \<Rightarrow> bool" where
  "increasing ps \<longleftrightarrow> sorted_wrt (\<lambda>a b. sint a < sint b) ps"

lemma insert_part_spec:
  "increasing is \<Longrightarrow> insert_part p is = (is', fresh) \<Longrightarrow>
    increasing is' \<and> set is' = insert p (set is) \<and> fresh = (p \<notin> set is)"
proof (induction "is" arbitrary: is' fresh)
  case (Cons i "is")
  obtain js f where js: "insert_part p is = (js, f)"
    by (meson surj_pair)
  have inc: "increasing is" "\<forall>q \<in> set is. sint i < sint q"
    using Cons.prems(1) by (simp_all add: increasing_def)
  note IH = Cons.IH [OF inc(1) js]
  consider "p = i" | "p \<noteq> i" "p <s i" | "p \<noteq> i" "\<not> p <s i"
    by blast
  then show ?case
  proof cases
    case 1
    then show ?thesis
      using Cons.prems by auto
  next
    case 2
    then have "sint p < sint i"
      by (simp add: word_sless_alt)
    then have "p \<notin> set (i # is)" "\<forall>q \<in> set (i # is). sint p < sint q"
      using inc(2) 2(1) by force+
    then show ?thesis
      using Cons.prems 2 by (auto simp: increasing_def)
  next
    case 3
    then have "sint i < sint p"
      by (simp add: word_sless_alt) (metis linorder_neqE signed_word_eqI)
    then show ?thesis
      using Cons.prems 3 IH js inc(2) by (auto simp: increasing_def)
  qed
qed (simp add: increasing_def)

section \<open>Reading a body\<close>

definition chunk_of :: "bytes \<Rightarrow> localChunk" where
  "chunk_of k = \<lparr>cdata = k, freeSize = 0\<rparr>"

text \<open>The results of the reads of a body that ends, the last of them with the end of the file.\<close>

definition body_of :: "bytes list \<Rightarrow> bytes \<Rightarrow> (bytes \<times> go_error option) list" where
  "body_of ks l = map (\<lambda>k. (k, None)) ks @ [(l, Some EOF)]"

lemma read_body_ok:
  "\<forall>k \<in> set (ks @ [l]). length k \<le> n \<Longrightarrow>
    read_body n (body_of ks l) (Some h) = Ret (map chunk_of (ks @ [l]), h @ concat (ks @ [l]), None)"
  by (induction ks arbitrary: h) (simp_all add: body_of_def chunk_of_def)

lemma chunk_of_simps [simp]: "cdata (chunk_of k) = k" "freeSize (chunk_of k) = 0" "chunk_bytes (chunk_of k) = k"
  by (simp_all add: chunk_of_def chunk_bytes_def)

lemma chunk_of_ok: "\<forall>k \<in> set ks. length k < 2 ^ 64 \<Longrightarrow> list_all chunk_ok (map chunk_of ks)"
  by (simp add: list_all_iff chunk_ok_def)

section \<open>The invariant of a multipart upload\<close>

text \<open>The block of part \<open>p\<close>, uploaded in the pieces \<open>ks\<close>.\<close>

definition part_ok :: "IOEnv \<Rightarrow> ClusterInfo \<Rightarrow> ClusterPipelines \<Rightarrow> IO \<Rightarrow> i32 \<Rightarrow> bytes list \<Rightarrow> Block \<Rightarrow> bool" where
  "part_ok env c ps io p ks b \<longleftrightarrow> PartId (bl_info b) = p \<and> BlockHash (bl_info b) = []
     \<and> BlockSize_bi (bl_info b) = word_of_nat (length (concat ks)) \<and> (\<exists>i < io_next io. BlockId (bl_info b) = c_uuid env i)
     \<and> map_pg (c_ring env) blockPgNum (BlockId (bl_info b)) = Ret (PgId_bi (bl_info b)) \<and> bl_pipes b = ps \<and> bl_cluster b = c
     \<and> stored (c_ring env) ps (w_servers (io_world io)) (w_disk (io_world io)) (BlockId (bl_info b)) (fst (buffered ks ([], [])))"

definition parts_inv ::
    "IOEnv \<Rightarrow> ClusterInfo \<Rightarrow> ClusterPipelines \<Rightarrow> (i32 \<rightharpoonup> bytes list) \<Rightarrow> EcosWriter \<Rightarrow> IO \<Rightarrow> bool" where
  "parts_inv env c ps pd w io \<longleftrightarrow> partObject w \<and> ew_Status w = READING \<and> ew_clusterInfo w = c \<and> ew_pipes w = ps
     \<and> ObjectHashType (c_config env) \<noteq> OFF \<and> objHash w \<noteq> None
     \<and> agent_ok c (io_agent io) \<and> cluster_stores (w_servers (io_world io)) c ps
     \<and> increasing (partIDs w) \<and> set (partIDs w) = dom pd \<and> (\<forall>p \<in> dom pd. 1 \<le> sint p \<and> sint p \<le> 10000)
     \<and> (\<forall>p ks. pd p = Some ks \<longrightarrow> (\<exists>b. sm_load (ew_blocks w) (sint p) = Some b \<and> b \<in> set (finishedBlocks w) \<and> part_ok env c ps io p ks b))
     \<and> (\<forall>p q b b'. p \<in> dom pd \<longrightarrow> q \<in> dom pd \<longrightarrow> p \<noteq> q \<longrightarrow> sm_load (ew_blocks w) (sint p) = Some b \<longrightarrow> sm_load (ew_blocks w) (sint q) = Some b'
          \<longrightarrow> BlockId (bl_info b) \<noteq> BlockId (bl_info b'))
     \<and> blockCount w = 0"

text \<open>A change of the world that keeps every stored block but one.\<close>

definition keeps_stored :: "IOEnv \<Rightarrow> ClusterPipelines \<Rightarrow> string \<Rightarrow> IO \<Rightarrow> IO \<Rightarrow> bool" where
  "keeps_stored env ps u io io' \<longleftrightarrow> w_servers (io_world io') = w_servers (io_world io) \<and> io_next io \<le> io_next io'
     \<and> (\<forall>i f. good_comp i \<and> i \<noteq> u \<and> stored (c_ring env) ps (w_servers (io_world io)) (w_disk (io_world io)) i f
          \<longrightarrow> stored (c_ring env) ps (w_servers (io_world io)) (w_disk (io_world io')) i f)"

lemma part_ok_keeps:
  assumes "env_ok env" "part_ok env c ps io p ks b" "keeps_stored env ps u io io'" "BlockId (bl_info b) \<noteq> u"
  shows "part_ok env c ps io' p ks b"
proof -
  have "good_comp (BlockId (bl_info b))"
    using assms(1,2) by (auto simp: part_ok_def env_ok_def)
  then show ?thesis
    using assms(2-4) unfolding part_ok_def keeps_stored_def by (metis order_less_le_trans)
qed

section \<open>Replacing a part\<close>

text \<open>The pipeline of an uploaded part and its first node.\<close>

lemma part_pipeline:
  assumes "cluster_stores (w_servers (io_world io)) c ps" "part_ok env c ps io q ks b"
  shows "\<exists>p n ns g. pipeline_at (BlockPipelines ps) (PgId_bi (bl_info b)) = Ret p \<and> RaftIds p = n # ns \<and> n \<in> RaftId ` set (NodesInfo c)
    \<and> w_servers (io_world io) n = Some g \<and> g_self g = n \<and> can_store (w_servers (io_world io)) g p (Term c)
    \<and> (\<forall>m \<in> set (RaftIds p). sm_load (w_disk (io_world io)) (block_key (w_servers (io_world io)) (delete_info (BlockId (bl_info b))) m) \<noteq> None)"
proof -
  obtain pg p n ns where s: "map_pg (c_ring env) blockPgNum (BlockId (bl_info b)) = Ret pg" "pipeline_at (BlockPipelines ps) pg = Ret p"
      "RaftIds p = n # ns" "\<forall>m \<in> set (RaftIds p). sm_load (w_disk (io_world io)) (block_key (w_servers (io_world io)) (delete_info (BlockId (bl_info b))) m) \<noteq> None"
    using assms(2) unfolding part_ok_def stored_def by (metis option.distinct(1))
  have "pg = PgId_bi (bl_info b)"
    using s(1) assms(2) by (simp add: part_ok_def)
  moreover have "pipeline_serves (w_servers (io_world io)) c p"
    using pipeline_at_mem [OF s(2)] assms(1) by (auto simp: cluster_stores_def list_all_iff)
  ultimately show ?thesis
    using s(2-4) by (auto simp: pipeline_serves_def split: option.splits)
qed

lemma delete_keeps:
  assumes "env_ok env" "cluster_stores (w_servers (io_world io)) c ps" "good_comp u"
    "\<forall>k. sm_load d' k = (if k \<in> block_key (w_servers (io_world io)) (delete_info u) ` N then None else sm_load (w_disk (io_world io)) k)"
  shows "keeps_stored env ps u io (io\<lparr>io_agent := a, io_world := (io_world io)\<lparr>w_disk := d'\<rparr>\<rparr>)"
proof -
  have "same_but (block_key (w_servers (io_world io)) (delete_info u) ` N) (w_disk (io_world io)) d'"
    using assms(4) by (simp add: same_but_def)
  then have "stored (c_ring env) ps (w_servers (io_world io)) d' i f"
    if "good_comp i" "i \<noteq> u" "stored (c_ring env) ps (w_servers (io_world io)) (w_disk (io_world io)) i f" for i f
    using stored_other [OF that(3) assms(2) that(1), of "delete_info u"] assms(3) that(2) by (simp add: delete_info_def)
  then show ?thesis
    by (simp add: keeps_stored_def)
qed

lemma block_node_ok:
  assumes "answers_ok ans c" "agent_ok c (io_agent io)" "bl_pipes b = ps"
    "pipeline_at (BlockPipelines ps) (PgId_bi (bl_info b)) = Ret p" "RaftIds p = n # ns" "n \<in> RaftId ` set (NodesInfo c)"
  shows "\<exists>agent' node. block_node ans b io = Ret (io\<lparr>io_agent := agent'\<rparr>, Inr node) \<and> RaftId node = n \<and> agent_ok c agent'"
proof -
  obtain agent' info i where "ia_Get ans NODE_INFO (FormatUint n) (io_agent io) = Ret (agent', info, None)" "GetNodeInfo_base info = Some i"
      "RaftId i = n" "agent_ok c agent'"
    using node_info_ok [OF assms(1,2,6)] by blast
  then show ?thesis
    using assms(3-5) by (intro exI [of _ agent'] exI [of _ i]) (simp add: block_node_def GetBlockPGNodeID_def first_node_def)
qed

lemma replace_part_ok:
  assumes env: "env_ok env" "answers_ok ans c" and io: "agent_ok c (io_agent io)" "cluster_stores (w_servers (io_world io)) c ps"
    and b: "sm_load (ew_blocks w) (sint q) = Some b" "part_ok env c ps io q ks b"
  shows "\<exists>io'. replace_part ans q w io = Ret (w\<lparr>ew_blocks := sm_delete (sint q) (ew_blocks w)\<rparr>, io', None) \<and> agent_ok c (io_agent io')
    \<and> keeps_stored env ps (BlockId (bl_info b)) io io' \<and> io_next io' = io_next io"
proof -
  let ?net = "w_servers (io_world io)" and ?u = "BlockId (bl_info b)" and ?d = "w_disk (io_world io)"
  obtain p n ns g where p: "pipeline_at (BlockPipelines ps) (PgId_bi (bl_info b)) = Ret p" "RaftIds p = n # ns" "n \<in> RaftId ` set (NodesInfo c)"
      "?net n = Some g" "g_self g = n" "can_store ?net g p (Term c)"
      "\<forall>m \<in> set (RaftIds p). sm_load ?d (block_key ?net (delete_info ?u) m) \<noteq> None"
    using part_pipeline [OF io(2) b(2)] by blast
  have bl: "bl_pipes b = ps" "bl_cluster b = c" "good_comp ?u"
    using b(2) env(1) by (auto simp: part_ok_def env_ok_def)
  let ?req = "\<lparr>BlockId_d = ?u, Pipeline_d = p, Term_d = Term c\<rparr>"
  have N: "set (g_self g # RaftIds (Pipeline_d ?req)) = set (RaftIds p)"
    using p(2,5) by auto
  obtain d' where d': "DeleteBlock ?net g ?req ?d = Ret (d', None)"
      "\<forall>k. sm_load d' k = (if k \<in> block_key ?net (delete_info ?u) ` set (RaftIds p) then None else sm_load ?d k)"
    using DeleteBlock_stored [of ?net g ?req ?d] p(6,7) unfolding N by auto
  obtain e where e: "DeleteBlock ?net g ?req d' = Ret (d', Some e)"
    using DeleteBlock_missing [of ?net g ?req d'] p(6) d'(2) unfolding N by auto
  obtain a1 node1 where n1: "block_node ans b io = Ret (io\<lparr>io_agent := a1\<rparr>, Inr node1)" "RaftId node1 = n" "agent_ok c a1"
    using block_node_ok [OF env(2) io(1) bl(1) p(1-3)] by blast
  obtain a2 node2 where n2: "node_of ans (FormatUint n) a1 = Ret (a2, node2)" "RaftId node2 = n" "agent_ok c a2"
    using node_of_ok [OF env(2) n1(3) p(3)] by blast
  let ?wd = "(io_world io)\<lparr>w_disk := d'\<rparr>" and ?io = "io\<lparr>io_agent := a2, io_world := (io_world io)\<lparr>w_disk := d'\<rparr>\<rparr>"
  have a: "block_Abort node1 b (io_world io) = Ret (?wd, None)" "block_Abort node2 b ?wd = Ret (?wd, Some (rpc_error e))"
    using p(1,4) n1(2) n2(2) bl d'(1) e by (simp_all add: block_Abort_def GetBlockPipeline_def)
  have "abortBlock ans b (io\<lparr>io_agent := a1, io_world := ?wd\<rparr>) = Ret ?io"
    using bl(1) p(1,2) n2(1) a(2) by (simp add: abortBlock_def GetBlockPGNodeID_def first_node_def)
  then have "replace_part ans q w io = Ret (w\<lparr>ew_blocks := sm_delete (sint q) (ew_blocks w)\<rparr>, ?io, None)"
    using b(1) n1(1) a(1) by (simp add: replace_part_def)
  then show ?thesis
    using n2(3) delete_keeps [OF env(1) io(2) bl(3) d'(2), of a2] by (intro exI [of _ ?io]) simp
qed

section \<open>Writing a part\<close>

lemma upload_part_ok:
  assumes env: "env_ok env" "answers_ok ans c" and io: "agent_ok c (io_agent io)" "cluster_stores (w_servers (io_world io)) c ps"
    and ks: "ks \<noteq> []" "\<forall>k \<in> set ks. length k < 2 ^ 64" "q \<noteq> 0"
    and b: "b = \<lparr>bl_info = zero_info\<lparr>PartId := q, BlockSize_bi := word_of_nat (length (concat ks))\<rparr>, bl_status = UPLOADING,
        bl_chunks = map chunk_of ks, bl_cluster = c, bl_pipes = ps, bl_hashType = OFF\<rparr>"
  shows "\<exists>b1 b2 io'. updateBlockInfo (c_hash env) (c_ring env) (c_uuid env (io_next io)) b = Ret (b1, None)
    \<and> uploadBlock env ans b1 (io\<lparr>io_next := io_next io + 1\<rparr>) = Ret (b2, True, io')
    \<and> part_ok env c ps io' q ks b2 \<and> BlockId (bl_info b2) = c_uuid env (io_next io) \<and> agent_ok c (io_agent io')
    \<and> keeps_stored env ps (c_uuid env (io_next io)) io io'"
proof -
  let ?u = "c_uuid env (io_next io)"
  have r: "ring_ok (c_ring env)" "good_comp ?u"
    using env(1) by (simp_all add: env_ok_def)
  obtain pg where pg: "map_pg (c_ring env) blockPgNum ?u = Ret pg"
    using block_group [OF r(1) io(2), of ?u] by auto
  let ?b = "b\<lparr>bl_info := zero_info\<lparr>BlockId := ?u, PartId := q, BlockSize_bi := word_of_nat (length (concat ks)), PgId_bi := pg\<rparr>\<rparr>"
  have up: "updateBlockInfo (c_hash env) (c_ring env) ?u b = Ret (?b, None)"
    using ks(3) pg b by (simp add: updateBlockInfo_def genBlockHash_def GenBlockPG_def zero_info_def)
  have ok: "list_all chunk_ok (map chunk_of ks)"
    by (rule chunk_of_ok [OF ks(2)])
  have "sum_list (map chunk_len (map chunk_of ks)) = word_of_nat (length (concat ks))"
    using sum_chunk_len [OF ok] by (simp add: comp_def)
  then obtain agent' d' where d': "block_Upload ans ?b (io_agent io) (io_world io) = Ret (agent', (io_world io)\<lparr>w_disk := d'\<rparr>, None)" "agent_ok c agent'"
      "stored (c_ring env) ps (w_servers (io_world io)) d' ?u (fst (buffered ks ([], [])))"
      "\<forall>i f. good_comp i \<and> i \<noteq> ?u \<and> stored (c_ring env) ps (w_servers (io_world io)) (w_disk (io_world io)) i f
         \<longrightarrow> stored (c_ring env) ps (w_servers (io_world io)) d' i f"
    using block_Upload_ok [OF r(1) _ io(2) env(2) io(1), of ?b] r(2) pg ks(1) ok b by (auto simp: comp_def zero_info_def)
  let ?b2 = "?b\<lparr>bl_status := FINISHED, bl_chunks := []\<rparr>"
  let ?io = "io\<lparr>io_agent := agent', io_world := (io_world io)\<lparr>w_disk := d'\<rparr>, io_next := io_next io + 1 + 1\<rparr>"
  have "uploadBlock env ans ?b (io\<lparr>io_next := io_next io + 1\<rparr>) = Ret (?b2, True, ?io)"
    using d'(1) ks(3) by (simp add: uploadBlock_def block_Close_def delFunc_def)
  moreover have "part_ok env c ps ?io q ks ?b2"
    unfolding part_ok_def using d'(3) pg b by (auto simp: zero_info_def intro: exI [of _ "io_next io"])
  moreover have "keeps_stored env ps ?u io ?io"
    using d'(4) by (simp add: keeps_stored_def)
  ultimately show ?thesis
    using up d'(2) by (intro exI [of _ ?b] exI [of _ ?b2] exI [of _ ?io]) simp
qed

lemma sint_eq_iff: "sint p = sint q \<longleftrightarrow> p = (q :: i32)"
  by (metis signed_word_eqI)

lemma parts_invD:
  assumes "parts_inv env c ps pd w io"
  shows "partObject w" "ew_Status w = READING" "ew_clusterInfo w = c" "ew_pipes w = ps" "objHash w \<noteq> None"
    "agent_ok c (io_agent io)" "cluster_stores (w_servers (io_world io)) c ps" "increasing (partIDs w)" "set (partIDs w) = dom pd"
    "\<And>p ks. pd p = Some ks \<Longrightarrow> \<exists>b. sm_load (ew_blocks w) (sint p) = Some b \<and> b \<in> set (finishedBlocks w) \<and> part_ok env c ps io p ks b"
    "\<And>p q b b'. p \<in> dom pd \<Longrightarrow> q \<in> dom pd \<Longrightarrow> p \<noteq> q \<Longrightarrow> sm_load (ew_blocks w) (sint p) = Some b \<Longrightarrow> sm_load (ew_blocks w) (sint q) = Some b'
      \<Longrightarrow> BlockId (bl_info b) \<noteq> BlockId (bl_info b')"
    "blockCount w = 0"
  using assms unfolding parts_inv_def by blast+

lemma parts_invI:
  assumes "partObject w" "ew_Status w = READING" "ew_clusterInfo w = c" "ew_pipes w = ps" "objHash w \<noteq> None"
    "increasing (partIDs w)" "set (partIDs w) = dom pd" "agent_ok c (io_agent io)" "cluster_stores (w_servers (io_world io)) c ps"
    "ObjectHashType (c_config env) \<noteq> OFF" "\<forall>p \<in> dom pd. 1 \<le> sint p \<and> sint p \<le> 10000"
    "\<And>p ks. pd p = Some ks \<Longrightarrow> \<exists>b. sm_load (ew_blocks w) (sint p) = Some b \<and> b \<in> set (finishedBlocks w) \<and> part_ok env c ps io p ks b"
    "\<And>p q b b'. p \<in> dom pd \<Longrightarrow> q \<in> dom pd \<Longrightarrow> p \<noteq> q \<Longrightarrow> sm_load (ew_blocks w) (sint p) = Some b \<Longrightarrow> sm_load (ew_blocks w) (sint q) = Some b'
      \<Longrightarrow> BlockId (bl_info b) \<noteq> BlockId (bl_info b')"
    "blockCount w = 0"
  shows "parts_inv env c ps pd w io"
  using assms unfolding parts_inv_def by blast

text \<open>Making room for a part: its number is listed, an earlier block of it is deleted.\<close>

lemma part_slot_ok:
  assumes env: "env_ok env" "answers_ok ans c" and inv: "parts_inv env c ps pd w io" and add: "addPartID q w = (w1, fresh)"
  shows "\<exists>js m io1. (if fresh then Ret (w1, io, None) else replace_part ans q w1 io) = Ret (w\<lparr>partIDs := js, ew_blocks := m\<rparr>, io1, None)
    \<and> increasing js \<and> set js = insert q (dom pd) \<and> (\<forall>p. p \<noteq> q \<longrightarrow> sm_load m (sint p) = sm_load (ew_blocks w) (sint p))
    \<and> agent_ok c (io_agent io1) \<and> io_next io1 = io_next io \<and> w_servers (io_world io1) = w_servers (io_world io)
    \<and> (\<forall>p ks b. p \<noteq> q \<longrightarrow> pd p = Some ks \<longrightarrow> sm_load (ew_blocks w) (sint p) = Some b \<longrightarrow> part_ok env c ps io p ks b \<longrightarrow> part_ok env c ps io1 p ks b)"
proof -
  note D = parts_invD [OF inv]
  obtain js where w1: "insert_part q (partIDs w) = (js, fresh)" "w1 = w\<lparr>partIDs := js\<rparr>"
    using add by (auto simp: addPartID_def split: prod.splits)
  have js: "increasing js" "set js = insert q (dom pd)" "fresh = (q \<notin> dom pd)"
    using insert_part_spec [OF D(8) w1(1)] D(9) by simp_all
  show ?thesis
  proof (cases fresh)
    case True
    have "w1 = w\<lparr>partIDs := js, ew_blocks := ew_blocks w\<rparr>"
      using w1(2) by (cases w) simp
    then show ?thesis
      using True js D(6) by (intro exI [of _ js] exI [of _ "ew_blocks w"] exI [of _ io]) simp
  next
    case False
    then obtain ks0 where k0: "pd q = Some ks0"
      using js(3) by auto
    obtain b where b: "sm_load (ew_blocks w) (sint q) = Some b" "part_ok env c ps io q ks0 b"
      using D(10) [OF k0] by blast
    obtain io1 where r: "replace_part ans q w1 io = Ret (w1\<lparr>ew_blocks := sm_delete (sint q) (ew_blocks w1)\<rparr>, io1, None)" "agent_ok c (io_agent io1)"
        "keeps_stored env ps (BlockId (bl_info b)) io io1" "io_next io1 = io_next io"
      using replace_part_ok [OF env D(6,7), of w1 q b ks0] b w1(2) by auto
    have "part_ok env c ps io1 p ks b'"
      if "p \<noteq> q" "pd p = Some ks" "sm_load (ew_blocks w) (sint p) = Some b'" "part_ok env c ps io p ks b'" for p ks b'
      using part_ok_keeps [OF env(1) that(4) r(3)] D(11) [of p q b' b] that(1-3) k0 b(1) by auto
    then show ?thesis
      using False r js(1,2) w1(2)
      by (intro exI [of _ js] exI [of _ "sm_delete (sint q) (ew_blocks w)"] exI [of _ io1])
        (simp add: sm_load_delete sint_eq_iff keeps_stored_def)
  qed
qed

lemma WritePart_ok:
  assumes env: "env_ok env" "answers_ok ans c" and inv: "parts_inv env c ps pd w io"
    and q: "1 \<le> sint q" "sint q \<le> 10000" and ks: "\<forall>k \<in> set (ks @ [l]). length k \<le> unat (c_chunkSize env)"
  shows "\<exists>w' io' etag. WritePart env ans q (body_of ks l) w io = Ret (w', io', Inr etag)
    \<and> parts_inv env c ps (pd(q \<mapsto> ks @ [l])) w' io' \<and> ew_key w' = ew_key w"
proof -
  note D = parts_invD [OF inv]
  obtain w1 fresh where add: "addPartID q w = (w1, fresh)"
    by (meson surj_pair)
  obtain js m io1 where s: "(if fresh then Ret (w1, io, None) else replace_part ans q w1 io) = Ret (w\<lparr>partIDs := js, ew_blocks := m\<rparr>, io1, None)"
      "increasing js" "set js = insert q (dom pd)" "\<And>p. p \<noteq> q \<Longrightarrow> sm_load m (sint p) = sm_load (ew_blocks w) (sint p)"
      "agent_ok c (io_agent io1)" "io_next io1 = io_next io" "w_servers (io_world io1) = w_servers (io_world io)"
      "\<And>p ks b. p \<noteq> q \<Longrightarrow> pd p = Some ks \<Longrightarrow> sm_load (ew_blocks w) (sint p) = Some b \<Longrightarrow> part_ok env c ps io p ks b \<Longrightarrow> part_ok env c ps io1 p ks b"
    using part_slot_ok [OF env inv add] by blast
  obtain h where h: "objHash w = Some h"
    using D(5) by blast
  have small: "\<forall>k \<in> set (ks @ [l]). length k < 2 ^ 64"
    using ks unsigned_less [of "c_chunkSize env", where ?'a = nat] by fastforce
  let ?b = "\<lparr>bl_info = zero_info\<lparr>PartId := q, BlockSize_bi := word_of_nat (length (concat (ks @ [l])))\<rparr>, bl_status = UPLOADING,
        bl_chunks = map chunk_of (ks @ [l]), bl_cluster = c, bl_pipes = ps, bl_hashType = OFF\<rparr>"
  have q0: "q \<noteq> 0"
    using q(1) by auto
  have cl: "cluster_stores (w_servers (io_world io1)) c ps"
    using D(7) s(7) by simp
  obtain b1 b2 io2 where u: "updateBlockInfo (c_hash env) (c_ring env) (c_uuid env (io_next io1)) ?b = Ret (b1, None)"
      "uploadBlock env ans b1 (io1\<lparr>io_next := io_next io1 + 1\<rparr>) = Ret (b2, True, io2)" "part_ok env c ps io2 q (ks @ [l]) b2"
      "BlockId (bl_info b2) = c_uuid env (io_next io)" "agent_ok c (io_agent io2)" "keeps_stored env ps (c_uuid env (io_next io)) io1 io2"
    using upload_part_ok [OF env s(5) cl _ small q0 refl] s(6) by auto
  let ?w = "w\<lparr>partIDs := js, objHash := Some (h @ concat (ks @ [l])), finishedBlocks := finishedBlocks w @ [b2],
      ew_blocks := sm_store (sint q) b2 m\<rparr>"
  have blk: "getNewBlock (w\<lparr>partIDs := js, ew_blocks := m\<rparr>)
      = \<lparr>bl_info = zero_info, bl_status = READING, bl_chunks = [], bl_cluster = c, bl_pipes = ps, bl_hashType = OFF\<rparr>"
    using D(3,4) by (simp add: getNewBlock_def)
  have cs: "cdata \<circ> chunk_of = id"
    by (rule ext) simp
  have u2: "uploadBlock env ans b1 (io1\<lparr>io_next := Suc (io_next io1)\<rparr>) = Ret (b2, True, io2)"
    using u(2) by simp
  have rb: "read_body (unat (c_chunkSize env)) (body_of ks l) (Some h) = Ret (map chunk_of (ks @ [l]), h @ concat (ks @ [l]), None)"
    by (rule read_body_ok [OF ks])
  have "WritePart env ans q (body_of ks l) w io = Ret (?w, io2, Inr (BlockId (bl_info b2)))"
    unfolding WritePart_def
    using D(1,2) q by (simp add: add s(1) h blk rb cs u(1) u2 set_block_def Let_def del: map_append concat_append)
  moreover have "parts_inv env c ps (pd(q \<mapsto> ks @ [l])) ?w io2"
  proof -
    have old: "\<exists>b. sm_load (ew_blocks w) (sint p) = Some b \<and> b \<in> set (finishedBlocks w) \<and> part_ok env c ps io2 p kp b
        \<and> BlockId (bl_info b) \<noteq> c_uuid env (io_next io)" if p: "p \<noteq> q" "pd p = Some kp" for p kp
    proof -
      obtain b where b: "sm_load (ew_blocks w) (sint p) = Some b" "b \<in> set (finishedBlocks w)" "part_ok env c ps io p kp b"
        using D(10) [OF p(2)] by blast
      have "BlockId (bl_info b) \<noteq> c_uuid env (io_next io)"
        using b(3) env(1) by (auto simp: part_ok_def env_ok_def inj_eq)
      then show ?thesis
        using b part_ok_keeps [OF env(1) s(8) [OF p b(1,3)] u(6)] by blast
    qed
    have load: "sm_load (ew_blocks ?w) (sint p) = (if p = q then Some b2 else sm_load (ew_blocks w) (sint p))" for p
      using s(4) [of p] by (simp add: sm_load_store sint_eq_iff)
    have cl2: "cluster_stores (w_servers (io_world io2)) c ps"
      using cl u(6) by (simp add: keeps_stored_def)
    have new: "\<exists>b. sm_load (ew_blocks ?w) (sint p) = Some b \<and> b \<in> set (finishedBlocks ?w) \<and> part_ok env c ps io2 p kp b"
      if "(pd(q \<mapsto> ks @ [l])) p = Some kp" for p kp
      using that old [of p kp] u(3) unfolding load by (cases "p = q") auto
    have ids: "BlockId (bl_info b) \<noteq> BlockId (bl_info b')"
      if p: "p \<in> dom (pd(q \<mapsto> ks @ [l]))" "p' \<in> dom (pd(q \<mapsto> ks @ [l]))" "p \<noteq> p'"
        "sm_load (ew_blocks ?w) (sint p) = Some b" "sm_load (ew_blocks ?w) (sint p') = Some b'" for p p' b b'
    proof -
      have other: "BlockId (bl_info x) \<noteq> BlockId (bl_info b2)" if "r \<in> dom pd" "r \<noteq> q" "sm_load (ew_blocks w) (sint r) = Some x" for r x
        using old [of r] that u(4) by auto
      show ?thesis
        using p other [of p b] other [of p' b'] D(11) [of p p' b b'] unfolding load by (auto split: if_splits)
    qed
    have env': "ObjectHashType (c_config env) \<noteq> OFF" "\<forall>p \<in> dom (pd(q \<mapsto> ks @ [l])). 1 \<le> sint p \<and> sint p \<le> 10000"
      using inv q by (auto simp: parts_inv_def)
    show ?thesis
      by (rule parts_invI [OF _ _ _ _ _ _ _ u(5) cl2 env' new ids]) (use D(1-4,12) s(2,3) in simp_all)
  qed
  ultimately show ?thesis
    by (intro exI [of _ ?w] exI [of _ io2] exI [of _ "BlockId (bl_info b2)"]) simp
qed

section \<open>Completing\<close>

lemma wait_parts_ok:
  "distinct pend \<Longrightarrow> \<forall>q \<in> set pend. \<exists>b \<in> set fs. sm_load m (sint q) = Some b \<and> PartId (bl_info b) = q \<Longrightarrow>
    \<exists>fs'. wait_parts m fs (length pend) pend = Ret fs'"
proof (induction fs arbitrary: pend)
  case Nil
  then have "pend = []"
    by (cases pend) auto
  then show ?case
    by simp
next
  case (Cons b fs)
  let ?p = "PartId (bl_info b)"
  show ?case
  proof (cases "sm_load m (sint ?p) = Some b \<and> ?p \<in> set pend")
    case True
    then obtain n where n: "length pend = Suc n"
      by (cases pend) auto
    have "length (removeAll ?p pend) = n"
      using Cons.prems(1) True n by (simp add: distinct_remove1_removeAll [symmetric] length_remove1)
    moreover have "\<forall>q \<in> set (removeAll ?p pend). \<exists>b \<in> set fs. sm_load m (sint q) = Some b \<and> PartId (bl_info b) = q"
      using Cons.prems(2) by fastforce
    ultimately show ?thesis
      using Cons.IH [of "removeAll ?p pend"] Cons.prems(1) True n by (auto simp: Let_def distinct_removeAll)
  next
    case False
    then have "\<forall>q \<in> set pend. \<exists>b \<in> set fs. sm_load m (sint q) = Some b \<and> PartId (bl_info b) = q"
      using Cons.prems(2) by fastforce
    then obtain fs' where "wait_parts m fs (length pend) pend = Ret fs'"
      using Cons.IH Cons.prems(1) by blast
    then show ?thesis
      using False by (cases pend) (auto simp: Let_def)
  qed
qed

lemma check_parts_ok:
  "\<forall>p \<in> set parts. 1 \<le> sint p \<and> sint p \<le> 10000 \<and> sm_load (ew_blocks w) (sint p) \<noteq> None \<Longrightarrow> check_parts w parts = Inr parts"
  by (induction parts) auto

lemma part_blocks_ok:
  "\<forall>p \<in> set ids. sm_load (ew_blocks w) (sint p) = Some (f p) \<Longrightarrow> part_blocks w ids = Ret (map f ids)"
  by (induction ids) (auto simp: part_block_def)

lemma sum_sizes:
  "\<forall>p \<in> set ids. BlockSize_bi (g p) = word_of_nat (length (concat (f p))) \<Longrightarrow>
    sum_list (map (\<lambda>p. BlockSize_bi (g p)) ids) = word_of_nat (length (concat (concat (map f ids))))"
  by (induction ids) simp_all

lemma parts_inv_blocks:
  assumes "parts_inv env c ps pd w io" "p \<in> dom pd"
  shows "\<exists>b. sm_load (ew_blocks w) (sint p) = Some b \<and> b \<in> set (finishedBlocks w) \<and> part_ok env c ps io p (the (pd p)) b"
  using parts_invD(10) [OF assms(1)] assms(2) by auto

text \<open>
  The metadata generated for an upload has the blocks of all uploaded parts in the order of their
  numbers.  The object hash is that of the block hashes, which are all empty.
\<close>

lemma genPartialMeta_ok:
  assumes env: "env_ok env" "bucket_ok (c_bucket env)" and inv: "parts_inv env c ps pd w io"
  shows "\<exists>meta dn. genPartialMeta env now (w\<lparr>ew_Status := st, finishedBlocks := fs\<rparr>)
      = Ret (w\<lparr>ew_Status := st, finishedBlocks := fs, objHash := Some []\<rparr>, meta)
    \<and> Blocks meta = map fst dn \<and> map (\<lambda>x. PartId (fst x)) dn = partIDs w \<and> map snd dn = map (\<lambda>p. the (pd p)) (partIDs w)
    \<and> ObjSize meta = word_of_nat (length (concat (concat (map snd dn)))) \<and> Term_m meta = Term c
    \<and> GenObjectId (c_ring env) (c_bucket env) (ew_key w) = Ret (ObjId meta) \<and> stored_all env c ps dn io"
proof -
  note D = parts_invD [OF inv]
  define blk where "blk p = the (sm_load (ew_blocks w) (sint p))" for p :: i32
  have b: "sm_load (ew_blocks w) (sint p) = Some (blk p)" "part_ok env c ps io p (the (pd p)) (blk p)" if "p \<in> set (partIDs w)" for p
    using parts_inv_blocks [OF inv, of p] that D(9) by (auto simp: blk_def)
  have r: "ring_ok (c_ring env)"
    using env(1) by (simp add: env_ok_def)
  let ?w = "w\<lparr>ew_Status := st, finishedBlocks := fs\<rparr>" and ?ids = "partIDs w"
  have pb: "part_blocks ?w ?ids = Ret (map blk ?ids)"
    using b(1) by (intro part_blocks_ok) simp
  have "\<forall>p \<in> set ?ids. bytes_of (BlockHash (bl_info (blk p))) = []"
    using b(2) by (simp add: part_ok_def bytes_of_def)
  then have "concat (map (\<lambda>b. bytes_of (BlockHash (bl_info b))) (map blk ?ids)) = []"
    by simp
  moreover have "ObjectHashType (c_config env) \<noteq> OFF"
    using inv by (simp add: parts_inv_def)
  ultimately obtain h where h: "genPartialHash env ?w = Ret (?w\<lparr>objHash := Some []\<rparr>, h)"
    using D(5) pb by (auto simp: genPartialHash_def object_hash_def Let_def simp del: concat_eq_Nil_conv)
  obtain pg where "GenObjPgID (c_ring env) (c_bucket env) (ew_key w) 10 = Ret pg"
    using GenObjPgID_bounds [OF r env(2), of 10 "ew_key w"] by auto
  moreover obtain objID where "GenObjectId (c_ring env) (c_bucket env) (ew_key w) = Ret objID"
    using GenObjectId_Ret [OF r env(2)] by blast
  moreover have "sum_list (map (\<lambda>b. BlockSize_bi (bl_info b)) (map blk ?ids)) = word_of_nat (length (concat (concat (map (\<lambda>p. the (pd p)) ?ids))))"
    using sum_sizes [of ?ids "\<lambda>p. bl_info (blk p)" "\<lambda>p. the (pd p)"] b(2) by (simp add: part_ok_def comp_def)
  moreover have "stored_all env c ps (map (\<lambda>p. (bl_info (blk p), the (pd p))) ?ids) io"
    using b(2) D(6,7) by (auto simp: stored_all_def part_ok_def)
  moreover have "map (\<lambda>p. PartId (bl_info (blk p))) ?ids = ?ids"
    using b(2) by (intro map_idI) (simp add: part_ok_def)
  ultimately show ?thesis
    using pb h D(3)
    by (intro exI [of _ "\<lparr>ObjId = objID, Status = STATUS_UNKNOWN, Position = POSITION_UNKNOWN,
            ObjSize = sum_list (map (\<lambda>b. BlockSize_bi (bl_info b)) (map blk ?ids)), UpdateTime = Some now, ObjHash = h, PgId = pg,
            Blocks = map bl_info (map blk ?ids), Term_m = Term c\<rparr>"] exI [of _ "map (\<lambda>p. (bl_info (blk p), the (pd p))) ?ids"])
      (simp add: genPartialMeta_def comp_def)
qed

text \<open>Completing an upload: the parts that are named are waited for, all parts are in the object.\<close>

lemma CloseMultiPart_ok:
  assumes env: "env_ok env" "bucket_ok (c_bucket env)" "answers_ok ans c" "meta_served (c_crush env) c ps"
    and acc: "\<And>server ctx m. \<exists>r. a_record ans server ctx m = Inr r"
    and inv: "parts_inv env c ps pd w io" and parts: "distinct parts" "set parts \<subseteq> dom pd"
  shows "\<exists>w' io' meta dn. CloseMultiPart env ((now, ans) # as) parts w io
      = Ret (w', io', Some meta, Inr (hex_encode (c_hash env (ObjectHashType (c_config env)) []))) \<and> ew_Status w' = FINISHED
    \<and> Blocks meta = map fst dn \<and> map (\<lambda>x. PartId (fst x)) dn = partIDs w \<and> map snd dn = map (\<lambda>p. the (pd p)) (partIDs w)
    \<and> ObjSize meta = word_of_nat (length (concat (concat (map snd dn)))) \<and> Term_m meta = Term c
    \<and> GenObjectId (c_ring env) (c_bucket env) (ew_key w) = Ret (ObjId meta) \<and> stored_all env c ps dn io'"
proof -
  note D = parts_invD [OF inv]
  let ?w = "w\<lparr>ew_Status := UPLOADING\<rparr>"
  have "1 \<le> sint p \<and> sint p \<le> 10000 \<and> sm_load (ew_blocks ?w) (sint p) \<noteq> None" if "p \<in> set parts" for p
    using parts_inv_blocks [OF inv, of p] inv that parts(2) by (auto simp: parts_inv_def)
  then have chk: "check_parts ?w parts = Inr parts"
    by (intro check_parts_ok) blast
  have "\<forall>q \<in> set parts. \<exists>b \<in> set (finishedBlocks w). sm_load (ew_blocks w) (sint q) = Some b \<and> PartId (bl_info b) = q"
    using parts_inv_blocks [OF inv] parts(2) unfolding part_ok_def by blast
  then obtain fs where wait: "wait_parts (ew_blocks w) (finishedBlocks w) (length parts) parts = Ret fs"
    using wait_parts_ok [OF parts(1)] by blast
  let ?w1 = "w\<lparr>ew_Status := UPLOADING, finishedBlocks := fs\<rparr>" and ?w2 = "w\<lparr>ew_Status := UPLOADING, finishedBlocks := fs, objHash := Some []\<rparr>"
  obtain meta dn where g: "genPartialMeta env now ?w1 = Ret (?w2, meta)" "Blocks meta = map fst dn"
      "map (\<lambda>x. PartId (fst x)) dn = partIDs w" "map snd dn = map (\<lambda>p. the (pd p)) (partIDs w)"
      "ObjSize meta = word_of_nat (length (concat (concat (map snd dn))))" "Term_m meta = Term c"
      "GenObjectId (c_ring env) (c_bucket env) (ew_key w) = Ret (ObjId meta)" "stored_all env c ps dn io"
    using genPartialMeta_ok [OF env(1,2) inv, of now fs UPLOADING] by blast
  have r: "ring_ok (c_ring env)"
    using env(1) by (simp add: env_ok_def)
  let ?meta = "meta\<lparr>Position := POSITION_EDGE\<rparr>"
  obtain agent' server where sub: "SubmitMeta (c_ring env) (c_crush env) ans (c_bucket env) meta (io_agent io)
      = Ret (agent', ?meta, a_record ans (Some server) (term_ctx (Term c)) ?meta)" "agent_ok c agent'"
    using SubmitMeta_ok [OF r env(2,4,3) D(6)] by blast
  obtain res where "a_record ans (Some server) (term_ctx (Term c)) ?meta = Inr res"
    using acc by blast
  then have "CommitPartialMeta env ((now, ans) # as) ?w1 io = Ret (?w2, io\<lparr>io_agent := agent'\<rparr>, Some ?meta, None)"
    using D(1) g(1) sub(1) by (simp add: CommitPartialMeta_def)
  then have "CloseMultiPart env ((now, ans) # as) parts w io
      = Ret (?w2\<lparr>ew_Status := FINISHED\<rparr>, io\<lparr>io_agent := agent'\<rparr>, Some ?meta, Inr (hex_encode (c_hash env (ObjectHashType (c_config env)) [])))"
    using D(1,2) chk wait by (simp add: CloseMultiPart_def object_hash_def)
  moreover have "stored_all env c ps dn (io\<lparr>io_agent := agent'\<rparr>)"
    using g(8) sub(2) by (simp add: stored_all_def)
  ultimately show ?thesis
    using g(2-7) by (intro exI [of _ "?w2\<lparr>ew_Status := FINISHED\<rparr>"] exI [of _ "io\<lparr>io_agent := agent'\<rparr>"] exI [of _ ?meta] exI [of _ dn]) simp
qed

section \<open>A multipart upload\<close>

text \<open>A caller that uploads parts until one fails.\<close>

primrec upload_parts ::
    "IOEnv \<Rightarrow> Answers \<Rightarrow> (i32 \<times> (bytes \<times> go_error option) list) list \<Rightarrow> EcosWriter \<Rightarrow> IO \<Rightarrow> (EcosWriter \<times> IO \<times> go_error option) exec" where
  "upload_parts env ans [] w io = Ret (w, io, None)"
| "upload_parts env ans (u # us) w io =
     exec_bind (WritePart env ans (fst u) (snd u) w io) (\<lambda>(w, io, res).
       case res of Inl e \<Rightarrow> Ret (w, io, Some e) | Inr _ \<Rightarrow> upload_parts env ans us w io)"

text \<open>What the uploads leave: for every part number the pieces of the last upload.\<close>

definition parts_of :: "(i32 \<rightharpoonup> bytes list) \<Rightarrow> (i32 \<times> bytes list \<times> bytes) list \<Rightarrow> i32 \<rightharpoonup> bytes list" where
  "parts_of pd us = foldl (\<lambda>pd (q, ks, l). pd(q \<mapsto> ks @ [l])) pd us"

definition upload_ok :: "IOEnv \<Rightarrow> i32 \<times> bytes list \<times> bytes \<Rightarrow> bool" where
  "upload_ok env = (\<lambda>(q, ks, l). 1 \<le> sint q \<and> sint q \<le> 10000 \<and> (\<forall>k \<in> set (ks @ [l]). length k \<le> unat (c_chunkSize env))
     \<and> length (concat (ks @ [l])) \<le> block_cap env)"

lemma parts_of_simps: "parts_of pd [] = pd" "parts_of pd ((q, ks, l) # us) = parts_of (pd(q \<mapsto> ks @ [l])) us"
  by (simp_all add: parts_of_def)

lemma dom_parts_of: "dom (parts_of pd us) = dom pd \<union> fst ` set us"
  by (induction us arbitrary: pd) (auto simp: parts_of_def split_beta)

lemma parts_of_bound:
  "\<forall>p ks. pd p = Some ks \<longrightarrow> length (concat ks) \<le> n \<Longrightarrow> \<forall>(q, ks, l) \<in> set us. length (concat (ks @ [l])) \<le> n \<Longrightarrow>
    \<forall>p ks. parts_of pd us p = Some ks \<longrightarrow> length (concat ks) \<le> n"
proof (induction us arbitrary: pd)
  case (Cons u us)
  obtain q ks l where u: "u = (q, ks, l)"
    by (metis surj_pair)
  show ?case
    unfolding u parts_of_simps by (rule Cons.IH) (use Cons.prems u in auto)
qed (simp add: parts_of_simps)

lemma upload_parts_ok:
  assumes env: "env_ok env" "answers_ok ans c"
  shows "parts_inv env c ps pd w io \<Longrightarrow> list_all (upload_ok env) us \<Longrightarrow>
    \<exists>w' io'. upload_parts env ans (map (\<lambda>(q, ks, l). (q, body_of ks l)) us) w io = Ret (w', io', None)
      \<and> parts_inv env c ps (parts_of pd us) w' io' \<and> ew_key w' = ew_key w"
proof (induction us arbitrary: pd w io)
  case (Cons u us)
  obtain q ks l where u: "u = (q, ks, l)"
    by (metis surj_pair)
  have ok: "1 \<le> sint q" "sint q \<le> 10000" "\<forall>k \<in> set (ks @ [l]). length k \<le> unat (c_chunkSize env)"
    using Cons.prems(2) u by (simp_all add: upload_ok_def)
  obtain w1 io1 etag where w1: "WritePart env ans q (body_of ks l) w io = Ret (w1, io1, Inr etag)"
      "parts_inv env c ps (pd(q \<mapsto> ks @ [l])) w1 io1" "ew_key w1 = ew_key w"
    using WritePart_ok [OF env Cons.prems(1) ok] by blast
  then show ?case
    using Cons.IH [OF w1(2)] Cons.prems(2) u by (simp add: parts_of_simps del: fun_upd_apply)
qed (simp add: parts_of_simps)

lemma new_job_ok:
  assumes "client_ok env c ps io" "answers_ok ans c" "ObjectHashType (c_config env) \<noteq> OFF"
  shows "\<exists>w. GetEcosWriter env ans key io = Ret (w, io) \<and> parts_inv env c ps Map.empty (w\<lparr>partObject := True\<rparr>) io \<and> ew_key w = key"
proof -
  have p: "NewClusterPipelines (c_crush env) c = Inr ps" "agent_ok c (io_agent io)"
    using assms(1) by (simp_all add: client_ok_def meta_served_def)
  show ?thesis
    using GetCurClusterInfo_ok [OF assms(2) p(2)] p assms(1,3)
    by (auto simp: GetEcosWriter_def client_pipelines_def parts_inv_def client_ok_def increasing_def)
qed

text \<open>
  C7: The parts of a multipart upload, each within a block and with a number from 1 to 10000, may be
  uploaded in any order and again, by a client whose objects are hashed.  Completing the upload with any
  of them, each named once, makes an object of all uploaded parts in the order of their numbers.
  Reading it back with buffers of any sizes returns each part as last uploaded, except that a tail of
  at most 4096 bytes of each part, which stays in the write buffers of the nodes, is read as
  zeros.  The entity tag is the same for every content.
\<close>

theorem multipart_round_trip:
  assumes client: "client_ok env c ps io" "ObjectHashType (c_config env) \<noteq> OFF"
    and ans: "answers_ok ans c" "\<forall>server ctx m. \<exists>r. a_record ans server ctx m = Inr r"
    and us: "list_all (upload_ok env) us" and parts: "distinct parts" "set parts \<subseteq> fst ` set us"
  shows "\<exists>w1 w2 io2 w3 io3 meta. GetEcosWriter env ans key io = Ret (w1, io)
    \<and> upload_parts env ans (map (\<lambda>(q, ks, l). (q, body_of ks l)) us) (w1\<lparr>partObject := True\<rparr>) io = Ret (w2, io2, None)
    \<and> CloseMultiPart env [(now, ans)] parts w2 io2 = Ret (w3, io3, Some meta, Inr (hex_encode (c_hash env (ObjectHashType (c_config env)) [])))
    \<and> increasing (map PartId (Blocks meta)) \<and> set (map PartId (Blocks meta)) = fst ` set us
    \<and> (\<forall>q. \<exists>d t. d = concat (the (parts_of Map.empty us q)) \<and> t \<le> 4096 \<and> t \<le> length d
        \<and> block_view (the (parts_of Map.empty us q)) = take (length d - t) d @ replicate t 0)
    \<and> (\<forall>rans ns v. answers_ok rans c \<longrightarrow> (\<forall>server ctx. a_meta rans server ctx (ObjId meta) = Inr meta) \<longrightarrow> list_all (\<lambda>n. n < 2 ^ 62) ns
        \<longrightarrow> v = concat (map (\<lambda>q. block_view (the (parts_of Map.empty us q))) (map PartId (Blocks meta))) \<longrightarrow> length v < 2 ^ 62
        \<longrightarrow> read_seq env rans [rans] (io_world io3) ns (GetEcosReader key) (io_agent io3)
            = Ret (take (sum_list ns) v, if ns \<noteq> [] \<and> length v \<le> sum_list ns then Some EOF else None))"
proof -
  have c: "env_ok env" "bucket_ok (c_bucket env)" "meta_served (c_crush env) c ps" "BlockPgNum c = 100" "ring_ok (c_ring env)"
    using client(1) by (simp_all add: client_ok_def env_ok_def)
  obtain w1 where w1: "GetEcosWriter env ans key io = Ret (w1, io)" "parts_inv env c ps Map.empty (w1\<lparr>partObject := True\<rparr>) io" "ew_key w1 = key"
    using new_job_ok [OF client(1) ans(1) client(2)] by blast
  let ?pd = "parts_of Map.empty us"
  obtain w2 io2 where w2: "upload_parts env ans (map (\<lambda>(q, ks, l). (q, body_of ks l)) us) (w1\<lparr>partObject := True\<rparr>) io = Ret (w2, io2, None)"
      "parts_inv env c ps ?pd w2 io2" "ew_key w2 = key"
    using upload_parts_ok [OF c(1) ans(1) w1(2) us] w1(3) by auto
  have acc: "\<And>server ctx m. \<exists>r. a_record ans server ctx m = Inr r"
    using ans(2) by blast
  have pd: "set parts \<subseteq> dom ?pd"
    using parts(2) by (simp add: dom_parts_of)
  obtain w3 io3 meta dn where w3: "CloseMultiPart env [(now, ans)] parts w2 io2
        = Ret (w3, io3, Some meta, Inr (hex_encode (c_hash env (ObjectHashType (c_config env)) [])))"
      "Blocks meta = map fst dn" "map (\<lambda>x. PartId (fst x)) dn = partIDs w2" "map snd dn = map (\<lambda>p. the (?pd p)) (partIDs w2)"
      "Term_m meta = Term c" "GenObjectId (c_ring env) (c_bucket env) key = Ret (ObjId meta)" "stored_all env c ps dn io3"
    using CloseMultiPart_ok [OF c(1,2) ans(1) c(3) acc w2(2) parts(1) pd, of now "[]"] w2(3) by auto
  have ids: "map PartId (Blocks meta) = partIDs w2"
    using w3(2,3) by (simp add: comp_def)
  have inc: "increasing (partIDs w2)" "set (partIDs w2) = fst ` set us"
    using parts_invD(8,9) [OF w2(2)] by (simp_all add: dom_parts_of)
  have bound: "\<forall>p ks. ?pd p = Some ks \<longrightarrow> length (concat ks) \<le> block_cap env"
    using us by (intro parts_of_bound) (auto simp: list_all_iff upload_ok_def)
  have "length (concat ks) \<le> block_cap env" if "(info, ks) \<in> set dn" for info ks
  proof -
    have "ks \<in> set (map snd dn)"
      using that by force
    then obtain p where "p \<in> dom ?pd" "ks = the (?pd p)"
      using w3(4) inc(2) by (auto simp: dom_parts_of)
    then show ?thesis
      using bound by auto
  qed
  then have b: "\<forall>(info, ks) \<in> set dn. length (concat ks) \<le> block_cap env"
    by blast
  have "read_seq env rans [rans] (io_world io3) ns (GetEcosReader key) (io_agent io3)
      = Ret (take (sum_list ns) v, if ns \<noteq> [] \<and> length v \<le> sum_list ns then Some EOF else None)"
    if r: "answers_ok rans c" "\<forall>server ctx. a_meta rans server ctx (ObjId meta) = Inr meta" "list_all (\<lambda>n. n < 2 ^ 62) ns"
      "v = concat (map (\<lambda>q. block_view (the (?pd q))) (map PartId (Blocks meta)))" "length v < 2 ^ 62" for rans ns v
  proof -
    have v: "v = concat (map (\<lambda>x. block_view (snd x)) dn)"
      using r(4) w3(4) unfolding ids by (metis (no_types, lifting) comp_apply map_eq_conv map_map)
    have "length v = length (concat (concat (map snd dn)))"
      unfolding v by (induction dn) (simp_all add: length_block_view)
    then show ?thesis
      using r by (intro read_stored [OF c(5,2-4) r(1,1) w3(6) _ w3(5,2) b w3(7) _ r(3) v]) auto
  qed
  then show ?thesis
    using w1(1) w2(1) w3(1) ids inc block_view_tail by (intro exI [of _ w1] exI [of _ w2] exI [of _ io2] exI [of _ w3] exI [of _ io3] exI [of _ meta]) simp
qed

lemma increasing_unique:
  assumes "increasing xs" "increasing ys" "set xs = set ys"
  shows "xs = ys"
proof -
  have s: "sorted (map sint zs) \<and> distinct (map sint zs)" if "increasing zs" for zs
  proof -
    have "sorted_wrt (<) (map sint zs)"
      using that by (simp add: increasing_def sorted_wrt_map)
    then show ?thesis
      by (simp add: strict_sorted_iff)
  qed
  have "map sint xs = map sint ys"
    using s [OF assms(1)] s [OF assms(2)] assms(3) by (intro sorted_distinct_set_unique) simp_all
  then show ?thesis
    by (rule map_injective) (simp add: inj_def sint_eq_iff)
qed

theorem multipart_round_trip_witness:
  "\<exists>w1 w2 io2 w3 io3 meta. GetEcosWriter client_env client_answers ''k'' client_io = Ret (w1, client_io)
    \<and> upload_parts client_env client_answers [(2, body_of [] (replicate 5000 7)), (1, body_of [] [1, 2, 3]), (2, body_of [] (replicate 5000 9))]
        (w1\<lparr>partObject := True\<rparr>) client_io = Ret (w2, io2, None)
    \<and> CloseMultiPart client_env [(\<lparr>Seconds = 0, Nanos = 0\<rparr>, client_answers)] [1, 2] w2 io2
        = Ret (w3, io3, Some meta, Inr (hex_encode (c_hash client_env MURMUR3_128 [])))
    \<and> read_seq client_env (client_answers\<lparr>a_meta := \<lambda>server ctx i. Inr meta\<rparr>) [client_answers\<lparr>a_meta := \<lambda>server ctx i. Inr meta\<rparr>]
        (io_world io3) [6000] (GetEcosReader ''k'') (io_agent io3)
      = Ret ([0, 0, 0] @ replicate 5000 9, Some EOF)"
proof -
  let ?us = "[(2, [], replicate 5000 7), (1, [], [1, 2, 3]), (2, [], replicate 5000 9)] :: (i32 \<times> bytes list \<times> bytes) list"
  let ?v = "[0, 0, 0 :: byte] @ replicate 5000 9" and ?now = "\<lparr>Seconds = 0, Nanos = 0\<rparr>"
  have acc: "\<forall>server ctx m. \<exists>r. a_record client_answers server ctx m = Inr r"
    by (simp add: client_answers_def)
  have hash: "ObjectHashType (c_config client_env) = MURMUR3_128" "ObjectHashType (c_config client_env) \<noteq> OFF"
    by (simp_all add: client_env_def example_bucket_def)
  have us: "list_all (upload_ok client_env) ?us"
    by (simp add: upload_ok_def client_env_def DefaultConfig_def block_cap_def example_bucket_def length_replicate)
  have pd: "parts_of Map.empty ?us 1 = Some [[1, 2, 3]]" "parts_of Map.empty ?us 2 = Some [replicate 5000 9]"
    by (simp_all add: parts_of_simps)
  have view: "concat (map (\<lambda>q. block_view (the (parts_of Map.empty ?us q))) [1, 2]) = ?v"
  proof -
    have "block_view [[1, 2, 3]] = [0, 0, 0]"
      using block_view_last [of "[]" "[1, 2, 3]"] by (simp add: bufio_size_def numeral_3_eq_3)
    moreover have "block_view [replicate 5000 9] = replicate 5000 9"
      using block_view_full [of "[replicate 5000 9]"] by (simp add: bufio_size_def length_replicate)
    ultimately show ?thesis
      using pd by simp
  qed
  have parts: "distinct [1, 2 :: i32]" "set [1, 2] \<subseteq> fst ` set ?us"
    by simp_all
  obtain w1 w2 io2 w3 io3 meta where e: "GetEcosWriter client_env client_answers ''k'' client_io = Ret (w1, client_io)"
      "upload_parts client_env client_answers (map (\<lambda>(q, ks, l). (q, body_of ks l)) ?us) (w1\<lparr>partObject := True\<rparr>) client_io = Ret (w2, io2, None)"
      "CloseMultiPart client_env [(?now, client_answers)] [1, 2] w2 io2
        = Ret (w3, io3, Some meta, Inr (hex_encode (c_hash client_env (ObjectHashType (c_config client_env)) [])))"
      "increasing (map PartId (Blocks meta))" "set (map PartId (Blocks meta)) = fst ` set ?us"
      "\<forall>rans ns v. answers_ok rans client_cluster \<longrightarrow> (\<forall>server ctx. a_meta rans server ctx (ObjId meta) = Inr meta) \<longrightarrow> list_all (\<lambda>n. n < 2 ^ 62) ns
        \<longrightarrow> v = concat (map (\<lambda>q. block_view (the (parts_of Map.empty ?us q))) (map PartId (Blocks meta))) \<longrightarrow> length v < 2 ^ 62
        \<longrightarrow> read_seq client_env rans [rans] (io_world io3) ns (GetEcosReader ''k'') (io_agent io3)
            = Ret (take (sum_list ns) v, if ns \<noteq> [] \<and> length v \<le> sum_list ns then Some EOF else None)"
    using multipart_round_trip [OF client_example_ok hash(2) client_answers_ok acc us parts, of "''k''" ?now]
    by (elim exE conjE) (rule that; assumption)
  have "map PartId (Blocks meta) = [1, 2]"
    by (rule increasing_unique [OF e(4)]) (use e(5) in \<open>auto simp: increasing_def\<close>)
  then have v: "?v = concat (map (\<lambda>q. block_view (the (parts_of Map.empty ?us q))) (map PartId (Blocks meta)))"
    using view by (simp only:)
  have len: "length ?v = 5003" "take (sum_list [6000]) ?v = ?v"
    by (simp_all add: length_replicate)
  have "read_seq client_env (client_answers\<lparr>a_meta := \<lambda>server ctx i. Inr meta\<rparr>) [client_answers\<lparr>a_meta := \<lambda>server ctx i. Inr meta\<rparr>]
        (io_world io3) [6000] (GetEcosReader ''k'') (io_agent io3) = Ret (?v, Some EOF)"
    using e(6) [rule_format, of "client_answers\<lparr>a_meta := \<lambda>server ctx i. Inr meta\<rparr>" "[6000]" ?v, OF _ _ _ v] client_answers_ok len
    by (simp del: read_seq.simps)
  then show ?thesis
    using e(1-3) hash(1) by (intro exI conjI) (assumption | simp only: list.map prod.case)+
qed

section \<open>Jobs that never end well\<close>

lemma wait_parts_stuck:
  "card (set pend) < n \<Longrightarrow> wait_parts m fs n pend = exec.Blocks ''receive on an empty channel''"
proof (induction fs arbitrary: n pend)
  case Nil
  then show ?case
    by (cases n) simp_all
next
  case (Cons b fs)
  obtain k where k: "n = Suc k"
    using Cons.prems by (cases n) simp_all
  have less: "card (set (removeAll p pend)) < k" if "p \<in> set pend" for p
    using card.remove [OF finite_set that] Cons.prems k by (simp add: set_removeAll)
  show ?case
  proof (cases "sm_load m (sint (PartId (bl_info b))) = Some b \<and> PartId (bl_info b) \<in> set pend")
    case True
    then show ?thesis
      using Cons.IH [OF less] k by (simp add: Let_def)
  next
    case False
    then show ?thesis
      using Cons.IH [OF Cons.prems] k by (auto simp: Let_def)
  qed
qed

text \<open>
  C37: Completing a multipart upload with a part named twice, which passes the check of the order,
  never returns: as many finished blocks are waited for as parts are named, but a part counts once.
\<close>

theorem CompleteMultipartUploadJob_duplicates:
  assumes "GetMultipartUploadWriter jobID f = Inr w" "parts_inv env c ps pd w (f_io f)" "set parts \<subseteq> dom pd"
    "parts_ordered parts" "\<not> distinct parts"
  shows "CompleteMultipartUploadJob env as jobID parts f = exec.Blocks ''receive on an empty channel''"
proof -
  let ?w = "w\<lparr>ew_Status := UPLOADING\<rparr>"
  have "1 \<le> sint p \<and> sint p \<le> 10000 \<and> sm_load (ew_blocks ?w) (sint p) \<noteq> None" if "p \<in> set parts" for p
    using parts_inv_blocks [OF assms(2), of p] assms(2,3) that by (auto simp: parts_inv_def)
  then have "check_parts ?w parts = Inr parts"
    by (intro check_parts_ok) blast
  moreover have "wait_parts (ew_blocks w) (finishedBlocks w) (length parts) parts = exec.Blocks ''receive on an empty channel''"
    using assms(5) card_length [of parts] by (intro wait_parts_stuck) (metis card_distinct le_neq_implies_less)
  ultimately show ?thesis
    using assms(1,4) parts_invD(1,2) [OF assms(2)] by (simp add: CompleteMultipartUploadJob_def CloseMultiPart_def)
qed

text \<open>
  C36: Aborting the job of a multipart upload reports success and forgets the job, but deletes
  nothing: the blocks of all uploaded parts stay at the nodes of their pipelines.
\<close>

theorem AbortMultipartUploadJob_keeps_parts:
  assumes "GetMultipartUploadWriter jobID f = Inr w" "parts_inv env c ps pd w (f_io f)"
  shows "\<exists>f'. AbortMultipartUploadJob ans jobID f = Ret (f', None) \<and> GetMultipartUploadWriter jobID f' = Inl (Err NoSuchUpload)
    \<and> f_io f' = f_io f
    \<and> (\<forall>p ks. pd p = Some ks \<longrightarrow> (\<exists>u. stored (c_ring env) ps (w_servers (io_world (f_io f'))) (w_disk (io_world (f_io f'))) u (fst (buffered ks ([], [])))))"
proof -
  let ?w = "w\<lparr>ew_Status := ABORTED\<rparr>"
  have "receive_blocks 0 ?w = Ret (?w, [])"
    by (simp add: receive_blocks_def)
  then have "AbortMultipartUploadJob ans jobID f = Ret (drop_job jobID (put_job jobID ?w (f_io f) f), None)"
    using assms(1) parts_invD(2,12) [OF assms(2)] by (simp add: AbortMultipartUploadJob_def ew_Abort_def)
  moreover have "\<exists>u. stored (c_ring env) ps (w_servers (io_world (f_io f))) (w_disk (io_world (f_io f))) u (fst (buffered ks ([], [])))"
    if "pd p = Some ks" for p ks
    using parts_invD(10) [OF assms(2) that] unfolding part_ok_def by blast
  ultimately show ?thesis
    by (intro exI [of _ "drop_job jobID (put_job jobID ?w (f_io f) f)"])
      (auto simp: drop_job_def put_job_def GetMultipartUploadWriter_def sm_load_delete)
qed

text \<open>A factory with one job, into which a part was uploaded.\<close>

lemma example_job:
  "\<exists>f w pd. GetMultipartUploadWriter ''j'' f = Inr w \<and> parts_inv client_env client_cluster client_pipes pd w (f_io f) \<and> pd 1 = Some [[5]]"
proof -
  have "ObjectHashType (c_config client_env) \<noteq> OFF"
    by (simp add: client_env_def example_bucket_def)
  then obtain w1 where w1: "parts_inv client_env client_cluster client_pipes Map.empty (w1\<lparr>partObject := True\<rparr>) client_io"
    using new_job_ok [OF client_example_ok client_answers_ok] by blast
  have env: "env_ok client_env"
    using client_example_ok by (simp add: client_ok_def)
  have "\<forall>k \<in> set ([] @ [[5]]). length k \<le> unat (c_chunkSize client_env)"
    by (simp add: client_env_def DefaultConfig_def)
  then obtain w2 io2 where w2: "parts_inv client_env client_cluster client_pipes [1 \<mapsto> [[5]]] w2 io2"
    using WritePart_ok [OF env client_answers_ok w1, of 1 "[]" "[5]"] by auto
  let ?f = "\<lparr>f_config = DefaultConfig, f_bucketInfo = Some example_bucket, f_io = io2, multipartJobs = [(''j'', w2)]\<rparr>"
  have "GetMultipartUploadWriter ''j'' ?f = Inr w2"
    by (simp add: GetMultipartUploadWriter_def sm_load_def)
  then show ?thesis
    using w2 by (intro exI [of _ ?f] exI [of _ w2] exI [of _ "[1 \<mapsto> [[5]]]"]) simp
qed

theorem CompleteMultipartUploadJob_duplicates_witness:
  "\<exists>f w pd. parts_inv client_env client_cluster client_pipes pd w (f_io f)
    \<and> CompleteMultipartUploadJob client_env [] ''j'' [1, 1] f = exec.Blocks ''receive on an empty channel''"
proof -
  obtain f w pd where f: "GetMultipartUploadWriter ''j'' f = Inr w" "parts_inv client_env client_cluster client_pipes pd w (f_io f)" "pd 1 = Some [[5]]"
    using example_job by blast
  have "parts_ordered [1, 1]"
    by (simp add: parts_ordered_def word_sless_alt)
  moreover have "set [1, 1] \<subseteq> dom pd"
    using f(3) by auto
  ultimately show ?thesis
    using CompleteMultipartUploadJob_duplicates [OF f(1,2), of "[1, 1]" "[]"] f(2) by auto
qed

theorem AbortMultipartUploadJob_keeps_parts_witness:
  "\<exists>f f' u. AbortMultipartUploadJob client_answers ''j'' f = Ret (f', None)
    \<and> stored first_ring client_pipes (w_servers (io_world (f_io f'))) (w_disk (io_world (f_io f'))) u (fst (buffered [[5]] ([], [])))"
proof -
  obtain f w pd where f: "GetMultipartUploadWriter ''j'' f = Inr w" "parts_inv client_env client_cluster client_pipes pd w (f_io f)" "pd 1 = Some [[5]]"
    using example_job by blast
  have ring: "c_ring client_env = first_ring"
    by (simp add: client_env_def)
  show ?thesis
    using AbortMultipartUploadJob_keeps_parts [OF f(1,2), of client_answers] f(3) unfolding ring by blast
qed

end
