(* ===== verification/Auth.thy ===== *)
theory Auth
  imports Errno
begin

text \<open>
  Authentication of remote calls: \<^verbatim>\<open>messenger/auth/auth.go\<close>, the interceptors of
  \<^verbatim>\<open>messenger/messenger.go\<close> and \<^verbatim>\<open>messenger/config/config.go\<close>, and the credential of the client.
  The standard base64 encoding is modelled as the Go library has it: line breaks are skipped, the
  padding is required, nothing may follow it, and the unused bits of the last character are not
  checked.  Reading the header of a call is a function of the gRPC middleware and a parameter.
\<close>

section \<open>encoding/base64\<close>

definition b64_char :: "nat \<Rightarrow> char" where
  "b64_char n =
     (if n < 26 then char_of (65 + n) else if n < 52 then char_of (71 + n)
      else if n < 62 then char_of (n - 4) else if n = 62 then CHR ''+'' else CHR ''/'')"

definition b64_value :: "char \<Rightarrow> nat option" where
  "b64_value c =
     (let n = (of_char c :: nat)
      in if 65 \<le> n \<and> n \<le> 90 then Some (n - 65) else if 97 \<le> n \<and> n \<le> 122 then Some (n - 71)
         else if 48 \<le> n \<and> n \<le> 57 then Some (n + 4) else if n = 43 then Some 62
         else if n = 47 then Some 63 else None)"

definition octet :: "nat \<Rightarrow> char" where
  "octet n = char_of (n mod 256)"

fun EncodeToString :: "string \<Rightarrow> string" where
  "EncodeToString [] = []"
| "EncodeToString [a] =
     (let x = (of_char a :: nat) in [b64_char (x div 4), b64_char (x mod 4 * 16), CHR ''='', CHR ''=''])"
| "EncodeToString [a, b] =
     (let x = (of_char a :: nat); y = (of_char b :: nat)
      in [b64_char (x div 4), b64_char (x mod 4 * 16 + y div 16), b64_char (y mod 16 * 4), CHR ''=''])"
| "EncodeToString (a # b # c # s) =
     (let x = (of_char a :: nat); y = (of_char b :: nat); z = (of_char c :: nat)
      in b64_char (x div 4) # b64_char (x mod 4 * 16 + y div 16) # b64_char (y mod 16 * 4 + z div 64)
           # b64_char (z mod 64) # EncodeToString s)"

text \<open>Four characters at a time; padding ends the text.\<close>

fun decode_quanta :: "string \<Rightarrow> string option" where
  "decode_quanta [] = Some []"
| "decode_quanta (a # b # c # d # s) =
     (case (b64_value a, b64_value b) of
        (Some x, Some y) \<Rightarrow>
          (if c = CHR ''='' then (if d = CHR ''='' \<and> s = [] then Some [octet (x * 4 + y div 16)] else None)
           else case b64_value c of
             None \<Rightarrow> None
           | Some z \<Rightarrow>
               (if d = CHR ''=''
                then (if s = [] then Some [octet (x * 4 + y div 16), octet (y * 16 + z div 4)] else None)
                else case b64_value d of
                  None \<Rightarrow> None
                | Some w \<Rightarrow>
                    map_option (\<lambda>t. octet (x * 4 + y div 16) # octet (y * 16 + z div 4) # octet (z * 64 + w) # t)
                      (decode_quanta s)))
      | _ \<Rightarrow> None)"
| "decode_quanta s = None"

definition DecodeString :: "string \<Rightarrow> string result" where
  "DecodeString s =
     (case decode_quanta (filter (\<lambda>c. c \<noteq> char_of (10 :: nat) \<and> c \<noteq> char_of (13 :: nat)) s) of
        None \<Rightarrow> Inl (ErrText ''illegal base64 data'')
      | Some raw \<Rightarrow> Inr raw)"

section \<open>Tokens\<close>

definition RootUserID :: string where
  "RootUserID = ''root''"

text \<open>Without a colon the error that is returned is the one of the decoding, which is nil.\<close>

definition parseToken :: "string \<Rightarrow> string result" where
  "parseToken token =
     (case DecodeString token of
        Inl err \<Rightarrow> Inl err
      | Inr raw \<Rightarrow> (case split_n 2 (CHR '':'') raw of [u, secret] \<Rightarrow> Inr u | _ \<Rightarrow> Inr []))"

section \<open>Contexts\<close>

text \<open>
  A context carries the metadata of the call and the tags set by the interceptors: the user and
  the configuration of the server.
\<close>

record CallCtx =
  metadata :: "(string \<times> string) list"
  TagUserID :: "string option"
  TagRpcConfig :: "bool option"

text \<open>The configuration of a server, as far as a call reads it, is whether authentication is on.\<close>

definition SetGrpcConfig :: "bool \<Rightarrow> CallCtx \<Rightarrow> CallCtx" where
  "SetGrpcConfig authEnabled ctx = ctx\<lparr>TagRpcConfig := Some authEnabled\<rparr>"

definition GetGrpcConfig :: "CallCtx \<Rightarrow> bool exec" where
  "GetGrpcConfig ctx =
     (case TagRpcConfig ctx of None \<Rightarrow> Panic ''interface conversion'' | Some authEnabled \<Rightarrow> Ret authEnabled)"

definition NewCtxWithToken :: "string \<Rightarrow> string \<Rightarrow> CallCtx" where
  "NewCtxWithToken ak sk =
     \<lparr>metadata = [(''authorization'', ''Basic '' @ EncodeToString (ak @ '':'' @ sk))],
      TagUserID = None, TagRpcConfig = None\<rparr>"

type_synonym auth_from_md = "(string \<times> string) list \<Rightarrow> string \<Rightarrow> string result"

definition BasicAuthFunc :: "auth_from_md \<Rightarrow> CallCtx \<Rightarrow> CallCtx result" where
  "BasicAuthFunc authFromMD ctx =
     (case authFromMD (metadata ctx) ''basic'' of
        Inl err \<Rightarrow> Inl err
      | Inr token \<Rightarrow>
          (case parseToken token of
             Inl err \<Rightarrow>
               Inl (ErrText (''rpc error: code = Unauthenticated desc = invalid auth token: '' @ Error err))
           | Inr userID \<Rightarrow> Inr (ctx\<lparr>TagUserID := Some userID\<rparr>)))"

definition GetUserID_ctx :: "CallCtx \<Rightarrow> string result exec" where
  "GetUserID_ctx ctx =
     exec_bind (GetGrpcConfig ctx) (\<lambda>authEnabled.
       if authEnabled then Ret (case TagUserID ctx of
           Some userID \<Rightarrow> Inr userID | None \<Rightarrow> Inl (ErrText ''user_id not found''))
       else Ret (Inr RootUserID))"

text \<open>
  The chain of interceptors of \<^verbatim>\<open>NewRpcServerWithConfig\<close> in front of the handler of a unary call.
  A call that opens a stream passes no interceptor.
\<close>

definition unary_chain ::
    "auth_from_md \<Rightarrow> bool \<Rightarrow> (CallCtx \<Rightarrow> 'a result exec) \<Rightarrow> CallCtx \<Rightarrow> 'a result exec" where
  "unary_chain authFromMD authEnabled handler ctx =
     (let ctx = SetGrpcConfig authEnabled (ctx\<lparr>TagUserID := None, TagRpcConfig := None\<rparr>)
      in if authEnabled
         then (case BasicAuthFunc authFromMD ctx of Inl err \<Rightarrow> Ret (Inl err) | Inr ctx \<Rightarrow> handler ctx)
         else handler ctx)"

section \<open>Credentials of the client\<close>

record Credential =
  AccessKey_c :: string
  SecretKey_c :: string

definition NewCredential :: "string \<Rightarrow> string \<Rightarrow> Credential" where
  "NewCredential accessKey secretKey = \<lparr>AccessKey_c = accessKey, SecretKey_c = secretKey\<rparr>"

definition GetUserID :: "Credential \<Rightarrow> string" where
  "GetUserID c = ''root''"

section \<open>Lemmas\<close>

lemma of_char_less: "(of_char c :: nat) < 256"
  using of_char_mod_256 [of c, where ?'a = nat] by (metis mod_less_divisor zero_less_numeral)

lemma b64_value_char [simp]: "n < 64 \<Longrightarrow> b64_value (b64_char n) = Some n"
  by (auto simp: b64_char_def b64_value_def Let_def of_char_of)

lemma b64_char_plain:
  assumes "n < 64"
  shows "b64_char n \<noteq> CHR ''=''" "b64_char n \<noteq> char_of (10 :: nat)" "b64_char n \<noteq> char_of (13 :: nat)"
proof -
  have "b64_value (CHR ''='') = None" "b64_value (char_of (10 :: nat)) = None" "b64_value (char_of (13 :: nat)) = None"
    by (simp_all add: b64_value_def)
  then show "b64_char n \<noteq> CHR ''=''" "b64_char n \<noteq> char_of (10 :: nat)" "b64_char n \<noteq> char_of (13 :: nat)"
    using b64_value_char [OF assms] by (metis option.distinct(1))+
qed

lemma pad_plain: "CHR ''='' \<noteq> char_of (10 :: nat)" "CHR ''='' \<noteq> char_of (13 :: nat)"
  by (simp_all add: char_of_def)

lemma octet_of_char: "n mod 256 = (of_char c :: nat) \<Longrightarrow> octet n = c"
  by (simp add: octet_def)

text \<open>The six-bit groups of three bytes, put together again.\<close>

lemma regroup:
  assumes "x < 256" "y < 256" "z < (256 :: nat)"
  shows "(x div 4 * 4 + (x mod 4 * 16 + y div 16) div 16) mod 256 = x"
    "((x mod 4 * 16 + y div 16) * 16 + (y mod 16 * 4 + z div 64) div 4) mod 256 = y"
    "((y mod 16 * 4 + z div 64) * 64 + z mod 64) mod 256 = z"
    "x div 4 < 64" "x mod 4 * 16 + y div 16 < 64" "y mod 16 * 4 + z div 64 < 64"
proof -
  have d: "y div 16 < 16" "z div 64 < 4" "x div 4 < 64"
    using assms by (simp_all add: less_mult_imp_div_less)
  have "(x mod 4 * 16 + y div 16) div 16 = x mod 4" "(y mod 16 * 4 + z div 64) div 4 = y mod 16"
    using d by simp_all
  moreover have "(x mod 4 * 16 + y div 16) * 16 + y mod 16 = y + 256 * (x mod 4)"
    using div_mult_mod_eq [of y 16] by simp
  moreover have "(y mod 16 * 4 + z div 64) * 64 + z mod 64 = z + 256 * (y mod 16)"
    using div_mult_mod_eq [of z 64] by simp
  ultimately show "(x div 4 * 4 + (x mod 4 * 16 + y div 16) div 16) mod 256 = x"
    "((x mod 4 * 16 + y div 16) * 16 + (y mod 16 * 4 + z div 64) div 4) mod 256 = y"
    "((y mod 16 * 4 + z div 64) * 64 + z mod 64) mod 256 = z"
    using assms by simp_all
  have "x mod 4 < 4" "y mod 16 < 16"
    by simp_all
  then show "x div 4 < 64" "x mod 4 * 16 + y div 16 < 64" "y mod 16 * 4 + z div 64 < 64"
    using d by linarith+
qed

lemma decode_encode: "decode_quanta (EncodeToString s) = Some s"
proof (induction s rule: EncodeToString.induct)
  case (2 a)
  then show ?case
    using regroup [of "of_char a" 0 0] of_char_less [of a] by (simp add: Let_def octet_of_char)
next
  case (3 a b)
  have z: "of_char a < (256 :: nat)" "of_char b < (256 :: nat)"
    by (rule of_char_less)+
  note r = regroup [OF z, of 0]
  have "b64_char (of_char b mod 16 * 4) \<noteq> CHR ''=''"
    using r(6) b64_char_plain(1) by simp
  then show ?case
    using r by (simp add: Let_def octet_of_char)
next
  case (4 a b c s)
  have z: "of_char a < (256 :: nat)" "of_char b < (256 :: nat)" "of_char c < (256 :: nat)"
    by (rule of_char_less)+
  note r = regroup [OF z]
  have "of_char c mod 64 < (64 :: nat)"
    by simp
  then show ?case
    using r b64_char_plain(1) 4 by (simp add: Let_def octet_of_char)
qed simp

lemma encode_plain: "c \<in> set (EncodeToString s) \<Longrightarrow> c \<noteq> char_of (10 :: nat) \<and> c \<noteq> char_of (13 :: nat)"
proof (induction s rule: EncodeToString.induct)
  case (2 a)
  then show ?case
    using regroup(4-6) [of "of_char a" 0 0] of_char_less [of a] b64_char_plain pad_plain by (auto simp: Let_def)
next
  case (3 a b)
  then show ?case
    using regroup(4-6) [of "of_char a" "of_char b" 0] of_char_less [of a] of_char_less [of b] b64_char_plain pad_plain
    by (auto simp: Let_def)
next
  case (4 a b c s)
  then show ?case
    using regroup(4-6) [of "of_char a" "of_char b" "of_char c"] of_char_less [of a] of_char_less [of b] of_char_less [of c]
      b64_char_plain [of "of_char c mod 64"] b64_char_plain
    by (auto simp: Let_def)
qed simp

lemma DecodeString_Encode [simp]: "DecodeString (EncodeToString s) = Inr s"
proof -
  have "filter (\<lambda>c. c \<noteq> char_of (10 :: nat) \<and> c \<noteq> char_of (13 :: nat)) (EncodeToString s) = EncodeToString s"
    using encode_plain by (simp add: filter_id_conv)
  then show ?thesis
    by (simp add: DecodeString_def decode_encode)
qed

lemma parseToken_pair: "CHR '':'' \<notin> set ak \<Longrightarrow> parseToken (EncodeToString (ak @ '':'' @ sk)) = Inr ak"
  using split_n_append_sep [of "CHR '':''" ak 1 sk] by (simp add: parseToken_def numeral_2_eq_2)

lemma parseToken_no_colon: "CHR '':'' \<notin> set s \<Longrightarrow> parseToken (EncodeToString s) = Inr []"
  by (simp add: parseToken_def numeral_2_eq_2)

section \<open>Properties\<close>

text \<open>What the middleware documents: the token of an authorization header with the asked scheme.\<close>

definition reads_basic :: "auth_from_md \<Rightarrow> bool" where
  "reads_basic authFromMD \<longleftrightarrow>
     (\<forall>token. authFromMD [(''authorization'', ''Basic '' @ token)] ''basic'' = Inr token)"

definition first_header :: auth_from_md where
  "first_header md scheme =
     (case md of [] \<Rightarrow> Inl (ErrText ''Request unauthenticated'') | (k, v) # _ \<Rightarrow> Inr (drop 6 v))"

text \<open>
  C40: a call with the token of an access key without a colon is served, by a server that requires
  authentication, as the user with that access key, whatever the secret key is, and by a server
  that does not as the root user; and a call whose token has no colon at all is served by the
  former as the user with the empty name.
\<close>

theorem token_names_user:
  assumes "reads_basic authFromMD" "CHR '':'' \<notin> set ak"
  shows "unary_chain authFromMD True GetUserID_ctx (NewCtxWithToken ak sk) = Ret (Inr ak)
    \<and> unary_chain authFromMD False GetUserID_ctx (NewCtxWithToken ak sk) = Ret (Inr RootUserID)
    \<and> unary_chain authFromMD True GetUserID_ctx
           ((NewCtxWithToken ak sk)\<lparr>metadata := [(''authorization'', ''Basic '' @ EncodeToString ak)]\<rparr>) = Ret (Inr [])"
proof -
  have md: "authFromMD [(''authorization'', ''Basic '' @ token)] ''basic'' = Inr token" for token
    using assms(1) unfolding reads_basic_def by blast
  note defs = unary_chain_def NewCtxWithToken_def BasicAuthFunc_def GetUserID_ctx_def GetGrpcConfig_def SetGrpcConfig_def
  have "unary_chain authFromMD True GetUserID_ctx (NewCtxWithToken ak sk) = Ret (Inr ak)"
    using md [of "EncodeToString (ak @ '':'' @ sk)"] parseToken_pair [OF assms(2), of sk] by (simp add: defs)
  moreover have "unary_chain authFromMD False GetUserID_ctx (NewCtxWithToken ak sk) = Ret (Inr RootUserID)"
    by (simp add: defs)
  moreover have "unary_chain authFromMD True GetUserID_ctx
           ((NewCtxWithToken ak sk)\<lparr>metadata := [(''authorization'', ''Basic '' @ EncodeToString ak)]\<rparr>) = Ret (Inr [])"
    using md [of "EncodeToString ak"] parseToken_no_colon [OF assms(2)] by (simp add: defs)
  ultimately show ?thesis
    by (intro conjI)
qed

theorem token_names_user_witness:
  "EncodeToString ''root:secret'' = ''cm9vdDpzZWNyZXQ=''
     \<and> unary_chain first_header True GetUserID_ctx (NewCtxWithToken ''root'' ''secret'') = Ret (Inr ''root'')"
proof -
  have "reads_basic first_header"
    by (simp add: reads_basic_def first_header_def)
  moreover have "EncodeToString ''root:secret'' = ''cm9vdDpzZWNyZXQ=''"
    by code_simp
  ultimately show ?thesis
    using token_names_user [of first_header "''root''" "''secret''"] by simp
qed

end
