(* ===== verification/Client_Operator.thy ===== *)
theory Client_Operator
  imports Ecos_Parts Auth
begin

text \<open>
  The client as a whole, \<^verbatim>\<open>client/client.go\<close>, and its operators, \<^verbatim>\<open>client/operator.go\<close> and
  \<^verbatim>\<open>client/cloud_operator.go\<close>: buckets are created, found, listed and deleted at the information
  service of a node, objects are found, listed and removed at the metadata service.  The servers are
  represented by their answers, and a request that changes something is returned as sent, so that
  the theorems can hand it to the model of the server.  The factories of the client are shared by
  reference: they are kept in a list and the cache of the \<^verbatim>\<open>golang-lru\<close> library, a parameter, holds
  their positions.  The disks of the servers and the supply of unique identifiers belong to the
  client and are lent to the factory in use.  Printing as JSON is left out.
\<close>

section \<open>Answers\<close>

record OpAnswers =
  o_answers :: Answers
  o_list :: "NodeInfo \<Rightarrow> InfoType \<Rightarrow> string \<Rightarrow> BaseInfo option list result"
  o_propose :: "NodeInfo \<Rightarrow> ProposeInfoRequest \<Rightarrow> Result result"
  o_delete :: "NodeInfo \<Rightarrow> Ctx \<Rightarrow> string \<Rightarrow> Result result"
  o_listMeta :: "NodeInfo option \<Rightarrow> Ctx \<Rightarrow> string \<Rightarrow> ObjectMeta list result"

text \<open>What an operator hands to a server to be changed.\<close>

datatype sent = SentPropose NodeInfo ProposeInfoRequest | SentDelete NodeInfo Ctx string

section \<open>The client\<close>

text \<open>The cache: every operation returns the cache and, where it drops entries, the dropped values.\<close>

record 'p Lru =
  lru_Get :: "string \<Rightarrow> 'p \<Rightarrow> 'p \<times> nat option"
  lru_Add :: "string \<Rightarrow> nat \<Rightarrow> 'p \<Rightarrow> 'p \<times> nat list"
  lru_Remove :: "string \<Rightarrow> 'p \<Rightarrow> 'p \<times> nat list"

record 'p Client =
  cl_config :: ClientConfig
  cl_agent :: InfoAgent
  factoryPool :: 'p
  factories :: "EcosIOFactory list"
  cl_world :: World
  cl_next :: nat

definition userID :: string where
  "userID = GetUserID \<lparr>AccessKey_c = [], SecretKey_c = []\<rparr>"

definition NewClient :: "ClientConfig \<Rightarrow> 'p \<Rightarrow> World \<Rightarrow> nat \<Rightarrow> 'p Client" where
  "NewClient conf pool wd next =
     \<lparr>cl_config = conf, cl_agent = NewInfoAgent (configured_cluster conf) (ConnectType_cc conf), factoryPool = pool,
      factories = [], cl_world = wd, cl_next = next\<rparr>"

definition GetMoon :: "Answers \<Rightarrow> InfoAgent \<Rightarrow> (InfoAgent \<times> NodeInfo result) exec" where
  "GetMoon ans agent =
     exec_bind (GetCurClusterInfo ans agent) (\<lambda>(agent, c).
       Ret (agent, case List.find (\<lambda>n. State n = ONLINE) (NodesInfo c) of
         None \<Rightarrow> Inl (Err ConnectionIssue) | Some n \<Rightarrow> Inr n))"

definition getBucketInfo :: "Answers \<Rightarrow> string \<Rightarrow> InfoAgent \<Rightarrow> (InfoAgent \<times> BucketInfo option result) exec" where
  "getBucketInfo ans bucketName agent =
     exec_bind (ia_Get ans BUCKET_INFO (GenBucketID userID bucketName) agent) (\<lambda>(agent, info, err).
       Ret (agent, case err of Some e \<Rightarrow> Inl e | None \<Rightarrow> Inr (GetBucketInfo_base info)))"

text \<open>Calls through the cloud carry the context of the caller, which has no term.\<close>

definition listObjectsByCloud ::
    "OpAnswers \<Rightarrow> string \<Rightarrow> string \<Rightarrow> InfoAgent \<Rightarrow> (InfoAgent \<times> ObjectMeta list result) exec" where
  "listObjectsByCloud ops bucketName prefix agent =
     exec_bind (getBucketInfo (o_answers ops) bucketName agent) (\<lambda>(agent, res).
       case res of
         Inl err \<Rightarrow> Ret (agent, Inl err)
       | Inr None \<Rightarrow> Panic ''nil pointer dereference''
       | Inr (Some b) \<Rightarrow>
           Ret (agent, o_listMeta ops None \<lparr>TagTerm = [], Done = False\<rparr> (path_join [BucketInfo_GetID b, prefix])))"

text \<open>
  One pass over the slots of the bucket.  The inner result is the listing, an error to return, or
  \<open>None\<close> when a server refused the term.  Any other error of a listing is not looked at and the
  missing reply is dereferenced.
\<close>

primrec list_slots ::
    "hash_ring \<Rightarrow> OpAnswers \<Rightarrow> ClusterInfo \<Rightarrow> Pipeline list \<Rightarrow> BucketInfo \<Rightarrow> string \<Rightarrow> nat list \<Rightarrow> InfoAgent
     \<Rightarrow> (InfoAgent \<times> ObjectMeta list result option) exec" where
  "list_slots ring ops c ps b prefix [] agent = Ret (agent, Some (Inr []))"
| "list_slots ring ops c ps b prefix (i # js) agent =
     exec_bind (GenSlotPgID ring (BucketInfo_GetID b) (word_of_nat i) (MetaPgNum c)) (\<lambda>pgID.
     exec_bind (pipeline_at ps pgID) (\<lambda>p.
     exec_bind (first_node (RaftIds p)) (\<lambda>nodeID.
     exec_bind (ia_Get (o_answers ops) NODE_INFO (FormatUint nodeID) agent) (\<lambda>(agent, info, err).
       case err of
         Some e \<Rightarrow> Ret (agent, Some (Inl e))
       | None \<Rightarrow>
           (case GetNodeInfo_base info of
              None \<Rightarrow> Panic ''nil pointer dereference''
            | Some n \<Rightarrow>
                (case o_listMeta ops (Some n) (term_ctx (Term c)) (path_join [BucketInfo_GetID b, Itoa (int i), prefix]) of
                   Inl e \<Rightarrow> if term_refused e then Ret (agent, None) else Panic ''nil pointer dereference''
                 | Inr ms \<Rightarrow>
                     exec_bind (list_slots ring ops c ps b prefix js agent) (\<lambda>(agent, res).
                       Ret (agent, map_option (map_sum id ((@) ms)) res))))))))"

primrec list_retry ::
    "hash_ring \<Rightarrow> crush \<Rightarrow> OpAnswers list \<Rightarrow> BucketInfo \<Rightarrow> string \<Rightarrow> InfoAgent \<Rightarrow> (InfoAgent \<times> ObjectMeta list result) exec" where
  "list_retry ring select [] b prefix agent = exec.Blocks ''waiting for an answer''"
| "list_retry ring select (ops # opss) b prefix agent =
     exec_bind (GetCurClusterInfo (o_answers ops) agent) (\<lambda>(agent, c).
     exec_bind (key_slot_num b) (\<lambda>slots.
     exec_bind (list_slots ring ops c (GenMetaPipelines select c) b prefix [1..<Suc (nat (sint slots))] agent) (\<lambda>(agent, res).
       case res of
         Some r \<Rightarrow> Ret (agent, r)
       | None \<Rightarrow>
           exec_bind (UpdateCurClusterInfo (o_answers ops) agent) (\<lambda>(agent, err).
             case err of Some e \<Rightarrow> Ret (agent, Inl e) | None \<Rightarrow> list_retry ring select opss b prefix agent))))"

definition listObjectsByEdge ::
    "hash_ring \<Rightarrow> crush \<Rightarrow> OpAnswers list \<Rightarrow> string \<Rightarrow> string \<Rightarrow> InfoAgent \<Rightarrow> (InfoAgent \<times> ObjectMeta list result) exec" where
  "listObjectsByEdge ring select opss bucketName prefix agent =
     (case opss of
        [] \<Rightarrow> exec.Blocks ''waiting for an answer''
      | ops # _ \<Rightarrow>
          exec_bind (getBucketInfo (o_answers ops) bucketName agent) (\<lambda>(agent, res).
            case res of
              Inl err \<Rightarrow> Ret (agent, Inl err)
            | Inr None \<Rightarrow> exec_bind (GetCurClusterInfo (o_answers ops) agent) (\<lambda>_. Panic ''nil pointer dereference'')
            | Inr (Some b) \<Rightarrow> list_retry ring select opss b prefix agent))"

definition ListObjects ::
    "Libs \<Rightarrow> OpAnswers list \<Rightarrow> string \<Rightarrow> string \<Rightarrow> 'p Client \<Rightarrow> ('p Client \<times> ObjectMeta list result) exec" where
  "ListObjects libs opss bucketName prefix cl =
     exec_bind
       (case (ConnectType_cc (cl_config cl), opss) of
          (ConnectCloud, ops # _) \<Rightarrow> listObjectsByCloud ops bucketName prefix (cl_agent cl)
        | _ \<Rightarrow> listObjectsByEdge (c_ring libs) (c_crush libs) opss bucketName prefix (cl_agent cl))
       (\<lambda>(agent, res). Ret (cl\<lparr>cl_agent := agent\<rparr>, res))"
section \<open>Factories\<close>

text \<open>A factory in use has the disks and the identifiers of the client.\<close>

definition lend_factory :: "nat \<Rightarrow> 'p Client \<Rightarrow> EcosIOFactory exec" where
  "lend_factory a cl =
     (case nth_opt (factories cl) a of
        None \<Rightarrow> Panic ''nil pointer dereference''
      | Some f \<Rightarrow> Ret (f\<lparr>f_io := (f_io f)\<lparr>io_world := cl_world cl, io_next := cl_next cl\<rparr>\<rparr>))"

definition keep_factory :: "nat \<Rightarrow> EcosIOFactory \<Rightarrow> 'p Client \<Rightarrow> 'p Client" where
  "keep_factory a f cl =
     cl\<lparr>factories := (factories cl)[a := f], cl_world := io_world (f_io f), cl_next := io_next (f_io f)\<rparr>"

text \<open>The cache calls back for every entry it drops: the unfinished uploads of the factory are aborted.\<close>

definition evict :: "Answers \<Rightarrow> nat list \<Rightarrow> 'p Client \<Rightarrow> 'p Client exec" where
  "evict ans as cl =
     exec_fold (\<lambda>a cl.
       exec_bind (lend_factory a cl) (\<lambda>f.
       exec_bind (AbortAllMultipartUploadJob ans f) (\<lambda>f. Ret (keep_factory a f cl)))) as cl"

definition add_factory :: "'p Lru \<Rightarrow> Answers \<Rightarrow> string \<Rightarrow> 'p Client \<Rightarrow> ('p Client \<times> nat result) exec" where
  "add_factory lru ans bucketName cl =
     exec_bind (NewEcosIOFactory ans (cl_config cl) userID bucketName (cl_world cl) (cl_next cl)) (\<lambda>res.
       case res of
         Inl err \<Rightarrow> Ret (cl, Inl err)
       | Inr f \<Rightarrow>
           (let a = length (factories cl); (pool, dropped) = lru_Add lru bucketName a (factoryPool cl)
            in exec_bind (evict ans dropped (cl\<lparr>factories := factories cl @ [f], factoryPool := pool\<rparr>))
                 (\<lambda>cl. Ret (cl, Inr a))))"

definition GetIOFactory :: "'p Lru \<Rightarrow> Answers \<Rightarrow> string \<Rightarrow> 'p Client \<Rightarrow> ('p Client \<times> nat result) exec" where
  "GetIOFactory lru ans bucketName cl =
     (let (pool, found) = lru_Get lru bucketName (factoryPool cl); cl = cl\<lparr>factoryPool := pool\<rparr>
      in case found of
           None \<Rightarrow> add_factory lru ans bucketName cl
         | Some a \<Rightarrow>
             exec_bind (lend_factory a cl) (\<lambda>f.
               if IsConnected f then Ret (cl, Inr a)
               else let (pool, dropped) = lru_Remove lru bucketName pool
                    in exec_bind (evict ans dropped (cl\<lparr>factoryPool := pool\<rparr>)) (add_factory lru ans bucketName)))"

section \<open>Operators\<close>

datatype Operator =
    ClusterOperator
  | EdgeVolumeOperator string
  | BucketOperator "BucketInfo option"
  | ObjectOperator ObjectMeta
  | CloudVolumeOperator string
  | CloudBucketOperator string
  | CloudObjectOperator ObjectMeta

definition GetVolumeOperator :: "'p Client \<Rightarrow> Operator" where
  "GetVolumeOperator cl =
     (case ConnectType_cc (cl_config cl) of
        ConnectCloud \<Rightarrow> CloudVolumeOperator userID | ConnectEdge \<Rightarrow> EdgeVolumeOperator userID)"

subsection \<open>Volumes\<close>

definition volume_Get :: "Answers \<Rightarrow> string \<Rightarrow> string \<Rightarrow> InfoAgent \<Rightarrow> (InfoAgent \<times> Operator result) exec" where
  "volume_Get ans volumeID key agent =
     exec_bind (GetMoon ans agent) (\<lambda>(agent, res).
       case res of
         Inl err \<Rightarrow> Ret (agent, Inl err)
       | Inr n \<Rightarrow>
           Ret (agent, map_sum id (\<lambda>info. BucketOperator (GetBucketInfo_base (IBase info)))
             (a_info ans n BUCKET_INFO (GenBucketID volumeID key))))"

definition volume_List :: "OpAnswers \<Rightarrow> string \<Rightarrow> string \<Rightarrow> InfoAgent \<Rightarrow> (InfoAgent \<times> Operator list result) exec" where
  "volume_List ops volumeID key agent =
     exec_bind (GetMoon (o_answers ops) agent) (\<lambda>(agent, res).
       case res of
         Inl err \<Rightarrow> Ret (agent, Inl err)
       | Inr n \<Rightarrow>
           Ret (agent, map_sum id
             (map (\<lambda>info. BucketOperator (case info of Some (BaseInfo_BucketInfo b) \<Rightarrow> Some b | _ \<Rightarrow> None)))
             (o_list ops n BUCKET_INFO (GenBucketID volumeID key))))"

text \<open>Both changes of a volume propose the information of the bucket; a nil bucket is dereferenced.\<close>

definition propose_bucket ::
    "OpAnswers \<Rightarrow> ProposeOperate \<Rightarrow> BucketInfo option \<Rightarrow> InfoAgent \<Rightarrow> (InfoAgent \<times> sent list \<times> go_error option) exec" where
  "propose_bucket ops oper bucketInfo agent =
     exec_bind (GetMoon (o_answers ops) agent) (\<lambda>(agent, res).
       case res of
         Inl err \<Rightarrow> Ret (agent, [], Some err)
       | Inr n \<Rightarrow>
           (case bucketInfo of
              None \<Rightarrow> Panic ''nil pointer dereference''
            | Some b \<Rightarrow>
                (let q = \<lparr>Operate_pi = oper, Id = BucketInfo_GetID b, BaseInfo_pi = Some (BaseInfo_BucketInfo b), OperateId_pi = 0\<rparr>
                 in Ret (agent, [SentPropose n q], case o_propose ops n q of Inl err \<Rightarrow> Some err | Inr _ \<Rightarrow> None))))"

definition CreateBucket ::
    "OpAnswers \<Rightarrow> BucketInfo option \<Rightarrow> InfoAgent \<Rightarrow> (InfoAgent \<times> sent list \<times> go_error option) exec" where
  "CreateBucket ops bucketInfo agent = propose_bucket ops ADD bucketInfo agent"

definition DeleteBucket ::
    "OpAnswers \<Rightarrow> BucketInfo option \<Rightarrow> InfoAgent \<Rightarrow> (InfoAgent \<times> sent list \<times> go_error option) exec" where
  "DeleteBucket ops bucketInfo agent = propose_bucket ops DELETE_INFO bucketInfo agent"

definition volume_Remove :: "OpAnswers \<Rightarrow> string \<Rightarrow> string \<Rightarrow> InfoAgent \<Rightarrow> (InfoAgent \<times> sent list \<times> go_error option) exec" where
  "volume_Remove ops volumeID bucketName agent =
     DeleteBucket ops (Some \<lparr>VolumeId_b = volumeID, BucketName = bucketName, UserId_b = [], GroupId_b = [], Mode = 0, Config = None\<rparr>) agent"

subsection \<open>Buckets\<close>

definition bucket_alaya ::
    "Libs \<Rightarrow> Answers \<Rightarrow> BucketInfo option \<Rightarrow> string \<Rightarrow> InfoAgent \<Rightarrow> (InfoAgent \<times> NodeInfo result) exec" where
  "bucket_alaya libs ans bucketInfo key agent =
     exec_bind (GetCurClusterInfo ans agent) (\<lambda>(agent, c).
       case bucketInfo of
         None \<Rightarrow> Panic ''nil pointer dereference''
       | Some b \<Rightarrow>
           exec_bind (GenObjPgID (c_ring libs) b key (MetaPgNum c)) (\<lambda>pgID.
           exec_bind (GetCurClusterInfo ans agent) (\<lambda>(agent, c).
             case NewClusterPipelines (c_crush libs) c of
               Inl err \<Rightarrow> Ret (agent, Inl err)
             | Inr cp \<Rightarrow>
                 exec_bind (GetMetaPG cp pgID) (\<lambda>ids.
                 exec_bind (first_node ids) (\<lambda>nodeID.
                 exec_bind (ia_Get ans NODE_INFO (FormatUint nodeID) agent) (\<lambda>(agent, info, err).
                   case err of
                     Some e \<Rightarrow> Ret (agent, Inl e)
                   | None \<Rightarrow>
                       (case GetNodeInfo_base info of
                          None \<Rightarrow> Panic ''nil pointer dereference''
                        | Some n \<Rightarrow> Ret (agent, Inr n))))))))"

text \<open>
  A request about an object of the bucket, sent again as long as the server refuses its term; every
  attempt has its own answers.
\<close>

primrec bucket_call ::
    "Libs \<Rightarrow> (OpAnswers \<Rightarrow> NodeInfo \<Rightarrow> Ctx \<Rightarrow> string \<Rightarrow> 'r result) \<Rightarrow> OpAnswers list \<Rightarrow> BucketInfo option \<Rightarrow> string \<Rightarrow> InfoAgent
     \<Rightarrow> (InfoAgent \<times> (NodeInfo \<times> Ctx \<times> string) list \<times> 'r result) exec" where
  "bucket_call libs ask [] bucketInfo key agent = exec.Blocks ''waiting for an answer''"
| "bucket_call libs ask (ops # opss) bucketInfo key agent =
     exec_bind (bucket_alaya libs (o_answers ops) bucketInfo key agent) (\<lambda>(agent, server).
       case server of
         Inl err \<Rightarrow> Ret (agent, [], Inl err)
       | Inr n \<Rightarrow>
           exec_bind (GetCurClusterInfo (o_answers ops) agent) (\<lambda>(agent, c).
             case bucketInfo of
               None \<Rightarrow> Panic ''nil pointer dereference''
             | Some b \<Rightarrow>
                 exec_bind (GenObjectId (c_ring libs) b key) (\<lambda>objID.
                   let q = (n, term_ctx (Term c), objID)
                   in case ask ops n (term_ctx (Term c)) objID of
                        Inr r \<Rightarrow> Ret (agent, [q], Inr r)
                      | Inl err \<Rightarrow>
                          (if term_refused err
                           then exec_bind (UpdateCurClusterInfo (o_answers ops) agent) (\<lambda>(agent, err).
                                  case err of
                                    Some e \<Rightarrow> Ret (agent, [q], Inl e)
                                  | None \<Rightarrow>
                                      exec_bind (bucket_call libs ask opss bucketInfo key agent) (\<lambda>(agent, qs, res).
                                        Ret (agent, q # qs, res)))
                           else Ret (agent, [q], Inl err)))))"

definition bucket_Remove ::
    "Libs \<Rightarrow> OpAnswers list \<Rightarrow> BucketInfo option \<Rightarrow> string \<Rightarrow> InfoAgent \<Rightarrow> (InfoAgent \<times> sent list \<times> go_error option) exec" where
  "bucket_Remove libs opss bucketInfo key agent =
     exec_bind (bucket_call libs (\<lambda>ops n ctx i. o_delete ops n ctx i) opss bucketInfo key agent) (\<lambda>(agent, qs, res).
       Ret (agent, map (\<lambda>(n, ctx, i). SentDelete n ctx i) qs, case res of Inl err \<Rightarrow> Some err | Inr _ \<Rightarrow> None))"

definition bucket_Get ::
    "Libs \<Rightarrow> OpAnswers list \<Rightarrow> BucketInfo option \<Rightarrow> string \<Rightarrow> InfoAgent \<Rightarrow> (InfoAgent \<times> Operator result) exec" where
  "bucket_Get libs opss bucketInfo key agent =
     exec_bind (bucket_call libs (\<lambda>ops n ctx i. a_meta (o_answers ops) (Some n) ctx i) opss bucketInfo key agent) (\<lambda>(agent, qs, res).
       Ret (agent, map_sum id ObjectOperator res))"

definition bucket_List ::
    "Libs \<Rightarrow> OpAnswers list \<Rightarrow> string \<Rightarrow> string \<Rightarrow> 'p Client \<Rightarrow> ('p Client \<times> Operator list result) exec" where
  "bucket_List libs opss bucketName prefix cl =
     exec_bind (ListObjects libs opss bucketName prefix cl) (\<lambda>(cl, res). Ret (cl, map_sum id (map CloudObjectOperator) res))"

subsection \<open>The interface\<close>

definition op_Get :: "Libs \<Rightarrow> OpAnswers list \<Rightarrow> Operator \<Rightarrow> string \<Rightarrow> 'p Client \<Rightarrow> ('p Client \<times> Operator result) exec" where
  "op_Get libs opss op key cl =
     (let back = (\<lambda>(agent, res). Ret (cl\<lparr>cl_agent := agent\<rparr>, res))
      in case op of
           EdgeVolumeOperator v \<Rightarrow>
             (case opss of
                [] \<Rightarrow> exec.Blocks ''waiting for an answer''
              | ops # _ \<Rightarrow> exec_bind (volume_Get (o_answers ops) v key (cl_agent cl)) back)
         | BucketOperator b \<Rightarrow> exec_bind (bucket_Get libs opss b key (cl_agent cl)) back
         | CloudVolumeOperator v \<Rightarrow> Ret (cl, Inr (CloudBucketOperator key))
         | ClusterOperator \<Rightarrow> Panic ''cluster operator does not support get''
         | ObjectOperator m \<Rightarrow> Panic ''object operator can not get''
         | CloudBucketOperator n \<Rightarrow> Panic ''implement me''
         | CloudObjectOperator m \<Rightarrow> Panic ''implement me'')"

definition op_List :: "Libs \<Rightarrow> OpAnswers list \<Rightarrow> Operator \<Rightarrow> string \<Rightarrow> 'p Client \<Rightarrow> ('p Client \<times> Operator list result) exec" where
  "op_List libs opss op prefix cl =
     (case op of
        EdgeVolumeOperator v \<Rightarrow>
          (case opss of
             [] \<Rightarrow> exec.Blocks ''waiting for an answer''
           | ops # _ \<Rightarrow>
               exec_bind (volume_List ops v prefix (cl_agent cl)) (\<lambda>(agent, res). Ret (cl\<lparr>cl_agent := agent\<rparr>, res)))
      | BucketOperator (Some b) \<Rightarrow> bucket_List libs opss (BucketName b) prefix cl
      | BucketOperator None \<Rightarrow> Panic ''nil pointer dereference''
      | CloudBucketOperator n \<Rightarrow> bucket_List libs opss n prefix cl
      | _ \<Rightarrow> Panic ''implement me'')"

definition op_Remove ::
    "Libs \<Rightarrow> OpAnswers list \<Rightarrow> Operator \<Rightarrow> string \<Rightarrow> 'p Client \<Rightarrow> ('p Client \<times> sent list \<times> go_error option) exec" where
  "op_Remove libs opss op key cl =
     (let back = (\<lambda>(agent, qs, err). Ret (cl\<lparr>cl_agent := agent\<rparr>, qs, err))
      in case op of
           EdgeVolumeOperator v \<Rightarrow>
             (case opss of
                [] \<Rightarrow> exec.Blocks ''waiting for an answer''
              | ops # _ \<Rightarrow> exec_bind (volume_Remove ops v key (cl_agent cl)) back)
         | BucketOperator b \<Rightarrow> exec_bind (bucket_Remove libs opss b key (cl_agent cl)) back
         | ClusterOperator \<Rightarrow> Panic ''cluster operator does not support remove''
         | ObjectOperator m \<Rightarrow> Panic ''object operator can not remove''
         | _ \<Rightarrow> Panic ''implement me'')"

section \<open>Requests about objects\<close>

lemma bucket_alaya_ok:
  assumes "ring_ok (c_ring libs)" "bucket_ok b" "meta_served (c_crush libs) c ps" "answers_ok ans c" "agent_ok c agent"
  shows "\<exists>agent' n. bucket_alaya libs ans (Some b) key agent = Ret (agent', Inr n) \<and> agent_ok c agent'"
proof -
  have ps: "NewClusterPipelines (c_crush libs) c = Inr ps" "0 < sint (MetaPgNum c)"
    using assms(3) by (simp_all add: meta_served_def)
  obtain pg where pg: "GenObjPgID (c_ring libs) b key (MetaPgNum c) = Ret pg" "1 \<le> pg" "pg \<le> uint64_of_i32 (MetaPgNum c)"
    using GenObjPgID_bounds [OF assms(1,2) ps(2)] by blast
  then obtain p where p: "pipeline_at (MetaPipelines ps) pg = Ret p"
    using NewClusterPipelines_Inr [OF ps(1)] by (simp add: GenMetaPipelines_def pipeline_at_GenPipelines)
  then have "p \<in> set (MetaPipelines ps)"
    by (auto simp: pipeline_at_def nth_opt_def split: option.splits if_splits)
  then obtain n ns where n: "RaftIds p = n # ns" "n \<in> RaftId ` set (NodesInfo c)"
    using assms(3) by (cases "RaftIds p") (auto simp: meta_served_def list_all_iff)
  obtain agent' info i where "ia_Get ans NODE_INFO (FormatUint n) agent = Ret (agent', info, None)" "GetNodeInfo_base info = Some i"
      "agent_ok c agent'"
    using node_info_ok [OF assms(4,5) n(2)] by blast
  then show ?thesis
    using pg(1) ps(1) p n(1) GetCurClusterInfo_ok [OF assms(4,5)] by (simp add: bucket_alaya_def GetMetaPG_def first_node_def)
qed

text \<open>A request that is not refused because of its term is sent once.\<close>

lemma bucket_call_ok:
  assumes "ring_ok (c_ring libs)" "bucket_ok b" "meta_served (c_crush libs) c ps" "answers_ok (o_answers ops) c" "agent_ok c agent"
    "GenObjectId (c_ring libs) b key = Ret objID" "\<And>n err. ask ops n (term_ctx (Term c)) objID = Inl err \<Longrightarrow> \<not> term_refused err"
  shows "\<exists>agent' n. bucket_call libs ask (ops # opss) (Some b) key agent
      = Ret (agent', [(n, term_ctx (Term c), objID)], ask ops n (term_ctx (Term c)) objID) \<and> agent_ok c agent'"
proof -
  obtain agent' n where a: "bucket_alaya libs (o_answers ops) (Some b) key agent = Ret (agent', Inr n)" "agent_ok c agent'"
    using bucket_alaya_ok [OF assms(1-5)] by blast
  then show ?thesis
    using GetCurClusterInfo_ok [OF assms(4) a(2)] assms(6) assms(7) [of n]
    by (intro exI [of _ agent'] exI [of _ n]) (auto simp: Let_def split: sum.splits)
qed

section \<open>Buckets at the information service\<close>

text \<open>The answers of a node about buckets are those of its information service, as they arrive at the client.\<close>

definition moon_answers :: "'f Moon \<Rightarrow> NodeInfo \<Rightarrow> Answers \<Rightarrow> bool" where
  "moon_answers m n ans \<longleftrightarrow>
     (\<forall>k r b. GetInfo m BUCKET_INFO k = (r, Some b, None) \<longrightarrow> a_info ans n BUCKET_INFO k = Inr b)
     \<and> (\<forall>k r b err. GetInfo m BUCKET_INFO k = (r, b, Some err) \<longrightarrow> a_info ans n BUCKET_INFO k = Inl (rpc_error err))"

lemma GetMoon_ok:
  assumes "answers_ok ans c" "agent_ok c agent" "List.find (\<lambda>n. State n = ONLINE) (NodesInfo c) = Some n"
  shows "GetMoon ans agent = Ret (agent, Inr n)"
  using GetCurClusterInfo_ok [OF assms(1,2)] assms(3) by (simp add: GetMoon_def)

lemma volume_Get_answer:
  assumes "answers_ok ans c" "agent_ok c agent" "List.find (\<lambda>n. State n = ONLINE) (NodesInfo c) = Some n" "moon_answers m n ans"
  shows "GetInfo m BUCKET_INFO (GenBucketID v k) = (r, Some (BaseInfo_BucketInfo b), None) \<Longrightarrow>
      volume_Get ans v k agent = Ret (agent, Inr (BucketOperator (Some b)))"
    and "GetInfo m BUCKET_INFO (GenBucketID v k) = (r, None, Some err) \<Longrightarrow> volume_Get ans v k agent = Ret (agent, Inl (rpc_error err))"
  using assms(4) GetMoon_ok [OF assms(1-3)] unfolding moon_answers_def
  by (simp_all add: volume_Get_def GetBucketInfo_base_def)

text \<open>The request of a change of a bucket.\<close>

definition bucket_request :: "ProposeOperate \<Rightarrow> BucketInfo \<Rightarrow> ProposeInfoRequest" where
  "bucket_request oper b =
     \<lparr>Operate_pi = oper, Id = BucketInfo_GetID b, BaseInfo_pi = Some (BaseInfo_BucketInfo b), OperateId_pi = 0\<rparr>"

lemma propose_bucket_ok:
  assumes "answers_ok (o_answers ops) c" "agent_ok c agent" "List.find (\<lambda>n. State n = ONLINE) (NodesInfo c) = Some n"
    "o_propose ops n (bucket_request oper b) = Inr r"
  shows "propose_bucket ops oper (Some b) agent = Ret (agent, [SentPropose n (bucket_request oper b)], None)"
  using GetMoon_ok [OF assms(1-3)] assms(4) by (simp add: propose_bucket_def bucket_request_def)

lemma GenBucketID_ne: "GenBucketID v k \<noteq> []"
  by (simp add: GenBucketID_def path_join_def path_clean_def rooted_def Let_def)

text \<open>
  C9: A client of a cluster creates a bucket, and later deletes it, through the information service
  of the first node that is online.  Between the two every client that asks this service gets the
  bucket with the settings it was created with; afterwards it gets an error that contains the text
  of the error for a missing information.
\<close>

theorem bucket_lifecycle:
  assumes agent: "agent_ok c agent" "List.find (\<lambda>n. State n = ONLINE) (NodesInfo c) = Some n"
    and ops: "answers_ok (o_answers ops) c" "\<forall>q. \<exists>r. o_propose ops n q = Inr r"
    and moon: "moon_ok m" "\<not> ctx_done m" "raft_peers m \<noteq> None"
    and before: "\<forall>p \<in> set before1. BaseInfo_pi p \<noteq> None" "\<forall>p \<in> set before2. BaseInfo_pi p \<noteq> None"
  shows "\<exists>q1 m1 calls1 q2 m2 calls2.
      CreateBucket ops (Some b) agent = Ret (agent, [SentPropose n q1], None)
    \<and> ProposeInfo op1 before1 q1 m = Ret (m1, calls1, Inr \<lparr>Status_r = Result_OK, Message = []\<rparr>)
    \<and> DeleteBucket ops (Some b) agent = Ret (agent, [SentPropose n q2], None)
    \<and> ProposeInfo op2 before2 q2 m1 = Ret (m2, calls2, Inr \<lparr>Status_r = Result_OK, Message = []\<rparr>)
    \<and> (\<forall>ans. answers_ok ans c \<longrightarrow> moon_answers m1 n ans \<longrightarrow>
          volume_Get ans (VolumeId_b b) (BucketName b) agent = Ret (agent, Inr (BucketOperator (Some b))))
    \<and> (\<forall>ans. answers_ok ans c \<longrightarrow> moon_answers m2 n ans \<longrightarrow>
          (\<exists>err. volume_Get ans (VolumeId_b b) (BucketName b) agent = Ret (agent, Inl err)
             \<and> contains (Error err) (Error (Err InfoNotFound))))"
proof -
  let ?q1 = "bucket_request ADD b" and ?q2 = "bucket_request DELETE_INFO b" and ?i = "GenBucketID (VolumeId_b b) (BucketName b)"
  have q: "Id (bucket_request oper b) = ?i" "?i \<noteq> []" "BaseInfo_pi (bucket_request oper b) = Some (BaseInfo_BucketInfo b)" for oper
    using GenBucketID_ne by (simp_all add: bucket_request_def BucketInfo_GetID_def)
  have s: "propose_bucket ops oper (Some b) agent = Ret (agent, [SentPropose n (bucket_request oper b)], None)" for oper
    using propose_bucket_ok [OF ops(1) agent] ops(2) by blast
  have ok: "request_ok (bucket_request oper b)" "Id (bucket_request oper b) \<noteq> []"
      "\<forall>p \<in> set before1. request_ok p" "\<forall>p \<in> set before2. request_ok p" for oper
    using q before by (simp_all add: request_ok_def)
  obtain m1 calls1 where m1: "ProposeInfo op1 before1 ?q1 m = Ret (m1, calls1, Inr \<lparr>Status_r = Result_OK, Message = []\<rparr>)"
      "moon_ok m1" "\<not> ctx_done m1" "raft_peers m1 \<noteq> None" "moon_lookup m1 = info_spec ?q1 (fold info_spec before1 (moon_lookup m))"
    by (rule ProposeInfo_applied [OF moon(1,3) ok(2,1) [of ADD] ok(3), of op1]) (use moon(2,3) in simp)
  have "moon_lookup m1 (BUCKET_INFO, ?i) = Some (BaseInfo_BucketInfo b)"
    unfolding m1(5) by (simp add: info_spec_def bucket_request_def BucketInfo_GetID_def)
  then have g1: "GetInfo m1 BUCKET_INFO ?i = (\<lparr>Status_r = Result_OK, Message = []\<rparr>, Some (BaseInfo_BucketInfo b), None)"
    using moon_lookup_Get m1(3) by blast
  obtain m2 calls2 where m2: "ProposeInfo op2 before2 ?q2 m1 = Ret (m2, calls2, Inr \<lparr>Status_r = Result_OK, Message = []\<rparr>)"
    by (rule ProposeInfo_applied [OF m1(2,4) ok(2,1) [of DELETE_INFO] ok(4), of op2])
  have g2: "GetInfo m2 BUCKET_INFO ?i = (\<lparr>Status_r = Result_FAIL, Message = Error (Err InfoNotFound)\<rparr>, None, Some (Err InfoNotFound))"
    using ProposeInfo_deleted [OF m2 m1(2-4) ok(4,2), of "BaseInfo_BucketInfo b"] q by (simp add: bucket_request_def)
  have "contains (Error (rpc_error (Err InfoNotFound))) (Error (Err InfoNotFound))"
    by (auto simp: rpc_error_def contains_append has_prefix_iff)
  then have "\<exists>err. volume_Get ans (VolumeId_b b) (BucketName b) agent = Ret (agent, Inl err)
      \<and> contains (Error err) (Error (Err InfoNotFound))" if "answers_ok ans c" "moon_answers m2 n ans" for ans
    using volume_Get_answer(2) [OF that(1) agent that(2) g2] by blast
  then show ?thesis
    using s m1(1) m2 volume_Get_answer(1) [OF _ agent _ g1] unfolding CreateBucket_def DeleteBucket_def by blast
qed

text \<open>The information service of an example node, asked about buckets.\<close>

definition ask_moon :: "'f Moon \<Rightarrow> Answers" where
  "ask_moon m = client_answers\<lparr>a_info := \<lambda>n t k.
     if t = BUCKET_INFO
     then (case GetInfo m t k of (r, b, Some err) \<Rightarrow> Inl (rpc_error err) | (r, b, None) \<Rightarrow> Inr (the b))
     else a_info client_answers n t k\<rparr>"

lemma ask_moon_ok: "moon_answers m n (ask_moon m)" "answers_ok (ask_moon m) client_cluster"
proof -
  show "moon_answers m n (ask_moon m)"
    by (auto simp: moon_answers_def ask_moon_def)
  show "answers_ok (ask_moon m) client_cluster"
    using client_answers_ok by (simp add: answers_ok_def ask_moon_def)
qed

definition example_ops :: OpAnswers where
  "example_ops = \<lparr>o_answers = client_answers, o_list = (\<lambda>n t k. Inr []), o_propose = (\<lambda>n q. Inr \<lparr>Status_r = Result_OK, Message = []\<rparr>),
     o_delete = (\<lambda>n ctx i. Inr \<lparr>Status_r = Result_OK, Message = []\<rparr>), o_listMeta = (\<lambda>n ctx i. Inr [])\<rparr>"

theorem bucket_lifecycle_witness:
  "\<exists>q1 m1 calls1 q2 m2 calls2 err.
      CreateBucket example_ops (Some example_bucket) (io_agent client_io) = Ret (io_agent client_io, [SentPropose (example_node 1) q1], None)
    \<and> ProposeInfo 1 [] q1 example_moon = Ret (m1, calls1, Inr \<lparr>Status_r = Result_OK, Message = []\<rparr>)
    \<and> DeleteBucket example_ops (Some example_bucket) (io_agent client_io) = Ret (io_agent client_io, [SentPropose (example_node 1) q2], None)
    \<and> ProposeInfo 2 [] q2 m1 = Ret (m2, calls2, Inr \<lparr>Status_r = Result_OK, Message = []\<rparr>)
    \<and> volume_Get (ask_moon m1) ''root'' ''default'' (io_agent client_io) = Ret (io_agent client_io, Inr (BucketOperator (Some example_bucket)))
    \<and> volume_Get (ask_moon m2) ''root'' ''default'' (io_agent client_io) = Ret (io_agent client_io, Inl err)"
proof -
  have n: "List.find (\<lambda>n. State n = ONLINE) (NodesInfo client_cluster) = Some (example_node 1)"
    by (simp add: client_cluster_def example_cluster_def example_node_def)
  have o: "answers_ok (o_answers example_ops) client_cluster" "\<forall>q. \<exists>r. o_propose example_ops (example_node 1) q = Inr r"
    using client_answers_ok by (simp_all add: example_ops_def)
  have b: "VolumeId_b example_bucket = ''root''" "BucketName example_bucket = ''default''"
    by (simp_all add: example_bucket_def)
  obtain q1 m1 calls1 q2 m2 calls2 where
      e: "CreateBucket example_ops (Some example_bucket) (io_agent client_io) = Ret (io_agent client_io, [SentPropose (example_node 1) q1], None)"
        "ProposeInfo 1 [] q1 example_moon = Ret (m1, calls1, Inr \<lparr>Status_r = Result_OK, Message = []\<rparr>)"
        "DeleteBucket example_ops (Some example_bucket) (io_agent client_io) = Ret (io_agent client_io, [SentPropose (example_node 1) q2], None)"
        "ProposeInfo 2 [] q2 m1 = Ret (m2, calls2, Inr \<lparr>Status_r = Result_OK, Message = []\<rparr>)"
      and g1: "\<forall>ans. answers_ok ans client_cluster \<longrightarrow> moon_answers m1 (example_node 1) ans \<longrightarrow>
          volume_Get ans ''root'' ''default'' (io_agent client_io) = Ret (io_agent client_io, Inr (BucketOperator (Some example_bucket)))"
      and g2: "\<forall>ans. answers_ok ans client_cluster \<longrightarrow> moon_answers m2 (example_node 1) ans \<longrightarrow>
          (\<exists>err. volume_Get ans ''root'' ''default'' (io_agent client_io) = Ret (io_agent client_io, Inl err)
             \<and> contains (Error err) (Error (Err InfoNotFound)))"
    using bucket_lifecycle [OF client_agent_ok n o example_moon_ok, of "[]" "[]" example_bucket 1 2]
    unfolding b by (simp only: list.set ball_empty simp_thms) blast
  obtain err where "volume_Get (ask_moon m2) ''root'' ''default'' (io_agent client_io) = Ret (io_agent client_io, Inl err)"
    using g2 ask_moon_ok by blast
  then show ?thesis
    using e g1 ask_moon_ok by blast
qed

end
