(* ===== verification/Rainbow.thy ===== *)
theory Rainbow
  imports Watcher Meta_Storage
begin

text \<open>
  The cloud side of the link between the cloud and the edge: the router of responses
  (\<^verbatim>\<open>cloud/rainbow/router.go\<close>), the service that holds a stream to every edge node
  (\<^verbatim>\<open>cloud/rainbow/rainbow.go\<close>), and the information and metadata services of the cloud that ask
  the leader of the edge cluster (\<^verbatim>\<open>cloud/rainbow/cloud_moon.go\<close>, \<^verbatim>\<open>cloud/rainbow/cloud_alaya.go\<close>).
  A channel is kept in a list, by its position, since a requester holds it after the router has
  forgotten it.  What is handed to a stream or to the sending loop of a stream is returned in order.
  An operation that waits for a response is split: what it sends, and what it makes of the response.
  The numeric code of a result is left out.
\<close>

section \<open>Messages\<close>

datatype Request_Method = Request_UNKNOWN_Method | Request_GET | Request_PUT | Request_DELETE | Request_LIST

datatype Request_Resource = Request_UNKNOWN_Resource | Request_INFO | Request_META | Request_OBJECT | Request_BLOCK

record Request =
  RequestSeq :: u64
  Method :: Request_Method
  Resource :: Request_Resource
  Term_rq :: u64
  RequestId :: string
  InfoType_rq :: InfoType
  Info_rq :: "BaseInfo option"
  Meta_rq :: "ObjectMeta option"

record Response =
  ResponseTo :: u64
  Result_rs :: "Result option"
  Chunk_rs :: bytes
  Metas_rs :: "ObjectMeta list"
  Infos_rs :: "BaseInfo list"
  IsLast :: bool

datatype Content = Content_Request Request | Content_Response Response

definition new_request :: Request where
  "new_request =
     \<lparr>RequestSeq = 0, Method = Request_UNKNOWN_Method, Resource = Request_UNKNOWN_Resource, Term_rq = 0, RequestId = [],
      InfoType_rq = INVALID, Info_rq = None, Meta_rq = None\<rparr>"

definition response_to :: "u64 \<Rightarrow> Response" where
  "response_to i = \<lparr>ResponseTo = i, Result_rs = None, Chunk_rs = [], Metas_rs = [], Infos_rs = [], IsLast = False\<rparr>"

section \<open>Channels and the router\<close>

text \<open>A channel of capacity one.\<close>

record Chan =
  ch_buf :: "Response list"
  ch_closed :: bool

record Router =
  rt_m :: "(u64, nat) smap"
  rt_chans :: "Chan list"

definition NewRouter :: Router where
  "NewRouter = \<lparr>rt_m = [], rt_chans = []\<rparr>"

definition Register :: "u64 \<Rightarrow> Router \<Rightarrow> (Router \<times> nat) exec" where
  "Register i r =
     (case sm_load (rt_m r) i of
        None \<Rightarrow>
          (let a = length (rt_chans r)
           in Ret (r\<lparr>rt_m := sm_store i a (rt_m r), rt_chans := rt_chans r @ [\<lparr>ch_buf = [], ch_closed = False\<rparr>]\<rparr>, a))
      | Some a \<Rightarrow> Panic ''dup id'')"

definition close_chan :: "nat \<Rightarrow> Router \<Rightarrow> Router exec" where
  "close_chan a r =
     (let c = rt_chans r ! a
      in if ch_closed c then Panic ''close of closed channel''
         else Ret (r\<lparr>rt_chans := (rt_chans r)[a := c\<lparr>ch_closed := True\<rparr>]\<rparr>))"

definition Unregister :: "u64 \<Rightarrow> Router \<Rightarrow> Router exec" where
  "Unregister i r =
     (case sm_load (rt_m r) i of
        None \<Rightarrow> Panic ''close of nil channel''
      | Some a \<Rightarrow> exec_bind (close_chan a r) (\<lambda>r. Ret (r\<lparr>rt_m := sm_delete i (rt_m r)\<rparr>)))"

text \<open>A full channel keeps the sender waiting until the receiver takes the element.\<close>

definition router_Send :: "u64 \<Rightarrow> Response \<Rightarrow> Router \<Rightarrow> Router exec" where
  "router_Send i x r =
     (case sm_load (rt_m r) i of
        None \<Rightarrow> Ret r
      | Some a \<Rightarrow>
          (let c = rt_chans r ! a
           in if ch_closed c then Panic ''send on closed channel''
              else if ch_buf c \<noteq> [] then exec.Blocks ''the channel is full''
              else Ret (r\<lparr>rt_chans := (rt_chans r)[a := c\<lparr>ch_buf := [x]\<rparr>]\<rparr>)))"

text \<open>Receiving: an element, nothing from a closed and empty channel, or waiting.\<close>

definition recv_chan :: "nat \<Rightarrow> Router \<Rightarrow> (Router \<times> Response option) exec" where
  "recv_chan a r =
     (let c = rt_chans r ! a
      in case ch_buf c of
           x # xs \<Rightarrow> Ret (r\<lparr>rt_chans := (rt_chans r)[a := c\<lparr>ch_buf := xs\<rparr>]\<rparr>, Some x)
         | [] \<Rightarrow> if ch_closed c then Ret (r, None) else exec.Blocks ''the channel is empty'')"

text \<open>What both ends do with a response that arrives.\<close>

definition deliver :: "Response \<Rightarrow> Router \<Rightarrow> Router exec" where
  "deliver x r =
     exec_bind (router_Send (ResponseTo x) x r) (\<lambda>r. if IsLast x then Unregister (ResponseTo x) r else Ret r)"

section \<open>The service\<close>

text \<open>The streams to the nodes, as what was sent on them; the storage and the queue belong to the metadata service.\<close>

record Rainbow =
  rb_streams :: "(u64, Content list) smap"
  rb_clusterInfo :: "ClusterInfo option"
  rb_router :: Router
  rb_requestSeq :: u64
  rb_storage :: MemoryMetaStorage
  syncEdgeChan :: "ObjectMeta list"

definition NewRainbow :: Rainbow where
  "NewRainbow =
     \<lparr>rb_streams = [], rb_clusterInfo = None, rb_router = NewRouter, rb_requestSeq = 10000,
      rb_storage = NewMemoryMetaStorage, syncEdgeChan = []\<rparr>"

definition sendError :: "Request \<Rightarrow> string \<Rightarrow> Response" where
  "sendError req message =
     (response_to (RequestSeq req))\<lparr>IsLast := True, Result_rs := Some \<lparr>Status_r = Result_FAIL, Message = message\<rparr>\<rparr>"

definition doDelete :: "string \<Rightarrow> Rainbow \<Rightarrow> Rainbow" where
  "doDelete objID rb = rb\<lparr>rb_storage := DeleteMetaEntry objID (rb_storage rb)\<rparr>"

text \<open>Deleting from the storage does not fail.  Every method ends with the error for an unsupported one.\<close>

definition processMetaRequest :: "Request \<Rightarrow> Rainbow \<Rightarrow> Rainbow \<times> Response list" where
  "processMetaRequest req rb =
     (let unsupported = sendError req ''not support method''
      in if Method req = Request_DELETE
         then (doDelete (RequestId req) rb, [(response_to (RequestSeq req))\<lparr>IsLast := True\<rparr>, unsupported])
         else (rb, [unsupported]))"

text \<open>One turn of the loop over a stream: the responses handed to the sending loop of the stream.\<close>

definition rb_event :: "Content \<Rightarrow> Rainbow \<Rightarrow> (Rainbow \<times> Response list) exec" where
  "rb_event content rb =
     (case content of
        Content_Response x \<Rightarrow> exec_bind (deliver x (rb_router rb)) (\<lambda>r. Ret (rb\<lparr>rb_router := r\<rparr>, []))
      | Content_Request req \<Rightarrow>
          (let rest =
                 (case Resource req of
                    Request_META \<Rightarrow> Ret (processMetaRequest req rb)
                  | _ \<Rightarrow> Ret (rb, [sendError req ''not support resource'']))
           in if Method req = Request_PUT \<and> Resource req = Request_INFO
              then (case Info_rq req of
                      None \<Rightarrow> Panic ''nil pointer dereference''
                    | Some (BaseInfo_ClusterInfo c) \<Rightarrow>
                        Ret (case rb_clusterInfo rb of
                               None \<Rightarrow> rb\<lparr>rb_clusterInfo := Some c\<rparr>
                             | Some old \<Rightarrow> if Term old \<le> Term c then rb\<lparr>rb_clusterInfo := Some c\<rparr> else rb, [])
                    | Some _ \<Rightarrow> rest)
              else rest))"

text \<open>The first message of a stream names the node; responses before it are skipped.\<close>

definition GetStream :: "Content \<Rightarrow> Rainbow \<Rightarrow> (Rainbow \<times> Response option) exec" where
  "GetStream content rb =
     (case content of
        Content_Response x \<Rightarrow> Ret (rb, None)
      | Content_Request req \<Rightarrow>
          (case Info_rq req of
             Some (BaseInfo_NodeInfo n) \<Rightarrow>
               (let x = (response_to (RequestSeq req))\<lparr>IsLast := True\<rparr>
                in Ret (rb\<lparr>rb_streams := sm_store (RaftId n) [] (rb_streams rb)\<rparr>, Some x))
           | _ \<Rightarrow> Panic ''nil pointer dereference''))"

text \<open>\<open>err\<close> is the outcome of writing to the stream; the channel is registered in either case.\<close>

definition SendRequestToNode ::
    "go_error option \<Rightarrow> u64 \<Rightarrow> Request \<Rightarrow> Rainbow \<Rightarrow> (Rainbow \<times> nat option \<times> go_error option) exec" where
  "SendRequestToNode err nodeId request rb =
     (case sm_load (rb_streams rb) nodeId of
        None \<Rightarrow> Ret (rb, None, Some (ErrText ''stream not found''))
      | Some sent \<Rightarrow>
          (let request = request\<lparr>RequestSeq := rb_requestSeq rb\<rparr>
           in exec_bind (Register (RequestSeq request) (rb_router rb)) (\<lambda>(router, a).
                Ret (rb\<lparr>rb_requestSeq := rb_requestSeq rb + 1, rb_router := router,
                        rb_streams := (if err = None then sm_store nodeId (sent @ [Content_Request request]) (rb_streams rb)
                                       else rb_streams rb)\<rparr>,
                     Some a, err))))"

definition SendRequestToEdgeLeader ::
    "go_error option \<Rightarrow> Request \<Rightarrow> Rainbow \<Rightarrow> (Rainbow \<times> nat option \<times> go_error option) exec" where
  "SendRequestToEdgeLeader err request rb =
     (case rb_clusterInfo rb of
        None \<Rightarrow> Panic ''nil pointer dereference''
      | Some c \<Rightarrow>
          (case LeaderInfo c of
             None \<Rightarrow> Ret (rb, None, Some (ErrText ''cluster leader not found''))
           | Some leader \<Rightarrow> SendRequestToNode err (RaftId leader) request rb))"

definition SendRequestDirect ::
    "go_error option \<Rightarrow> Request \<Rightarrow> Rainbow \<Rightarrow> (Rainbow \<times> nat option \<times> go_error option) exec" where
  "SendRequestDirect err request rb =
     exec_bind (SendRequestToEdgeLeader err request rb) (\<lambda>(rb, a, err).
       if err \<noteq> None then Ret (rb, None, err) else Ret (rb, a, None))"

text \<open>
  \<^verbatim>\<open>SendRequest\<close> relays the responses of the leader to the caller until the channel is closed or the
  caller cannot be written to; \<open>send\<close> is the outcome of writing a response.
\<close>

primrec relay :: "(Response \<Rightarrow> go_error option) \<Rightarrow> Response list \<Rightarrow> Response list \<times> go_error option" where
  "relay send [] = ([], None)"
| "relay send (x # xs) =
     (case send x of
        Some e \<Rightarrow> ([], Some e)
      | None \<Rightarrow> (let (ys, err) = relay send xs in (x # ys, err)))"

section \<open>Information through the cloud\<close>

definition info_request :: "InfoType \<Rightarrow> string \<Rightarrow> Request" where
  "info_request infoType i =
     new_request\<lparr>Method := Request_GET, Resource := Request_INFO, RequestId := i, InfoType_rq := infoType\<rparr>"

definition result_message :: "Response \<Rightarrow> string exec" where
  "result_message x = (case Result_rs x of None \<Rightarrow> Panic ''nil pointer dereference'' | Some r \<Rightarrow> Ret (Message r))"

text \<open>What \<^verbatim>\<open>GetInfoDirect\<close> makes of the first thing it receives; a closed channel gives a nil response.\<close>

definition info_received :: "Response option \<Rightarrow> Information result exec" where
  "info_received resp =
     (case resp of
        None \<Rightarrow> Panic ''nil pointer dereference''
      | Some x \<Rightarrow>
          (case Infos_rs x of
             [] \<Rightarrow> exec_bind (result_message x) (\<lambda>m. Ret (Inl (ErrText m)))
           | info # _ \<Rightarrow> Ret (Inr (IBase info))))"

definition CloudMoon_GetInfo :: "Information result \<Rightarrow> (Result \<times> BaseInfo option) result" where
  "CloudMoon_GetInfo res =
     (case res of
        Inl err \<Rightarrow> Inl err
      | Inr info \<Rightarrow> Inr (\<lparr>Status_r = Result_OK, Message = []\<rparr>, BaseInfo_of info))"

section \<open>Metadata through the cloud\<close>

definition ca_RecordObjectMeta :: "ObjectMeta \<Rightarrow> Rainbow \<Rightarrow> Rainbow exec" where
  "ca_RecordObjectMeta meta rb =
     (let meta = meta\<lparr>ObjId := CleanObjectKey (ObjId meta)\<rparr>;
          rb = rb\<lparr>rb_storage := RecordMeta meta (rb_storage rb)\<rparr>
      in if 100 \<le> length (syncEdgeChan rb) then exec.Blocks ''the channel is full''
         else Ret (rb\<lparr>syncEdgeChan := syncEdgeChan rb @ [meta]\<rparr>))"

text \<open>
  One turn of the loop that hands recorded metadata to the edge: the channel it then receives one
  response from.  After an error the metadata is queued again and the loop receives from a nil channel.
\<close>

definition sync_turn :: "go_error option \<Rightarrow> Rainbow \<Rightarrow> (Rainbow \<times> nat option) exec" where
  "sync_turn err rb =
     (case syncEdgeChan rb of
        [] \<Rightarrow> exec.Blocks ''the channel is empty''
      | meta # ms \<Rightarrow>
          exec_bind (SendRequestDirect err
              (new_request\<lparr>Method := Request_PUT, Resource := Request_META, Meta_rq := Some meta\<rparr>)
              (rb\<lparr>syncEdgeChan := ms\<rparr>)) (\<lambda>(rb, a, err).
            if err = None then Ret (rb, a)
            else if 100 \<le> length (syncEdgeChan rb) then exec.Blocks ''the channel is full''
            else Ret (rb\<lparr>syncEdgeChan := syncEdgeChan rb @ [meta]\<rparr>, None)))"

text \<open>Receiving from the channel of the turn; a nil channel never delivers.\<close>

definition sync_wait :: "nat option \<Rightarrow> Rainbow \<Rightarrow> Rainbow exec" where
  "sync_wait a rb =
     (case a of
        None \<Rightarrow> exec.Blocks ''receive on a nil channel''
      | Some a \<Rightarrow> exec_bind (recv_chan a (rb_router rb)) (\<lambda>(r, x). Ret (rb\<lparr>rb_router := r\<rparr>)))"

definition meta_request :: "Request_Method \<Rightarrow> string \<Rightarrow> Request" where
  "meta_request meth i = new_request\<lparr>Method := meth, Resource := Request_META, RequestId := i\<rparr>"

text \<open>The metadata of an object, from the storage of the cloud, or \<open>None\<close> when the edge has to be asked.\<close>

definition ca_GetObjectMeta :: "string \<Rightarrow> Rainbow \<Rightarrow> ObjectMeta option" where
  "ca_GetObjectMeta objID rb = (case GetMeta (rb_storage rb) objID of Inl err \<Rightarrow> None | Inr meta \<Rightarrow> Some meta)"

text \<open>What becomes of the first response of the edge; the metadata found is also recorded, in the background.\<close>

definition meta_received :: "Response option \<Rightarrow> ObjectMeta result exec" where
  "meta_received resp =
     (case resp of
        None \<Rightarrow> Panic ''nil pointer dereference''
      | Some x \<Rightarrow>
          (case Result_rs x of
             None \<Rightarrow> Panic ''nil pointer dereference''
           | Some r \<Rightarrow>
               (case Metas_rs x of
                  m # _ \<Rightarrow>
                    if Status_r r = Result_OK then Ret (Inr (m\<lparr>Position := POSITION_EDGE_CLOUD\<rparr>))
                    else Ret (Inl (ErrText ''rpc error: code = NotFound desc = meta not found''))
                | [] \<Rightarrow> Ret (Inl (ErrText ''rpc error: code = NotFound desc = meta not found'')))))"

text \<open>The part of a listing in the storage of the cloud: every slot of the bucket.\<close>

definition cloud_listing :: "BucketInfo \<Rightarrow> string \<Rightarrow> string \<Rightarrow> Rainbow \<Rightarrow> ObjectMeta list exec" where
  "cloud_listing b bucketID key rb =
     exec_bind (key_slot_num b) (\<lambda>n.
       Ret (concat (map (\<lambda>i. ListMetas (rb_storage rb) (CleanObjectKey (path_join [bucketID, Itoa (int i), key])))
         [1..<Suc (nat (sint n))])))"

text \<open>The responses of the edge are merged by object identifier until the last one or the end of the channel.\<close>

primrec merge_listing :: "Response list \<Rightarrow> (string, ObjectMeta) smap \<Rightarrow> ObjectMeta list result exec" where
  "merge_listing [] all = Ret (Inr (map snd all))"
| "merge_listing (x # xs) all =
     (case Result_rs x of
        None \<Rightarrow> Panic ''nil pointer dereference''
      | Some r \<Rightarrow>
          (if Status_r r \<noteq> Result_OK then Ret (Inl (ErrText (Message r)))
           else let all = fold (\<lambda>m t. sm_store (ObjId m) m t) (Metas_rs x) all
                in if IsLast x then Ret (Inr (map snd all)) else merge_listing xs all))"

text \<open>\<open>info\<close> is what asking for the bucket gave, \<open>responses\<close> what the channel of the listing delivers until it is closed.\<close>

definition ca_ListMeta :: "Information result \<Rightarrow> string \<Rightarrow> Response list \<Rightarrow> Rainbow \<Rightarrow> ObjectMeta list result exec" where
  "ca_ListMeta info prefix responses rb =
     (case SplitPrefixWithoutSlotID prefix of
        Inl err \<Rightarrow> Ret (Inl err)
      | Inr (_, bucketID, key) \<Rightarrow>
          (case info of
             Inl err \<Rightarrow> Ret (Inl err)
           | Inr i \<Rightarrow>
               (case GetBucketInfo_base i of
                  None \<Rightarrow> Panic ''nil pointer dereference''
                | Some b \<Rightarrow>
                    exec_bind (cloud_listing b bucketID key rb) (\<lambda>ms.
                      merge_listing responses (fold (\<lambda>m t. sm_store (ObjId m) m t) ms [])))))"

end
