(* ===== verification/Outpost.thy ===== *)
theory Outpost
  imports Rainbow Client_Operator
begin

text \<open>
  The edge side of the link, \<^verbatim>\<open>edge-node/outpost/outpost.go\<close>: a node keeps a stream to the cloud,
  reports the cluster information when it leads, and answers the requests of the cloud from its own
  services.  Every request is served by its own goroutine, which hands its responses to the loop
  that writes to the stream; the responses are returned in order.
\<close>

section \<open>State\<close>

record Outpost =
  op_watcher :: Watcher
  op_requestSeq :: u64
  op_r :: Router

definition NewOutpost :: "Watcher \<Rightarrow> Outpost" where
  "NewOutpost w = \<lparr>op_watcher = w, op_requestSeq = 10000, op_r = NewRouter\<rparr>"

text \<open>Everything a request is answered from besides the own services: the libraries, the other servers and their blocks.\<close>

record EdgeEnv =
  ee_libs :: Libs
  ee_ops :: "OpAnswers list"
  ee_block :: "NodeInfo \<Rightarrow> string \<Rightarrow> u64 \<Rightarrow> bytes list \<times> go_error option"

section \<open>Sending\<close>

definition op_Send :: "Request \<Rightarrow> Outpost \<Rightarrow> (Outpost \<times> Content \<times> nat) exec" where
  "op_Send request ou =
     (let request = request\<lparr>RequestSeq := op_requestSeq ou\<rparr>
      in exec_bind (Register (RequestSeq request) (op_r ou)) (\<lambda>(r, a).
           Ret (ou\<lparr>op_requestSeq := op_requestSeq ou + 1, op_r := r\<rparr>, Content_Request request, a)))"

definition put_info :: "BaseInfo \<Rightarrow> Request" where
  "put_info info = new_request\<lparr>Method := Request_PUT, Resource := Request_INFO, Info_rq := Some info\<rparr>"

text \<open>The first message of a stream.\<close>

definition greet :: "Outpost \<Rightarrow> (Outpost \<times> Content \<times> nat) exec" where
  "greet ou = op_Send (put_info (BaseInfo_NodeInfo (selfNodeInfo (op_watcher ou)))) ou"

text \<open>One turn of the loop that reports a change of the cluster information.\<close>

definition report_turn :: "Outpost \<Rightarrow> (Outpost \<times> Content option) exec" where
  "report_turn ou =
     (if \<not> IsLeader (wmoon (op_watcher ou)) then Ret (ou, None)
      else exec_bind (op_Send (put_info (BaseInfo_ClusterInfo (GetCurrentClusterInfo (op_watcher ou)))) ou)
             (\<lambda>(ou, c, a). Ret (ou, Some c)))"

text \<open>Writing to the stream is tried three times; \<open>errs\<close> are the outcomes.\<close>

definition send_tries :: "go_error option list \<Rightarrow> nat" where
  "send_tries errs = min 3 (Suc (length (takeWhile (\<lambda>e. e \<noteq> None) errs)))"

section \<open>Receiving\<close>

text \<open>One turn of the loop over the stream: the request to serve, if it is one.\<close>

definition op_event :: "Content \<Rightarrow> Outpost \<Rightarrow> (Outpost \<times> Request list) exec" where
  "op_event content ou =
     (case content of
        Content_Request q \<Rightarrow>
          Ret (ou, if Resource q \<in> {Request_META, Request_BLOCK, Request_INFO} then [q] else [])
      | Content_Response x \<Rightarrow> exec_bind (deliver x (op_r ou)) (\<lambda>r. Ret (ou\<lparr>op_r := r\<rparr>, [])))"

section \<open>Answers to the cloud\<close>

definition response_ok :: "Request \<Rightarrow> Response" where
  "response_ok q = (response_to (RequestSeq q))\<lparr>Result_rs := Some \<lparr>Status_r = Result_OK, Message = []\<rparr>\<rparr>"

definition returnFail :: "Request \<Rightarrow> string \<Rightarrow> Response" where
  "returnFail q message = (response_to (RequestSeq q))\<lparr>Result_rs := Some \<lparr>Status_r = Result_FAIL, Message = message\<rparr>\<rparr>"

text \<open>A nil information cannot be encoded, so nothing is sent.\<close>

definition doInfoRequest :: "Request \<Rightarrow> Outpost \<Rightarrow> Response list" where
  "doInfoRequest q ou =
     (if Method q \<noteq> Request_GET then []
      else case (if InfoType_rq q = CLUSTER_INFO \<and> RequestId q = ''0''
                 then Inr (ICluster (GetCurrentClusterInfo (op_watcher ou)))
                 else GetInfoDirect (wmoon (op_watcher ou)) (InfoType_rq q) (RequestId q)) of
             Inl err \<Rightarrow> [returnFail q (Error err)]
           | Inr info \<Rightarrow> (case BaseInfo_of info of None \<Rightarrow> [] | Some b \<Rightarrow> [(response_ok q)\<lparr>Infos_rs := [b]\<rparr>]))"

definition getClient :: "Outpost \<Rightarrow> unit Client" where
  "getClient ou =
     NewClient (DefaultConfig\<lparr>NodeAddr := ''127.0.0.1'', NodePort := RpcPort (selfNodeInfo (op_watcher ou))\<rparr>) ()
       \<lparr>w_servers = Map.empty, w_cloud = None, w_disk = [], w_cloud_disk = []\<rparr> 0"

text \<open>A prefix that does not split leaves an empty bucket identifier, whose third component is out of range.\<close>

definition answer_list :: "EdgeEnv \<Rightarrow> Request \<Rightarrow> Outpost \<Rightarrow> Response list exec" where
  "answer_list env q ou =
     (case SplitPrefixWithoutSlotID (RequestId q) of
        Inl err \<Rightarrow> Panic ''index out of range''
      | Inr (_, bucketID, key) \<Rightarrow>
          (case nth_opt (split_on (CHR ''/'') bucketID) 2 of
             None \<Rightarrow> Panic ''index out of range''
           | Some bucketName \<Rightarrow>
               exec_bind (ListObjects (ee_libs env) (ee_ops env) bucketName key (getClient ou)) (\<lambda>(cl, res).
                 case res of
                   Inl err \<Rightarrow> Ret [returnFail q (Error err)]
                 | Inr metas \<Rightarrow> Ret [(response_ok q)\<lparr>Metas_rs := metas, IsLast := True\<rparr>])))"

text \<open>The error of finding the bucket is ignored, and the missing operator is called.\<close>

definition answer_get :: "EdgeEnv \<Rightarrow> Request \<Rightarrow> Outpost \<Rightarrow> Response list exec" where
  "answer_get env q ou =
     (let (bucketID, key) = (case SplitID (RequestId q) of Inl err \<Rightarrow> ([], []) | Inr (_, b, k, _) \<Rightarrow> (b, k));
          cl = getClient ou
      in exec_bind (op_Get (ee_libs env) (ee_ops env) (GetVolumeOperator cl) (last (split_on (CHR ''/'') bucketID)) cl) (\<lambda>(cl, bucket).
           case bucket of
             Inl err \<Rightarrow> Panic ''nil pointer dereference''
           | Inr op \<Rightarrow>
               exec_bind (op_Get (ee_libs env) (ee_ops env) op key cl) (\<lambda>(cl, obj).
                 case obj of
                   Inl err \<Rightarrow> Ret [returnFail q (Error err)]
                 | Inr (ObjectOperator meta) \<Rightarrow> Ret [(response_ok q)\<lparr>Metas_rs := [meta]\<rparr>]
                 | Inr _ \<Rightarrow> Panic ''interface conversion'')))"

text \<open>
  Recording metadata for the cloud: the placement is computed from the own cluster information, and
  the errors of splitting the identifier, of the pipelines and of finding the node are ignored.
\<close>

definition answer_put :: "EdgeEnv \<Rightarrow> Request \<Rightarrow> Outpost \<Rightarrow> Response list exec" where
  "answer_put env q ou =
     (case Meta_rq q of
        None \<Rightarrow> Panic ''nil pointer dereference''
      | Some meta \<Rightarrow>
          (let (bucketID, key) = (case SplitID (ObjId meta) of Inl err \<Rightarrow> ([], []) | Inr (_, b, k, _) \<Rightarrow> (b, k));
               m = wmoon (op_watcher ou); c = GetCurrentClusterInfo (op_watcher ou)
           in case GetInfoDirect m BUCKET_INFO bucketID of
                Inl err \<Rightarrow> Ret [returnFail q (Error err)]
              | Inr info \<Rightarrow>
                  (case GetBucketInfo_base info of
                     None \<Rightarrow> Panic ''nil pointer dereference''
                   | Some b \<Rightarrow>
                       exec_bind (GenObjPgID (c_ring (ee_libs env)) b key (MetaPgNum c)) (\<lambda>pgID.
                       exec_bind (client_pipelines (c_crush (ee_libs env)) c) (\<lambda>ps.
                       exec_bind (GetMetaPGNodeID ps pgID) (\<lambda>ids.
                       exec_bind (first_node ids) (\<lambda>serverId.
                         case GetInfoDirect m NODE_INFO serverId of
                           Inl err \<Rightarrow> Panic ''nil pointer dereference''
                         | Inr info \<Rightarrow>
                             (case (GetNodeInfo_base info, ee_ops env) of
                                (None, _) \<Rightarrow> Panic ''nil pointer dereference''
                              | (Some n, []) \<Rightarrow> exec.Blocks ''waiting for an answer''
                              | (Some n, ops # _) \<Rightarrow>
                                  (case a_record (o_answers ops) (Some n) (term_ctx (GetCurrentTerm (op_watcher ou))) meta of
                                     Inl err \<Rightarrow> Ret [returnFail q (Error err)]
                                   | Inr _ \<Rightarrow> Ret [response_ok q])))))))))"

definition doMetaRequest :: "EdgeEnv \<Rightarrow> Request \<Rightarrow> Outpost \<Rightarrow> Response list exec" where
  "doMetaRequest env q ou =
     (case Method q of
        Request_LIST \<Rightarrow> answer_list env q ou
      | Request_GET \<Rightarrow> answer_get env q ou
      | Request_PUT \<Rightarrow> answer_put env q ou
      | _ \<Rightarrow> Ret [returnFail q ''not support method''])"

text \<open>
  A block is read from the first node that delivers all of it.  A node that fails after its first
  chunk leaves its chunks and a failure in front of those of the next node.
\<close>

primrec block_from :: "EdgeEnv \<Rightarrow> Request \<Rightarrow> Outpost \<Rightarrow> u64 list \<Rightarrow> Response list exec" where
  "block_from env q ou [] = Ret [returnFail q ''no available node'']"
| "block_from env q ou (n # ns) =
     (case GetInfoDirect (wmoon (op_watcher ou)) NODE_INFO (FormatUint n) of
        Inl err \<Rightarrow> block_from env q ou ns
      | Inr info \<Rightarrow>
          (case GetNodeInfo_base info of
             None \<Rightarrow> Panic ''nil pointer dereference''
           | Some node \<Rightarrow>
               (let (chunks, err) = ee_block env node (RequestId q) (Term_rq q);
                    sent = map (\<lambda>ch. (response_ok q)\<lparr>Chunk_rs := ch\<rparr>) chunks
                in case err of
                     None \<Rightarrow> Ret (sent @ [(response_ok q)\<lparr>IsLast := True\<rparr>])
                   | Some e \<Rightarrow>
                       exec_bind (block_from env q ou ns) (\<lambda>rest.
                         Ret (sent @ (if chunks \<noteq> [] then [returnFail q (Error e)] else []) @ rest)))))"

definition doBlockRequest :: "EdgeEnv \<Rightarrow> Request \<Rightarrow> Outpost \<Rightarrow> Response list exec" where
  "doBlockRequest env q ou =
     (if Method q \<noteq> Request_GET then Ret []
      else exec_bind (GetClusterInfoByTerm (op_watcher ou) (Term_rq q)) (\<lambda>res.
        case res of
          Inl err \<Rightarrow> Ret [returnFail q (Error err)]
        | Inr c \<Rightarrow>
            exec_bind (GenBlockPgID (c_ring (ee_libs env)) (RequestId q) (BlockPgNum c)) (\<lambda>pgID.
              case NewClusterPipelines (c_crush (ee_libs env)) c of
                Inl err \<Rightarrow> Ret [returnFail q (Error err)]
              | Inr ps \<Rightarrow> exec_bind (GetBlockPG ps pgID) (block_from env q ou))))"

definition do_request :: "EdgeEnv \<Rightarrow> Request \<Rightarrow> Outpost \<Rightarrow> Response list exec" where
  "do_request env q ou =
     (case Resource q of
        Request_META \<Rightarrow> doMetaRequest env q ou
      | Request_BLOCK \<Rightarrow> doBlockRequest env q ou
      | Request_INFO \<Rightarrow> Ret (doInfoRequest q ou)
      | _ \<Rightarrow> Ret [])"

section \<open>The shape of an answer\<close>

text \<open>All responses name the request, and only the final one may say that it is the last.\<close>

definition answer_ok :: "u64 \<Rightarrow> Response list \<Rightarrow> bool" where
  "answer_ok i xs \<longleftrightarrow> (\<forall>x \<in> set xs. ResponseTo x = i) \<and> (\<forall>x \<in> set (butlast xs). \<not> IsLast x)"

lemma answer_ok_simps [simp]:
  "answer_ok i []" "answer_ok i [x] \<longleftrightarrow> ResponseTo x = i"
  by (simp_all add: answer_ok_def)

lemma answer_ok_append:
  assumes "\<forall>x \<in> set xs. ResponseTo x = i \<and> \<not> IsLast x" "answer_ok i ys"
  shows "answer_ok i (xs @ ys)"
  using assms by (auto simp: answer_ok_def butlast_append dest: in_set_butlastD)

lemma response_sel [simp]:
  "ResponseTo (response_to i) = i" "\<not> IsLast (response_to i)"
  "ResponseTo (response_ok q) = RequestSeq q" "\<not> IsLast (response_ok q)"
  "ResponseTo (returnFail q e) = RequestSeq q" "\<not> IsLast (returnFail q e)"
  by (simp_all add: response_to_def response_ok_def returnFail_def)

lemma answer_ok_Cons: "ResponseTo x = i \<Longrightarrow> \<not> IsLast x \<Longrightarrow> answer_ok i ys \<Longrightarrow> answer_ok i (x # ys)"
  using answer_ok_append [of "[x]" i ys] by simp

text \<open>A property of whatever a call returns.\<close>

definition exec_all :: "('a \<Rightarrow> bool) \<Rightarrow> 'a exec \<Rightarrow> bool" where
  "exec_all P m \<longleftrightarrow> (\<forall>x. m = Ret x \<longrightarrow> P x)"

lemma exec_all_simps [simp]:
  "exec_all P (Ret x) = P x" "exec_all P (Panic e)" "exec_all P (Fatal e)" "exec_all P (exec.Blocks e)"
  by (simp_all add: exec_all_def)

lemma exec_all_bind: "(\<And>x. m = Ret x \<Longrightarrow> exec_all P (f x)) \<Longrightarrow> exec_all P (exec_bind m f)"
  by (auto simp: exec_all_def)

lemmas answer_splits = sum.split option.split prod.split if_split list.split Operator.split
  Request_Method.split Request_Resource.split

lemma block_from_ok: "block_from env q ou ns = Ret xs \<Longrightarrow> answer_ok (RequestSeq q) xs"
proof (induction ns arbitrary: xs)
  case (Cons n ns)
  then show ?case
    by (auto simp: Let_def split: sum.splits option.splits prod.splits if_splits intro!: answer_ok_append intro: answer_ok_Cons)
qed simp

lemma doBlockRequest_ok: "exec_all (answer_ok (RequestSeq q)) (doBlockRequest env q ou)"
  using block_from_ok
  by (auto simp: doBlockRequest_def exec_all_def [of _ "block_from _ _ _ _"] intro!: exec_all_bind split: answer_splits)

lemma answer_list_ok: "exec_all (answer_ok (RequestSeq q)) (answer_list env q ou)"
  by (auto simp: answer_list_def intro!: exec_all_bind split: answer_splits)

lemma answer_get_ok: "exec_all (answer_ok (RequestSeq q)) (answer_get env q ou)"
  by (auto simp: answer_get_def Let_def intro!: exec_all_bind split: answer_splits)

lemma answer_put_ok: "exec_all (answer_ok (RequestSeq q)) (answer_put env q ou)"
  by (auto simp: answer_put_def Let_def intro!: exec_all_bind split: answer_splits)

lemma doInfoRequest_ok: "answer_ok (RequestSeq q) (doInfoRequest q ou)"
  by (auto simp: doInfoRequest_def split: answer_splits)

lemma do_request_ok: "do_request env q ou = Ret xs \<Longrightarrow> answer_ok (RequestSeq q) xs"
proof -
  have "exec_all (answer_ok (RequestSeq q)) (do_request env q ou)"
    using doBlockRequest_ok answer_list_ok answer_get_ok answer_put_ok doInfoRequest_ok
    by (auto simp: do_request_def doMetaRequest_def split: answer_splits)
  then show "do_request env q ou = Ret xs \<Longrightarrow> answer_ok (RequestSeq q) xs"
    by (simp add: exec_all_def)
qed

end
