(* ===== verification/Cloud_Link.thy ===== *)
theory Cloud_Link
  imports Outpost
begin

text \<open>
  The link between the cloud and a node of the edge as a whole.  Every loop and every goroutine of
  the two sides takes its steps in any order; the stream keeps the order of what is written to it.
  The theorems follow the responses of a request from the node to the goroutine that waits for them,
  show what is asked through the cloud, and what goes wrong when the protocol is left.
\<close>

section \<open>The system\<close>

text \<open>
  The two ends; the messages on their way to the cloud; the requests being served; for every request
  served the responses handed over and those to come.  The last two components are the history: the
  channel of every request sent and what was received from it.
\<close>

record Link =
  lk_cloud :: Rainbow
  lk_edge :: Outpost
  lk_up :: "Content list"
  lk_jobs :: "Request list"
  lk_out :: "(Request \<times> Response list \<times> Response list) list"
  lk_chan :: "u64 \<rightharpoonup> nat"
  lk_got :: "u64 \<Rightarrow> Response list"

definition on_stream :: "u64 \<Rightarrow> Rainbow \<Rightarrow> Content list" where
  "on_stream nd rb = (case sm_load (rb_streams rb) nd of None \<Rightarrow> [] | Some cs \<Rightarrow> cs)"

definition set_stream :: "u64 \<Rightarrow> Content list \<Rightarrow> Rainbow \<Rightarrow> Rainbow" where
  "set_stream nd cs rb = rb\<lparr>rb_streams := sm_store nd cs (rb_streams rb)\<rparr>"

text \<open>
  The sequence numbers of the cloud are assumed not to run out: the counter has not come back to its
  first value.  The information of the node may change at any time.
\<close>

inductive link_step :: "u64 \<Rightarrow> Link \<Rightarrow> Link \<Rightarrow> bool" for nd where
  send: "SendRequestToNode err nd q (lk_cloud s) = Ret (rb, Some a, err) \<Longrightarrow> rb_requestSeq (lk_cloud s) + 1 \<noteq> 10000 \<Longrightarrow>
    link_step nd s (s\<lparr>lk_cloud := rb, lk_chan := (lk_chan s)(rb_requestSeq (lk_cloud s) \<mapsto> a)\<rparr>)"
| edge_recv: "on_stream nd (lk_cloud s) = c # cs \<Longrightarrow> op_event c (lk_edge s) = Ret (e, qs) \<Longrightarrow>
    link_step nd s (s\<lparr>lk_cloud := set_stream nd cs (lk_cloud s), lk_edge := e, lk_jobs := lk_jobs s @ qs\<rparr>)"
| serve: "lk_jobs s = js1 @ q # js2 \<Longrightarrow> do_request env q (lk_edge s) = Ret xs \<Longrightarrow>
    link_step nd s (s\<lparr>lk_jobs := js1 @ js2, lk_out := lk_out s @ [(q, [], xs)]\<rparr>)"
| hand: "lk_out s = os1 @ (q, gone, x # rest) # os2 \<Longrightarrow>
    link_step nd s (s\<lparr>lk_up := lk_up s @ [Content_Response x], lk_out := os1 @ (q, gone @ [x], rest) # os2\<rparr>)"
| cloud_recv: "lk_up s = c # cs \<Longrightarrow> rb_event c (lk_cloud s) = Ret (rb, xs) \<Longrightarrow>
    link_step nd s (s\<lparr>lk_up := cs, lk_cloud := set_stream nd (on_stream nd rb @ map Content_Response xs) rb\<rparr>)"
| take: "lk_chan s i = Some a \<Longrightarrow> recv_chan a (rb_router (lk_cloud s)) = Ret (r, Some x) \<Longrightarrow>
    link_step nd s (s\<lparr>lk_cloud := (lk_cloud s)\<lparr>rb_router := r\<rparr>, lk_got := (lk_got s)(i := lk_got s i @ [x])\<rparr>)"
| report: "report_turn (lk_edge s) = Ret (e, Some c) \<Longrightarrow>
    link_step nd s (s\<lparr>lk_edge := e, lk_up := lk_up s @ [c]\<rparr>)"
| change: "link_step nd s (s\<lparr>lk_edge := (lk_edge s)\<lparr>op_watcher := w\<rparr>\<rparr>)"

text \<open>The link right after the node opened its stream.\<close>

definition link_init :: "u64 \<Rightarrow> Link \<Rightarrow> bool" where
  "link_init nd s \<longleftrightarrow> sm_ok (rb_streams (lk_cloud s)) \<and> sm_load (rb_streams (lk_cloud s)) nd = Some []
     \<and> rb_router (lk_cloud s) = NewRouter \<and> rb_requestSeq (lk_cloud s) = 10000
     \<and> lk_up s = [] \<and> lk_jobs s = [] \<and> lk_out s = [] \<and> lk_chan s = Map.empty \<and> lk_got s = (\<lambda>i. [])"

definition link_reach :: "u64 \<Rightarrow> Link \<Rightarrow> bool" where
  "link_reach nd s \<longleftrightarrow> (\<exists>s0. link_init nd s0 \<and> (link_step nd)\<^sup>*\<^sup>* s0 s)"

section \<open>The invariant\<close>

definition requests :: "Content list \<Rightarrow> Request list" where
  "requests cs = concat (map (\<lambda>c. case c of Content_Request q \<Rightarrow> [q] | Content_Response x \<Rightarrow> []) cs)"

definition transit :: "u64 \<Rightarrow> Content list \<Rightarrow> Response list" where
  "transit i cs = concat (map (\<lambda>c. case c of Content_Request q \<Rightarrow> [] | Content_Response x \<Rightarrow> if ResponseTo x = i then [x] else []) cs)"

definition buffer :: "nat \<Rightarrow> Router \<Rightarrow> Response list" where
  "buffer a r = ch_buf (rt_chans r ! a)"

definition registered :: "u64 \<Rightarrow> Router \<Rightarrow> bool" where
  "registered i r \<longleftrightarrow> sm_load (rt_m r) i \<noteq> None"

definition waiting :: "u64 \<Rightarrow> Link \<Rightarrow> Request list" where
  "waiting nd s = requests (on_stream nd (lk_cloud s)) @ lk_jobs s"

text \<open>The channels of the requests sent.\<close>

definition chans_ok :: "(u64 \<rightharpoonup> nat) \<Rightarrow> u64 \<Rightarrow> Router \<Rightarrow> bool" where
  "chans_ok chan next r \<longleftrightarrow> sm_ok (rt_m r) \<and> dom chan = {i. i - 10000 < next - 10000} \<and> inj_on chan (dom chan)
     \<and> (\<forall>i a. chan i = Some a \<longrightarrow> a < length (rt_chans r))
     \<and> (\<forall>i a. sm_load (rt_m r) i = Some a \<longrightarrow> chan i = Some a \<and> \<not> ch_closed (rt_chans r ! a))"

text \<open>A request that waits has a channel nothing was sent to; one that is served has its responses on the way in order.\<close>

definition waits_ok :: "Router \<Rightarrow> (u64 \<rightharpoonup> nat) \<Rightarrow> (u64 \<Rightarrow> Response list) \<Rightarrow> u64 \<Rightarrow> bool" where
  "waits_ok r chan got i \<longleftrightarrow> registered i r \<and> got i = [] \<and> (\<exists>a. chan i = Some a \<and> buffer a r = [])"

definition served_ok ::
    "Router \<Rightarrow> (u64 \<rightharpoonup> nat) \<Rightarrow> (u64 \<Rightarrow> Response list) \<Rightarrow> Content list \<Rightarrow> u64 \<Rightarrow> Response list \<Rightarrow> bool" where
  "served_ok r chan got up i gone \<longleftrightarrow>
     (\<exists>a. chan i = Some a \<and> got i @ buffer a r @ transit i up = gone
        \<and> ((\<forall>x \<in> set (got i @ buffer a r). \<not> IsLast x) \<longrightarrow> registered i r))"

definition link_inv :: "u64 \<Rightarrow> Link \<Rightarrow> bool" where
  "link_inv nd s \<longleftrightarrow>
     (let rb = lk_cloud s; r = rb_router rb
      in sm_ok (rb_streams rb) \<and> sm_load (rb_streams rb) nd \<noteq> None
         \<and> chans_ok (lk_chan s) (rb_requestSeq rb) r \<and> (\<forall>i. i \<notin> dom (lk_chan s) \<longrightarrow> lk_got s i = [])
         \<and> distinct (map RequestSeq (waiting nd s @ map fst (lk_out s)))
         \<and> (\<forall>q \<in> set (waiting nd s). waits_ok r (lk_chan s) (lk_got s) (RequestSeq q))
         \<and> (\<forall>(q, gone, rest) \<in> set (lk_out s). (\<exists>env e. do_request env q e = Ret (gone @ rest))
              \<and> served_ok r (lk_chan s) (lk_got s) (lk_up s) (RequestSeq q) gone)
         \<and> (\<forall>x. Content_Response x \<in> set (lk_up s) \<longrightarrow> (\<exists>(q, gone, rest) \<in> set (lk_out s). RequestSeq q = ResponseTo x)))"

section \<open>Lemmas\<close>

lemma requests_simps [simp]:
  "requests [] = []" "requests (cs @ ds) = requests cs @ requests ds"
  "requests (Content_Request q # cs) = q # requests cs" "requests (Content_Response x # cs) = requests cs"
  "requests (map Content_Response xs) = []"
  by (simp_all add: requests_def comp_def)

lemma transit_simps [simp]:
  "transit i [] = []" "transit i (cs @ ds) = transit i cs @ transit i ds"
  "transit i (Content_Request q # cs) = transit i cs"
  "transit i (Content_Response x # cs) = (if ResponseTo x = i then x # transit i cs else transit i cs)"
  by (simp_all add: transit_def)

lemma set_stream_simps [simp]:
  "on_stream nd (set_stream nd cs rb) = cs" "rb_router (set_stream nd cs rb) = rb_router rb"
  "rb_requestSeq (set_stream nd cs rb) = rb_requestSeq rb" "sm_load (rb_streams (set_stream nd cs rb)) nd = Some cs"
  "sm_ok (rb_streams rb) \<Longrightarrow> sm_ok (rb_streams (set_stream nd cs rb))"
  by (simp_all add: on_stream_def set_stream_def sm_load_store sm_laws)

lemma transit_None: "(\<And>x. Content_Response x \<in> set cs \<Longrightarrow> ResponseTo x \<noteq> i) \<Longrightarrow> transit i cs = []"
  by (induction cs) (auto simp: transit_def split: Content.splits)

lemma next_seq:
  fixes i n :: u64
  assumes "n + 1 \<noteq> 0"
  shows "i < n + 1 \<longleftrightarrow> i < n \<or> i = n"
proof -
  have "unat (n + 1) = Suc (unat n)"
    using assms unatSuc [of n] by (simp add: add.commute)
  then show ?thesis
    by (auto simp: word_less_nat_alt word_unat_eq_iff)
qed

lemma add_diff_eq_swap: "(n :: u64) + 1 - k = (n - k) + 1"
  by simp

lemma answer_front: "answer_ok i (xs @ x # ys) \<Longrightarrow> y \<in> set xs \<Longrightarrow> \<not> IsLast y"
  by (auto simp: answer_ok_def butlast_append)

subsection \<open>Channels\<close>

lemma chans_okD:
  assumes "chans_ok chan n r"
  shows "sm_ok (rt_m r)" "dom chan = {i. i - 10000 < n - 10000}" "inj_on chan (dom chan)"
    "\<And>i a. chan i = Some a \<Longrightarrow> a < length (rt_chans r)" "\<And>i a. sm_load (rt_m r) i = Some a \<Longrightarrow> chan i = Some a"
    "\<And>i a. sm_load (rt_m r) i = Some a \<Longrightarrow> \<not> ch_closed (rt_chans r ! a)"
  using assms unfolding chans_ok_def by blast+

lemma chans_okI:
  assumes "sm_ok (rt_m r)" "dom chan = {i. i - 10000 < n - 10000}" "inj_on chan (dom chan)"
    "\<And>i a. chan i = Some a \<Longrightarrow> a < length (rt_chans r)" "\<And>i a. sm_load (rt_m r) i = Some a \<Longrightarrow> chan i = Some a"
    "\<And>i a. sm_load (rt_m r) i = Some a \<Longrightarrow> \<not> ch_closed (rt_chans r ! a)"
  shows "chans_ok chan n r"
  using assms unfolding chans_ok_def by blast

lemma dom_next:
  assumes "n + 1 \<noteq> (10000 :: u64)"
  shows "insert n {i. i - 10000 < n - 10000} = {i. i - 10000 < n + 1 - 10000}"
proof -
  have e: "n + 1 - 10000 = (n - 10000) + 1"
    by (rule add_diff_eq_swap)
  have "(n - 10000) + 1 \<noteq> 0"
    unfolding e [symmetric] using assms by (simp only: right_minus_eq simp_thms)
  then have "i - 10000 < n + 1 - 10000 \<longleftrightarrow> i - 10000 < n - 10000 \<or> i = n" for i
    unfolding e using next_seq [of "n - 10000" "i - 10000"] by (metis diff_eq_diff_eq diff_add_cancel)
  then show ?thesis
    by blast
qed

lemma inj_new:
  assumes "inj_on chan (dom chan)" "\<And>i b. chan i = Some b \<Longrightarrow> b < (a :: nat)"
  shows "inj_on (chan(n \<mapsto> a)) (dom (chan(n \<mapsto> a)))"
proof (rule inj_onI)
  fix i j
  assume d: "i \<in> dom (chan(n \<mapsto> a))" "j \<in> dom (chan(n \<mapsto> a))" "(chan(n \<mapsto> a)) i = (chan(n \<mapsto> a)) j"
  have "chan k \<noteq> Some a" for k
    using assms(2) by blast
  then show "i = j"
    using d assms(1) by (auto simp: inj_on_def split: if_splits)
qed

lemma Register_ok:
  assumes c: "chans_ok chan n r" and n: "n + 1 \<noteq> 10000"
  shows "\<exists>r'. Register n r = Ret (r', length (rt_chans r)) \<and> chans_ok (chan(n \<mapsto> length (rt_chans r))) (n + 1) r'
    \<and> registered n r' \<and> buffer (length (rt_chans r)) r' = []
    \<and> (\<forall>i a. chan i = Some a \<longrightarrow> buffer a r' = buffer a r) \<and> (\<forall>i. i \<noteq> n \<longrightarrow> registered i r' = registered i r)"
proof -
  let ?a = "length (rt_chans r)"
  let ?r = "r\<lparr>rt_m := sm_store n ?a (rt_m r), rt_chans := rt_chans r @ [\<lparr>ch_buf = [], ch_closed = False\<rparr>]\<rparr>"
  note d = chans_okD [OF c]
  have "n \<notin> dom chan"
    unfolding d(2) by simp
  then have fresh: "sm_load (rt_m r) n = None"
    using d(5) [of n] by (cases "sm_load (rt_m r) n") auto
  have load: "sm_load (rt_m ?r) i = (if i = n then Some ?a else sm_load (rt_m r) i)" for i
    by (simp add: sm_load_store)
  have "Register n r = Ret (?r, ?a)"
    using fresh by (simp add: Register_def Let_def)
  moreover have "chans_ok (chan(n \<mapsto> ?a)) (n + 1) ?r"
  proof (rule chans_okI)
    show "sm_ok (rt_m ?r)"
      using d(1) by (simp add: sm_laws)
    show "dom (chan(n \<mapsto> ?a)) = {i. i - 10000 < n + 1 - 10000}"
      using d(2) dom_next [OF n] by simp
    show "inj_on (chan(n \<mapsto> ?a)) (dom (chan(n \<mapsto> ?a)))"
      by (rule inj_new [OF d(3,4)])
    show "(chan(n \<mapsto> ?a)) i = Some a \<Longrightarrow> a < length (rt_chans ?r)" for i a
      using d(4) [of i a] by (auto split: if_splits)
    show "sm_load (rt_m ?r) i = Some a \<Longrightarrow> (chan(n \<mapsto> ?a)) i = Some a" for i a
      unfolding load using d(5) [of i a] by (auto split: if_splits)
    show "sm_load (rt_m ?r) i = Some a \<Longrightarrow> \<not> ch_closed (rt_chans ?r ! a)" for i a
      unfolding load using d(4) [OF d(5), of i a] d(6) [of i a] by (auto simp: nth_append split: if_splits)
  qed
  moreover have "registered n ?r" "buffer ?a ?r = []"
    by (simp_all add: registered_def buffer_def sm_load_store)
  moreover have "\<forall>i a. chan i = Some a \<longrightarrow> buffer a ?r = buffer a r"
    using d(4) by (simp add: buffer_def nth_append)
  moreover have "\<forall>i. i \<noteq> n \<longrightarrow> registered i ?r = registered i r"
    unfolding registered_def load by simp
  ultimately show ?thesis
    by blast
qed

lemma deliver_ok:
  assumes c: "chans_ok chan n r" and i: "registered (ResponseTo x) r"
  obtains (full) m where "deliver x r = exec.Blocks m"
    | (ok) a r' where "deliver x r = Ret r'" "chan (ResponseTo x) = Some a" "buffer a r = []" "chans_ok chan n r'" "buffer a r' = [x]"
        "\<forall>b. b \<noteq> a \<longrightarrow> buffer b r' = buffer b r" "\<forall>i. registered i r' \<longleftrightarrow> registered i r \<and> (IsLast x \<longrightarrow> i \<noteq> ResponseTo x)"
proof -
  let ?i = "ResponseTo x"
  obtain a where a: "sm_load (rt_m r) ?i = Some a"
    using i by (auto simp: registered_def)
  then have ca: "chan ?i = Some a" "\<not> ch_closed (rt_chans r ! a)" "a < length (rt_chans r)"
    using c unfolding chans_ok_def by blast+
  have inj: "chan j = Some b \<Longrightarrow> j \<noteq> ?i \<Longrightarrow> b \<noteq> a" for j b
    using c ca(1) unfolding chans_ok_def inj_on_def by (metis domI)
  let ?cs = "(rt_chans r)[a := (rt_chans r ! a)\<lparr>ch_buf := [x]\<rparr>]"
  show ?thesis
  proof (cases "ch_buf (rt_chans r ! a) = []")
    case False
    then have "deliver x r = exec.Blocks ''the channel is full''"
      using a ca(2) by (simp add: deliver_def router_Send_def Let_def)
    then show ?thesis
      by (rule full)
  next
    case True
    then have s: "router_Send ?i x r = Ret (r\<lparr>rt_chans := ?cs\<rparr>)"
      using a ca(2) by (simp add: router_Send_def Let_def)
    let ?r = "if IsLast x then r\<lparr>rt_chans := ?cs[a := (?cs ! a)\<lparr>ch_closed := True\<rparr>], rt_m := sm_delete ?i (rt_m r)\<rparr> else r\<lparr>rt_chans := ?cs\<rparr>"
    have "deliver x r = Ret ?r"
      using s a ca by (simp add: deliver_def Unregister_def close_chan_def Let_def)
    moreover have "chans_ok chan n ?r"
    proof -
      have "chan j = Some b \<and> \<not> ch_closed (rt_chans r ! b) \<and> (j \<noteq> ?i \<longrightarrow> b \<noteq> a)" if "sm_load (rt_m r) j = Some b" for j b
        using c inj that unfolding chans_ok_def by blast
      then show ?thesis
        using c ca by (auto simp: chans_ok_def sm_laws sm_load_delete nth_list_update split: if_splits)
    qed
    moreover have "\<forall>j. registered j ?r \<longleftrightarrow> registered j r \<and> (IsLast x \<longrightarrow> j \<noteq> ?i)"
      by (auto simp: registered_def sm_load_delete)
    ultimately show ?thesis
      using ca True by (intro ok [of ?r a]) (auto simp: buffer_def)
  qed
qed

lemma recv_ok:
  assumes c: "chans_ok chan n r" and a: "chan i = Some a" and r: "recv_chan a r = Ret (r', Some x)"
  shows "chans_ok chan n r' \<and> buffer a r = x # buffer a r' \<and> (\<forall>b. b \<noteq> a \<longrightarrow> buffer b r' = buffer b r) \<and> (\<forall>i. registered i r' = registered i r)"
proof -
  have l: "a < length (rt_chans r)"
    using c a by (auto simp: chans_ok_def)
  obtain xs where xs: "ch_buf (rt_chans r ! a) = x # xs" "r' = r\<lparr>rt_chans := (rt_chans r)[a := (rt_chans r ! a)\<lparr>ch_buf := xs\<rparr>]\<rparr>"
    using r by (auto simp: recv_chan_def Let_def split: list.splits if_splits)
  then show ?thesis
    using c l by (auto simp: chans_ok_def buffer_def registered_def nth_list_update)
qed

subsection \<open>Steps\<close>

lemma link_invD:
  assumes "link_inv nd s"
  shows "sm_ok (rb_streams (lk_cloud s))" "sm_load (rb_streams (lk_cloud s)) nd \<noteq> None"
    "chans_ok (lk_chan s) (rb_requestSeq (lk_cloud s)) (rb_router (lk_cloud s))"
    "\<And>i. i \<notin> dom (lk_chan s) \<Longrightarrow> lk_got s i = []"
    "distinct (map RequestSeq (waiting nd s @ map fst (lk_out s)))"
    "\<And>q. q \<in> set (waiting nd s) \<Longrightarrow> waits_ok (rb_router (lk_cloud s)) (lk_chan s) (lk_got s) (RequestSeq q)"
    "\<And>q gone rest. (q, gone, rest) \<in> set (lk_out s) \<Longrightarrow> \<exists>env e. do_request env q e = Ret (gone @ rest)"
    "\<And>q gone rest. (q, gone, rest) \<in> set (lk_out s) \<Longrightarrow>
       served_ok (rb_router (lk_cloud s)) (lk_chan s) (lk_got s) (lk_up s) (RequestSeq q) gone"
    "\<And>x. Content_Response x \<in> set (lk_up s) \<Longrightarrow> \<exists>q gone rest. (q, gone, rest) \<in> set (lk_out s) \<and> RequestSeq q = ResponseTo x"
  using assms unfolding link_inv_def Let_def by fast+

lemma link_invI:
  assumes "sm_ok (rb_streams (lk_cloud s))" "sm_load (rb_streams (lk_cloud s)) nd \<noteq> None"
    "chans_ok (lk_chan s) (rb_requestSeq (lk_cloud s)) (rb_router (lk_cloud s))"
    "\<And>i. i \<notin> dom (lk_chan s) \<Longrightarrow> lk_got s i = []"
    "distinct (map RequestSeq (waiting nd s @ map fst (lk_out s)))"
    "\<And>q. q \<in> set (waiting nd s) \<Longrightarrow> waits_ok (rb_router (lk_cloud s)) (lk_chan s) (lk_got s) (RequestSeq q)"
    "\<And>q gone rest. (q, gone, rest) \<in> set (lk_out s) \<Longrightarrow> \<exists>env e. do_request env q e = Ret (gone @ rest)"
    "\<And>q gone rest. (q, gone, rest) \<in> set (lk_out s) \<Longrightarrow>
       served_ok (rb_router (lk_cloud s)) (lk_chan s) (lk_got s) (lk_up s) (RequestSeq q) gone"
    "\<And>x. Content_Response x \<in> set (lk_up s) \<Longrightarrow> \<exists>q gone rest. (q, gone, rest) \<in> set (lk_out s) \<and> RequestSeq q = ResponseTo x"
  shows "link_inv nd s"
  using assms unfolding link_inv_def Let_def by fast

lemma served_not_waiting:
  assumes "link_inv nd s" "(q, gone, rest) \<in> set (lk_out s)" "p \<in> set (waiting nd s)"
  shows "RequestSeq p \<noteq> RequestSeq q"
proof
  assume e: "RequestSeq p = RequestSeq q"
  have "RequestSeq p \<in> set (map RequestSeq (waiting nd s))" "RequestSeq q \<in> set (map RequestSeq (map fst (lk_out s)))"
    using assms(2,3) by force+
  then show False
    using link_invD(5) [OF assms(1)] e by (auto simp del: set_map)
qed

lemma waiting_chan: "link_inv nd s \<Longrightarrow> q \<in> set (waiting nd s) \<Longrightarrow> \<exists>a. lk_chan s (RequestSeq q) = Some a"
  using link_invD(6) by (fastforce simp: waits_ok_def)

lemma served_chan: "link_inv nd s \<Longrightarrow> (q, gone, rest) \<in> set (lk_out s) \<Longrightarrow> \<exists>a. lk_chan s (RequestSeq q) = Some a"
  using link_invD(8) by (fastforce simp: served_ok_def)

text \<open>Two requests served have different numbers.\<close>

lemma served_unique:
  assumes "link_inv nd s" "(q, gone, rest) \<in> set (lk_out s)" "(q', gone', rest') \<in> set (lk_out s)" "RequestSeq q = RequestSeq q'"
  shows "(q, gone, rest) = (q', gone', rest')"
proof -
  have "distinct (map (\<lambda>x. RequestSeq (fst x)) (lk_out s))"
    using link_invD(5) [OF assms(1)] by (simp add: comp_def)
  then have "inj_on (\<lambda>x. RequestSeq (fst x)) (set (lk_out s))"
    by (simp add: distinct_map)
  then show ?thesis
    by (rule inj_onD) (simp_all add: assms(2-4))
qed

text \<open>What a router has to keep of the channels of others.\<close>

lemma waits_ok_other:
  assumes "waits_ok r chan got i" "registered i r' = registered i r" "\<And>a. chan i = Some a \<Longrightarrow> buffer a r' = buffer a r"
    "chan' i = chan i" "got' i = got i"
  shows "waits_ok r' chan' got' i"
  using assms by (auto simp: waits_ok_def)

lemma served_ok_other:
  assumes "served_ok r chan got up i gone" "registered i r' = registered i r" "\<And>a. chan i = Some a \<Longrightarrow> buffer a r' = buffer a r"
    "chan' i = chan i" "got' i = got i" "transit i up' = transit i up"
  shows "served_ok r' chan' got' up' i gone"
  using assms by (auto simp: served_ok_def)

lemma link_inv_init: "link_init nd s \<Longrightarrow> link_inv nd s"
proof (rule link_invI)
  assume i: "link_init nd s"
  then have c: "rb_router (lk_cloud s) = NewRouter" "rb_requestSeq (lk_cloud s) = 10000" "lk_chan s = Map.empty"
    by (simp_all add: link_init_def)
  show "chans_ok (lk_chan s) (rb_requestSeq (lk_cloud s)) (rb_router (lk_cloud s))"
    unfolding c by (rule chans_okI) (simp_all add: NewRouter_def sm_laws)
qed (auto simp: link_init_def waiting_def on_stream_def)

lemma link_inv_change: "link_inv nd s \<Longrightarrow> link_inv nd (s\<lparr>lk_edge := e\<rparr>)"
  by (simp add: link_inv_def waiting_def)

lemma distinct_mid: "distinct (map f (xs @ ys)) \<Longrightarrow> f q \<notin> set (map f (xs @ ys)) \<Longrightarrow> distinct (map f (xs @ q # ys))"
  by auto

lemma send_step:
  assumes inv: "link_inv nd s" and send: "SendRequestToNode err nd q (lk_cloud s) = Ret (rb, Some a, err)"
    and n: "rb_requestSeq (lk_cloud s) + 1 \<noteq> 10000"
  shows "link_inv nd (s\<lparr>lk_cloud := rb, lk_chan := (lk_chan s)(rb_requestSeq (lk_cloud s) \<mapsto> a)\<rparr>)"
    (is "link_inv nd ?s")
proof -
  let ?n = "rb_requestSeq (lk_cloud s)" and ?q = "q\<lparr>RequestSeq := rb_requestSeq (lk_cloud s)\<rparr>"
  note d = link_invD [OF inv]
  obtain cs where cs: "sm_load (rb_streams (lk_cloud s)) nd = Some cs"
    using d(2) by blast
  obtain r' where r': "Register ?n (rb_router (lk_cloud s)) = Ret (r', length (rt_chans (rb_router (lk_cloud s))))"
      "chans_ok ((lk_chan s)(?n \<mapsto> length (rt_chans (rb_router (lk_cloud s))))) (?n + 1) r'" "registered ?n r'"
      "buffer (length (rt_chans (rb_router (lk_cloud s)))) r' = []"
      "\<forall>i a. lk_chan s i = Some a \<longrightarrow> buffer a r' = buffer a (rb_router (lk_cloud s))"
      "\<forall>i. i \<noteq> ?n \<longrightarrow> registered i r' = registered i (rb_router (lk_cloud s))"
    using Register_ok [OF d(3) n] by blast
  have rb: "a = length (rt_chans (rb_router (lk_cloud s)))" "rb_router rb = r'" "rb_requestSeq rb = ?n + 1"
      "rb_streams rb = (if err = None then sm_store nd (cs @ [Content_Request ?q]) (rb_streams (lk_cloud s)) else rb_streams (lk_cloud s))"
    using send cs r'(1) by (auto simp: SendRequestToNode_def)
  have ws: "waiting nd s = requests cs @ lk_jobs s" "waiting nd ?s = requests cs @ (if err = None then [?q] else []) @ lk_jobs s"
    using rb(4) cs by (simp_all add: waiting_def on_stream_def sm_load_store)
  then have w: "set (waiting nd ?s) \<subseteq> insert ?q (set (waiting nd s))"
    by auto
  have new: "?n \<notin> dom (lk_chan s)"
    unfolding chans_okD(2) [OF d(3)] by simp
  then have old: "RequestSeq p \<noteq> ?n" if "p \<in> set (waiting nd s @ map fst (lk_out s))" for p
    using that waiting_chan [OF inv, of p] served_chan [OF inv] by fastforce
  show ?thesis
  proof (rule link_invI)
    show "sm_ok (rb_streams (lk_cloud ?s))" "sm_load (rb_streams (lk_cloud ?s)) nd \<noteq> None"
      using rb(4) d(1,2) by (simp_all add: sm_laws sm_load_store)
    show "chans_ok (lk_chan ?s) (rb_requestSeq (lk_cloud ?s)) (rb_router (lk_cloud ?s))"
      using r'(2) rb by simp
    show "i \<notin> dom (lk_chan ?s) \<Longrightarrow> lk_got ?s i = []" for i
      using d(4) by simp
    have "?n \<notin> set (map RequestSeq (waiting nd s @ map fst (lk_out s)))"
    proof
      assume "?n \<in> set (map RequestSeq (waiting nd s @ map fst (lk_out s)))"
      then obtain p where "p \<in> set (waiting nd s @ map fst (lk_out s))" "RequestSeq p = ?n"
        unfolding set_map by (rule imageE) simp
      then show False
        using old by metis
    qed
    then show "distinct (map RequestSeq (waiting nd ?s @ map fst (lk_out ?s)))"
      using d(5) distinct_mid [of RequestSeq "requests cs" "lk_jobs s @ map fst (lk_out s)" ?q] unfolding ws
      by (cases err) simp_all
    show "waits_ok (rb_router (lk_cloud ?s)) (lk_chan ?s) (lk_got ?s) (RequestSeq p)" if "p \<in> set (waiting nd ?s)" for p
    proof (cases "p = ?q")
      case True
      then show ?thesis
        using r'(3,4) rb(1,2) d(4) [OF new] by (simp add: waits_ok_def)
    next
      case False
      then have p: "p \<in> set (waiting nd s)"
        using that w by blast
      then show ?thesis
        using waits_ok_other [OF d(6) [OF p]] old [of p] r'(5,6) rb(2) by simp
    qed
    show "\<exists>env e. do_request env p e = Ret (gone @ rest)" if "(p, gone, rest) \<in> set (lk_out ?s)" for p gone rest
      using that d(7) by simp
    show "served_ok (rb_router (lk_cloud ?s)) (lk_chan ?s) (lk_got ?s) (lk_up ?s) (RequestSeq p) gone"
      if "(p, gone, rest) \<in> set (lk_out ?s)" for p gone rest
    proof -
      have p: "(p, gone, rest) \<in> set (lk_out s)" "RequestSeq p \<noteq> ?n"
        using that old [of p] by force+
      show ?thesis
        using served_ok_other [OF d(8) [OF p(1)]] p(2) r'(5,6) rb(2) by simp
    qed
    show "\<exists>p gone rest. (p, gone, rest) \<in> set (lk_out ?s) \<and> RequestSeq p = ResponseTo x" if "Content_Response x \<in> set (lk_up ?s)" for x
      using that d(9) by simp
  qed
qed

text \<open>Steps that leave the router, the history and the messages to the cloud alone.\<close>

lemma link_inv_waiting:
  assumes inv: "link_inv nd s" and s': "rb_router (lk_cloud s') = rb_router (lk_cloud s)" "rb_requestSeq (lk_cloud s') = rb_requestSeq (lk_cloud s)"
      "lk_chan s' = lk_chan s" "lk_got s' = lk_got s" "lk_out s' = lk_out s"
      "sm_ok (rb_streams (lk_cloud s'))" "sm_load (rb_streams (lk_cloud s')) nd \<noteq> None"
    and up: "\<And>i. transit i (lk_up s') = transit i (lk_up s)" "\<And>x. Content_Response x \<in> set (lk_up s') \<Longrightarrow> Content_Response x \<in> set (lk_up s)"
    and w: "set (waiting nd s') \<subseteq> set (waiting nd s)" "distinct (map RequestSeq (waiting nd s'))"
  shows "link_inv nd s'"
proof -
  note d = link_invD [OF inv]
  have "distinct (map RequestSeq (waiting nd s' @ map fst (lk_out s')))"
    using d(5) w s'(5) by (auto simp: distinct_map)
  moreover have "served_ok (rb_router (lk_cloud s')) (lk_chan s') (lk_got s') (lk_up s') (RequestSeq q) gone"
    if "(q, gone, rest) \<in> set (lk_out s)" for q gone rest
    using served_ok_other [OF d(8) [OF that], of "rb_router (lk_cloud s')" "lk_chan s'" "lk_got s'" "lk_up s'"] s' up(1) by simp
  ultimately show ?thesis
    using d s' up(2) w(1) by (intro link_invI) auto
qed

lemma waiting_distinct: "link_inv nd s \<Longrightarrow> distinct (map RequestSeq (waiting nd s))"
  using link_invD(5) [of nd s] by (simp only: map_append distinct_append)

lemma distinct_move: "distinct (map f (q # xs @ ys)) \<Longrightarrow> distinct (map f (xs @ ys @ [q]))"
  by auto

lemma edge_recv_step:
  assumes inv: "link_inv nd s" and c: "on_stream nd (lk_cloud s) = c # cs" and e: "op_event c (lk_edge s) = Ret (e, qs)"
  shows "link_inv nd (s\<lparr>lk_cloud := set_stream nd cs (lk_cloud s), lk_edge := e, lk_jobs := lk_jobs s @ qs\<rparr>)"
    (is "link_inv nd ?s")
proof -
  have qs: "(\<exists>x. c = Content_Response x \<and> qs = []) \<or> (\<exists>q. c = Content_Request q \<and> (qs = [q] \<or> qs = []))"
    using e by (auto simp: op_event_def split: Content.splits if_splits)
  have w: "waiting nd s = requests (c # cs) @ lk_jobs s" "waiting nd ?s = requests cs @ lk_jobs s @ qs"
    using c by (simp_all add: waiting_def)
  have d: "distinct (map RequestSeq (requests (c # cs) @ lk_jobs s))"
    using waiting_distinct [OF inv] unfolding w(1) .
  have "distinct (map RequestSeq (requests cs @ lk_jobs s @ qs))"
    using qs
  proof (elim disjE exE conjE)
    fix q
    assume q: "c = Content_Request q" "qs = [q]"
    show ?thesis
      unfolding q(2) by (rule distinct_move) (use d q(1) in \<open>simp only: requests_simps append_Cons\<close>)
  qed (use d in \<open>simp_all only: requests_simps append_Nil2 list.map append_Cons distinct.simps simp_thms\<close>)
  then have "distinct (map RequestSeq (waiting nd ?s))"
    unfolding w(2) .
  moreover have "set (waiting nd ?s) \<subseteq> set (waiting nd s)"
    using qs unfolding w by auto
  ultimately show ?thesis
    using link_invD(1) [OF inv] by (intro link_inv_waiting [OF inv]) simp_all
qed

lemma report_step:
  assumes inv: "link_inv nd s" and r: "report_turn (lk_edge s) = Ret (e, Some c)"
  shows "link_inv nd (s\<lparr>lk_edge := e, lk_up := lk_up s @ [c]\<rparr>)" (is "link_inv nd ?s")
proof -
  obtain q where c: "c = Content_Request q"
    using r by (auto simp: report_turn_def op_Send_def Let_def split: if_splits)
  have "waiting nd ?s = waiting nd s"
    by (simp add: waiting_def)
  then show ?thesis
    using link_invD(1,2) [OF inv] waiting_distinct [OF inv] c by (intro link_inv_waiting [OF inv]) auto
qed

lemma rb_event_request:
  "rb_event (Content_Request q) rb = Ret (rb', xs) \<Longrightarrow>
     rb_router rb' = rb_router rb \<and> rb_requestSeq rb' = rb_requestSeq rb \<and> rb_streams rb' = rb_streams rb"
  by (auto simp: rb_event_def processMetaRequest_def doDelete_def Let_def
      split: if_splits option.splits BaseInfo.splits Request_Resource.splits)

lemma cloud_request_step:
  assumes inv: "link_inv nd s" and c: "lk_up s = Content_Request q # cs" "rb_event (Content_Request q) (lk_cloud s) = Ret (rb, xs)"
  shows "link_inv nd (s\<lparr>lk_up := cs, lk_cloud := set_stream nd (on_stream nd rb @ map Content_Response xs) rb\<rparr>)"
    (is "link_inv nd ?s")
proof -
  have rb: "rb_router rb = rb_router (lk_cloud s)" "rb_requestSeq rb = rb_requestSeq (lk_cloud s)" "rb_streams rb = rb_streams (lk_cloud s)"
    using rb_event_request [OF c(2)] by simp_all
  have "waiting nd ?s = waiting nd s"
    using rb(3) by (simp add: waiting_def on_stream_def)
  then show ?thesis
    using link_invD(1) [OF inv] waiting_distinct [OF inv] c(1) rb by (intro link_inv_waiting [OF inv]) (simp_all)
qed

lemma distinct_serve:
  "distinct (map f (as @ (bs @ q # cs) @ os)) \<Longrightarrow> distinct (map f ((as @ bs @ cs) @ os @ [q]))"
  by auto

lemma serve_step:
  assumes inv: "link_inv nd s" and j: "lk_jobs s = js1 @ q # js2" and x: "do_request env q (lk_edge s) = Ret xs"
  shows "link_inv nd (s\<lparr>lk_jobs := js1 @ js2, lk_out := lk_out s @ [(q, [], xs)]\<rparr>)" (is "link_inv nd ?s")
proof -
  note d = link_invD [OF inv]
  have q: "q \<in> set (waiting nd s)"
    using j by (simp add: waiting_def)
  have t: "transit (RequestSeq q) (lk_up s) = []"
  proof (rule transit_None)
    fix x
    assume "Content_Response x \<in> set (lk_up s)"
    then show "ResponseTo x \<noteq> RequestSeq q"
      using d(9) [of x] served_not_waiting [OF inv _ q] by metis
  qed
  have new: "served_ok (rb_router (lk_cloud s)) (lk_chan s) (lk_got s) (lk_up s) (RequestSeq q) []"
    using d(6) [OF q] t by (auto simp: waits_ok_def served_ok_def)
  have w: "waiting nd s = requests (on_stream nd (lk_cloud s)) @ js1 @ q # js2" "waiting nd ?s = requests (on_stream nd (lk_cloud s)) @ js1 @ js2"
    using j by (simp_all add: waiting_def)
  have "distinct (map RequestSeq ((requests (on_stream nd (lk_cloud s)) @ js1 @ js2) @ map fst (lk_out s) @ [q]))"
    using d(5) unfolding w(1) by (intro distinct_serve) (simp only: append_assoc append_Cons)
  then have "distinct (map RequestSeq (waiting nd ?s @ map fst (lk_out ?s)))"
    unfolding w(2) by simp
  moreover have "set (waiting nd ?s) \<subseteq> set (waiting nd s)"
    unfolding w by auto
  ultimately show ?thesis
    using d new x by (intro link_invI) (auto, metis)
qed

lemma hand_step:
  assumes inv: "link_inv nd s" and o: "lk_out s = os1 @ (q, gone, x # rest) # os2"
  shows "link_inv nd (s\<lparr>lk_up := lk_up s @ [Content_Response x], lk_out := os1 @ (q, gone @ [x], rest) # os2\<rparr>)"
    (is "link_inv nd ?s")
proof -
  note d = link_invD [OF inv]
  have q: "(q, gone, x # rest) \<in> set (lk_out s)"
    using o by simp
  obtain env e where e: "do_request env q e = Ret (gone @ x # rest)"
    using d(7) [OF q] by blast
  then have to: "ResponseTo x = RequestSeq q"
    using do_request_ok by (fastforce simp: answer_ok_def)
  have other: "RequestSeq p \<noteq> RequestSeq q" if "(p, g, r) \<in> set (os1 @ os2)" for p g r
  proof -
    have "distinct (map (\<lambda>y. RequestSeq (fst y)) (lk_out s))"
      using d(5) by (simp add: comp_def)
    then show ?thesis
      using that unfolding o by force
  qed
  show ?thesis
  proof (rule link_invI)
    have w: "waiting nd ?s = waiting nd s" "map fst (lk_out ?s) = map fst (lk_out s)"
      by (simp_all add: waiting_def o)
    show "distinct (map RequestSeq (waiting nd ?s @ map fst (lk_out ?s)))"
      using d(5) unfolding w .
    show "waits_ok (rb_router (lk_cloud ?s)) (lk_chan ?s) (lk_got ?s) (RequestSeq p)" if "p \<in> set (waiting nd ?s)" for p
      using d(6) that unfolding w by simp
    show "\<exists>env e. do_request env p e = Ret (g @ r)" if "(p, g, r) \<in> set (lk_out ?s)" for p g r
    proof (cases "(p, g, r) \<in> set (os1 @ os2)")
      case False
      then have "p = q" "g @ r = gone @ x # rest"
        using that by auto
      then show ?thesis
        using e by auto
    qed (use d(7) [of p g r] o in auto)
    show "served_ok (rb_router (lk_cloud ?s)) (lk_chan ?s) (lk_got ?s) (lk_up ?s) (RequestSeq p) g"
      if "(p, g, r) \<in> set (lk_out ?s)" for p g r
    proof (cases "(p, g, r) \<in> set (os1 @ os2)")
      case True
      then have "(p, g, r) \<in> set (lk_out s)"
        using o by auto
      then show ?thesis
        using served_ok_other [OF d(8)] other [OF True] to by simp
    next
      case False
      then have "p = q" "g = gone @ [x]" "r = rest"
        using that by auto
      then show ?thesis
        using d(8) [OF q] to by (auto simp: served_ok_def)
    qed
    show "\<exists>p g r. (p, g, r) \<in> set (lk_out ?s) \<and> RequestSeq p = ResponseTo y" if y: "Content_Response y \<in> set (lk_up ?s)" for y
    proof (cases "y = x")
      case True
      then show ?thesis
        using to by auto
    next
      case False
      then obtain p g r where "(p, g, r) \<in> set (lk_out s)" "RequestSeq p = ResponseTo y"
        using y d(9) [of y] by auto
      then show ?thesis
        unfolding o by auto
    qed
  qed (use d in simp_all)
qed

lemma take_step:
  assumes inv: "link_inv nd s" and i: "lk_chan s i = Some a" and r: "recv_chan a (rb_router (lk_cloud s)) = Ret (r, Some x)"
  shows "link_inv nd (s\<lparr>lk_cloud := (lk_cloud s)\<lparr>rb_router := r\<rparr>, lk_got := (lk_got s)(i := lk_got s i @ [x])\<rparr>)"
    (is "link_inv nd ?s")
proof -
  note d = link_invD [OF inv]
  have r': "chans_ok (lk_chan s) (rb_requestSeq (lk_cloud s)) r" "buffer a (rb_router (lk_cloud s)) = x # buffer a r"
      "\<forall>b. b \<noteq> a \<longrightarrow> buffer b r = buffer b (rb_router (lk_cloud s))" "\<forall>j. registered j r = registered j (rb_router (lk_cloud s))"
    using recv_ok [OF d(3) i r] by simp_all
  have inj: "lk_chan s j = Some b \<Longrightarrow> j \<noteq> i \<Longrightarrow> b \<noteq> a" for j b
    using chans_okD(3) [OF d(3)] i unfolding inj_on_def by (metis domI)
  have w: "waiting nd ?s = waiting nd s"
    by (simp add: waiting_def on_stream_def)
  show ?thesis
  proof (rule link_invI)
    show "j \<notin> dom (lk_chan ?s) \<Longrightarrow> lk_got ?s j = []" for j
      using d(4) [of j] i by (auto simp: dom_def)
    show "distinct (map RequestSeq (waiting nd ?s @ map fst (lk_out ?s)))"
      using d(5) unfolding w by simp
    show "waits_ok (rb_router (lk_cloud ?s)) (lk_chan ?s) (lk_got ?s) (RequestSeq p)" if "p \<in> set (waiting nd ?s)" for p
    proof -
      have p: "waits_ok (rb_router (lk_cloud s)) (lk_chan s) (lk_got s) (RequestSeq p)"
        using d(6) that unfolding w by blast
      then have "RequestSeq p \<noteq> i"
        using i r'(2) by (auto simp: waits_ok_def)
      then show ?thesis
        using waits_ok_other [OF p] inj r'(3,4) by simp
    qed
    show "served_ok (rb_router (lk_cloud ?s)) (lk_chan ?s) (lk_got ?s) (lk_up ?s) (RequestSeq p) g"
      if "(p, g, rest) \<in> set (lk_out ?s)" for p g rest
    proof -
      have p: "served_ok (rb_router (lk_cloud s)) (lk_chan s) (lk_got s) (lk_up s) (RequestSeq p) g"
        using d(8) that by simp
      show ?thesis
      proof (cases "RequestSeq p = i")
        case True
        then show ?thesis
          using p i r'(2,4) by (auto simp: served_ok_def)
      next
        case False
        then show ?thesis
          using served_ok_other [OF p] inj r'(3,4) by simp
      qed
    qed
  qed (use d r'(1) in simp_all)
qed

text \<open>A response on its way belongs to a request that is being served and still registered.\<close>

lemma arriving:
  assumes inv: "link_inv nd s" and up: "lk_up s = Content_Response x # cs"
  obtains q gone rest where "(q, gone, rest) \<in> set (lk_out s)" "RequestSeq q = ResponseTo x" "registered (ResponseTo x) (rb_router (lk_cloud s))"
proof -
  obtain q gone rest where q: "(q, gone, rest) \<in> set (lk_out s)" "RequestSeq q = ResponseTo x"
    using link_invD(9) [OF inv, of x] up by auto
  obtain a where a: "lk_got s (ResponseTo x) @ buffer a (rb_router (lk_cloud s)) @ x # transit (ResponseTo x) cs = gone"
      "(\<forall>y \<in> set (lk_got s (ResponseTo x) @ buffer a (rb_router (lk_cloud s))). \<not> IsLast y) \<longrightarrow> registered (ResponseTo x) (rb_router (lk_cloud s))"
    using link_invD(8) [OF inv q(1)] q(2) up by (auto simp: served_ok_def)
  obtain env e where "do_request env q e = Ret (gone @ rest)"
    using link_invD(7) [OF inv q(1)] by blast
  then have "answer_ok (RequestSeq q) ((lk_got s (ResponseTo x) @ buffer a (rb_router (lk_cloud s))) @ x # (transit (ResponseTo x) cs @ rest))"
    using do_request_ok a(1) by fastforce
  then have "registered (ResponseTo x) (rb_router (lk_cloud s))"
    using a(2) answer_front by blast
  then show ?thesis
    using that q by blast
qed

lemma cloud_response_step:
  assumes inv: "link_inv nd s" and c: "lk_up s = Content_Response x # cs" "rb_event (Content_Response x) (lk_cloud s) = Ret (rb, xs)"
  shows "link_inv nd (s\<lparr>lk_up := cs, lk_cloud := set_stream nd (on_stream nd rb @ map Content_Response xs) rb\<rparr>)"
    (is "link_inv nd ?s")
proof -
  let ?i = "ResponseTo x"
  note d = link_invD [OF inv]
  obtain q gone rest where q: "(q, gone, rest) \<in> set (lk_out s)" "RequestSeq q = ?i" "registered ?i (rb_router (lk_cloud s))"
    using arriving [OF inv c(1)] by blast
  obtain r' where r': "deliver x (rb_router (lk_cloud s)) = Ret r'" "rb = (lk_cloud s)\<lparr>rb_router := r'\<rparr>" "xs = []"
    using c(2) by (auto simp: rb_event_def)
  obtain a where a: "lk_chan s ?i = Some a" "buffer a (rb_router (lk_cloud s)) = []" "chans_ok (lk_chan s) (rb_requestSeq (lk_cloud s)) r'"
      "buffer a r' = [x]" "\<forall>b. b \<noteq> a \<longrightarrow> buffer b r' = buffer b (rb_router (lk_cloud s))"
      "\<forall>j. registered j r' \<longleftrightarrow> registered j (rb_router (lk_cloud s)) \<and> (IsLast x \<longrightarrow> j \<noteq> ?i)"
    using r'(1) by (rule_tac deliver_ok [OF d(3) q(3)]) auto
  have inj: "lk_chan s j = Some b \<Longrightarrow> j \<noteq> ?i \<Longrightarrow> b \<noteq> a" for j b
    using chans_okD(3) [OF d(3)] a(1) unfolding inj_on_def by (metis domI)
  have w: "waiting nd ?s = waiting nd s" and rb: "rb_router (lk_cloud ?s) = r'"
    using r'(2,3) by (simp_all add: waiting_def on_stream_def)
  show ?thesis
  proof (rule link_invI)
    show "sm_ok (rb_streams (lk_cloud ?s))" "sm_load (rb_streams (lk_cloud ?s)) nd \<noteq> None"
      "chans_ok (lk_chan ?s) (rb_requestSeq (lk_cloud ?s)) (rb_router (lk_cloud ?s))"
      using d(1) a(3) r'(2) by simp_all
    show "distinct (map RequestSeq (waiting nd ?s @ map fst (lk_out ?s)))"
      using d(5) unfolding w by simp
    show "waits_ok (rb_router (lk_cloud ?s)) (lk_chan ?s) (lk_got ?s) (RequestSeq p)" if "p \<in> set (waiting nd ?s)" for p
    proof -
      have p: "p \<in> set (waiting nd s)" "RequestSeq p \<noteq> ?i"
        using that served_not_waiting [OF inv q(1), of p] q(2) unfolding w by simp_all
      show ?thesis
        using waits_ok_other [OF d(6) [OF p(1)]] p(2) inj a(5,6) unfolding rb by simp
    qed
    show "served_ok (rb_router (lk_cloud ?s)) (lk_chan ?s) (lk_got ?s) (lk_up ?s) (RequestSeq p) g"
      if "(p, g, t) \<in> set (lk_out ?s)" for p g t
    proof (cases "RequestSeq p = ?i")
      case True
      then have p: "(p, g, t) = (q, gone, rest)"
        using served_unique [OF inv _ q(1)] that q(2) by simp
      have g: "lk_got s ?i @ x # transit ?i cs = gone"
        using d(8) [OF q(1)] q(2) a(1,2) c(1) by (simp add: served_ok_def)
      show ?thesis
        using p q(2,3) a(1,4,6) g unfolding rb by (auto simp: served_ok_def)
    next
      case False
      have "(p, g, t) \<in> set (lk_out s)"
        using that by simp
      then show ?thesis
        using served_ok_other [OF d(8)] False inj a(5,6) c(1) unfolding rb by simp
    qed
    show "\<exists>p g t. (p, g, t) \<in> set (lk_out ?s) \<and> RequestSeq p = ResponseTo y" if "Content_Response y \<in> set (lk_up ?s)" for y
      using that d(9) [of y] c(1) by simp
  qed (use d in simp_all)
qed

lemma link_step_inv: "link_step nd s s' \<Longrightarrow> link_inv nd s \<Longrightarrow> link_inv nd s'"
proof (induction rule: link_step.induct)
  case (cloud_recv s c cs rb xs)
  then show ?case
    using cloud_request_step cloud_response_step by (cases c) blast+
qed (auto intro: send_step edge_recv_step serve_step hand_step take_step report_step link_inv_change)

lemma link_reach_inv:
  assumes "link_reach nd s"
  shows "link_inv nd s"
proof -
  obtain s0 where "link_init nd s0" "(link_step nd)\<^sup>*\<^sup>* s0 s"
    using assms by (auto simp: link_reach_def)
  from this(2) show ?thesis
    using link_inv_init [OF \<open>link_init nd s0\<close>] by (induction rule: rtranclp_induct) (auto intro: link_step_inv)
qed

section \<open>Asking the edge\<close>

text \<open>What a node knows of an information: what a request for it should give.\<close>

definition edge_info :: "Watcher \<Rightarrow> InfoType \<Rightarrow> string \<Rightarrow> Information result" where
  "edge_info w t k =
     (if t = CLUSTER_INFO \<and> k = ''0'' then Inr (ICluster (GetCurrentClusterInfo w)) else GetInfoDirect (wmoon w) t k)"

text \<open>What of it comes back: the text of an error and the information as a message.\<close>

definition as_message :: "Information result \<Rightarrow> Information result" where
  "as_message res = (case res of Inl err \<Rightarrow> Inl (ErrText (Error err))
                     | Inr info \<Rightarrow> Inr (case BaseInfo_of info of None \<Rightarrow> info | Some b \<Rightarrow> IBase b))"

lemma doInfoRequest_answer:
  assumes "Method q = Request_GET" "doInfoRequest q ou = x # xs"
  shows "xs = [] \<and> \<not> IsLast x
    \<and> info_received (Some x) = Ret (as_message (edge_info (op_watcher ou) (InfoType_rq q) (RequestId q)))"
  using assms
  by (auto simp: doInfoRequest_def edge_info_def as_message_def info_received_def result_message_def returnFail_def
      response_ok_def response_to_def split: sum.splits option.splits if_splits)

lemma delivered:
  assumes "link_inv nd s" "(q, gone, rest) \<in> set (lk_out s)"
  obtains a where "lk_chan s (RequestSeq q) = Some a"
    "lk_got s (RequestSeq q) @ buffer a (rb_router (lk_cloud s)) @ transit (RequestSeq q) (lk_up s) = gone"
    "(\<forall>x \<in> set (lk_got s (RequestSeq q) @ buffer a (rb_router (lk_cloud s))). \<not> IsLast x)
       \<Longrightarrow> registered (RequestSeq q) (rb_router (lk_cloud s))"
  using link_invD(8) [OF assms] by (auto simp: served_ok_def)

text \<open>The answer to a request, once it is served, is only handed over, never changed or served again.\<close>

lemma link_step_out:
  assumes "link_step nd s s'" "(q, gone, rest) \<in> set (lk_out s)"
  shows "\<exists>gone' rest'. (q, gone', rest') \<in> set (lk_out s') \<and> gone' @ rest' = gone @ rest"
  using assms
proof (cases rule: link_step.cases)
  case (hand os1 p g x r os2)
  then show ?thesis
    using assms(2) by (cases "(q, gone, rest) = (p, g, x # r)") force+
qed (use assms(2) in auto)

lemma link_steps_out:
  assumes "(link_step nd)\<^sup>*\<^sup>* s s'" "(q, gone, rest) \<in> set (lk_out s)"
  shows "\<exists>gone' rest'. (q, gone', rest') \<in> set (lk_out s') \<and> gone' @ rest' = gone @ rest"
  using assms
proof (induction rule: rtranclp_induct)
  case (step s1 s2)
  then show ?case
    using link_step_out [OF step.hyps(2)] by metis
qed blast

lemma link_reach_steps: "link_reach nd s \<Longrightarrow> (link_step nd)\<^sup>*\<^sup>* s s' \<Longrightarrow> link_reach nd s'"
  unfolding link_reach_def by (meson rtranclp_trans)

text \<open>A run in which the cloud asks node 1 for the current cluster information.\<close>

definition example_question :: Request where
  "example_question = (info_request CLUSTER_INFO ''0'')\<lparr>RequestSeq := 10000\<rparr>"

definition example_answer :: "Watcher \<Rightarrow> Response" where
  "example_answer w = (response_ok example_question)\<lparr>Infos_rs := [BaseInfo_ClusterInfo (GetCurrentClusterInfo w)]\<rparr>"

definition example_router :: "Response list \<Rightarrow> Router" where
  "example_router xs = \<lparr>rt_m = [(10000, 0)], rt_chans = [\<lparr>ch_buf = xs, ch_closed = False\<rparr>]\<rparr>"

definition example_link :: "Watcher \<Rightarrow> nat \<Rightarrow> Link" where
  "example_link w n =
     (let q = example_question; x = example_answer w
      in \<lparr>lk_cloud = NewRainbow\<lparr>rb_streams := [(1, if n = 1 then [Content_Request q] else [])],
             rb_requestSeq := (if n = 0 then 10000 else 10001),
             rb_router := (if n = 0 then NewRouter else example_router (if n = 5 then [x] else []))\<rparr>,
          lk_edge = NewOutpost w, lk_up = (if n = 4 then [Content_Response x] else []),
          lk_jobs = (if n = 2 then [q] else []),
          lk_out = (if n < 3 then [] else if n = 3 then [(q, [], [x])] else [(q, [x], [])]),
          lk_chan = (if n = 0 then Map.empty else [10000 \<mapsto> 0]),
          lk_got = (\<lambda>i. if n = 6 \<and> i = 10000 then [x] else [])\<rparr>)"

lemmas example_link_defs = example_link_def example_question_def info_request_def new_request_def NewRainbow_def
  NewRouter_def example_router_def Let_def

lemma example_serves: "do_request env example_question (NewOutpost w) = Ret [example_answer w]"
  by (simp add: do_request_def doInfoRequest_def example_answer_def NewOutpost_def example_question_def info_request_def
      new_request_def BaseInfo_of_def)

lemma example_steps:
  "link_step 1 (example_link w 0) (example_link w 1)" "link_step 1 (example_link w 1) (example_link w 2)"
  "link_step 1 (example_link w 2) (example_link w 3)" "link_step 1 (example_link w 3) (example_link w 4)"
  "link_step 1 (example_link w 4) (example_link w 5)" "link_step 1 (example_link w 5) (example_link w 6)"
proof -
  show "link_step 1 (example_link w 0) (example_link w 1)"
    using link_step.send [of None 1 "info_request CLUSTER_INFO ''0''" "example_link w 0" "lk_cloud (example_link w 1)" 0]
    by (simp add: example_link_defs SendRequestToNode_def Register_def sm_load_def sm_store_def)
  show "link_step 1 (example_link w 1) (example_link w 2)"
    using link_step.edge_recv [of 1 "example_link w 1" "Content_Request example_question" "[]" "NewOutpost w" "[example_question]"]
    by (simp add: example_link_defs op_event_def on_stream_def set_stream_def sm_load_def sm_store_def)
  show "link_step 1 (example_link w 2) (example_link w 3)"
    using link_step.serve [of "example_link w 2" "[]" example_question "[]" _ "[example_answer w]" 1] example_serves
    by (simp add: example_link_def Let_def)
  show "link_step 1 (example_link w 3) (example_link w 4)"
    using link_step.hand [of "example_link w 3" "[]" example_question "[]" "example_answer w" "[]" "[]" 1]
    by (simp add: example_link_def Let_def)
  show "link_step 1 (example_link w 4) (example_link w 5)"
    using link_step.cloud_recv [of "example_link w 4" "Content_Response (example_answer w)" "[]" "lk_cloud (example_link w 5)" "[]" 1]
    by (simp add: example_link_defs rb_event_def deliver_def router_Send_def on_stream_def set_stream_def sm_load_def sm_store_def
        example_answer_def)
  show "link_step 1 (example_link w 5) (example_link w 6)"
    using link_step.take [of "example_link w 5" 10000 0 "example_router []" "example_answer w" 1]
    by (simp add: example_link_defs recv_chan_def fun_upd_def)
qed

lemma example_run:
  "(link_step 1)\<^sup>*\<^sup>* (example_link w 0) (example_link w 2)" "(link_step 1)\<^sup>*\<^sup>* (example_link w 3) (example_link w 6)"
  using example_steps by (meson converse_rtranclp_into_rtranclp rtranclp.rtrancl_refl)+

lemma example_link_reach: "link_reach 1 (example_link w 2)" "link_reach 1 (example_link w 6)"
proof -
  have "link_init 1 (example_link w 0)"
    by (simp add: link_init_def example_link_defs sm_ok_def sm_load_def)
  then show r: "link_reach 1 (example_link w 2)"
    using example_run(1) unfolding link_reach_def by blast
  show "link_reach 1 (example_link w 6)"
    by (rule link_reach_steps [OF r]) (meson example_steps(3) example_run(2) converse_rtranclp_into_rtranclp)
qed

text \<open>
  C8: In every interleaving of the loops of both ends, the responses a node made for a request reach
  the channel of that request in order and exactly once: what the requester has received, what lies
  in its channel and what is on the stream is together what the node has handed over of its answer.
  A response that arrives never makes the cloud panic (it finds its channel open), and sending a
  further request never meets a sequence number in use, as long as the numbers do not run out.
\<close>

theorem link_delivers:
  assumes "link_reach nd s"
  shows "(\<forall>(q, gone, rest) \<in> set (lk_out s). \<exists>a env e. do_request env q e = Ret (gone @ rest) \<and> lk_chan s (RequestSeq q) = Some a
      \<and> lk_got s (RequestSeq q) @ buffer a (rb_router (lk_cloud s)) @ transit (RequestSeq q) (lk_up s) = gone)
    \<and> (\<forall>x cs m. lk_up s = Content_Response x # cs \<longrightarrow> rb_event (Content_Response x) (lk_cloud s) \<noteq> Panic m)
    \<and> (\<forall>err q m. rb_requestSeq (lk_cloud s) + 1 \<noteq> 10000 \<longrightarrow> SendRequestToNode err nd q (lk_cloud s) \<noteq> Panic m)"
proof -
  have inv: "link_inv nd s"
    using assms by (rule link_reach_inv)
  note c = link_invD(3) [OF inv]
  have "rb_event (Content_Response x) (lk_cloud s) \<noteq> Panic m" if up: "lk_up s = Content_Response x # cs" for x cs m
  proof -
    have "registered (ResponseTo x) (rb_router (lk_cloud s))"
      using arriving [OF inv up] by blast
    then show ?thesis
      by (rule deliver_ok [OF c]) (simp_all add: rb_event_def)
  qed
  moreover have "SendRequestToNode err nd q (lk_cloud s) \<noteq> Panic m" if "rb_requestSeq (lk_cloud s) + 1 \<noteq> 10000" for err q m
    using Register_ok [OF c that] by (auto simp: SendRequestToNode_def Let_def split: option.splits)
  moreover have "\<exists>a env e. do_request env q e = Ret (gone @ rest) \<and> lk_chan s (RequestSeq q) = Some a
      \<and> lk_got s (RequestSeq q) @ buffer a (rb_router (lk_cloud s)) @ transit (RequestSeq q) (lk_up s) = gone"
    if "(q, gone, rest) \<in> set (lk_out s)" for q gone rest
    using delivered [OF inv that] link_invD(7) [OF inv that] by metis
  ultimately show ?thesis
    by blast
qed

theorem link_delivers_witness:
  "\<forall>w. \<exists>a env e. do_request env example_question e = Ret [example_answer w] \<and> lk_chan (example_link w 6) 10000 = Some a
     \<and> lk_got (example_link w 6) 10000 = [example_answer w] \<and> buffer a (rb_router (lk_cloud (example_link w 6))) = []
     \<and> (\<forall>err q m. SendRequestToNode err 1 q (lk_cloud (example_link w 6)) \<noteq> Panic m)"
proof
  fix w
  have "(example_question, [example_answer w], []) \<in> set (lk_out (example_link w 6))"
    "RequestSeq example_question = 10000" "lk_got (example_link w 6) 10000 = [example_answer w]"
    "rb_requestSeq (lk_cloud (example_link w 6)) + 1 \<noteq> 10000"
    by (simp_all add: example_link_defs)
  then show "\<exists>a env e. do_request env example_question e = Ret [example_answer w] \<and> lk_chan (example_link w 6) 10000 = Some a
     \<and> lk_got (example_link w 6) 10000 = [example_answer w] \<and> buffer a (rb_router (lk_cloud (example_link w 6))) = []
     \<and> (\<forall>err q m. SendRequestToNode err 1 q (lk_cloud (example_link w 6)) \<noteq> Panic m)"
    using link_delivers [OF example_link_reach(2) [of w]] by fastforce
qed

text \<open>
  C10: Asking for an information through the cloud gives what the node of the edge knows of it.  Take any
  state in which the node serves such a request, and any state the link reaches from there: once
  the requester has received a response, it is the only one, and it is what the serving node's own
  lookup of that type and identifier gives in the state in which it served the request, with an error
  reduced to its text and an information to its message.  The entry of the request in the router
  of the cloud is never removed.
\<close>

theorem cloud_info_correct:
  assumes serve: "link_reach nd s0" "lk_jobs s0 = js1 @ q # js2" "do_request env q (lk_edge s0) = Ret ys"
    and run: "(link_step nd)\<^sup>*\<^sup>* (s0\<lparr>lk_jobs := js1 @ js2, lk_out := lk_out s0 @ [(q, [], ys)]\<rparr>) s"
    and q: "Resource q = Request_INFO" "Method q = Request_GET" and got: "lk_got s (RequestSeq q) = x # xs"
  shows "xs = [] \<and> registered (RequestSeq q) (rb_router (lk_cloud s))
    \<and> info_received (Some x) = Ret (as_message (edge_info (op_watcher (lk_edge s0)) (InfoType_rq q) (RequestId q)))"
proof -
  let ?s1 = "s0\<lparr>lk_jobs := js1 @ js2, lk_out := lk_out s0 @ [(q, [], ys)]\<rparr>"
  have "link_step nd s0 ?s1"
    by (rule link_step.serve [OF serve(2,3)])
  then have inv: "link_inv nd s"
    using serve(1) run by (meson link_reach_inv link_reach_steps converse_rtranclp_into_rtranclp)
  obtain gone rest where o: "(q, gone, rest) \<in> set (lk_out s)" "gone @ rest = ys"
    using link_steps_out [OF run, of q "[]" ys] by auto
  obtain a where a: "lk_got s (RequestSeq q) @ buffer a (rb_router (lk_cloud s)) @ transit (RequestSeq q) (lk_up s) = gone"
    "(\<forall>x \<in> set (lk_got s (RequestSeq q) @ buffer a (rb_router (lk_cloud s))). \<not> IsLast x)
       \<Longrightarrow> registered (RequestSeq q) (rb_router (lk_cloud s))"
    using delivered [OF inv o(1)] by blast
  have "doInfoRequest q (lk_edge s0) = gone @ rest"
    using serve(3) q(1) o(2) by (simp add: do_request_def)
  then have "doInfoRequest q (lk_edge s0) = x # (xs @ buffer a (rb_router (lk_cloud s)) @ transit (RequestSeq q) (lk_up s) @ rest)"
    using a(1) got by auto
  then show ?thesis
    using doInfoRequest_answer [OF q(2)] a(2) got by force
qed

theorem cloud_info_correct_witness:
  "\<forall>w. registered 10000 (rb_router (lk_cloud (example_link w 6)))
     \<and> info_received (Some (example_answer w)) = Ret (as_message (edge_info w CLUSTER_INFO ''0''))"
proof
  fix w
  have j: "lk_jobs (example_link w 2) = [] @ example_question # []" "lk_edge (example_link w 2) = NewOutpost w"
    "(example_link w 2)\<lparr>lk_jobs := [] @ [], lk_out := lk_out (example_link w 2) @ [(example_question, [], [example_answer w])]\<rparr> = example_link w 3"
    by (simp_all add: example_link_def Let_def)
  have q: "RequestSeq example_question = 10000" "lk_got (example_link w 6) (RequestSeq example_question) = example_answer w # []"
    "Resource example_question = Request_INFO" "Method example_question = Request_GET"
    "InfoType_rq example_question = CLUSTER_INFO" "RequestId example_question = ''0''" "op_watcher (NewOutpost w) = w"
    by (simp_all add: example_link_defs NewOutpost_def)
  have d: "do_request env example_question (lk_edge (example_link w 2)) = Ret [example_answer w]" for env
    unfolding j(2) by (rule example_serves)
  show "registered 10000 (rb_router (lk_cloud (example_link w 6)))
     \<and> info_received (Some (example_answer w)) = Ret (as_message (edge_info w CLUSTER_INFO ''0''))"
    using cloud_info_correct [OF example_link_reach(1) j(1) d, unfolded j(3), OF example_run(2) q(3,4,2)]
    unfolding q(1,5-7) j(2) by simp
qed

text \<open>
  C39: A node of the edge that asks the cloud to delete an object's metadata is brought down by the
  answer.  The cloud deletes the metadata, but sends two responses that both say they are the last;
  the first one closes and forgets the channel, and the second one makes the node close a nil channel.
\<close>

theorem cloud_delete_crashes_edge:
  assumes "sm_load (rt_m (op_r ou)) (op_requestSeq ou) = None"
  shows "\<exists>ou1 c a rb' x1 x2 ou2 r. op_Send (meta_request Request_DELETE k) ou = Ret (ou1, c, a)
    \<and> rb_event c rb = Ret (rb', [x1, x2]) \<and> rb_storage rb' = DeleteMetaEntry k (rb_storage rb)
    \<and> op_event (Content_Response x1) ou1 = Ret (ou2, [])
    \<and> recv_chan a (op_r ou2) = Ret (r, Some x1)
    \<and> op_event (Content_Response x2) ou2 = Panic ''close of nil channel''"
  using assms
  by (simp add: op_Send_def Register_def meta_request_def new_request_def rb_event_def processMetaRequest_def doDelete_def
      sendError_def response_to_def op_event_def deliver_def router_Send_def Unregister_def close_chan_def recv_chan_def
      sm_load_store sm_load_delete Let_def)

theorem cloud_delete_crashes_edge_witness:
  "\<forall>w. \<exists>ou1 c a rb' x1 x2 ou2. op_Send (meta_request Request_DELETE ''/root/b/1/k'') (NewOutpost w) = Ret (ou1, c, a)
    \<and> rb_event c NewRainbow = Ret (rb', [x1, x2]) \<and> op_event (Content_Response x1) ou1 = Ret (ou2, [])
    \<and> op_event (Content_Response x2) ou2 = Panic ''close of nil channel''"
proof
  fix w
  have "sm_load (rt_m (op_r (NewOutpost w))) (op_requestSeq (NewOutpost w)) = None"
    by (simp add: NewOutpost_def NewRouter_def sm_load_def)
  then show "\<exists>ou1 c a rb' x1 x2 ou2. op_Send (meta_request Request_DELETE ''/root/b/1/k'') (NewOutpost w) = Ret (ou1, c, a)
    \<and> rb_event c NewRainbow = Ret (rb', [x1, x2]) \<and> op_event (Content_Response x1) ou1 = Ret (ou2, [])
    \<and> op_event (Content_Response x2) ou2 = Panic ''close of nil channel''"
    using cloud_delete_crashes_edge [of "NewOutpost w" "''/root/b/1/k''" NewRainbow] by blast
qed

end
