(* ===== verification/Gateway_Http.thy ===== *)
theory Gateway_Http
  imports Client_Operator
begin

text \<open>
  What the handlers of the gateway share: the error documents of \<^verbatim>\<open>gateway/router/errors.go\<close>, the
  parsing of ranges, signatures, part numbers and copy sources, requests and replies, and the lookups
  of \<^verbatim>\<open>gateway/router/utils.go\<close>, \<^verbatim>\<open>utils_object.go\<close> and \<^verbatim>\<open>utils_bucket.go\<close>.  A handler is a
  function on the state of the gateway: its client, the calls made on the response in order, what was
  sent to be changed and the metadata recorded.  The HTTP server, the gin framework and the encodings
  of documents are left out: a request comes parsed, with what decoding its body gives, and a reply is
  the sequence of calls on the response.  Writing to the response does not fail.
\<close>

section \<open>Error documents\<close>

record S3Error =
  Code :: string
  Message_e :: string
  BucketName_e :: "string option"
  Resource_e :: "string option"
  Key_e :: "string option"

definition BucketAlreadyExists_s3 :: "string \<Rightarrow> S3Error" where
  "BucketAlreadyExists_s3 b =
     \<lparr>Code = ''BucketAlreadyExists'',
      Message_e = ''The requested bucket name is not available. The bucket namespace is shared by all users of the system. Please select a different name and try again.'',
      BucketName_e = Some b, Resource_e = None, Key_e = None\<rparr>"

definition BucketNotEmpty_s3 :: "string \<Rightarrow> S3Error" where
  "BucketNotEmpty_s3 b =
     \<lparr>Code = ''BucketNotEmpty'', Message_e = ''The bucket you tried to delete is not empty.'',
      BucketName_e = Some b, Resource_e = None, Key_e = None\<rparr>"

definition EntityTooSmall_s3 :: "string \<Rightarrow> string \<Rightarrow> string \<Rightarrow> S3Error" where
  "EntityTooSmall_s3 b res key =
     \<lparr>Code = ''EntityTooSmall'', Message_e = ''Your proposed upload is smaller than the minimum allowed object size.'',
      BucketName_e = Some b, Resource_e = Some res, Key_e = Some key\<rparr>"

definition EntityTooLarge_s3 :: "string \<Rightarrow> string \<Rightarrow> string \<Rightarrow> S3Error" where
  "EntityTooLarge_s3 b res key =
     \<lparr>Code = ''EntityTooLarge'', Message_e = ''Your proposed upload exceeds the maximum allowed object size.'',
      BucketName_e = Some b, Resource_e = Some res, Key_e = Some key\<rparr>"

definition IncompleteBody_s3 :: "string \<Rightarrow> string \<Rightarrow> string \<Rightarrow> S3Error" where
  "IncompleteBody_s3 b res key =
     \<lparr>Code = ''IncompleteBody'', Message_e = ''Your proposed upload is too small.'',
      BucketName_e = Some b, Resource_e = Some res, Key_e = Some key\<rparr>"

definition IncorrectNumberOfFilesInPostRequest_s3 :: "string \<Rightarrow> string \<Rightarrow> string option \<Rightarrow> S3Error" where
  "IncorrectNumberOfFilesInPostRequest_s3 b res key =
     \<lparr>Code = ''IncorrectNumberOfFilesInPostRequest'', Message_e = ''Too many files in the request.'',
      BucketName_e = Some b, Resource_e = Some res, Key_e = key\<rparr>"

definition InternalError_s3 :: "string \<Rightarrow> string \<Rightarrow> string \<Rightarrow> string option \<Rightarrow> S3Error" where
  "InternalError_s3 message b res key =
     \<lparr>Code = ''InternalError'', Message_e = message, BucketName_e = Some b, Resource_e = Some res, Key_e = key\<rparr>"

definition InvalidArgument_s3 :: "string \<Rightarrow> string \<Rightarrow> string \<Rightarrow> string option \<Rightarrow> S3Error" where
  "InvalidArgument_s3 keyName b res key =
     \<lparr>Code = ''InvalidArgument'', Message_e = ''The argument you provided is invalid: '' @ keyName,
      BucketName_e = Some b, Resource_e = Some res, Key_e = key\<rparr>"

definition InvalidBucketName_s3 :: "string option \<Rightarrow> S3Error" where
  "InvalidBucketName_s3 b =
     \<lparr>Code = ''InvalidBucketName'', Message_e = ''The specified bucket is not valid.'', BucketName_e = b,
      Resource_e = None, Key_e = None\<rparr>"

definition InvalidObjectState_s3 :: "string \<Rightarrow> string \<Rightarrow> string \<Rightarrow> S3Error" where
  "InvalidObjectState_s3 b res key =
     \<lparr>Code = ''InvalidObjectState'', Message_e = ''The specified object is in a state that can''@[CHR 0x27]@''t be transitioned to.'',
      BucketName_e = Some b, Resource_e = Some res, Key_e = Some key\<rparr>"

definition InvalidPart_s3 :: "string \<Rightarrow> string \<Rightarrow> string \<Rightarrow> S3Error" where
  "InvalidPart_s3 b res key =
     \<lparr>Code = ''InvalidPart'',
      Message_e = ''One or more of the specified parts could not be found. The part might not have been uploaded, or the specified entity tag might not have matched the part''@[CHR 0x27]@''s entity tag.'',
      BucketName_e = Some b, Resource_e = Some res, Key_e = Some key\<rparr>"

definition InvalidPartOrder_s3 :: "string \<Rightarrow> string \<Rightarrow> string \<Rightarrow> S3Error" where
  "InvalidPartOrder_s3 b res key =
     \<lparr>Code = ''InvalidPartOrder'',
      Message_e = ''The list of parts was not in ascending order. The parts list must be specified in order by part number.'',
      BucketName_e = Some b, Resource_e = Some res, Key_e = Some key\<rparr>"

definition InvalidRange_s3 :: "string \<Rightarrow> string \<Rightarrow> string \<Rightarrow> S3Error" where
  "InvalidRange_s3 b res key =
     \<lparr>Code = ''InvalidRange'', Message_e = ''The requested range cannot be satisfied.'',
      BucketName_e = Some b, Resource_e = Some res, Key_e = Some key\<rparr>"

definition MalformedPOSTRequest_s3 :: "string \<Rightarrow> string \<Rightarrow> string option \<Rightarrow> S3Error" where
  "MalformedPOSTRequest_s3 b res key =
     \<lparr>Code = ''MalformedPOSTRequest'', Message_e = ''The body of your POST request is not well-formed multipart/form-data.'',
      BucketName_e = Some b, Resource_e = Some res, Key_e = key\<rparr>"

definition MalformedXML_s3 :: "string \<Rightarrow> string \<Rightarrow> string option \<Rightarrow> S3Error" where
  "MalformedXML_s3 b res key =
     \<lparr>Code = ''MalformedXML'',
      Message_e = ''The XML you provided was not well-formed or did not validate against our published schema.'',
      BucketName_e = Some b, Resource_e = Some res, Key_e = key\<rparr>"

definition MethodNotAllowed_s3 :: "string \<Rightarrow> string \<Rightarrow> string option \<Rightarrow> S3Error" where
  "MethodNotAllowed_s3 b res key =
     \<lparr>Code = ''MethodNotAllowed'', Message_e = ''The specified method is not allowed against this resource.'',
      BucketName_e = Some b, Resource_e = Some res, Key_e = key\<rparr>"

definition NoSuchBucket_s3 :: "string \<Rightarrow> S3Error" where
  "NoSuchBucket_s3 b =
     \<lparr>Code = ''NoSuchBucket'', Message_e = ''The specified bucket does not exist'', BucketName_e = Some b,
      Resource_e = Some (CHR ''/'' # b), Key_e = None\<rparr>"

definition NoSuchKey_s3 :: "string \<Rightarrow> string \<Rightarrow> string \<Rightarrow> S3Error" where
  "NoSuchKey_s3 b res key =
     \<lparr>Code = ''NoSuchKey'', Message_e = ''The specified key does not exist.'', BucketName_e = Some b,
      Resource_e = Some res, Key_e = Some key\<rparr>"

definition NoSuchUpload_s3 :: "string \<Rightarrow> string \<Rightarrow> string \<Rightarrow> S3Error" where
  "NoSuchUpload_s3 b res key =
     \<lparr>Code = ''NoSuchUpload'',
      Message_e = ''The specified multipart upload does not exist. The upload ID might be invalid, or the multipart upload might have been aborted or completed.'',
      BucketName_e = Some b, Resource_e = Some res, Key_e = Some key\<rparr>"

definition PreconditionFailed_s3 :: "string \<Rightarrow> string \<Rightarrow> string \<Rightarrow> string option \<Rightarrow> S3Error" where
  "PreconditionFailed_s3 b res message key =
     \<lparr>Code = ''PreconditionFailed'', Message_e = message, BucketName_e = Some b, Resource_e = Some res, Key_e = key\<rparr>"

definition RequestIsNotMultiPartContent_s3 :: "string \<Rightarrow> string \<Rightarrow> S3Error" where
  "RequestIsNotMultiPartContent_s3 b res =
     \<lparr>Code = ''RequestIsNotMultiPartContent'', Message_e = ''The Bucket POST request is not multi-part content.'',
      BucketName_e = Some b, Resource_e = Some res, Key_e = None\<rparr>"

definition SignatureDoesNotMatch_s3 :: "string \<Rightarrow> string \<Rightarrow> string option \<Rightarrow> S3Error" where
  "SignatureDoesNotMatch_s3 b res key =
     \<lparr>Code = ''SignatureDoesNotMatch'',
      Message_e = ''The request signature we calculated does not match the signature you provided. Check your AWS Secret Access Key and signing method.'',
      BucketName_e = Some b, Resource_e = Some res, Key_e = key\<rparr>"

section \<open>Parsing\<close>

text \<open>Wrap-around of a 64-bit signed integer, and \<^verbatim>\<open>textproto.TrimString\<close>.\<close>

definition int64 :: "int \<Rightarrow> int" where
  "int64 i = sint (word_of_int i :: u64)"

definition is_space :: "char \<Rightarrow> bool" where
  "is_space c \<longleftrightarrow> of_char c \<in> {32, 9, 10, 13 :: nat}"

definition TrimString :: "string \<Rightarrow> string" where
  "TrimString s = rev (dropWhile is_space (rev (dropWhile is_space s)))"

record httpRange =
  hr_start :: int
  hr_length :: int

definition contentRange :: "int \<Rightarrow> httpRange \<Rightarrow> string" where
  "contentRange n r = ''bytes '' @ Itoa (hr_start r) @ ''-'' @ Itoa (int64 (hr_start r + hr_length r - 1)) @ ''/'' @ Itoa n"

definition invalid_range :: go_error where
  "invalid_range = ErrText ''invalid range''"

text \<open>One range of the header: an error, a range outside of the content, or a range.\<close>

definition parse_one :: "int \<Rightarrow> string \<Rightarrow> httpRange option result" where
  "parse_one n ra =
     (if CHR ''-'' \<notin> set ra then Inl invalid_range
      else
        let start = TrimString (takeWhile (\<lambda>c. c \<noteq> CHR ''-'') ra); fin = TrimString (tl (dropWhile (\<lambda>c. c \<noteq> CHR ''-'') ra))
        in if start = []
           then (case ParseInt fin of
                   None \<Rightarrow> Inl invalid_range
                 | Some i \<Rightarrow> let i = min i n; s = int64 (n - i) in Inr (Some \<lparr>hr_start = s, hr_length = int64 (n - s)\<rparr>))
           else (case ParseInt start of
                   None \<Rightarrow> Inl invalid_range
                 | Some i \<Rightarrow>
                     if i < 0 then Inl invalid_range
                     else if n \<le> i then Inr None
                     else if fin = [] then Inr (Some \<lparr>hr_start = i, hr_length = int64 (n - i)\<rparr>)
                     else (case ParseInt fin of
                             None \<Rightarrow> Inl invalid_range
                           | Some j \<Rightarrow>
                               if j < i then Inl invalid_range
                               else Inr (Some \<lparr>hr_start = i, hr_length = int64 (min j (n - 1) - i + 1)\<rparr>))))"

text \<open>The ranges and whether one of them lies outside of the content.\<close>

primrec parse_ranges :: "int \<Rightarrow> string list \<Rightarrow> (httpRange list \<times> bool) result" where
  "parse_ranges n [] = Inr ([], False)"
| "parse_ranges n (ra # ras) =
     (if TrimString ra = [] then parse_ranges n ras
      else case parse_one n (TrimString ra) of
          Inl err \<Rightarrow> Inl err
        | Inr r \<Rightarrow>
            (case parse_ranges n ras of
               Inl err \<Rightarrow> Inl err
             | Inr (rs, noOverlap) \<Rightarrow> Inr (case r of None \<Rightarrow> (rs, True) | Some r \<Rightarrow> (r # rs, noOverlap))))"

definition parseRange :: "string \<Rightarrow> int \<Rightarrow> httpRange list result" where
  "parseRange s n =
     (if s = [] then Inr []
      else if \<not> has_prefix s ''bytes='' then Inl invalid_range
      else case parse_ranges n (split_on (CHR '','') (drop 6 s)) of
          Inl err \<Rightarrow> Inl err
        | Inr (rs, noOverlap) \<Rightarrow> if noOverlap \<and> rs = [] then Inl invalid_range else Inr rs)"

text \<open>
  The header of a chunk in a signed stream.  The regular expression is searched for anywhere in the
  line; its parts end where their character classes do.
\<close>

definition hex_value :: "char \<Rightarrow> nat option" where
  "hex_value c =
     (let n = of_char c :: nat
      in if 48 \<le> n \<and> n \<le> 57 then Some (n - 48)
         else if 65 \<le> n \<and> n \<le> 70 then Some (n - 55)
         else if 97 \<le> n \<and> n \<le> 102 then Some (n - 87)
         else None)"

definition is_word :: "char \<Rightarrow> bool" where
  "is_word c \<longleftrightarrow>
     (let n = of_char c :: nat in 48 \<le> n \<and> n \<le> 57 \<or> 65 \<le> n \<and> n \<le> 90 \<or> 97 \<le> n \<and> n \<le> 122 \<or> n = 95)"

definition crlf :: string where
  "crlf = [char_of (13 :: nat), char_of (10 :: nat)]"

definition match_signature :: "string \<Rightarrow> (string \<times> string) option" where
  "match_signature s =
     (let len = takeWhile (\<lambda>c. hex_value c \<noteq> None) s; rest = dropWhile (\<lambda>c. hex_value c \<noteq> None) s;
          rest' = trim_prefix rest '';chunk-signature=''; sig = takeWhile is_word rest'
      in if len \<noteq> [] \<and> has_prefix rest '';chunk-signature='' \<and> sig \<noteq> [] \<and> has_prefix (dropWhile is_word rest') crlf
         then Some (len, sig) else None)"

primrec find_signature :: "string \<Rightarrow> (string \<times> string) option" where
  "find_signature [] = None"
| "find_signature (c # cs) = (case match_signature (c # cs) of Some m \<Rightarrow> Some m | None \<Rightarrow> find_signature cs)"

primrec read_hex :: "nat \<Rightarrow> string \<Rightarrow> nat option" where
  "read_hex acc [] = Some acc"
| "read_hex acc (c # cs) = (case hex_value c of None \<Rightarrow> None | Some d \<Rightarrow> read_hex (acc * 16 + d) cs)"

definition parseSignature :: "string \<Rightarrow> (nat \<times> string) result" where
  "parseSignature line =
     (case find_signature line of
        None \<Rightarrow> Inl (Err SignatureDoesNotMatch)
      | Some (len, sig) \<Rightarrow>
          (case read_hex 0 len of
             Some n \<Rightarrow> if n < 2 ^ 63 then Inr (n, sig) else Inl (ErrText ''value out of range'')
           | None \<Rightarrow> Inl (ErrText ''invalid syntax'')))"

definition parsePartID :: "string \<Rightarrow> i32 result" where
  "parsePartID partID =
     (case ParseInt partID of
        None \<Rightarrow> Inl (ErrText ''invalid syntax'')
      | Some i \<Rightarrow> if i < 1 \<or> 10000 < i then Inl (ErrText ''invalid part id'') else Inr (word_of_int i))"

definition parseSrcKey :: "string \<Rightarrow> string \<times> string" where
  "parseSrcKey src =
     (let src = trim_char (CHR ''/'') src
      in if contains src ''/'' then (case split_n 2 (CHR ''/'') src of b # k # _ \<Rightarrow> (b, k) | _ \<Rightarrow> (src, []))
         else (src, []))"

section \<open>Requests and replies\<close>

type_synonym pieces = "(bytes \<times> go_error option) list"

text \<open>The documents of requests, decoded; a nil key is \<open>None\<close>.\<close>

record Delete =
  Object_d :: "string option list"
  Quiet :: "bool option"

record CompletedPart =
  PartNumber_cp :: i32
  ETag_cp :: "string option"

text \<open>The form of a POST: the values under \<^verbatim>\<open>key\<close> and the files under \<^verbatim>\<open>file\<close>, each as opening it gives.\<close>

record Form =
  Value_f :: "string list option"
  File_f :: "pieces result option list"

record HttpReq =
  bucketName_q :: string
  key_q :: string
  URLPath :: string
  Query_q :: "(string, string) smap"
  Header_q :: "(string, string) smap"
  ContentLength :: int
  Body :: pieces
  DeleteBody :: "Delete result"
  CompleteBody :: "CompletedPart list result"
  CreateBody :: "unit result"
  FormBody :: "Form result"

definition Query :: "HttpReq \<Rightarrow> string \<Rightarrow> string" where
  "Query q k = (case sm_load (Query_q q) k of None \<Rightarrow> [] | Some v \<Rightarrow> v)"

definition GetQuery :: "HttpReq \<Rightarrow> string \<Rightarrow> bool" where
  "GetQuery q k \<longleftrightarrow> sm_load (Query_q q) k \<noteq> None"

definition GetHeader :: "HttpReq \<Rightarrow> string \<Rightarrow> string" where
  "GetHeader q k = (case sm_load (Header_q q) k of None \<Rightarrow> [] | Some v \<Rightarrow> v)"

text \<open>The documents of replies.\<close>

record InitiateMultipartUploadResult =
  Bucket_im :: string
  Key_im :: string
  UploadId_im :: string

record ListPartsResult =
  Bucket_lp :: string
  Key_lp :: string
  UploadId_lp :: string
  Part_lp :: "Part list"

record CompleteMultipartUploadResult =
  Location :: string
  Bucket_cm :: string
  Key_cm :: string
  ETag_cm :: string

record ListMultipartUploadsResult =
  Bucket_lm :: string
  Delimiter :: "string option"
  Prefix_lm :: "string option"
  MaxUploads :: int
  IsTruncated_lm :: bool
  Uploads :: "MultipartUpload list"

record DeleteError =
  Code_de :: string
  Key_de :: string
  Message_de :: string

record DeleteResult =
  Deleted :: "string list"
  Error_dr :: "DeleteError list"

record BucketContent =
  Key_bc :: string
  LastModified :: Timestamp
  ETag_bc :: string
  Size_bc :: u64

record ListBucketResult =
  Name_lb :: string
  Contents :: "BucketContent list"

record ListAllMyBucketsResult =
  Owner :: string
  Buckets :: "string list"

datatype doc =
    ErrorDoc S3Error
  | InitiateDoc InitiateMultipartUploadResult
  | PartsDoc ListPartsResult
  | CompleteDoc CompleteMultipartUploadResult
  | UploadsDoc ListMultipartUploadsResult
  | CopyDoc string
  | DeleteDoc DeleteResult
  | ListDoc ListBucketResult
  | BucketsDoc ListAllMyBucketsResult

text \<open>
  A call on the response: a status, a header, a document with its status, the content of a reader
  with its status, announced length and the error reading ended with, bytes, or a part of a multipart
  body with its range.
\<close>

datatype reply =
    SetStatus nat
  | SetHeader string string
  | SetTime string Timestamp
  | SendXML nat doc
  | SendData nat int bytes "go_error option"
  | SendBytes bytes
  | OpenPart string

text \<open>The text of a time is left out; a nil time is dereferenced.\<close>

definition format_time :: "Timestamp option \<Rightarrow> Timestamp exec" where
  "format_time t = (case t of None \<Rightarrow> Panic ''nil pointer dereference'' | Some t \<Rightarrow> Ret t)"

section \<open>The gateway\<close>

text \<open>
  The servers answer with \<open>g_op\<close>, and with \<open>g_retries\<close> when a request is repeated; \<open>g_fuel\<close> bounds the
  number of reads from an object.
\<close>

record 'p GwEnv =
  g_libs :: Libs
  g_lru :: "'p Lru"
  g_op :: OpAnswers
  g_retries :: "OpAnswers list"
  g_time :: "nat \<Rightarrow> Timestamp"
  g_fuel :: nat

record 'p Gw =
  gw_client :: "'p Client"
  gw_replies :: "reply list"
  gw_sent :: "sent list"
  gw_recorded :: "ObjectMeta list"

definition g_attempts :: "'p GwEnv \<Rightarrow> OpAnswers list" where
  "g_attempts env = g_op env # g_retries env"

definition g_answers :: "'p GwEnv \<Rightarrow> Answers" where
  "g_answers env = o_answers (g_op env)"

definition g_tries :: "'p GwEnv \<Rightarrow> Answers list" where
  "g_tries env = map o_answers (g_attempts env)"

definition say :: "reply \<Rightarrow> 'p Gw \<Rightarrow> 'p Gw" where
  "say r g = g\<lparr>gw_replies := gw_replies g @ [r]\<rparr>"

definition say_error :: "nat \<Rightarrow> S3Error \<Rightarrow> 'p Gw \<Rightarrow> 'p Gw" where
  "say_error code e g = say (SendXML code (ErrorDoc e)) g"

definition mentions :: "go_error \<Rightarrow> errno \<Rightarrow> bool" where
  "mentions err e = contains (Error err) (Error (Err e))"

section \<open>Lookups\<close>

definition parseBucket :: "HttpReq \<Rightarrow> 'p Gw \<Rightarrow> 'p Gw \<times> string result" where
  "parseBucket q g =
     (if bucketName_q q = [] then (say_error 400 (InvalidBucketName_s3 None) g, Inl (Err InvalidArgument))
      else (g, Inr (bucketName_q q)))"

definition parseBucketKey :: "HttpReq \<Rightarrow> 'p Gw \<Rightarrow> 'p Gw \<times> (string \<times> string) result" where
  "parseBucketKey q g =
     (case parseBucket q g of
        (g, Inl err) \<Rightarrow> (g, Inl err)
      | (g, Inr b) \<Rightarrow>
          if key_q q = [] then (say_error 400 (InvalidArgument_s3 ''key'' b (URLPath q) None) g, Inl (Err InvalidArgument))
          else (g, Inr (b, key_q q)))"

text \<open>The reply to an error of finding a bucket.\<close>

definition bucket_error :: "HttpReq \<Rightarrow> string \<Rightarrow> string option \<Rightarrow> go_error \<Rightarrow> 'p Gw \<Rightarrow> 'p Gw" where
  "bucket_error q b key err g =
     (if mentions err InfoNotFound then say_error 404 (NoSuchBucket_s3 b) g
      else say_error 500 (InternalError_s3 (Error err) b (URLPath q) key) g)"

text \<open>The factory of a bucket, as every handler takes it; \<open>None\<close> after an error was replied.\<close>

definition open_factory :: "'p GwEnv \<Rightarrow> HttpReq \<Rightarrow> string \<Rightarrow> string option \<Rightarrow> 'p Gw \<Rightarrow> ('p Gw \<times> nat option) exec" where
  "open_factory env q b key g =
     exec_bind (GetIOFactory (g_lru env) (g_answers env) b (gw_client g)) (\<lambda>(cl, res).
       let g = g\<lparr>gw_client := cl\<rparr>
       in case res of
            Inl err \<Rightarrow> Ret (bucket_error q b key err g, None)
          | Inr a \<Rightarrow> Ret (g, Some a))"

definition getFactory :: "'p GwEnv \<Rightarrow> HttpReq \<Rightarrow> string \<Rightarrow> string \<Rightarrow> 'p Gw \<Rightarrow> ('p Gw \<times> nat option) exec" where
  "getFactory env q b key g = open_factory env q b (Some key) g"

text \<open>A factory lent by the client for the time of a handler.\<close>

definition with_factory :: "nat \<Rightarrow> (EcosIOFactory \<Rightarrow> (EcosIOFactory \<times> 'x) exec) \<Rightarrow> 'p Gw \<Rightarrow> ('p Gw \<times> 'x) exec" where
  "with_factory a act g =
     exec_bind (lend_factory a (gw_client g)) (\<lambda>f.
     exec_bind (act f) (\<lambda>(f, x). Ret (g\<lparr>gw_client := keep_factory a f (gw_client g)\<rparr>, x)))"

definition find_bucket :: "'p GwEnv \<Rightarrow> string \<Rightarrow> 'p Gw \<Rightarrow> ('p Gw \<times> Operator result) exec" where
  "find_bucket env b g =
     exec_bind (op_Get (g_libs env) (g_attempts env) (GetVolumeOperator (gw_client g)) b (gw_client g)) (\<lambda>(cl, res).
       Ret (g\<lparr>gw_client := cl\<rparr>, res))"

text \<open>A missing return after an error other than an unknown bucket leads to the conversion of a nil operator.\<close>

definition bucket_operator :: "'p GwEnv \<Rightarrow> HttpReq \<Rightarrow> string \<Rightarrow> 'p Gw \<Rightarrow> ('p Gw \<times> BucketInfo option option) exec" where
  "bucket_operator env q b g =
     exec_bind (find_bucket env b g) (\<lambda>(g, res).
       case res of
         Inl err \<Rightarrow> if mentions err InfoNotFound then Ret (bucket_error q b None err g, None) else Panic ''interface conversion''
       | Inr (BucketOperator bi) \<Rightarrow> Ret (g, Some bi)
       | Inr _ \<Rightarrow> Panic ''interface conversion'')"

definition getObjectOperator :: "'p GwEnv \<Rightarrow> HttpReq \<Rightarrow> string \<Rightarrow> string \<Rightarrow> 'p Gw \<Rightarrow> ('p Gw \<times> ObjectMeta option) exec" where
  "getObjectOperator env q b key g =
     exec_bind (bucket_operator env q b g) (\<lambda>(g, bucket).
       case bucket of
         None \<Rightarrow> Ret (g, None)
       | Some bi \<Rightarrow>
           exec_bind (op_Get (g_libs env) (g_attempts env) (BucketOperator bi) key (gw_client g)) (\<lambda>(cl, res).
             let g = g\<lparr>gw_client := cl\<rparr>
             in case res of
                  Inl err \<Rightarrow>
                    Ret (if mentions err InfoNotFound then say_error 404 (NoSuchKey_s3 b (URLPath q) key) g
                         else say_error 500 (InternalError_s3 (Error err) b (URLPath q) (Some key)) g, None)
                | Inr (ObjectOperator meta) \<Rightarrow> Ret (g, Some meta)
                | Inr _ \<Rightarrow> Panic ''interface conversion''))"

definition getBucketOperator :: "'p GwEnv \<Rightarrow> HttpReq \<Rightarrow> 'p Gw \<Rightarrow> ('p Gw \<times> BucketInfo option option) exec" where
  "getBucketOperator env q g =
     (case parseBucket q g of
        (g, Inl err) \<Rightarrow> Ret (g, None)
      | (g, Inr b) \<Rightarrow> bucket_operator env q b g)"

definition listBucket :: "'p GwEnv \<Rightarrow> HttpReq \<Rightarrow> 'p Gw \<Rightarrow> ('p Gw \<times> (ObjectMeta list \<times> string) option) exec" where
  "listBucket env q g =
     (case parseBucket q g of
        (g, Inl err) \<Rightarrow> Ret (g, None)
      | (g, Inr b) \<Rightarrow>
          exec_bind (ListObjects (g_libs env) (g_attempts env) b (Query q ''prefix'') (gw_client g)) (\<lambda>(cl, res).
            let g = g\<lparr>gw_client := cl\<rparr>
            in case res of
                 Inl err \<Rightarrow> Ret (bucket_error q b None err g, None)
               | Inr metas \<Rightarrow> Ret (g, Some (metas, b))))"

section \<open>Ranges\<close>

lemma int64_id: "- (2 ^ 63) \<le> i \<Longrightarrow> i < 2 ^ 63 \<Longrightarrow> int64 i = i"
  by (simp add: int64_def sint_sbintrunc' signed_take_bit_int_eq_self)

lemma TrimString_id: "\<forall>c \<in> set s. \<not> is_space c \<Longrightarrow> TrimString s = s"
proof -
  assume a: "\<forall>c \<in> set s. \<not> is_space c"
  then have "dropWhile is_space s = s" "dropWhile is_space (rev s) = rev s"
    by (auto simp: dropWhile_eq_self_iff hd_rev)
  then show ?thesis
    by (simp add: TrimString_def)
qed

lemma set_TrimString: "set (TrimString s) \<subseteq> set s"
  by (auto simp: TrimString_def dest!: set_dropWhileD)

lemma ParseInt_nonneg: "ParseInt s = Some i \<Longrightarrow> CHR ''-'' \<notin> set s \<Longrightarrow> 0 \<le> i \<and> i < 2 ^ 63"
  by (cases s) (auto simp: ParseInt_def Let_def split: if_splits option.splits)

text \<open>A range with at most one hyphen.\<close>

definition one_hyphen :: "string \<Rightarrow> bool" where
  "one_hyphen ra \<longleftrightarrow> CHR ''-'' \<notin> set (tl (dropWhile (\<lambda>c. c \<noteq> CHR ''-'') ra))"

definition range_in :: "int \<Rightarrow> httpRange \<Rightarrow> bool" where
  "range_in n r \<longleftrightarrow> 0 \<le> hr_start r \<and> 0 \<le> hr_length r \<and> hr_start r + hr_length r \<le> n"

lemma parse_one_in:
  assumes "0 \<le> n" "n < 2 ^ 63" "one_hyphen ra" "parse_one n ra = Inr (Some r)"
  shows "range_in n r"
proof -
  let ?fin = "TrimString (tl (dropWhile (\<lambda>c. c \<noteq> CHR ''-'') ra))"
  have "CHR ''-'' \<notin> set ?fin"
    using assms(3) set_TrimString unfolding one_hyphen_def by blast
  then have j: "ParseInt ?fin = Some j \<Longrightarrow> 0 \<le> j \<and> j < 2 ^ 63" for j
    using ParseInt_nonneg by blast
  show ?thesis
    using assms(1,2,4) j
    by (auto simp: parse_one_def Let_def range_in_def int64_id min_def split: if_splits option.splits)
qed

lemma parse_ranges_in:
  assumes "0 \<le> n" "n < 2 ^ 63"
  shows "\<forall>ra \<in> set ras. one_hyphen (TrimString ra) \<Longrightarrow> parse_ranges n ras = Inr (rs, b) \<Longrightarrow> list_all (range_in n) rs"
proof (induction ras arbitrary: rs b)
  case (Cons ra ras)
  then show ?case
    using parse_one_in [OF assms] by (fastforce split: if_splits sum.splits option.splits prod.splits)
qed simp

lemma plain_show_nat [simp]:
  "c \<in> set (show_nat n) \<Longrightarrow> \<not> is_space c" "CHR ''-'' \<notin> set (show_nat n)" "CHR '','' \<notin> set (show_nat n)"
  using show_nat_digits [of c n] by (auto simp: char_digit_def is_space_def Let_def intro!: notin_show_nat split: if_splits)

lemma parse_one_show:
  assumes "i \<le> j" "int j < n" "n < 2 ^ 63"
  shows "parse_one n (show_nat i @ CHR ''-'' # show_nat j) = Inr (Some \<lparr>hr_start = int i, hr_length = int (j - i) + 1\<rparr>)"
proof -
  let ?s = "show_nat i @ CHR ''-'' # show_nat j"
  have t: "takeWhile (\<lambda>c. c \<noteq> CHR ''-'') ?s = show_nat i" "dropWhile (\<lambda>c. c \<noteq> CHR ''-'') ?s = CHR ''-'' # show_nat j"
    using plain_show_nat(2) [of i] by (simp_all add: takeWhile_append dropWhile_append)
  have p: "ParseInt (show_nat i) = Some (int i)" "ParseInt (show_nat j) = Some (int j)"
    using assms by (simp_all add: ParseInt_show_nat)
  have "int64 (int j - int i + 1) = int j - int i + 1"
    using assms by (intro int64_id) simp_all
  then show ?thesis
    using assms t p by (simp add: parse_one_def TrimString_id Let_def min_def)
qed

lemma parseRange_show:
  assumes "i \<le> j" "int j < n" "n < 2 ^ 63"
  shows "parseRange (''bytes='' @ Itoa (int i) @ ''-'' @ Itoa (int j)) n = Inr [\<lparr>hr_start = int i, hr_length = int (j - i) + 1\<rparr>]"
    "contentRange n \<lparr>hr_start = int i, hr_length = int (j - i) + 1\<rparr> = ''bytes '' @ Itoa (int i) @ ''-'' @ Itoa (int j) @ ''/'' @ Itoa n"
proof -
  let ?s = "show_nat i @ CHR ''-'' # show_nat j"
  have "split_on (CHR '','') ?s = [?s]" "TrimString ?s = ?s"
    using plain_show_nat by (auto simp: is_space_def intro!: split_on_no_sep TrimString_id)
  then show "parseRange (''bytes='' @ Itoa (int i) @ ''-'' @ Itoa (int j)) n = Inr [\<lparr>hr_start = int i, hr_length = int (j - i) + 1\<rparr>]"
    using parse_one_show [OF assms] by (simp add: parseRange_def Itoa_def)
  have "int64 (int i + (int (j - i) + 1) - 1) = int j"
    using assms int64_id [of "int j"] by simp
  then show "contentRange n \<lparr>hr_start = int i, hr_length = int (j - i) + 1\<rparr>
      = ''bytes '' @ Itoa (int i) @ ''-'' @ Itoa (int j) @ ''/'' @ Itoa n"
    by (simp add: Itoa_def contentRange_def)
qed

text \<open>
  C25: The ranges read from a header, none of which has a second hyphen, lie within the content.  A
  range printed the way clients do is read as the bytes it names, and the reply names the same bytes.
  A second hyphen gives a range of negative length.
\<close>

theorem parseRange_correct:
  assumes "0 \<le> n" "n < 2 ^ 63 - 1"
  shows "(\<forall>s rs. (\<forall>ra \<in> set (split_on (CHR '','') (drop 6 s)). one_hyphen (TrimString ra)) \<longrightarrow> parseRange s n = Inr rs \<longrightarrow> list_all (range_in n) rs)
    \<and> (\<forall>i j. i \<le> j \<longrightarrow> int j < n \<longrightarrow>
         (let r = \<lparr>hr_start = int i, hr_length = int (j - i) + 1\<rparr>
          in parseRange (''bytes='' @ Itoa (int i) @ ''-'' @ Itoa (int j)) n = Inr [r]
             \<and> contentRange n r = ''bytes '' @ Itoa (int i) @ ''-'' @ Itoa (int j) @ ''/'' @ Itoa n))
    \<and> parseRange ''bytes=--1'' n = Inr [\<lparr>hr_start = n + 1, hr_length = - 1\<rparr>]"
proof (intro conjI allI impI)
  fix s rs
  assume "\<forall>ra \<in> set (split_on (CHR '','') (drop 6 s)). one_hyphen (TrimString ra)" "parseRange s n = Inr rs"
  then show "list_all (range_in n) rs"
    using parse_ranges_in [of n "split_on (CHR '','') (drop 6 s)"] assms
    by (auto simp: parseRange_def split: if_splits sum.splits prod.splits)
next
  fix i j
  assume "i \<le> j" "int j < n"
  then show "let r = \<lparr>hr_start = int i, hr_length = int (j - i) + 1\<rparr>
      in parseRange (''bytes='' @ Itoa (int i) @ ''-'' @ Itoa (int j)) n = Inr [r]
         \<and> contentRange n r = ''bytes '' @ Itoa (int i) @ ''-'' @ Itoa (int j) @ ''/'' @ Itoa n"
    using parseRange_show [of i j n] assms(2) by simp
next
  have "TrimString ''--1'' = ''--1''" "TrimString ''-1'' = ''-1''" "TrimString [] = []" "ParseInt ''-1'' = Some (- 1)"
    by (simp_all add: TrimString_def is_space_def ParseInt_def char_digit_def)
  then show "parseRange ''bytes=--1'' n = Inr [\<lparr>hr_start = n + 1, hr_length = - 1\<rparr>]"
    using assms int64_id [of "n + 1"] int64_id [of "- 1"] by (simp add: parseRange_def parse_one_def Let_def min_def)
qed

theorem parseRange_correct_witness:
  "list_all (range_in 100) [\<lparr>hr_start = 90, hr_length = 10\<rparr>, \<lparr>hr_start = 5, hr_length = 5\<rparr>]
   \<and> parseRange (''bytes='' @ Itoa 5 @ ''-'' @ Itoa 9) 100 = Inr [\<lparr>hr_start = 5, hr_length = 5\<rparr>]"
proof -
  have p: "parseRange ''bytes=-10, 5-9'' 100 = Inr [\<lparr>hr_start = 90, hr_length = 10\<rparr>, \<lparr>hr_start = 5, hr_length = 5\<rparr>]"
    "\<forall>ra \<in> set (split_on (CHR '','') (drop 6 ''bytes=-10, 5-9'')). one_hyphen (TrimString ra)"
    by (simp_all add: parseRange_def parse_one_def one_hyphen_def TrimString_def is_space_def ParseInt_def char_digit_def Let_def
        int64_id)
  have "(0 :: int) \<le> 100" "(100 :: int) < 2 ^ 63 - 1"
    by simp_all
  note c = parseRange_correct [OF this]
  show ?thesis
    using c [THEN conjunct1, rule_format, OF _ p(1)] p(2) c [THEN conjunct2, THEN conjunct1, rule_format, of 5 9]
    by (simp add: Let_def)
qed

end
