(* ===== verification/Gateway_Object.thy ===== *)
theory Gateway_Object
  imports Gateway_Http
begin

text \<open>
  The handlers for single objects, \<^verbatim>\<open>gateway/router/object.go\<close>: an object is stored from a plain or
  a signed chunked body or from a form, described, read in full or in ranges, removed and copied.
  \<^verbatim>\<open>io.Copy\<close>, \<^verbatim>\<open>io.CopyN\<close> and \<^verbatim>\<open>bufio.Reader\<close> are modelled on the pieces the body
  delivers.  The bytes a handler wrote before an error stay with the writer, which is dropped.
\<close>

section \<open>Copying into an object\<close>

definition write_piece ::
    "IOEnv \<Rightarrow> Answers \<Rightarrow> bytes \<Rightarrow> EcosWriter \<Rightarrow> IO \<Rightarrow> (EcosWriter \<times> IO \<times> go_error option) exec" where
  "write_piece env ans bs w io =
     (if bs = [] then Ret (w, io, None)
      else exec_bind (ew_Write env ans bs w io) (\<lambda>(w, io, n, err).
        Ret (w, io, case err of Some e \<Rightarrow> Some e | None \<Rightarrow> if n \<noteq> length bs then Some (ErrText ''short write'') else None)))"

primrec io_Copy :: "IOEnv \<Rightarrow> Answers \<Rightarrow> pieces \<Rightarrow> EcosWriter \<Rightarrow> IO \<Rightarrow> (EcosWriter \<times> IO \<times> go_error option) exec" where
  "io_Copy env ans [] w io = exec.Blocks ''waiting for the body''"
| "io_Copy env ans (p # ps) w io =
     exec_bind (write_piece env ans (fst p) w io) (\<lambda>(w, io, err).
       if err \<noteq> None then Ret (w, io, err)
       else case snd p of
           None \<Rightarrow> io_Copy env ans ps w io
         | Some e \<Rightarrow> Ret (w, io, if e = EOF then None else Some e))"

section \<open>A signed chunked body\<close>

text \<open>A buffered reader: what it holds, the error that follows, and what the body delivers then.\<close>

record Buf =
  bf_buf :: bytes
  bf_err :: "go_error option"
  bf_in :: pieces

definition string_of :: "bytes \<Rightarrow> string" where
  "string_of bs = map (\<lambda>b. char_of (unat b)) bs"

text \<open>\<^verbatim>\<open>ReadString('\n')\<close>: up to and with the delimiter, or everything before an error.\<close>

primrec read_line :: "pieces \<Rightarrow> bytes \<Rightarrow> go_error option \<Rightarrow> (Buf \<times> bytes \<times> go_error option) exec" where
  "read_line [] buf err =
     (if 10 \<in> set buf
      then Ret (\<lparr>bf_buf = tl (dropWhile (\<lambda>b. b \<noteq> 10) buf), bf_err = err, bf_in = []\<rparr>, takeWhile (\<lambda>b. b \<noteq> 10) buf @ [10], None)
      else case err of
          Some e \<Rightarrow> Ret (\<lparr>bf_buf = [], bf_err = None, bf_in = []\<rparr>, buf, Some e)
        | None \<Rightarrow> exec.Blocks ''waiting for the body'')"
| "read_line (p # ps) buf err =
     (if 10 \<in> set buf
      then Ret (\<lparr>bf_buf = tl (dropWhile (\<lambda>b. b \<noteq> 10) buf), bf_err = err, bf_in = p # ps\<rparr>, takeWhile (\<lambda>b. b \<noteq> 10) buf @ [10], None)
      else case err of
          Some e \<Rightarrow> Ret (\<lparr>bf_buf = [], bf_err = None, bf_in = p # ps\<rparr>, buf, Some e)
        | None \<Rightarrow> read_line ps (buf @ fst p) (snd p))"

definition ReadString :: "Buf \<Rightarrow> (Buf \<times> bytes \<times> go_error option) exec" where
  "ReadString b = read_line (bf_in b) (bf_buf b) (bf_err b)"

text \<open>
  \<^verbatim>\<open>io.CopyN\<close> from a buffered reader: how many of the \<open>left\<close> bytes are missing and the error.  What
  the buffer holds is written at once, then what the body delivers, piece by piece.
\<close>

primrec copy_left ::
    "IOEnv \<Rightarrow> Answers \<Rightarrow> pieces \<Rightarrow> nat \<Rightarrow> bytes \<Rightarrow> go_error option \<Rightarrow> EcosWriter \<Rightarrow> IO
     \<Rightarrow> (EcosWriter \<times> IO \<times> Buf \<times> nat \<times> go_error option) exec" where
  "copy_left env ans [] left buf err w io =
     exec_bind (write_piece env ans (take left buf) w io) (\<lambda>(w, io, werr).
       if werr \<noteq> None then Ret (w, io, \<lparr>bf_buf = drop left buf, bf_err = err, bf_in = []\<rparr>, left, werr)
       else if left \<le> length buf then Ret (w, io, \<lparr>bf_buf = drop left buf, bf_err = err, bf_in = []\<rparr>, 0, None)
       else case err of
           Some e \<Rightarrow> Ret (w, io, \<lparr>bf_buf = [], bf_err = None, bf_in = []\<rparr>, left - length buf, Some e)
         | None \<Rightarrow> exec.Blocks ''waiting for the body'')"
| "copy_left env ans (p # ps) left buf err w io =
     exec_bind (write_piece env ans (take left buf) w io) (\<lambda>(w, io, werr).
       if werr \<noteq> None then Ret (w, io, \<lparr>bf_buf = drop left buf, bf_err = err, bf_in = p # ps\<rparr>, left, werr)
       else if left \<le> length buf then Ret (w, io, \<lparr>bf_buf = drop left buf, bf_err = err, bf_in = p # ps\<rparr>, 0, None)
       else case err of
           Some e \<Rightarrow> Ret (w, io, \<lparr>bf_buf = [], bf_err = None, bf_in = p # ps\<rparr>, left - length buf, Some e)
         | None \<Rightarrow> copy_left env ans ps (left - length buf) (fst p) (snd p) w io)"

definition CopyN :: "IOEnv \<Rightarrow> Answers \<Rightarrow> nat \<Rightarrow> Buf \<Rightarrow> EcosWriter \<Rightarrow> IO \<Rightarrow> (EcosWriter \<times> IO \<times> Buf \<times> nat \<times> go_error option) exec" where
  "CopyN env ans n b w io = copy_left env ans (bf_in b) n (bf_buf b) (bf_err b) w io"

text \<open>
  The loop over the chunks: the errors replied, and whether the end of the body was reached.  After a
  chunk that does not end with a line break the loop goes on.  Every turn reads a line, so the length
  of the body bounds the turns.
\<close>

primrec put_stream ::
    "HttpReq \<Rightarrow> string \<Rightarrow> string \<Rightarrow> IOEnv \<Rightarrow> Answers \<Rightarrow> nat \<Rightarrow> Buf \<Rightarrow> EcosWriter \<Rightarrow> IO
     \<Rightarrow> (EcosWriter \<times> IO \<times> (nat \<times> S3Error) list \<times> bool) exec" where
  "put_stream q bk key env ans 0 b w io = exec.Blocks ''more lines than bytes''"
| "put_stream q bk key env ans (Suc fuel) b w io =
     exec_bind (ReadString b) (\<lambda>(b, line, err).
       case err of
         Some e \<Rightarrow>
           if e = EOF then Ret (w, io, [], True)
           else Ret (w, io, [(500, InternalError_s3 (Error e) bk (URLPath q) (Some key))], False)
       | None \<Rightarrow>
           (case parseSignature (string_of line) of
              Inl e \<Rightarrow>
                Ret (w, io, [(400, if e = Err SignatureDoesNotMatch then InvalidArgument_s3 ''signature'' bk (URLPath q) (Some key)
                                   else SignatureDoesNotMatch_s3 bk (URLPath q) (Some key))], False)
            | Inr (n, _) \<Rightarrow>
                exec_bind (CopyN env ans n b w io) (\<lambda>(w, io, b, missing, err).
                  if missing \<noteq> 0
                  then Ret (w, io, [(412, PreconditionFailed_s3 bk (URLPath q)
                         (Error (Err IncompatibleSize) @ '' with err '' @ (case err of None \<Rightarrow> [] | Some e \<Rightarrow> Error e)) (Some key))], False)
                  else exec_bind (ReadString b) (\<lambda>(b, line, err).
                    let bad = (string_of line \<noteq> crlf \<or> err \<noteq> None)
                    in exec_bind (put_stream q bk key env ans fuel b w io) (\<lambda>(w, io, es, ok).
                         Ret (w, io, if bad then (400, IncompleteBody_s3 bk (URLPath q) key) # es else es, ok))))))"

definition body_length :: "pieces \<Rightarrow> nat" where
  "body_length ps = length (concat (map fst ps))"

section \<open>Storing an object\<close>

text \<open>
  The result of a handler's work with the factory: the factory, the errors replied, and the metadata
  recorded, or \<open>None\<close> when an error has ended the handler.
\<close>

type_synonym put_result = "EcosIOFactory \<times> (nat \<times> S3Error) list \<times> ObjectMeta list option"

definition internal_error :: "HttpReq \<Rightarrow> string \<Rightarrow> string \<Rightarrow> go_error \<Rightarrow> nat \<times> S3Error" where
  "internal_error q b key e = (500, InternalError_s3 (Error e) b (URLPath q) (Some key))"

definition close_put ::
    "'p GwEnv \<Rightarrow> HttpReq \<Rightarrow> string \<Rightarrow> string \<Rightarrow> IOEnv \<Rightarrow> EcosIOFactory \<Rightarrow> (nat \<times> S3Error) list \<Rightarrow> EcosWriter \<Rightarrow> IO \<Rightarrow> put_result exec" where
  "close_put env q b key ioenv f es w io =
     exec_bind (ew_Close ioenv (g_answers env) (g_tries env) (g_time env 0) w io) (\<lambda>(w, io, meta, err).
       Ret (case err of
              Some e \<Rightarrow> (f\<lparr>f_io := io\<rparr>, es @ [internal_error q b key e], None)
            | None \<Rightarrow> (f\<lparr>f_io := io\<rparr>, es, Some (case meta of None \<Rightarrow> [] | Some m \<Rightarrow> [m]))))"

definition say_errors :: "(nat \<times> S3Error) list \<Rightarrow> 'p Gw \<Rightarrow> 'p Gw" where
  "say_errors es g = fold (\<lambda>(code, e) g. say_error code e g) es g"

definition copy_body ::
    "IOEnv \<Rightarrow> Answers \<Rightarrow> HttpReq \<Rightarrow> string \<Rightarrow> string \<Rightarrow> EcosWriter \<Rightarrow> IO \<Rightarrow> (EcosWriter \<times> IO \<times> (nat \<times> S3Error) list \<times> bool) exec" where
  "copy_body ioenv ans q b key w io =
     (if GetHeader q ''X-Amz-Content-Sha256'' = ''STREAMING-AWS4-HMAC-SHA256-PAYLOAD''
      then put_stream q b key ioenv ans (Suc (body_length (Body q))) \<lparr>bf_buf = [], bf_err = None, bf_in = Body q\<rparr> w io
      else exec_bind (io_Copy ioenv ans (Body q) w io) (\<lambda>(w, io, err).
             Ret (w, io, case err of None \<Rightarrow> [] | Some e \<Rightarrow> [internal_error q b key e], err = None)))"

definition put_body :: "'p GwEnv \<Rightarrow> HttpReq \<Rightarrow> string \<Rightarrow> string \<Rightarrow> EcosIOFactory \<Rightarrow> put_result exec" where
  "put_body env q b key f =
     exec_bind (factory_env (g_libs env) f) (\<lambda>ioenv.
     exec_bind (GetEcosWriter ioenv (g_answers env) key (f_io f)) (\<lambda>(w, io).
     exec_bind (copy_body ioenv (g_answers env) q b key w io) (\<lambda>(w, io, es, ok).
       if \<not> ok then Ret (f\<lparr>f_io := io\<rparr>, es, None)
       else close_put env q b key ioenv f es w io)))"

definition finish_put :: "(nat \<times> S3Error) list \<Rightarrow> ObjectMeta list option \<Rightarrow> 'p Gw \<Rightarrow> 'p Gw" where
  "finish_put es res g =
     (let g = say_errors es g
      in case res of None \<Rightarrow> g | Some metas \<Rightarrow> say (SetStatus 200) (g\<lparr>gw_recorded := gw_recorded g @ metas\<rparr>))"

definition putObject :: "'p GwEnv \<Rightarrow> HttpReq \<Rightarrow> 'p Gw \<Rightarrow> 'p Gw exec" where
  "putObject env q g =
     (case parseBucketKey q g of
        (g, Inl err) \<Rightarrow> Ret g
      | (g, Inr (b, key)) \<Rightarrow>
          exec_bind (getFactory env q b key g) (\<lambda>(g, fa).
            case fa of
              None \<Rightarrow> Ret g
            | Some a \<Rightarrow> exec_bind (with_factory a (put_body env q b key) g) (\<lambda>(g, es, res). Ret (finish_put es res g))))"

text \<open>A form is copied without looking at the header; the end of the content is no error.\<close>

definition post_body :: "'p GwEnv \<Rightarrow> HttpReq \<Rightarrow> string \<Rightarrow> string \<Rightarrow> pieces \<Rightarrow> EcosIOFactory \<Rightarrow> put_result exec" where
  "post_body env q b key content f =
     exec_bind (factory_env (g_libs env) f) (\<lambda>ioenv.
     exec_bind (GetEcosWriter ioenv (g_answers env) key (f_io f)) (\<lambda>(w, io).
     exec_bind (io_Copy ioenv (g_answers env) content w io) (\<lambda>(w, io, err).
       case (if err = Some EOF then None else err) of
         Some e \<Rightarrow> Ret (f\<lparr>f_io := io\<rparr>, [internal_error q b key e], None)
       | None \<Rightarrow> close_put env q b key ioenv f [] w io)))"

definition postObject :: "'p GwEnv \<Rightarrow> HttpReq \<Rightarrow> 'p Gw \<Rightarrow> 'p Gw exec" where
  "postObject env q g =
     (case parseBucket q g of
        (g, Inl err) \<Rightarrow> Ret g
      | (g, Inr b) \<Rightarrow>
          (let bad = (\<lambda>e. Ret (say_error 400 e g))
           in case FormBody q of
                Inl err \<Rightarrow> bad (MalformedPOSTRequest_s3 b (URLPath q) None)
              | Inr form \<Rightarrow>
                  (case (Value_f form, File_f form) of
                     (None, _) \<Rightarrow> bad (RequestIsNotMultiPartContent_s3 b (URLPath q))
                   | (Some [key], files) \<Rightarrow>
                       if key = [] then bad (InvalidArgument_s3 ''key'' b (URLPath q) None)
                       else (case files of
                               [None] \<Rightarrow> bad (InvalidArgument_s3 ''file'' b (URLPath q) None)
                             | [Some (Inl err)] \<Rightarrow> Ret (say_error 500 (InternalError_s3 (Error err) b (URLPath q) (Some key)) g)
                             | [Some (Inr content)] \<Rightarrow>
                                 exec_bind (getFactory env q b key g) (\<lambda>(g, fa).
                                   case fa of
                                     None \<Rightarrow> Ret g
                                   | Some a \<Rightarrow>
                                       exec_bind (with_factory a (post_body env q b key content) g) (\<lambda>(g, es, res).
                                         Ret (finish_put es res g)))
                             | _ \<Rightarrow> bad (IncorrectNumberOfFilesInPostRequest_s3 b (URLPath q) None))
                   | (Some _, _) \<Rightarrow> bad (IncorrectNumberOfFilesInPostRequest_s3 b (URLPath q) None))))"

section \<open>Describing an object\<close>

definition headObject :: "'p GwEnv \<Rightarrow> HttpReq \<Rightarrow> 'p Gw \<Rightarrow> 'p Gw exec" where
  "headObject env q g =
     (case parseBucketKey q g of
        (g, Inl err) \<Rightarrow> Ret g
      | (g, Inr (b, key)) \<Rightarrow>
          exec_bind (getObjectOperator env q b key g) (\<lambda>(g, found).
            case found of
              None \<Rightarrow> Ret g
            | Some meta \<Rightarrow>
                exec_bind (format_time (UpdateTime meta)) (\<lambda>t.
                  Ret (fold say [SetHeader ''Content-Length'' (FormatUint (ObjSize meta)), SetHeader ''ETag'' (ObjHash meta),
                         SetTime ''Last-Modified'' t, SetStatus 200] g))))"

section \<open>Reading an object\<close>

text \<open>
  \<^verbatim>\<open>io.Copy\<close> from a reader, or from one limited to \<open>left\<close> bytes, with a buffer of \<open>n\<close> bytes: the
  bytes, and the error unless it is the end.  Every turn is one \<^verbatim>\<open>Read\<close>.
\<close>

primrec copy_out ::
    "nat \<Rightarrow> IOEnv \<Rightarrow> Answers \<Rightarrow> Answers list \<Rightarrow> World \<Rightarrow> nat \<Rightarrow> int option \<Rightarrow> EcosReader \<Rightarrow> InfoAgent
     \<Rightarrow> (EcosReader \<times> InfoAgent \<times> bytes \<times> go_error option) exec" where
  "copy_out 0 env ans anss wd n left r agent = exec.Blocks ''more reads than allowed''"
| "copy_out (Suc fuel) env ans anss wd n left r agent =
     (if (case left of None \<Rightarrow> False | Some l \<Rightarrow> l \<le> 0) then Ret (r, agent, [], None)
      else exec_bind (er_Read env ans anss wd (replicate (case left of None \<Rightarrow> n | Some l \<Rightarrow> min n (nat l)) 0) r agent)
        (\<lambda>(r, agent, buf, count, err).
           case err of
             Some e \<Rightarrow> Ret (r, agent, take (nat count) buf, if e = EOF then None else Some e)
           | None \<Rightarrow>
               exec_bind (copy_out fuel env ans anss wd n (map_option (\<lambda>l. l - count) left) r agent) (\<lambda>(r, agent, rest, err).
                 Ret (r, agent, take (nat count) buf @ rest, err))))"

definition copy_buffer :: nat where
  "copy_buffer = 32768"

definition CopyN_out ::
    "nat \<Rightarrow> IOEnv \<Rightarrow> Answers \<Rightarrow> Answers list \<Rightarrow> World \<Rightarrow> int \<Rightarrow> EcosReader \<Rightarrow> InfoAgent
     \<Rightarrow> (EcosReader \<times> InfoAgent \<times> bytes \<times> go_error option) exec" where
  "CopyN_out fuel env ans anss wd l r agent =
     exec_bind (copy_out fuel env ans anss wd (if l < 1 then 1 else min copy_buffer (nat l)) (Some l) r agent)
       (\<lambda>(r, agent, bs, err).
          Ret (r, agent, bs, if int (length bs) = l then None else if int (length bs) < l \<and> err = None then Some EOF else err))"

text \<open>
  The rest of \<^verbatim>\<open>getObject\<close> with the factory: no range, one range or several.  For several ranges
  the reader is moved to the first range before it is moved to the range itself, and the multipart
  body is not closed.
\<close>

definition get_full ::
    "'p GwEnv \<Rightarrow> IOEnv \<Rightarrow> ObjectMeta \<Rightarrow> World \<Rightarrow> EcosReader \<Rightarrow> InfoAgent \<Rightarrow> (InfoAgent \<times> reply list) exec" where
  "get_full env ioenv meta wd r agent =
     exec_bind (format_time (UpdateTime meta)) (\<lambda>t.
     exec_bind (copy_out (g_fuel env) ioenv (g_answers env) (g_tries env) wd copy_buffer None r agent) (\<lambda>(r, agent, bs, err).
       Ret (agent, [SetTime ''Last-Modified'' t, SendData 200 (sint (ObjSize meta)) bs err])))"

definition get_range ::
    "'p GwEnv \<Rightarrow> HttpReq \<Rightarrow> string \<Rightarrow> string \<Rightarrow> IOEnv \<Rightarrow> ObjectMeta \<Rightarrow> World \<Rightarrow> httpRange \<Rightarrow> EcosReader \<Rightarrow> InfoAgent
     \<Rightarrow> (InfoAgent \<times> reply list) exec" where
  "get_range env q b key ioenv meta wd ra r agent =
     (let internal = (\<lambda>e. SendXML 500 (ErrorDoc (snd (internal_error q b key e))))
      in exec_bind (er_Seek ioenv (g_answers env) (g_tries env) (hr_start ra) 0 r agent) (\<lambda>(r, agent, pos, err).
         case err of
           Some e \<Rightarrow> Ret (agent, [internal e])
         | None \<Rightarrow>
             exec_bind (format_time (UpdateTime meta)) (\<lambda>t.
             exec_bind (CopyN_out (g_fuel env) ioenv (g_answers env) (g_tries env) wd (hr_length ra) r agent) (\<lambda>(r, agent, bs, err).
               Ret (agent,
                 [SetStatus 206, SetTime ''Last-Modified'' t, SetHeader ''Content-Range'' (contentRange (sint (ObjSize meta)) ra),
                  SendBytes bs] @ (case err of None \<Rightarrow> [] | Some e \<Rightarrow> [internal e]))))))"

primrec get_parts ::
    "'p GwEnv \<Rightarrow> HttpReq \<Rightarrow> string \<Rightarrow> string \<Rightarrow> IOEnv \<Rightarrow> ObjectMeta \<Rightarrow> World \<Rightarrow> int \<Rightarrow> httpRange list \<Rightarrow> EcosReader \<Rightarrow> InfoAgent
     \<Rightarrow> (InfoAgent \<times> reply list) exec" where
  "get_parts env q b key ioenv meta wd first [] r agent = Ret (agent, [])"
| "get_parts env q b key ioenv meta wd first (ra # ras) r agent =
     (let internal = (\<lambda>e. SendXML 500 (ErrorDoc (snd (internal_error q b key e))));
          seek = (\<lambda>i r agent. er_Seek ioenv (g_answers env) (g_tries env) i 0 r agent)
      in exec_bind (seek first r agent) (\<lambda>(r, agent, pos, err).
         case err of
           Some e \<Rightarrow> Ret (agent, [internal e])
         | None \<Rightarrow>
             (let part = OpenPart (''bytes '' @ Itoa (hr_start ra) @ ''-'' @ Itoa (int64 (hr_start ra + hr_length ra - 1)) @ ''/'' @ FormatUint (ObjSize meta))
              in exec_bind (seek (hr_start ra) r agent) (\<lambda>(r, agent, pos, err).
                 if err \<noteq> None \<and> err \<noteq> Some EOF then Ret (agent, [part, internal (the err)])
                 else exec_bind (CopyN_out (g_fuel env) ioenv (g_answers env) (g_tries env) wd (hr_length ra) r agent) (\<lambda>(r, agent, bs, err).
                   if err \<noteq> None \<and> err \<noteq> Some EOF then Ret (agent, [part, SendBytes bs, internal (the err)])
                   else exec_bind (get_parts env q b key ioenv meta wd first ras r agent) (\<lambda>(agent, rs).
                     Ret (agent, [part, SendBytes bs] @ rs)))))))"

definition get_body ::
    "'p GwEnv \<Rightarrow> HttpReq \<Rightarrow> string \<Rightarrow> string \<Rightarrow> ObjectMeta \<Rightarrow> EcosIOFactory \<Rightarrow> (EcosIOFactory \<times> reply list) exec" where
  "get_body env q b key meta f =
     exec_bind (factory_env (g_libs env) f) (\<lambda>ioenv.
       let r = GetEcosReader key; agent = io_agent (f_io f); wd = io_world (f_io f); range = GetHeader q ''Range''
       in exec_bind
            (if range = [] then get_full env ioenv meta wd r agent
             else case parseRange range (sint (ObjSize meta)) of
                 Inl err \<Rightarrow> Ret (agent, [SendXML 416 (ErrorDoc (InvalidRange_s3 b (URLPath q) key))])
               | Inr [] \<Rightarrow> Ret (agent, [SetStatus 416])
               | Inr [ra] \<Rightarrow> get_range env q b key ioenv meta wd ra r agent
               | Inr (ra # ras) \<Rightarrow>
                   exec_bind (format_time (UpdateTime meta)) (\<lambda>t.
                   exec_bind (get_parts env q b key ioenv meta wd (hr_start ra) (ra # ras) r agent) (\<lambda>(agent, rs).
                     Ret (agent, [SetStatus 206, SetTime ''Last-Modified'' t, SetHeader ''Content-Type'' ''multipart/byteranges'',
                                  SetHeader ''ETag'' (ObjId meta)] @ rs))))
            (\<lambda>(agent, rs). Ret (f\<lparr>f_io := (f_io f)\<lparr>io_agent := agent\<rparr>\<rparr>, SetHeader ''ETag'' (ObjId meta) # rs)))"

definition getObject :: "'p GwEnv \<Rightarrow> HttpReq \<Rightarrow> 'p Gw \<Rightarrow> 'p Gw exec" where
  "getObject env q g =
     (case parseBucketKey q g of
        (g, Inl err) \<Rightarrow> Ret g
      | (g, Inr (b, key)) \<Rightarrow>
          exec_bind (getObjectOperator env q b key g) (\<lambda>(g, found).
            case found of
              None \<Rightarrow> Ret g
            | Some meta \<Rightarrow>
                exec_bind (open_factory env q b (Some key) g) (\<lambda>(g, fa).
                  case fa of
                    None \<Rightarrow> Ret g
                  | Some a \<Rightarrow> exec_bind (with_factory a (get_body env q b key meta) g) (\<lambda>(g, rs). Ret (fold say rs g)))))"

section \<open>Removing objects\<close>

text \<open>A removal of an object the metadata service does not know succeeds.\<close>

definition remove_object :: "'p GwEnv \<Rightarrow> Operator \<Rightarrow> string \<Rightarrow> 'p Gw \<Rightarrow> ('p Gw \<times> go_error option) exec" where
  "remove_object env op key g =
     exec_bind (op_Remove (g_libs env) (g_attempts env) op key (gw_client g)) (\<lambda>(cl, qs, err).
       Ret (g\<lparr>gw_client := cl, gw_sent := gw_sent g @ qs\<rparr>,
            case err of None \<Rightarrow> None | Some e \<Rightarrow> if mentions e MetaNotExist then None else Some e))"

definition deleteObject :: "'p GwEnv \<Rightarrow> HttpReq \<Rightarrow> 'p Gw \<Rightarrow> 'p Gw exec" where
  "deleteObject env q g =
     (case parseBucketKey q g of
        (g, Inl err) \<Rightarrow> Ret g
      | (g, Inr (b, key)) \<Rightarrow>
          exec_bind (find_bucket env b g) (\<lambda>(g, res).
            case res of
              Inl err \<Rightarrow> Ret (bucket_error q b (Some key) err g)
            | Inr op \<Rightarrow>
                exec_bind (remove_object env op key g) (\<lambda>(g, err).
                  Ret (case err of
                         Some e \<Rightarrow> say_error 500 (InternalError_s3 (Error e) b (URLPath q) (Some key)) g
                       | None \<Rightarrow> say (SetStatus 204) g))))"

primrec delete_each :: "'p GwEnv \<Rightarrow> Operator \<Rightarrow> string option list \<Rightarrow> 'p Gw \<Rightarrow> ('p Gw \<times> DeleteResult) exec" where
  "delete_each env op [] g = Ret (g, \<lparr>Deleted = [], Error_dr = []\<rparr>)"
| "delete_each env op (k # ks) g =
     (case k of
        None \<Rightarrow> Panic ''nil pointer dereference''
      | Some key \<Rightarrow>
          exec_bind (remove_object env op key g) (\<lambda>(g, err).
          exec_bind (delete_each env op ks g) (\<lambda>(g, res).
            Ret (g, case err of
              Some e \<Rightarrow> res\<lparr>Error_dr := \<lparr>Code_de = ''InternalError'', Key_de = key, Message_de = Error e\<rparr> # Error_dr res\<rparr>
            | None \<Rightarrow> res\<lparr>Deleted := key # Deleted res\<rparr>))))"

definition deleteObjects :: "'p GwEnv \<Rightarrow> HttpReq \<Rightarrow> 'p Gw \<Rightarrow> 'p Gw exec" where
  "deleteObjects env q g =
     (case parseBucket q g of
        (g, Inl err) \<Rightarrow> Ret g
      | (g, Inr b) \<Rightarrow>
          (case DeleteBody q of
             Inl err \<Rightarrow> Ret (say_error 400 (MalformedXML_s3 b (URLPath q) None) g)
           | Inr request \<Rightarrow>
               exec_bind (find_bucket env b g) (\<lambda>(g, res).
                 case res of
                   Inl err \<Rightarrow> Ret (bucket_error q b None err g)
                 | Inr op \<Rightarrow>
                     exec_bind (delete_each env op (Object_d request) g) (\<lambda>(g, result). Ret (say (SendXML 200 (DeleteDoc result)) g)))))"

section \<open>Copying an object\<close>

definition copy_object ::
    "'p GwEnv \<Rightarrow> string \<Rightarrow> ObjectMeta \<Rightarrow> EcosIOFactory \<Rightarrow> (EcosIOFactory \<times> ObjectMeta \<times> string result) exec" where
  "copy_object env key meta f =
     exec_bind (factory_env (g_libs env) f) (\<lambda>ioenv.
     exec_bind (GetEcosWriter ioenv (g_answers env) key (f_io f)) (\<lambda>(w, io).
     exec_bind (ew_Copy ioenv (g_tries env) meta w io) (\<lambda>(io, meta, res). Ret (f\<lparr>f_io := io\<rparr>, meta, res))))"

text \<open>\<^verbatim>\<open>Info\<close> and the conversion to metadata, which only the operator of an object passes.\<close>

definition operator_meta :: "Operator \<Rightarrow> ObjectMeta exec" where
  "operator_meta op = (case op of ObjectOperator meta \<Rightarrow> Ret meta | _ \<Rightarrow> Panic ''interface conversion'')"

definition copyObject :: "'p GwEnv \<Rightarrow> HttpReq \<Rightarrow> 'p Gw \<Rightarrow> 'p Gw exec" where
  "copyObject env q g =
     (case parseBucketKey q g of
        (g, Inl err) \<Rightarrow> Ret g
      | (g, Inr (b, key)) \<Rightarrow>
          (let src = GetHeader q ''x-amz-copy-source''; (srcBucket, srcKey) = parseSrcKey src;
               internal = (\<lambda>e g. say_error 500 (InternalError_s3 (Error e) b (URLPath q) (Some key)) g)
           in if src = [] \<or> srcBucket = [] then Ret (say_error 400 (InvalidArgument_s3 ''x-amz-copy-source'' b (URLPath q) None) g)
              else exec_bind (find_bucket env srcBucket g) (\<lambda>(g, res).
                case res of
                  Inl err \<Rightarrow>
                    Ret (if mentions err InfoNotFound then say_error 404 (NoSuchBucket_s3 srcBucket) g else internal err g)
                | Inr op \<Rightarrow>
                    exec_bind (op_Get (g_libs env) (g_attempts env) op srcKey (gw_client g)) (\<lambda>(cl, res).
                      let g = g\<lparr>gw_client := cl\<rparr>
                      in case res of
                           Inl err \<Rightarrow>
                             Ret (if mentions err MetaNotExist then say_error 404 (NoSuchKey_s3 srcBucket (URLPath q) srcKey) g
                                  else internal err g)
                         | Inr obj \<Rightarrow>
                             exec_bind (operator_meta obj) (\<lambda>meta.
                             exec_bind (open_factory env q b (Some key) g) (\<lambda>(g, fa).
                               case fa of
                                 None \<Rightarrow> Ret g
                               | Some a \<Rightarrow>
                                   exec_bind (with_factory a (copy_object env key meta) g) (\<lambda>(g, meta, res).
                                     Ret (case res of
                                            Inl e \<Rightarrow> internal e g
                                          | Inr etag \<Rightarrow>
                                              say (SendXML 200 (CopyDoc etag)) (g\<lparr>gw_recorded := gw_recorded g @ [meta]\<rparr>)))))))))"

end
