(* ===== verification/Gateway_Router.thy ===== *)
theory Gateway_Router
  imports Gateway_Object
begin

text \<open>
  The handlers for multipart uploads, \<^verbatim>\<open>gateway/router/multipart.go\<close>, and for buckets,
  \<^verbatim>\<open>gateway/router/bucket.go\<close>, and the choice of a handler by method, path and query, at the end of
  \<^verbatim>\<open>gateway/router/object.go\<close> and \<^verbatim>\<open>bucket.go\<close> and in \<^verbatim>\<open>gateway/router/route.go\<close>.  The timers a
  handler reports to are left out.
\<close>

section \<open>Multipart uploads\<close>

text \<open>The upload identifier every handler but the first needs.\<close>

definition parse_upload :: "HttpReq \<Rightarrow> 'p Gw \<Rightarrow> 'p Gw \<times> (string \<times> string \<times> string) result" where
  "parse_upload q g =
     (case parseBucketKey q g of
        (g, Inl err) \<Rightarrow> (g, Inl err)
      | (g, Inr (b, key)) \<Rightarrow>
          if Query q ''uploadId'' = []
          then (say_error 400 (InvalidArgument_s3 ''uploadId'' b (URLPath q) None) g, Inl (Err InvalidArgument))
          else (g, Inr (b, key, Query q ''uploadId'')))"

definition createMultipartUpload :: "'p GwEnv \<Rightarrow> HttpReq \<Rightarrow> 'p Gw \<Rightarrow> 'p Gw exec" where
  "createMultipartUpload env q g =
     (case parseBucketKey q g of
        (g, Inl err) \<Rightarrow> Ret g
      | (g, Inr (b, key)) \<Rightarrow>
          exec_bind (open_factory env q b (Some key) g) (\<lambda>(g, fa).
            case fa of
              None \<Rightarrow> Ret g
            | Some a \<Rightarrow>
                exec_bind (with_factory a (CreateMultipartUploadJob (g_libs env) (g_answers env) key) g) (\<lambda>(g, uploadId).
                  Ret (say (SendXML 200 (InitiateDoc \<lparr>Bucket_im = b, Key_im = key, UploadId_im = uploadId\<rparr>)) g))))"

text \<open>A part is written with the writer of the job, which stays in the table of the factory.\<close>

definition write_part ::
    "'p GwEnv \<Rightarrow> string \<Rightarrow> i32 \<Rightarrow> pieces \<Rightarrow> EcosIOFactory \<Rightarrow> (EcosIOFactory \<times> string result) exec" where
  "write_part env uploadId p body f =
     (case GetMultipartUploadWriter uploadId f of
        Inl err \<Rightarrow> Ret (f, Inl err)
      | Inr w \<Rightarrow>
          exec_bind (factory_env (g_libs env) f) (\<lambda>ioenv.
          exec_bind (WritePart ioenv (g_answers env) p body w (f_io f)) (\<lambda>(w, io, res).
            Ret (put_job uploadId w io f, res))))"

definition uploadPart :: "'p GwEnv \<Rightarrow> HttpReq \<Rightarrow> 'p Gw \<Rightarrow> 'p Gw exec" where
  "uploadPart env q g =
     (case parse_upload q g of
        (g, Inl err) \<Rightarrow> Ret g
      | (g, Inr (b, key, uploadId)) \<Rightarrow>
          (case parsePartID (Query q ''partNumber'') of
             Inl err \<Rightarrow> Ret (say_error 400 (InvalidArgument_s3 ''partNumber'' b (URLPath q) None) g)
           | Inr p \<Rightarrow>
               if ContentLength q < 5 * 2 ^ 20 then Ret (say_error 400 (EntityTooSmall_s3 b (URLPath q) key) g)
               else if 5 * 2 ^ 30 < ContentLength q then Ret (say_error 400 (EntityTooLarge_s3 b (URLPath q) key) g)
               else exec_bind (open_factory env q b (Some key) g) (\<lambda>(g, fa).
                 case fa of
                   None \<Rightarrow> Ret g
                 | Some a \<Rightarrow>
                     exec_bind (lend_factory a (gw_client g)) (\<lambda>f.
                       if GetMultipartUploadWriter uploadId f = Inl (Err NoSuchUpload)
                       then Ret (say_error 404 (NoSuchUpload_s3 b (URLPath q) key) g)
                       else exec_bind (with_factory a (write_part env uploadId p (Body q)) g) (\<lambda>(g, res).
                         Ret (case res of
                                Inl err \<Rightarrow> say_error 500 (InternalError_s3 (Error err) b (URLPath q) (Some key)) g
                              | Inr etag \<Rightarrow> fold say [SetHeader ''ETag'' etag, SetStatus 200] g))))))"

definition listParts :: "'p GwEnv \<Rightarrow> HttpReq \<Rightarrow> 'p Gw \<Rightarrow> 'p Gw exec" where
  "listParts env q g =
     (case parse_upload q g of
        (g, Inl err) \<Rightarrow> Ret g
      | (g, Inr (b, key, uploadId)) \<Rightarrow>
          exec_bind (open_factory env q b (Some key) g) (\<lambda>(g, fa).
            case fa of
              None \<Rightarrow> Ret g
            | Some a \<Rightarrow>
                exec_bind (lend_factory a (gw_client g)) (\<lambda>f.
                  case GetMultipartUploadWriter uploadId f of
                    Inl err \<Rightarrow> Ret (say_error 404 (NoSuchUpload_s3 b (URLPath q) key) g)
                  | Inr w \<Rightarrow>
                      exec_bind (ListParts w) (\<lambda>parts.
                        Ret (say (SendXML 200 (PartsDoc \<lparr>Bucket_lp = b, Key_lp = key, UploadId_lp = uploadId, Part_lp = parts\<rparr>)) g)))))"

text \<open>The block of a part: the reader of the object has no cluster information yet, which reading at the edge dereferences.\<close>

definition read_part :: "'p GwEnv \<Rightarrow> string \<Rightarrow> BlockInfo \<Rightarrow> EcosIOFactory \<Rightarrow> (EcosIOFactory \<times> bytes result) exec" where
  "read_part env key info f =
     exec_bind (factory_env (g_libs env) f) (\<lambda>ioenv.
     exec_bind (GetBlock ioenv (g_answers env) (io_world (f_io f)) info (GetEcosReader key) (io_agent (f_io f))) (\<lambda>(r, agent, res).
       Ret (f\<lparr>f_io := (f_io f)\<lparr>io_agent := agent\<rparr>\<rparr>, case res of Inl err \<Rightarrow> Inl err | Inr s \<Rightarrow> Inr (s_bytes s))))"

definition getPart :: "'p GwEnv \<Rightarrow> HttpReq \<Rightarrow> 'p Gw \<Rightarrow> 'p Gw exec" where
  "getPart env q g =
     (case parse_upload q g of
        (g, Inl err) \<Rightarrow> Ret g
      | (g, Inr (b, key, uploadId)) \<Rightarrow>
          (case parsePartID (Query q ''partNumber'') of
             Inl err \<Rightarrow> Ret (say_error 400 (InvalidArgument_s3 ''partNumber'' b (URLPath q) None) g)
           | Inr p \<Rightarrow>
               exec_bind (open_factory env q b (Some key) g) (\<lambda>(g, fa).
                 case fa of
                   None \<Rightarrow> Ret g
                 | Some a \<Rightarrow>
                     exec_bind (lend_factory a (gw_client g)) (\<lambda>f.
                       case GetMultipartUploadWriter uploadId f of
                         Inl err \<Rightarrow> Ret (say_error 404 (NoSuchUpload_s3 b (URLPath q) key) g)
                       | Inr w \<Rightarrow>
                           (case GetPartBlockInfo p w of
                              Inl err \<Rightarrow>
                                Ret (if err = Err MethodNotAllowed then say_error 405 (MethodNotAllowed_s3 b (URLPath q) (Some key)) g
                                     else if err = Err InvalidArgument then say_error 400 (InvalidArgument_s3 ''partNumber'' b (URLPath q) None) g
                                     else if err = Err InvalidPart then say_error 404 (InvalidPart_s3 b (URLPath q) key) g
                                     else if err = Err InvalidObjectState then say_error 409 (InvalidObjectState_s3 b (URLPath q) key) g
                                     else say_error 500 (InternalError_s3 (Error err) b (URLPath q) (Some key)) g)
                            | Inr info \<Rightarrow>
                                exec_bind (with_factory a (read_part env key info) g) (\<lambda>(g, res).
                                  Ret (case res of
                                         Inl err \<Rightarrow> say_error 500 (InternalError_s3 (Error err) b (URLPath q) (Some key)) g
                                       | Inr content \<Rightarrow>
                                           if word_of_nat (length content) \<noteq> BlockSize_bi info
                                           then say_error 412 (PreconditionFailed_s3 b (URLPath q) ''Incompatible Part Size'' (Some key)) g
                                           else say (SendData 200 (sint (BlockSize_bi info)) content None) g)))))))"

text \<open>The list of parts of the request is decoded and not used: the job is completed without naming a part.\<close>

definition complete_job ::
    "'p GwEnv \<Rightarrow> string \<Rightarrow> EcosIOFactory \<Rightarrow> (EcosIOFactory \<times> ObjectMeta option \<times> string result) exec" where
  "complete_job env uploadId f =
     exec_bind (factory_env (g_libs env) f) (\<lambda>ioenv.
       CompleteMultipartUploadJob ioenv (zip (map (g_time env) [0..<length (g_tries env)]) (g_tries env)) uploadId [] f)"

definition completeMultipartUpload :: "'p GwEnv \<Rightarrow> HttpReq \<Rightarrow> 'p Gw \<Rightarrow> 'p Gw exec" where
  "completeMultipartUpload env q g =
     (case parse_upload q g of
        (g, Inl err) \<Rightarrow> Ret g
      | (g, Inr (b, key, uploadId)) \<Rightarrow>
          (case CompleteBody q of
             Inl err \<Rightarrow> Ret (say_error 400 (MalformedXML_s3 b (URLPath q) (Some key)) g)
           | Inr request \<Rightarrow>
               exec_bind (open_factory env q b (Some key) g) (\<lambda>(g, fa).
                 case fa of
                   None \<Rightarrow> Ret g
                 | Some a \<Rightarrow>
                     exec_bind (with_factory a (complete_job env uploadId) g) (\<lambda>(g, meta, res).
                       Ret (case res of
                              Inl err \<Rightarrow>
                                (if err = Err InvalidPartOrder then say_error 400 (InvalidPartOrder_s3 b (URLPath q) key) g
                                 else if err = Err NoSuchUpload then say_error 404 (NoSuchUpload_s3 b (URLPath q) key) g
                                 else if err = Err InvalidPart then say_error 404 (InvalidPart_s3 b (URLPath q) key) g
                                 else say_error 500 (InternalError_s3 (Error err) b (URLPath q) (Some key)) g)
                            | Inr etag \<Rightarrow>
                                say (SendXML 200 (CompleteDoc \<lparr>Location = b @ ''/'' @ key, Bucket_cm = b, Key_cm = key, ETag_cm = etag\<rparr>))
                                  (g\<lparr>gw_recorded := gw_recorded g @ (case meta of None \<Rightarrow> [] | Some m \<Rightarrow> [m])\<rparr>))))))"

definition abortMultipartUpload :: "'p GwEnv \<Rightarrow> HttpReq \<Rightarrow> 'p Gw \<Rightarrow> 'p Gw exec" where
  "abortMultipartUpload env q g =
     (case parse_upload q g of
        (g, Inl err) \<Rightarrow> Ret g
      | (g, Inr (b, key, uploadId)) \<Rightarrow>
          exec_bind (open_factory env q b (Some key) g) (\<lambda>(g, fa).
            case fa of
              None \<Rightarrow> Ret g
            | Some a \<Rightarrow>
                exec_bind (with_factory a (AbortMultipartUploadJob (g_answers env) uploadId) g) (\<lambda>(g, err).
                  Ret (case err of
                         Some e \<Rightarrow>
                           (if e = Err NoSuchUpload then say_error 404 (NoSuchUpload_s3 b (URLPath q) key) g
                            else say_error 500 (InternalError_s3 (Error e) b (URLPath q) (Some key)) g)
                       | None \<Rightarrow> say (SetStatus 204) g))))"

text \<open>The prefix is cleaned again for every upload, which the following ones see.\<close>

primrec uploads_with :: "string \<Rightarrow> MultipartUpload list \<Rightarrow> MultipartUpload list \<times> string" where
  "uploads_with prefix [] = ([], prefix)"
| "uploads_with prefix (u # us) =
     (let prefix = (if prefix \<noteq> [] then CleanObjectKey prefix else prefix); (rest, prefix') = uploads_with prefix us
      in (if has_prefix (CleanObjectKey (Key_mu u)) prefix then u # rest else rest, prefix'))"

text \<open>\<^verbatim>\<open>strconv.Atoi\<close> with the error ignored: 0, or the nearest value in range.\<close>

definition atoi :: "string \<Rightarrow> int" where
  "atoi s =
     (let neg = (s \<noteq> [] \<and> hd s = CHR ''-'');
          body = (if s \<noteq> [] \<and> (hd s = CHR ''-'' \<or> hd s = CHR ''+'') then tl s else s)
      in if body = [] then 0
         else case read_digits 0 body of
             None \<Rightarrow> 0
           | Some n \<Rightarrow> if neg then max (- (2 ^ 63)) (- int n) else min (2 ^ 63 - 1) (int n))"

definition listMultipartUploads :: "'p GwEnv \<Rightarrow> HttpReq \<Rightarrow> 'p Gw \<Rightarrow> 'p Gw exec" where
  "listMultipartUploads env q g =
     (case parseBucket q g of
        (g, Inl err) \<Rightarrow> Ret g
      | (g, Inr b) \<Rightarrow>
          exec_bind (open_factory env q b None g) (\<lambda>(g, fa).
            case fa of
              None \<Rightarrow> Ret g
            | Some a \<Rightarrow>
                exec_bind (lend_factory a (gw_client g)) (\<lambda>f.
                  let (uploads, prefix) = uploads_with (Query q ''prefix'') (ListMultipartUploadJob f);
                      delimiter = Query q ''delimiter''; maxUploads = atoi (Query q ''maxUploads'')
                  in if maxUploads < 0 then Ret (say_error 400 (InvalidArgument_s3 ''maxUploads'' b (URLPath q) None) g)
                     else Ret (say (SendXML 200 (UploadsDoc
                       \<lparr>Bucket_lm = b, Delimiter = (if delimiter = [] then None else Some delimiter),
                        Prefix_lm = (if prefix = [] then None else Some prefix), MaxUploads = maxUploads,
                        IsTruncated_lm = False, Uploads = uploads\<rparr>)) g))))"

section \<open>Buckets\<close>

text \<open>Changing a bucket through the volume operator; that of the cloud is not implemented.\<close>

definition change_bucket ::
    "(OpAnswers \<Rightarrow> BucketInfo option \<Rightarrow> InfoAgent \<Rightarrow> (InfoAgent \<times> sent list \<times> go_error option) exec)
     \<Rightarrow> 'p GwEnv \<Rightarrow> string \<Rightarrow> 'p Gw \<Rightarrow> ('p Gw \<times> go_error option) exec" where
  "change_bucket change env b g =
     (case GetVolumeOperator (gw_client g) of
        EdgeVolumeOperator v \<Rightarrow>
          exec_bind (change (g_op env) (GenBucketInfo userID b userID) (cl_agent (gw_client g))) (\<lambda>(agent, qs, err).
            Ret (g\<lparr>gw_client := (gw_client g)\<lparr>cl_agent := agent\<rparr>, gw_sent := gw_sent g @ qs\<rparr>, err))
      | _ \<Rightarrow> Panic ''implement me'')"

definition createBucket :: "'p GwEnv \<Rightarrow> HttpReq \<Rightarrow> 'p Gw \<Rightarrow> 'p Gw exec" where
  "createBucket env q g =
     (case parseBucket q g of
        (g, Inl err) \<Rightarrow> Ret g
      | (g, Inr b) \<Rightarrow>
          if b = ''default'' then Ret (say_error 409 (BucketAlreadyExists_s3 ''default'') g)
          else if 0 < ContentLength q \<and> isl (CreateBody q)
          then Ret (say_error 400 (MalformedXML_s3 b (URLPath q) None) g)
          else exec_bind (change_bucket CreateBucket env b g) (\<lambda>(g, err).
            Ret (case err of
                   Some e \<Rightarrow> say_error 500 (InternalError_s3 (Error e) b (URLPath q) None) g
                 | None \<Rightarrow> fold say [SetHeader ''Location'' (CHR ''/'' # b), SetStatus 200] g)))"

primrec list_contents :: "(ObjectMeta \<Rightarrow> string) \<Rightarrow> ObjectMeta list \<Rightarrow> BucketContent list result exec" where
  "list_contents etag [] = Ret (Inr [])"
| "list_contents etag (m # ms) =
     (case SplitID (ObjId m) of
        Inl err \<Rightarrow> Ret (Inl err)
      | Inr (_, _, key, _) \<Rightarrow>
          exec_bind (format_time (UpdateTime m)) (\<lambda>t.
          exec_bind (list_contents etag ms) (\<lambda>res.
            Ret (map_sum id ((#) \<lparr>Key_bc = key, LastModified = t, ETag_bc = etag m, Size_bc = ObjSize m\<rparr>) res))))"

definition list_objects :: "(ObjectMeta \<Rightarrow> string) \<Rightarrow> 'p GwEnv \<Rightarrow> HttpReq \<Rightarrow> 'p Gw \<Rightarrow> 'p Gw exec" where
  "list_objects etag env q g =
     exec_bind (listBucket env q g) (\<lambda>(g, res).
       case res of
         None \<Rightarrow> Ret g
       | Some (metas, b) \<Rightarrow>
           exec_bind (list_contents etag metas) (\<lambda>res.
             Ret (case res of
                    Inl err \<Rightarrow> say_error 500 (InternalError_s3 (Error err) b (URLPath q) None) g
                  | Inr contents \<Rightarrow> say (SendXML 200 (ListDoc \<lparr>Name_lb = b, Contents = contents\<rparr>)) g)))"

definition listObjects_v1 :: "'p GwEnv \<Rightarrow> HttpReq \<Rightarrow> 'p Gw \<Rightarrow> 'p Gw exec" where
  "listObjects_v1 env q g = list_objects ObjId env q g"

definition listObjectsV2 :: "'p GwEnv \<Rightarrow> HttpReq \<Rightarrow> 'p Gw \<Rightarrow> 'p Gw exec" where
  "listObjectsV2 env q g = list_objects ObjHash env q g"

definition headBucket :: "'p GwEnv \<Rightarrow> HttpReq \<Rightarrow> 'p Gw \<Rightarrow> 'p Gw exec" where
  "headBucket env q g =
     exec_bind (getBucketOperator env q g) (\<lambda>(g, res). Ret (case res of None \<Rightarrow> g | Some _ \<Rightarrow> say (SetStatus 200) g))"

definition deleteBucket :: "'p GwEnv \<Rightarrow> HttpReq \<Rightarrow> 'p Gw \<Rightarrow> 'p Gw exec" where
  "deleteBucket env q g =
     exec_bind (listBucket env q g) (\<lambda>(g, res).
       case res of
         None \<Rightarrow> Ret g
       | Some (metas, b) \<Rightarrow>
           if metas \<noteq> [] then Ret (say_error 409 (BucketNotEmpty_s3 b) g)
           else exec_bind (change_bucket DeleteBucket env b g) (\<lambda>(g, err).
             Ret (case err of
                    Some e \<Rightarrow> say_error 500 (InternalError_s3 (Error e) b (URLPath q) None) g
                  | None \<Rightarrow> say (SetStatus 204) g)))"

text \<open>The names of the buckets; the date of creation, which is the current time, is left out.\<close>

primrec bucket_names :: "Operator list \<Rightarrow> string list exec" where
  "bucket_names [] = Ret []"
| "bucket_names (op # ops) =
     (case op of
        BucketOperator (Some b) \<Rightarrow> exec_bind (bucket_names ops) (\<lambda>ns. Ret (BucketName b # ns))
      | BucketOperator None \<Rightarrow> Panic ''nil pointer dereference''
      | _ \<Rightarrow> Panic ''interface conversion'')"

definition listBuckets :: "'p GwEnv \<Rightarrow> HttpReq \<Rightarrow> 'p Gw \<Rightarrow> 'p Gw exec" where
  "listBuckets env q g =
     exec_bind (op_List (g_libs env) (g_attempts env) (GetVolumeOperator (gw_client g)) [] (gw_client g)) (\<lambda>(cl, res).
       let g = g\<lparr>gw_client := cl\<rparr>
       in case res of
            Inl err \<Rightarrow> Ret (say_error 500 (InternalError_s3 (Error err) [] (URLPath q) None) g)
          | Inr ops \<Rightarrow>
              exec_bind (bucket_names ops) (\<lambda>ns. Ret (say (SendXML 200 (BucketsDoc \<lparr>Owner = userID, Buckets = ns\<rparr>)) g)))"

section \<open>Choosing a handler\<close>

definition bucketLevelPostHandler :: "'p GwEnv \<Rightarrow> HttpReq \<Rightarrow> 'p Gw \<Rightarrow> 'p Gw exec" where
  "bucketLevelPostHandler env q g = (if GetQuery q ''delete'' then deleteObjects env q g else postObject env q g)"

definition bucketLevelGetHandler :: "'p GwEnv \<Rightarrow> HttpReq \<Rightarrow> 'p Gw \<Rightarrow> 'p Gw exec" where
  "bucketLevelGetHandler env q g =
     (if GetQuery q ''uploads'' then listMultipartUploads env q g
      else if Query q ''list-type'' = ''2'' then listObjectsV2 env q g
      else listObjects_v1 env q g)"

definition objectLevelPostHandler :: "'p GwEnv \<Rightarrow> HttpReq \<Rightarrow> 'p Gw \<Rightarrow> 'p Gw exec" where
  "objectLevelPostHandler env q g =
     (if key_q q = ''/'' then bucketLevelPostHandler env q g
      else if GetQuery q ''uploads'' then createMultipartUpload env q g
      else if GetQuery q ''uploadId'' then completeMultipartUpload env q g
      else Ret (say (SetStatus 404) g))"

definition objectLevelPutHandler :: "'p GwEnv \<Rightarrow> HttpReq \<Rightarrow> 'p Gw \<Rightarrow> 'p Gw exec" where
  "objectLevelPutHandler env q g =
     (if key_q q = ''/'' then createBucket env q g
      else if GetQuery q ''uploadId'' then uploadPart env q g
      else if GetHeader q ''x-amz-copy-source'' \<noteq> [] then copyObject env q g
      else putObject env q g)"

definition objectLevelGetHandler :: "'p GwEnv \<Rightarrow> HttpReq \<Rightarrow> 'p Gw \<Rightarrow> 'p Gw exec" where
  "objectLevelGetHandler env q g =
     (if key_q q = ''/'' then bucketLevelGetHandler env q g
      else if GetQuery q ''uploadId'' then listParts env q g
      else if GetQuery q ''partNumber'' then getPart env q g
      else getObject env q g)"

definition objectLevelDeleteHandler :: "'p GwEnv \<Rightarrow> HttpReq \<Rightarrow> 'p Gw \<Rightarrow> 'p Gw exec" where
  "objectLevelDeleteHandler env q g =
     (if key_q q = ''/'' then deleteBucket env q g
      else if GetQuery q ''uploadId'' then abortMultipartUpload env q g
      else deleteObject env q g)"

definition objectLevelHeadHandler :: "'p GwEnv \<Rightarrow> HttpReq \<Rightarrow> 'p Gw \<Rightarrow> 'p Gw exec" where
  "objectLevelHeadHandler env q g = (if key_q q = ''/'' then headBucket env q g else headObject env q g)"

text \<open>
  The routes: the root, a bucket, and a key in a bucket, which starts with a slash.  The metrics the
  root answers a \<^verbatim>\<open>HEAD\<close> with are left out; a method without a route is answered by the framework.
\<close>

datatype HttpMethod = GET | PUT_h | POST | HEAD | DELETE_h

datatype Route = RootRoute | BucketRoute | ObjectRoute

definition route :: "HttpMethod \<Rightarrow> Route \<Rightarrow> 'p GwEnv \<Rightarrow> HttpReq \<Rightarrow> 'p Gw \<Rightarrow> 'p Gw exec" where
  "route meth level env q g =
     (let g = fold say [SetHeader ''Server'' ''ECOS'', SetHeader ''Accept-Ranges'' ''bytes''] g
      in case level of
           RootRoute \<Rightarrow>
             (case meth of GET \<Rightarrow> listBuckets env q g | HEAD \<Rightarrow> Ret (say (SetStatus 200) g) | _ \<Rightarrow> Ret (say (SetStatus 404) g))
         | BucketRoute \<Rightarrow>
             (case meth of
                PUT_h \<Rightarrow> createBucket env q g
              | DELETE_h \<Rightarrow> deleteBucket env q g
              | GET \<Rightarrow> bucketLevelGetHandler env q g
              | HEAD \<Rightarrow> headBucket env q g
              | POST \<Rightarrow> bucketLevelPostHandler env q g)
         | ObjectRoute \<Rightarrow>
             (case meth of
                PUT_h \<Rightarrow> objectLevelPutHandler env q g
              | DELETE_h \<Rightarrow> objectLevelDeleteHandler env q g
              | GET \<Rightarrow> objectLevelGetHandler env q g
              | HEAD \<Rightarrow> objectLevelHeadHandler env q g
              | POST \<Rightarrow> objectLevelPostHandler env q g))"

end
