(* ===== verification/Gateway_Spec.thy ===== *)
theory Gateway_Spec
  imports Gateway_Router
begin

text \<open>
  What the gateway promises: an object stored with a \<^verbatim>\<open>PUT\<close>, from a plain or a signed chunked body,
  is returned by a \<^verbatim>\<open>GET\<close>, in full or in the range asked for.  The theorems follow a request through
  the handler, the client, its factory, the writer and the reader down to the files of the nodes.
\<close>

section \<open>Reading through a copy\<close>

lemma take_count: "take (nat (int (min n (length rest)))) (take n rest @ drop (length rest) (replicate n x)) = take n rest"
  by (cases "n \<le> length rest") (simp_all add: min_def)

lemma copy_out_all:
  assumes f: "fetches env ans wd meta views P" and n: "0 < n" "n < 2 ^ 62"
  shows "reading meta views P rest r agent \<Longrightarrow> length rest < fuel * n \<Longrightarrow>
    \<exists>r' agent'. copy_out fuel env ans anss wd n None r agent = Ret (r', agent', rest, None)"
proof (induction fuel arbitrary: rest r agent)
  case (Suc fuel)
  obtain r' agent' where rd: "er_Read env ans anss wd (replicate n 0) r agent
      = Ret (r', agent', take n rest @ drop (length rest) (replicate n 0), int (min n (length rest)), if n < length rest then None else Some EOF)"
      "n < length rest \<longrightarrow> reading meta views P (drop n rest) r' agent'"
    using er_Read_ok [OF f Suc.prems(1), of "replicate n 0" anss] n(2) by auto
  show ?case
  proof (cases "n < length rest")
    case True
    then have "length (drop n rest) < fuel * n"
      using Suc.prems(2) by simp
    then obtain r2 agent2 where "copy_out fuel env ans anss wd n None r' agent' = Ret (r2, agent2, drop n rest, None)"
      using Suc.IH [of "drop n rest" r' agent'] rd(2) True by auto
    then show ?thesis
      using rd(1) True take_count [of n rest 0] by simp
  next
    case False
    then show ?thesis
      using rd(1) take_count [of n rest 0] by simp
  qed
qed simp

lemma copy_out_step:
  assumes "l \<noteq> 0" "er_Read env ans anss wd (replicate (min n l) 0) r agent = Ret (r', agent', buf, count, err)"
  shows "copy_out (Suc fuel) env ans anss wd n (Some (int l)) r agent =
     (case err of
        Some e \<Rightarrow> Ret (r', agent', take (nat count) buf, if e = EOF then None else Some e)
      | None \<Rightarrow> exec_bind (copy_out fuel env ans anss wd n (Some (int l - count)) r' agent') (\<lambda>(r, agent, rest, err).
          Ret (r, agent, take (nat count) buf @ rest, err)))"
  using assms by simp

lemma copy_out_some:
  assumes f: "fetches env ans wd meta views P" and n: "0 < n" "n < 2 ^ 62"
  shows "reading meta views P rest r agent \<Longrightarrow> l \<le> fuel * n \<Longrightarrow>
    \<exists>r' agent'. copy_out (Suc fuel) env ans anss wd n (Some (int l)) r agent = Ret (r', agent', take l rest, None)"
proof (induction fuel arbitrary: rest r agent l)
  case (Suc fuel)
  let ?m = "min n l"
  show ?case
  proof (cases "l = 0")
    case False
    have "length (replicate ?m (0 :: byte)) < 2 ^ 62"
      using n(2) by simp
    then obtain r' agent' where rd: "er_Read env ans anss wd (replicate ?m 0) r agent
      = Ret (r', agent', take ?m rest @ drop (length rest) (replicate ?m 0), int (min ?m (length rest)), if ?m < length rest then None else Some EOF)"
      "?m < length rest \<longrightarrow> reading meta views P (drop ?m rest) r' agent'"
      using er_Read_ok [OF f Suc.prems(1), of "replicate ?m 0" anss] by (metis length_replicate)
    note t = take_count [of ?m rest 0]
    show ?thesis
    proof (cases "?m < length rest")
      case True
      have m: "min ?m (length rest) = ?m" "int l - int ?m = int (l - ?m)"
        using True by simp_all
      have le: "l - ?m \<le> fuel * n"
        using Suc.prems(2) by simp
      obtain r2 agent2 where "copy_out (Suc fuel) env ans anss wd n (Some (int (l - ?m))) r' agent' = Ret (r2, agent2, take (l - ?m) (drop ?m rest), None)"
        using Suc.IH [OF _ le, of "drop ?m rest" r' agent'] rd(2) True by blast
      moreover have "take ?m rest @ take (l - ?m) (drop ?m rest) = take l rest"
        using take_add [of ?m "l - ?m" rest] by simp
      ultimately show ?thesis
        using True unfolding copy_out_step [OF False rd(1)] t unfolding m by (simp only: if_True option.case exec_bind.simps split_conv) blast
    next
      case eof: False
      have "length rest \<le> ?m" "length rest \<le> l"
        using eof by (simp_all add: not_less)
      then have "take ?m rest = take l rest"
        by (metis take_all)
      then show ?thesis
        unfolding copy_out_step [OF False rd(1)] t using eof by (simp del: copy_out.simps)
    qed
  qed simp
qed simp

lemma CopyN_out_ok:
  assumes f: "fetches env ans wd meta views P" and r: "reading meta views P rest r agent"
    and l: "0 < l" "l \<le> length rest" "l < fuel * copy_buffer"
  shows "\<exists>r' agent'. CopyN_out (Suc fuel) env ans anss wd (int l) r agent = Ret (r', agent', take l rest, None)"
proof -
  let ?n = "min copy_buffer l"
  have n: "0 < ?n" "?n < 2 ^ 62" "\<not> int l < 1" "nat (int l) = l" "l \<le> fuel * ?n"
    using l by (auto simp: copy_buffer_def min_def)
  obtain r' agent' where "copy_out (Suc fuel) env ans anss wd ?n (Some (int l)) r agent = Ret (r', agent', take l rest, None)"
    using copy_out_some [OF f n(1,2) r n(5)] by blast
  then show ?thesis
    using l(2) n(3,4) by (simp add: CopyN_out_def del: copy_out.simps)
qed

lemma er_Seek_ok:
  assumes f: "fetches env ans wd meta views P" and r: "reading meta views P rest r agent" and p: "curBlockIndex r < length views"
    and v: "ObjSize meta = word_of_nat (length (concat views))" "length (concat views) < 2 ^ 62" "s < length (concat views)"
  shows "\<exists>r'. er_Seek env ans anss (int s) 0 r agent = Ret (r', agent, int s, None) \<and> reading meta views P (drop s (concat views)) r' agent"
proof -
  let ?r = "r\<lparr>curBlockIndex := 0, curBlockOffset := 0\<rparr>"
  have P: "P r agent" "er_meta r = Some meta" "er_pipes r \<noteq> None"
    using r by (simp_all add: reading_def)
  have n: "length views = length (Blocks meta)"
    using f by (simp add: fetches_def)
  obtain cs i' z finish where c: "calc_loop (int s) (Blocks meta) 0 (int 0) (int 0) (0, 0) = (cs, (i', z), finish)"
    by (metis prod.collapse)
  have "finish \<and> (\<exists>o2. z = int o2 \<and> i' < length views \<and> o2 \<le> length (views ! i')
        \<and> drop o2 (concat (drop i' views)) = drop s (concat views))"
    using calc_pos [OF f, of 0 "Blocks meta" 0 0 s "(0, 0)" cs i' z finish] c n v(2,3) by simp
  then obtain o2 where o2: "finish" "z = int o2" "i' < length views" "o2 \<le> length (views ! i')"
      "drop o2 (concat (drop i' views)) = drop s (concat views)"
    by blast
  have prep: "prepare env ans anss r agent = Ret (r, agent, None)"
    using P(2,3) by (auto simp: prepare_def)
  let ?r' = "r\<lparr>curBlockIndex := i', curBlockOffset := z\<rparr>"
  have "concat (take 1 (drop i' views)) = views ! i'"
    using o2(3) by (simp add: take_Suc hd_drop_conv_nth)
  moreover have "P ?r' agent"
    using f P(1) unfolding fetches_def by blast
  ultimately have "reading meta views P (drop s (concat views)) ?r' agent"
    using o2 P(2,3) by (auto simp: reading_def)
  moreover have "er_Seek env ans anss (int s) 0 r agent = Ret (?r', agent, int s, None)"
    using prep P(2) p n c o2(1) v sint_size [OF v(2)] by (simp add: er_Seek_def calcBlocks_def Let_def)
  ultimately show ?thesis
    by blast
qed

lemma er_Seek_prepared:
  assumes "prepare env ans anss r agent = Ret (r1, agent1, None)" "reading meta views P rest r1 agent1"
  shows "er_Seek env ans anss i w r agent = er_Seek env ans anss i w r1 agent1"
proof -
  have "prepare env ans anss r1 agent1 = Ret (r1, agent1, None)"
    using assms(2) by (auto simp: reading_def prepare_def)
  then show ?thesis
    using assms(1) by (simp add: er_Seek_def)
qed

lemma copy_out_prepared:
  assumes "prepare env ans anss r agent = Ret (r1, agent1, None)" "reading meta views P rest r1 agent1"
  shows "copy_out (Suc fuel) env ans anss wd n None r agent = copy_out (Suc fuel) env ans anss wd n None r1 agent1"
  using er_Read_prepared [OF assms] by simp

section \<open>Writing a body\<close>

lemma write_piece_ok:
  assumes env: "env_ok env" "answers_ok ans c" and w: "writing env c ps x data w io"
  shows "\<exists>w' io'. write_piece env ans bs w io = Ret (w', io', None) \<and> writing env c ps x (data @ bs) w' io' \<and> ew_key w' = ew_key w"
proof (cases "bs = []")
  case False
  then show ?thesis
    using ew_Write_ok [OF env w, of bs] by (auto simp: write_piece_def)
qed (use w in \<open>simp add: write_piece_def\<close>)

lemma io_Copy_ok:
  assumes env: "env_ok env" "answers_ok ans c"
  shows "writing env c ps x data w io \<Longrightarrow>
    \<exists>w' io'. io_Copy env ans (body_of ks l) w io = Ret (w', io', None) \<and> writing env c ps x (data @ concat ks @ l) w' io' \<and> ew_key w' = ew_key w"
proof (induction ks arbitrary: data w io)
  case Nil
  obtain w1 io1 where "write_piece env ans l w io = Ret (w1, io1, None)" "writing env c ps x (data @ l) w1 io1" "ew_key w1 = ew_key w"
    using write_piece_ok [OF env Nil, of l] by blast
  then show ?case
    by (simp add: body_of_def)
next
  case (Cons k ks)
  obtain w1 io1 where w1: "write_piece env ans k w io = Ret (w1, io1, None)" "writing env c ps x (data @ k) w1 io1" "ew_key w1 = ew_key w"
    using write_piece_ok [OF env Cons.prems, of k] by blast
  then show ?case
    using Cons.IH [OF w1(2)] by (simp add: body_of_def)
qed

subsection \<open>The buffered reader\<close>

text \<open>A body that ends: every piece but the last without an error, the last with the end.\<close>

primrec ends :: "pieces \<Rightarrow> go_error option \<Rightarrow> bool" where
  "ends [] err \<longleftrightarrow> err = Some EOF"
| "ends (p # ps) err \<longleftrightarrow> err = None \<and> ends ps (snd p)"

definition stream :: "Buf \<Rightarrow> bytes" where
  "stream b = bf_buf b @ concat (map fst (bf_in b))"

definition buf_ok :: "Buf \<Rightarrow> bool" where
  "buf_ok b \<longleftrightarrow> ends (bf_in b) (bf_err b)"

lemma ends_body_of: "ends (body_of ks l) None"
  by (induction ks) (simp_all add: body_of_def)

lemma concat_body_of: "concat (map fst (body_of ks l)) = concat ks @ l"
  by (induction ks) (simp_all add: body_of_def)

lemma split_line:
  assumes "buf @ zs = xs @ n # ys" "n \<in> set buf" "n \<notin> set xs"
  shows "takeWhile (\<lambda>b. b \<noteq> n) buf = xs \<and> tl (dropWhile (\<lambda>b. b \<noteq> n) buf) @ zs = ys"
proof -
  obtain as bs where b: "buf = as @ n # bs" "n \<notin> set as"
    using assms(2) split_list_first by metis
  then have "as = xs \<and> bs @ zs = ys"
    using assms(1,3) sep_eq_iff [of n as xs "bs @ zs" ys] by simp
  then show ?thesis
    using b by (simp add: takeWhile_append dropWhile_append)
qed

lemma read_line_ok:
  "ends ps err \<Longrightarrow> buf @ concat (map fst ps) = xs @ 10 # ys \<Longrightarrow> 10 \<notin> set xs \<Longrightarrow>
    \<exists>b. read_line ps buf err = Ret (b, xs @ [10], None) \<and> buf_ok b \<and> stream b = ys"
proof (induction ps arbitrary: buf err)
  case Nil
  then have "10 \<in> set buf"
    by simp
  then show ?case
    using split_line [OF Nil(2) _ Nil(3)] Nil(1) by (simp add: buf_ok_def stream_def)
next
  case (Cons p ps)
  show ?case
  proof (cases "10 \<in> set buf")
    case True
    then show ?thesis
      using split_line [OF Cons.prems(2) _ Cons.prems(3)] Cons.prems(1) by (simp add: buf_ok_def stream_def)
  next
    case False
    then show ?thesis
      using Cons.IH [of "snd p" "buf @ fst p"] Cons.prems by simp
  qed
qed

lemma read_line_eof: "ends ps err \<Longrightarrow> buf @ concat (map fst ps) = [] \<Longrightarrow> \<exists>b. read_line ps buf err = Ret (b, [], Some EOF)"
  by (induction ps arbitrary: buf err) simp_all

lemma copy_left_ok:
  assumes env: "env_ok env" "answers_ok ans c"
  shows "writing env c pl x data w io \<Longrightarrow> ends ps err \<Longrightarrow> n \<le> length (buf @ concat (map fst ps)) \<Longrightarrow>
    \<exists>w' io' b. copy_left env ans ps n buf err w io = Ret (w', io', b, 0, None) \<and> buf_ok b \<and> stream b = drop n (buf @ concat (map fst ps))
      \<and> writing env c pl x (data @ take n (buf @ concat (map fst ps))) w' io' \<and> ew_key w' = ew_key w"
proof (induction ps arbitrary: data w io n buf err)
  case Nil
  obtain w1 io1 where "write_piece env ans (take n buf) w io = Ret (w1, io1, None)" "writing env c pl x (data @ take n buf) w1 io1" "ew_key w1 = ew_key w"
    using write_piece_ok [OF env Nil(1)] by blast
  then show ?case
    using Nil(2,3) by (simp add: buf_ok_def stream_def)
next
  case (Cons p ps)
  obtain w1 io1 where w1: "write_piece env ans (take n buf) w io = Ret (w1, io1, None)" "writing env c pl x (data @ take n buf) w1 io1" "ew_key w1 = ew_key w"
    using write_piece_ok [OF env Cons.prems(1)] by blast
  show ?case
  proof (cases "n \<le> length buf")
    case True
    then show ?thesis
      using w1 Cons.prems(2) by (simp add: buf_ok_def stream_def)
  next
    case False
    then show ?thesis
      using Cons.IH [OF w1(2), of "snd p" "n - length buf" "fst p"] w1(1,3) Cons.prems(2,3) by simp
  qed
qed

subsection \<open>Signed chunks\<close>

text \<open>A chunk of a signed body: the text of its length, its signature and its bytes.\<close>

definition signed_chunk :: "string \<times> string \<times> bytes \<Rightarrow> bytes" where
  "signed_chunk = (\<lambda>(h, sig, d). bytes_of (h @ '';chunk-signature='' @ sig @ crlf) @ d @ bytes_of crlf)"

definition chunk_valid :: "string \<times> string \<times> bytes \<Rightarrow> bool" where
  "chunk_valid = (\<lambda>(h, sig, d). h \<noteq> [] \<and> (\<forall>c \<in> set h. hex_value c \<noteq> None) \<and> read_hex 0 h = Some (length d) \<and> length d < 2 ^ 63
     \<and> sig \<noteq> [] \<and> (\<forall>c \<in> set sig. is_word c))"

lemma unat_of_char: "unat (word_of_nat (of_char c) :: byte) = of_char c"
  using of_char_less [of c] by (simp add: unat_of_nat take_bit_nat_eq_self)

lemma string_of_bytes_of [simp]: "string_of (bytes_of s) = s"
  by (induction s) (simp_all add: string_of_def bytes_of_def unat_of_char)

lemma bytes_of_append [simp]: "bytes_of (s @ t) = bytes_of s @ bytes_of t"
  by (simp add: bytes_of_def)

lemma newline_in_bytes: "10 \<in> set (bytes_of s) \<longleftrightarrow> char_of (10 :: nat) \<in> set s"
proof -
  have "(10 :: byte) = word_of_nat (of_char c) \<longleftrightarrow> c = char_of (10 :: nat)" for c
  proof
    assume "(10 :: byte) = word_of_nat (of_char c)"
    then have "of_char c = unat (10 :: byte)"
      using unat_of_char [of c] by metis
    then have "of_char c = (10 :: nat)"
      by simp
    then show "c = char_of (10 :: nat)"
      by (metis char_of_char)
  qed simp
  then show ?thesis
    by (auto simp: bytes_of_def)
qed

lemma parseSignature_chunk:
  assumes "chunk_valid (h, sig, d)"
  shows "parseSignature (h @ '';chunk-signature='' @ sig @ crlf) = Inr (length d, sig)"
proof -
  let ?s = "'';chunk-signature='' @ sig @ crlf"
  have h: "\<forall>c \<in> set h. hex_value c \<noteq> None" "h \<noteq> []" "read_hex 0 h = Some (length d)" "length d < 2 ^ 63"
    and sig: "\<forall>c \<in> set sig. is_word c" "sig \<noteq> []"
    using assms by (simp_all add: chunk_valid_def)
  have t: "takeWhile (\<lambda>c. hex_value c \<noteq> None) ?s = []" "dropWhile (\<lambda>c. hex_value c \<noteq> None) ?s = ?s"
    by (simp_all add: hex_value_def)
  have "takeWhile (\<lambda>c. hex_value c \<noteq> None) (h @ ?s) = h" "dropWhile (\<lambda>c. hex_value c \<noteq> None) (h @ ?s) = ?s"
    using t h(1) takeWhile_append2 [of h "\<lambda>c. hex_value c \<noteq> None" ?s] dropWhile_append2 [of h "\<lambda>c. hex_value c \<noteq> None" ?s] by auto
  moreover have "takeWhile is_word (sig @ crlf) = sig" "dropWhile is_word (sig @ crlf) = crlf"
    using sig(1) by (simp_all add: crlf_def is_word_def)
  moreover have "has_prefix ?s '';chunk-signature=''" "trim_prefix ?s '';chunk-signature='' = sig @ crlf" "has_prefix crlf crlf"
    by (simp_all add: trim_prefix_def has_prefix_iff)
  ultimately have m: "match_signature (h @ ?s) = Some (h, sig)"
    using h(2) sig(2) unfolding match_signature_def Let_def by simp
  obtain c cs where "h = c # cs"
    using h(2) by (cases h) auto
  then have "find_signature (h @ ?s) = Some (h, sig)"
    using m by simp
  then show ?thesis
    using h(3,4) by (simp add: parseSignature_def)
qed

lemma chunk_line:
  assumes "chunk_valid (h, sig, d)"
  shows "\<exists>xs. bytes_of (h @ '';chunk-signature='' @ sig @ crlf) = xs @ [10] \<and> 10 \<notin> set xs"
proof -
  let ?t = "h @ '';chunk-signature='' @ sig @ [char_of (13 :: nat)]"
  have "char_of (10 :: nat) \<notin> set h" "char_of (10 :: nat) \<notin> set sig"
    using assms by (auto simp: chunk_valid_def hex_value_def is_word_def)
  then have "10 \<notin> set (bytes_of ?t)"
    unfolding newline_in_bytes by (simp add: char_of_def)
  moreover have "bytes_of (h @ '';chunk-signature='' @ sig @ crlf) = bytes_of ?t @ [10]"
    by (simp add: crlf_def bytes_of_def)
  ultimately show ?thesis
    by blast
qed

lemma ReadString_ok: "buf_ok b \<Longrightarrow> stream b = xs @ 10 # ys \<Longrightarrow> 10 \<notin> set xs \<Longrightarrow>
    \<exists>b'. ReadString b = Ret (b', xs @ [10], None) \<and> buf_ok b' \<and> stream b' = ys"
  unfolding ReadString_def using read_line_ok [of "bf_in b" "bf_err b" "bf_buf b" xs ys] by (simp add: buf_ok_def stream_def)

lemma ReadString_eof: "buf_ok b \<Longrightarrow> stream b = [] \<Longrightarrow> \<exists>b'. ReadString b = Ret (b', [], Some EOF)"
  unfolding ReadString_def using read_line_eof [of "bf_in b" "bf_err b" "bf_buf b"] by (simp add: buf_ok_def stream_def)

lemma CopyN_ok:
  assumes "env_ok env" "answers_ok ans c" "writing env c ps x data w io" "buf_ok b" "stream b = d @ ys"
  shows "\<exists>w' io' b'. CopyN env ans (length d) b w io = Ret (w', io', b', 0, None) \<and> buf_ok b' \<and> stream b' = ys
    \<and> writing env c ps x (data @ d) w' io' \<and> ew_key w' = ew_key w"
proof -
  have s: "bf_buf b @ concat (map fst (bf_in b)) = d @ ys"
    using assms(5) by (simp add: stream_def)
  show ?thesis
    using copy_left_ok [OF assms(1-3), of "bf_in b" "bf_err b" "length d" "bf_buf b"] assms(4) unfolding s
    by (simp add: CopyN_def buf_ok_def)
qed

lemma put_stream_chunk:
  assumes env: "env_ok env" "answers_ok ans c" and w: "writing env c ps x data w io" and b: "buf_ok b" "stream b = signed_chunk (h, sig, d) @ ys"
    and v: "chunk_valid (h, sig, d)"
  shows "\<exists>w' io' b'. put_stream q bk key env ans (Suc fuel) b w io = put_stream q bk key env ans fuel b' w' io'
    \<and> buf_ok b' \<and> stream b' = ys \<and> writing env c ps x (data @ d) w' io' \<and> ew_key w' = ew_key w"
proof -
  let ?line = "h @ '';chunk-signature='' @ sig @ crlf"
  obtain xs where xs: "bytes_of ?line = xs @ [10]" "10 \<notin> set xs"
    using chunk_line [OF v] by blast
  have "stream b = xs @ 10 # (d @ bytes_of crlf @ ys)"
    using b(2) xs(1) by (simp add: signed_chunk_def)
  then obtain b1 where b1: "ReadString b = Ret (b1, bytes_of ?line, None)" "buf_ok b1" "stream b1 = d @ bytes_of crlf @ ys"
    using ReadString_ok [OF b(1) _ xs(2)] unfolding xs(1) by blast
  obtain w2 io2 b2 where w2: "CopyN env ans (length d) b1 w io = Ret (w2, io2, b2, 0, None)" "buf_ok b2" "stream b2 = bytes_of crlf @ ys"
      "writing env c ps x (data @ d) w2 io2" "ew_key w2 = ew_key w"
    using CopyN_ok [OF env w b1(2,3)] by blast
  have "stream b2 = [13] @ 10 # ys" "(10 :: byte) \<notin> set [13]" "[13] @ [10] = bytes_of crlf"
    using w2(3) by (simp_all add: crlf_def bytes_of_def)
  then obtain b3 where b3: "ReadString b2 = Ret (b3, bytes_of crlf, None)" "buf_ok b3" "stream b3 = ys"
    using ReadString_ok [OF w2(2)] by metis
  have "exec_bind m (\<lambda>(w, io, es, ok). Ret (w, io, es, ok)) = m" for m :: "(EcosWriter \<times> IO \<times> (nat \<times> S3Error) list \<times> bool) exec"
    by (cases m) auto
  then have "put_stream q bk key env ans (Suc fuel) b w io = put_stream q bk key env ans fuel b3 w2 io2"
    using b1(1) w2(1) b3(1) parseSignature_chunk [OF v] by (simp del: bytes_of_append)
  then show ?thesis
    using b3 w2(4,5) by blast
qed

lemma put_stream_ok:
  assumes env: "env_ok env" "answers_ok ans c"
  shows "writing env c ps x data w io \<Longrightarrow> buf_ok b \<Longrightarrow> stream b = concat (map signed_chunk cs) \<Longrightarrow> list_all chunk_valid cs \<Longrightarrow> length cs < fuel \<Longrightarrow>
    \<exists>w' io'. put_stream q bk key env ans fuel b w io = Ret (w', io', [], True)
      \<and> writing env c ps x (data @ concat (map (\<lambda>ch. snd (snd ch)) cs)) w' io' \<and> ew_key w' = ew_key w"
proof (induction cs arbitrary: data w io b fuel)
  case Nil
  then obtain fuel' where f: "fuel = Suc fuel'"
    by (cases fuel) auto
  obtain b' where "ReadString b = Ret (b', [], Some EOF)"
    using ReadString_eof [OF Nil(2)] Nil(3) by auto
  then show ?case
    using f Nil(1) by simp
next
  case (Cons ch cs)
  obtain h sig d where ch: "ch = (h, sig, d)"
    using prod_cases3 by blast
  obtain fuel' where f: "fuel = Suc fuel'" "length cs < fuel'"
    using Cons.prems(5) by (cases fuel) auto
  obtain w1 io1 b1 where w1: "put_stream q bk key env ans fuel b w io = put_stream q bk key env ans fuel' b1 w1 io1" "buf_ok b1"
      "stream b1 = concat (map signed_chunk cs)" "writing env c ps x (data @ d) w1 io1" "ew_key w1 = ew_key w"
    using put_stream_chunk [OF env Cons.prems(1,2), of h sig d "concat (map signed_chunk cs)" q bk key fuel'] Cons.prems(3,4) ch f(1) by auto
  show ?case
    using Cons.IH [OF w1(4,2,3) _ f(2)] w1(1,5) Cons.prems(4) ch by simp
qed

section \<open>An object stored by the gateway\<close>

text \<open>The body of a request carries an object: plain, or in signed chunks.\<close>

definition carries :: "HttpReq \<Rightarrow> bytes \<Rightarrow> bool" where
  "carries q data \<longleftrightarrow> (\<exists>ks l. Body q = body_of ks l \<and>
     (if GetHeader q ''X-Amz-Content-Sha256'' = ''STREAMING-AWS4-HMAC-SHA256-PAYLOAD''
      then \<exists>cs. list_all chunk_valid cs \<and> concat ks @ l = concat (map signed_chunk cs) \<and> data = concat (map (\<lambda>ch. snd (snd ch)) cs)
      else data = concat ks @ l))"

definition object_stored :: "IOEnv \<Rightarrow> ClusterInfo \<Rightarrow> ClusterPipelines \<Rightarrow> string \<Rightarrow> bytes \<Rightarrow> ObjectMeta \<Rightarrow> IO \<Rightarrow> bool" where
  "object_stored env c ps key data meta io \<longleftrightarrow> UpdateTime meta \<noteq> None \<and> ObjSize meta = word_of_nat (length data) \<and> Term_m meta = Term c
     \<and> GenObjectId (c_ring env) (c_bucket env) key = Ret (ObjId meta)
     \<and> (\<exists>dn. Blocks meta = map fst dn \<and> closed_shape env dn \<and> concat (concat (map snd dn)) = data \<and> stored_all env c ps dn io)"

lemma chunks_bound: "length cs \<le> length (concat (map signed_chunk cs))"
  by (induction cs) (auto simp: signed_chunk_def bytes_of_def split_beta)

lemma body_copied:
  assumes env: "env_ok ioenv" "answers_ok ans c" and w: "writing ioenv c ps x [] w io" and q: "carries q data"
  shows "\<exists>w' io'. copy_body ioenv ans q b key w io = Ret (w', io', [], True)
    \<and> writing ioenv c ps x data w' io' \<and> ew_key w' = ew_key w"
proof -
  obtain ks l where kl: "Body q = body_of ks l"
    using q by (auto simp: carries_def)
  show ?thesis
  proof (cases "GetHeader q ''X-Amz-Content-Sha256'' = ''STREAMING-AWS4-HMAC-SHA256-PAYLOAD''")
    case True
    let ?b = "\<lparr>bf_buf = [], bf_err = None, bf_in = Body q\<rparr>"
    obtain cs where cs: "list_all chunk_valid cs" "stream ?b = concat (map signed_chunk cs)" "data = concat (map (\<lambda>ch. snd (snd ch)) cs)"
      using q True concat_body_of unfolding carries_def stream_def by auto
    have b: "buf_ok ?b" "length cs < Suc (body_length (Body q))"
      using kl ends_body_of chunks_bound [of cs] cs(2) by (simp_all add: buf_ok_def body_length_def stream_def)
    show ?thesis
      using put_stream_ok [OF env w b(1) cs(2,1) b(2), of q b key] True cs(3) by (simp add: copy_body_def del: put_stream.simps)
  next
    case False
    then have "data = concat ks @ l"
      using q kl concat_body_of unfolding carries_def by auto metis
    then show ?thesis
      using io_Copy_ok [OF env w, of ks l] False kl by (auto simp: copy_body_def)
  qed
qed

text \<open>
  An agent that reaches the cluster \<open>c\<close> with its next request: it knows the cluster already, or it is
  new and the node it was configured with answers.
\<close>

definition agent_near :: "Answers \<Rightarrow> ClusterInfo \<Rightarrow> InfoAgent \<Rightarrow> bool" where
  "agent_near ans c agent \<longleftrightarrow> ia_connectType agent = ConnectEdge \<and> cache_truthful c (ia_register agent)
     \<and> (\<exists>c0. ia_cluster agent = Some c0 \<and> ask_nodes (a_cluster ans) (NodesInfo c0) = Some c)"

lemma near_current:
  assumes "agent_near ans c agent"
  shows "GetCurClusterInfo ans agent = Ret (agent\<lparr>ia_cluster := Some c\<rparr>, c)" "agent_ok c (agent\<lparr>ia_cluster := Some c\<rparr>)"
  using assms by (auto simp: agent_near_def agent_ok_def GetCurClusterInfo_def UpdateCurClusterInfo_def)

lemma ok_near: "answers_ok ans c \<Longrightarrow> agent_ok c agent \<Longrightarrow> agent_near ans c agent"
  by (simp add: agent_near_def agent_ok_def answers_ok_def)

text \<open>What a client needs besides an agent.\<close>

definition storage_ok :: "IOEnv \<Rightarrow> ClusterInfo \<Rightarrow> ClusterPipelines \<Rightarrow> localChunk Pool \<Rightarrow> World \<Rightarrow> bool" where
  "storage_ok env c ps pool wd \<longleftrightarrow> env_ok env \<and> bucket_ok (c_bucket env) \<and> meta_served (c_crush env) c ps \<and> BlockPgNum c = 100
     \<and> cluster_stores (w_servers wd) c ps \<and> pool_ok (blank env) 0 pool \<and> chunks_per_block env \<le> maxCount pool"

lemma client_ok_parts: "client_ok env c ps io \<longleftrightarrow> storage_ok env c ps (io_pool io) (io_world io) \<and> agent_ok c (io_agent io)"
  by (auto simp: client_ok_def storage_ok_def)

lemma GetEcosWriter_near:
  assumes "agent_near ans c (io_agent io)" "answers_ok ans c" "storage_ok env c ps (io_pool io) (io_world io)"
  shows "\<exists>w io'. GetEcosWriter env ans key io = Ret (w, io') \<and> writing env c ps 0 [] w io' \<and> ew_key w = key"
proof -
  let ?a = "(io_agent io)\<lparr>ia_cluster := Some c\<rparr>"
  have "GetCurClusterInfo ans (io_agent io) = GetCurClusterInfo ans ?a"
    using near_current [OF assms(1)] GetCurClusterInfo_ok [OF assms(2), of ?a] by simp
  then have "GetEcosWriter env ans key io = GetEcosWriter env ans key (io\<lparr>io_agent := ?a\<rparr>)"
    by (simp add: GetEcosWriter_def)
  moreover have "client_ok env c ps (io\<lparr>io_agent := ?a\<rparr>)"
    using near_current(2) [OF assms(1)] assms(3) by (simp add: client_ok_parts)
  ultimately show ?thesis
    using GetEcosWriter_ok [OF _ assms(2)] by fastforce
qed

lemma g_tries_eq: "g_tries env = g_answers env # map o_answers (g_retries env)"
  by (simp add: g_tries_def g_attempts_def g_answers_def)

lemma put_body_ok:
  assumes f: "factory_env (g_libs env) f = Ret ioenv" "agent_near (g_answers env) c (io_agent (f_io f))"
      "storage_ok ioenv c ps (io_pool (f_io f)) (io_world (f_io f))"
    and ans: "answers_ok (g_answers env) c" "\<And>server ctx m. \<exists>r. a_record (g_answers env) server ctx m = Inr r"
    and q: "carries q data"
  shows "\<exists>io meta. put_body env q b key f = Ret (f\<lparr>f_io := io\<rparr>, [], Some [meta]) \<and> object_stored ioenv c ps key data meta io"
proof -
  have s: "env_ok ioenv" "bucket_ok (c_bucket ioenv)" "meta_served (c_crush ioenv) c ps"
    using f(3) by (simp_all add: storage_ok_def)
  obtain w1 io1 where w1: "GetEcosWriter ioenv (g_answers env) key (f_io f) = Ret (w1, io1)" "writing ioenv c ps 0 [] w1 io1" "ew_key w1 = key"
    using GetEcosWriter_near [OF f(2) ans(1) f(3)] by blast
  obtain w2 io2 where w2: "copy_body ioenv (g_answers env) q b key w1 io1 = Ret (w2, io2, [], True)"
      "writing ioenv c ps 0 data w2 io2" "ew_key w2 = key"
    using body_copied [OF s(1) ans(1) w1(2) q] w1(3) by blast
  obtain w3 io3 meta dn where w3: "ew_Close ioenv (g_answers env) (g_tries env) (g_time env 0) w2 io2 = Ret (w3, io3, Some meta, None)"
      "Blocks meta = map fst dn" "ObjSize meta = word_of_nat (length data)" "Term_m meta = Term c"
      "GenObjectId (c_ring ioenv) (c_bucket ioenv) key = Ret (ObjId meta)" "closed_shape ioenv dn"
      "concat (concat (map snd dn)) = data" "stored_all ioenv c ps dn io3" "UpdateTime meta = Some (g_time env 0)"
    using ew_Close_ok [OF s(1,2) ans(1) ans(1) s(3) ans(2) w2(2), of "map o_answers (g_retries env)" "g_time env 0"] w2(3)
    unfolding g_tries_eq by auto
  have "put_body env q b key f = Ret (f\<lparr>f_io := io3\<rparr>, [], Some [meta])"
    using f(1) w1(1) w2(1) w3(1) by (simp add: put_body_def close_put_def)
  moreover have "object_stored ioenv c ps key data meta io3"
    unfolding object_stored_def using w3(2-9) by blast
  ultimately show ?thesis
    by blast
qed

lemma open_object:
  assumes s: "storage_ok ioenv c ps pool wd" and ans: "answers_ok ans c" "answers_ok ans' c"
    and o: "object_stored ioenv c ps key data meta io" "\<And>server ctx. a_meta ans' server ctx (ObjId meta) = Inr meta" "length data < 2 ^ 62"
  obtains views P r1 agent1 where "prepare ioenv ans (ans' # anss) (GetEcosReader key) (io_agent io) = Ret (r1, agent1, None)"
    "fetches ioenv ans (io_world io) meta views P" "reading meta views P (concat views) r1 agent1"
    "concat views = object_view ioenv data" "length views = length (Blocks meta)"
proof -
  have env: "env_ok ioenv" "bucket_ok (c_bucket ioenv)" "meta_served (c_crush ioenv) c ps" "BlockPgNum c = 100"
    using s by (simp_all add: storage_ok_def)
  obtain dn where dn: "Blocks meta = map fst dn" "closed_shape ioenv dn" "concat (concat (map snd dn)) = data" "stored_all ioenv c ps dn io"
    using o(1) unfolding object_stored_def by blast
  let ?vs = "map (\<lambda>x. block_view (snd x)) dn"
  have r: "ring_ok (c_ring ioenv)" "bufio_size < unat (c_chunkSize ioenv)"
    using env(1) by (simp_all add: env_ok_def bufio_size_def)
  have m: "GenObjectId (c_ring ioenv) (c_bucket ioenv) key = Ret (ObjId meta)" "Term_m meta = Term c"
    using o(1) by (simp_all add: object_stored_def)
  have "\<forall>(info, ks) \<in> set dn. length (concat ks) \<le> block_cap ioenv"
    using closed_shape_bound [OF dn(2)] by blast
  moreover have "length (concat (concat (map snd dn))) < 2 ^ 62"
    using o(3) unfolding dn(3) .
  ultimately obtain r1 agent1 where p: "prepare ioenv ans (ans' # anss) (GetEcosReader key) (io_agent io) = Ret (r1, agent1, None)"
      "fetches ioenv ans (io_world io) meta ?vs (served ioenv c ps (io_world io))"
      "reading meta ?vs (served ioenv c ps (io_world io)) (concat ?vs) r1 agent1"
    using open_stored [OF r(1) env(2-4) ans m(1) o(2) m(2) dn(1) _ dn(4) _ refl] by metis
  then show ?thesis
    using that views_closed [OF r(2) dn(2,3)] dn(1) unfolding object_view_def by simp
qed

section \<open>A gateway that was just started\<close>

text \<open>The cache of factories, as \<^verbatim>\<open>golang-lru\<close> documents it: it is empty at first and finds what was added last.\<close>

definition lru_ok :: "'p Lru \<Rightarrow> 'p \<Rightarrow> bool" where
  "lru_ok lru p0 \<longleftrightarrow> (\<forall>k. lru_Get lru k p0 = (p0, None)) \<and> (\<forall>k v. snd (lru_Add lru k v p0) = [])
     \<and> (\<forall>k v p. snd (lru_Get lru k (fst (lru_Add lru k v p))) = Some v)"

text \<open>
  The nodes answer about the cluster and about the bucket \<open>b\<close>: the node the client is configured with,
  which is all the client knows at first, and the nodes of the cluster.
\<close>

definition bucket_served :: "Answers \<Rightarrow> ClientConfig \<Rightarrow> ClusterInfo \<Rightarrow> string \<Rightarrow> BucketInfo \<Rightarrow> bool" where
  "bucket_served ans conf c b bi \<longleftrightarrow> ConnectType_cc conf = ConnectEdge \<and> answers_ok ans c \<and> (\<exists>n \<in> set (NodesInfo c). State n = ONLINE)
     \<and> (\<forall>n \<in> set (NodesInfo (configured_cluster conf)). a_cluster ans n = Inr c)
     \<and> (\<forall>n \<in> set (NodesInfo (configured_cluster conf)) \<union> set (NodesInfo c).
          a_info ans n BUCKET_INFO (GenBucketID userID b) = Inr (BaseInfo_BucketInfo bi))"

text \<open>What the factories of a client look up, for the bucket and the libraries at hand.\<close>

definition opens :: "Libs \<Rightarrow> ClientConfig \<Rightarrow> IOEnv \<Rightarrow> bool" where
  "opens libs conf e \<longleftrightarrow> Libs.truncate e = libs \<and> Config (c_bucket e) = Some (c_config e) \<and> c_chunkSize e = ChunkSize conf"

lemma factory_env_opens:
  "opens libs conf e \<Longrightarrow> f_config f = conf \<Longrightarrow> f_bucketInfo f = Some (c_bucket e) \<Longrightarrow> factory_env libs f = Ret e"
  by (cases e) (auto simp: opens_def factory_env_def Libs.truncate_def)

lemma GetBucketID_good: "good_comp v \<Longrightarrow> good_comp b \<Longrightarrow> GetBucketID v b = GenBucketID v b"
  by (simp add: GetBucketID_def path_clean_good good_comp_def contains_slash)

lemma cache_truthful_bucket:
  assumes "cache_truthful c r"
  shows "cache_truthful c (fst (reg_Update (IBase (BaseInfo_BucketInfo b)) r))"
proof (cases "sm_load (storageMap r) BUCKET_INFO = None")
  case False
  have ok: "reg_ok r"
    using assms by (simp add: cache_truthful_def)
  then show ?thesis
    using assms reg_ok_Update [OF ok] reg_Get_Update [OF ok, of "IBase (BaseInfo_BucketInfo b)"] False by (simp add: cache_truthful_def)
qed (use assms in \<open>simp add: reg_Update_def\<close>)

lemma new_register: "\<exists>e. reg_Get (GetStorageRegister :: unit StorageRegister) t i = Inl e"
  by (cases t) (simp_all add: reg_Get_def mis_Get_def GetStorageRegister_def registerAllStorage_def reg_Register_def
      sm_load_def sm_store_def NewMemoryInfoStorage_def)

lemma new_near:
  assumes "bucket_served ans conf c b bi"
  shows "agent_near ans c (NewInfoAgent (configured_cluster conf) (ConnectType_cc conf))"
proof -
  have "cache_truthful c GetStorageRegister"
    unfolding cache_truthful_def using new_register reg_ok_GetStorageRegister by (metis Inl_Inr_False)
  then show ?thesis
    using assms by (simp add: agent_near_def bucket_served_def NewInfoAgent_def configured_cluster_def)
qed

lemma NewEcosIOFactory_ok:
  assumes s: "bucket_served ans conf c b bi" and b: "good_comp b" and p: "chunk_pool conf = Ret pool"
  shows "\<exists>agent. NewEcosIOFactory ans conf userID b wd next = Ret (Inr \<lparr>f_config = conf, f_bucketInfo = Some bi,
      f_io = \<lparr>io_agent = agent, io_pool = pool, io_world = wd, io_next = next\<rparr>, multipartJobs = []\<rparr>) \<and> agent_near ans c agent"
proof -
  let ?a = "NewInfoAgent (configured_cluster conf) (ConnectType_cc conf)" and ?i = "IBase (BaseInfo_BucketInfo bi)"
  obtain e where e: "reg_Get (ia_register ?a) BUCKET_INFO (GenBucketID userID b) = Inl e"
    using new_register by (auto simp: NewInfoAgent_def)
  have "agent_near ans c (fst (ia_Update ?i ?a))"
    using new_near [OF s] cache_truthful_bucket by (simp add: agent_near_def ia_Update_def split_beta)
  moreover have "ia_Get ans BUCKET_INFO (GenBucketID userID b) ?a = Ret (fst (ia_Update ?i ?a), ?i, None)"
    using s e by (simp add: ia_Get_def GetInfoByEdge_def bucket_served_def NewInfoAgent_def configured_cluster_def)
  moreover have "GetBucketID userID b = GenBucketID userID b"
    using b by (intro GetBucketID_good) (simp_all add: userID_def GetUserID_def good_comp_def)
  ultimately show ?thesis
    using p by (simp add: NewEcosIOFactory_def GetBucketInfo_base_def)
qed

lemma open_new:
  assumes s: "bucket_served ans conf c b bi" "good_comp b" "chunk_pool conf = Ret pool" and lru: "lru_ok lru p0"
  shows "\<exists>agent. GetIOFactory lru ans b (NewClient conf p0 wd next) =
      Ret ((NewClient conf p0 wd next)\<lparr>factoryPool := fst (lru_Add lru b 0 p0),
        factories := [\<lparr>f_config = conf, f_bucketInfo = Some bi,
          f_io = \<lparr>io_agent = agent, io_pool = pool, io_world = wd, io_next = next\<rparr>, multipartJobs = []\<rparr>]\<rparr>, Inr 0)
      \<and> agent_near ans c agent"
proof -
  have l: "lru_Get lru b p0 = (p0, None)" "snd (lru_Add lru b 0 p0) = []"
    using lru by (simp_all add: lru_ok_def)
  show ?thesis
    using NewEcosIOFactory_ok [OF s, of wd "next"] l by (auto simp: GetIOFactory_def add_factory_def NewClient_def evict_def Let_def split_beta)
qed

definition start :: "'p Client \<Rightarrow> 'p Gw" where
  "start cl = \<lparr>gw_client = cl, gw_replies = [], gw_sent = [], gw_recorded = []\<rparr>"

text \<open>A client that has opened one bucket and stored an object in it.\<close>

definition holds :: "'p Lru \<Rightarrow> ClientConfig \<Rightarrow> IOEnv \<Rightarrow> ClusterInfo \<Rightarrow> ClusterPipelines \<Rightarrow> string \<Rightarrow> string \<Rightarrow> bytes \<Rightarrow> ObjectMeta \<Rightarrow> 'p Client \<Rightarrow> bool" where
  "holds lru conf e c ps b key data meta cl \<longleftrightarrow> cl_config cl = conf
     \<and> cl_agent cl = NewInfoAgent (configured_cluster conf) (ConnectType_cc conf) \<and> snd (lru_Get lru b (factoryPool cl)) = Some 0
     \<and> (\<exists>f. factories cl = [f] \<and> f_config f = conf \<and> f_bucketInfo f = Some (c_bucket e)
          \<and> io_world (f_io f) = cl_world cl \<and> io_next (f_io f) = cl_next cl \<and> object_stored e c ps key data meta (f_io f))"

text \<open>The requests for an object that the router hands to \<^verbatim>\<open>putObject\<close> and \<^verbatim>\<open>getObject\<close>.\<close>

definition put_request :: "HttpReq \<Rightarrow> string \<Rightarrow> string \<Rightarrow> bool" where
  "put_request q b key \<longleftrightarrow> bucketName_q q = b \<and> key_q q = key \<and> \<not> GetQuery q ''uploadId'' \<and> GetHeader q ''x-amz-copy-source'' = []"

definition get_request :: "HttpReq \<Rightarrow> string \<Rightarrow> string \<Rightarrow> bool" where
  "get_request q b key \<longleftrightarrow> bucketName_q q = b \<and> key_q q = key \<and> \<not> GetQuery q ''uploadId'' \<and> \<not> GetQuery q ''partNumber''"

definition greeting :: "reply list" where
  "greeting = [SetHeader ''Server'' ''ECOS'', SetHeader ''Accept-Ranges'' ''bytes'']"

lemma route_object:
  assumes "key \<notin> {[], ''/''}"
  shows "put_request q b key \<Longrightarrow> route PUT_h ObjectRoute env q g = putObject env q (g\<lparr>gw_replies := gw_replies g @ greeting\<rparr>)"
    and "get_request q b key \<Longrightarrow> route GET ObjectRoute env q g = getObject env q (g\<lparr>gw_replies := gw_replies g @ greeting\<rparr>)"
  using assms
  by (simp_all add: route_def objectLevelPutHandler_def objectLevelGetHandler_def put_request_def get_request_def say_def greeting_def)

lemma put_ok:
  assumes e: "opens (g_libs env) conf e" "storage_ok e c ps pool wd" "chunk_pool conf = Ret pool" and lru: "lru_ok (g_lru env) p0"
    and b: "bucket_served (g_answers env) conf c b (c_bucket e)" "good_comp b"
    and r: "\<And>server ctx m. \<exists>r. a_record (g_answers env) server ctx m = Inr r"
    and q: "put_request q b key" "key \<notin> {[], ''/''}" "carries q data"
  shows "\<exists>cl meta. route PUT_h ObjectRoute env q (start (NewClient conf p0 wd next))
      = Ret ((start cl)\<lparr>gw_replies := greeting @ [SetStatus 200], gw_recorded := [meta]\<rparr>)
    \<and> holds (g_lru env) conf e c ps b key data meta cl"
proof -
  let ?f = "\<lambda>agent. \<lparr>f_config = conf, f_bucketInfo = Some (c_bucket e),
      f_io = \<lparr>io_agent = agent, io_pool = pool, io_world = wd, io_next = next\<rparr>, multipartJobs = []\<rparr>"
  let ?cl = "\<lambda>agent. (NewClient conf p0 wd next)\<lparr>factoryPool := fst (lru_Add (g_lru env) b 0 p0), factories := [?f agent]\<rparr>"
  obtain agent where a: "GetIOFactory (g_lru env) (g_answers env) b (NewClient conf p0 wd next) = Ret (?cl agent, Inr 0)"
      "agent_near (g_answers env) c agent"
    using open_new [OF b e(3) lru] by blast
  have "factory_env (g_libs env) (?f agent) = Ret e" "answers_ok (g_answers env) c"
    using factory_env_opens [OF e(1)] b(1) by (simp_all add: bucket_served_def)
  then obtain io meta where p: "put_body env q b key (?f agent) = Ret ((?f agent)\<lparr>f_io := io\<rparr>, [], Some [meta])" "object_stored e c ps key data meta io"
    using put_body_ok [of env "?f agent" e c ps q data b key] a(2) e(2) r q(3) by auto
  have n: "bucketName_q q = b" "key_q q = key" "b \<noteq> []" "key \<noteq> []"
    using q b(2) by (auto simp: put_request_def good_comp_def)
  have l: "lend_factory 0 (?cl agent) = Ret (?f agent)"
    by (simp add: lend_factory_def NewClient_def nth_opt_def)
  let ?k = "keep_factory 0 ((?f agent)\<lparr>f_io := io\<rparr>) (?cl agent)"
  have "route PUT_h ObjectRoute env q (start (NewClient conf p0 wd next)) = Ret ((start ?k)\<lparr>gw_replies := greeting @ [SetStatus 200], gw_recorded := [meta]\<rparr>)"
    unfolding route_object(1) [OF q(2,1)]
    using n a(1) l p(1) by (simp add: putObject_def parseBucketKey_def parseBucket_def getFactory_def open_factory_def start_def
        with_factory_def finish_put_def say_errors_def say_def)
  moreover have "holds (g_lru env) conf e c ps b key data meta ?k"
    using p(2) lru by (simp add: holds_def keep_factory_def NewClient_def lru_ok_def)
  ultimately show ?thesis
    by blast
qed

lemma open_again:
  assumes "holds lru conf e c ps b key data meta cl" "factories cl = [f]" "f_bucketInfo f = Some bi" "io_world (f_io f) = cl_world cl" "io_next (f_io f) = cl_next cl"
  shows "GetIOFactory lru ans b (cl\<lparr>cl_agent := agent\<rparr>) = Ret (cl\<lparr>cl_agent := agent, factoryPool := fst (lru_Get lru b (factoryPool cl))\<rparr>, Inr 0)"
    and "lend_factory 0 (cl\<lparr>cl_agent := agent, factoryPool := p\<rparr>) = Ret f"
  using assms by (simp_all add: GetIOFactory_def holds_def lend_factory_def nth_opt_def split_beta IsConnected_def)

lemma bucket_operator_near:
  assumes s: "bucket_served (g_answers env) (cl_config (gw_client g)) c b bi" "agent_near (g_answers env) c (cl_agent (gw_client g))"
  shows "bucket_operator env q b g =
    Ret (g\<lparr>gw_client := (gw_client g)\<lparr>cl_agent := (cl_agent (gw_client g))\<lparr>ia_cluster := Some c\<rparr>\<rparr>\<rparr>, Some (Some bi))"
proof -
  obtain n where n: "List.find (\<lambda>n. State n = ONLINE) (NodesInfo c) = Some n" "n \<in> set (NodesInfo c)"
    using s(1) by (cases "List.find (\<lambda>n. State n = ONLINE) (NodesInfo c)") (auto simp: bucket_served_def find_None_iff find_Some_iff)
  then have "a_info (g_answers env) n BUCKET_INFO (GenBucketID userID b) = Inr (BaseInfo_BucketInfo bi)" "ConnectType_cc (cl_config (gw_client g)) = ConnectEdge"
    using s(1) by (simp_all add: bucket_served_def)
  then show ?thesis
    using near_current(1) [OF s(2)] n(1)
    by (simp add: bucket_operator_def find_bucket_def op_Get_def g_attempts_def GetVolumeOperator_def volume_Get_def GetMoon_def
        GetBucketInfo_base_def flip: g_answers_def)
qed

text \<open>The reply of the metadata service decides what \<^verbatim>\<open>getObjectOperator\<close> returns.\<close>

lemma getObjectOperator_near:
  assumes e: "opens (g_libs env) conf e" "storage_ok e c ps pool wd" and g: "cl_config (gw_client g) = conf"
    and s: "bucket_served (g_answers env) conf c b (c_bucket e)" "agent_near (g_answers env) c (cl_agent (gw_client g))"
    and o: "GenObjectId (c_ring e) (c_bucket e) key = Ret objID"
    and m: "\<And>server ctx. a_meta (g_answers env) server ctx objID = res" "\<And>err. res = Inl err \<Longrightarrow> \<not> term_refused err"
  shows "\<exists>agent. agent_ok c agent \<and> (let g' = g\<lparr>gw_client := (gw_client g)\<lparr>cl_agent := agent\<rparr>\<rparr>
    in getObjectOperator env q b key g = Ret (case res of
         Inr meta \<Rightarrow> (g', Some meta)
       | Inl err \<Rightarrow> (if mentions err InfoNotFound then say_error 404 (NoSuchKey_s3 b (URLPath q) key) g'
           else say_error 500 (InternalError_s3 (Error err) b (URLPath q) (Some key)) g', None)))"
proof -
  let ?a = "(cl_agent (gw_client g))\<lparr>ia_cluster := Some c\<rparr>"
  have l: "c_ring (g_libs env) = c_ring e" "c_crush (g_libs env) = c_crush e"
    using e(1) by (cases "g_libs env"; auto simp: opens_def Libs.truncate_def)+
  have h: "ring_ok (c_ring (g_libs env))" "bucket_ok (c_bucket e)" "meta_served (c_crush (g_libs env)) c ps" "answers_ok (o_answers (g_op env)) c"
    using e(2) s(1) l by (simp_all add: storage_ok_def env_ok_def bucket_served_def g_answers_def)
  obtain agent n where "bucket_call (g_libs env) (\<lambda>ops n ctx i. a_meta (o_answers ops) (Some n) ctx i) (g_attempts env) (Some (c_bucket e)) key ?a
      = Ret (agent, [(n, term_ctx (Term c), objID)], res)" "agent_ok c agent"
    using bucket_call_ok [OF h near_current(2) [OF s(2)], of key objID "\<lambda>ops n ctx i. a_meta (o_answers ops) (Some n) ctx i" "g_retries env"]
      o l m unfolding g_attempts_def g_answers_def by auto
  moreover have "bucket_operator env q b g = Ret (g\<lparr>gw_client := (gw_client g)\<lparr>cl_agent := ?a\<rparr>\<rparr>, Some (Some (c_bucket e)))"
    using bucket_operator_near s g by blast
  ultimately show ?thesis
    by (intro exI [of _ agent]) (auto simp: getObjectOperator_def op_Get_def bucket_Get_def Let_def split: sum.splits)
qed

section \<open>An object read by the gateway\<close>

lemma length_object_view [simp]: "length (object_view e data) = length data"
  by (simp add: object_view_def lost_def Let_def)

lemma get_full_ok:
  assumes s: "storage_ok e c ps pool wd" and ans: "answers_ok (g_answers env) c"
    and o: "object_stored e c ps key data meta io" "\<And>server ctx. a_meta (g_answers env) server ctx (ObjId meta) = Inr meta" "length data < 2 ^ 62"
    and f: "length data < g_fuel env * copy_buffer"
  shows "\<exists>agent. get_full env e meta (io_world io) (GetEcosReader key) (io_agent io)
    = Ret (agent, [SetTime ''Last-Modified'' (the (UpdateTime meta)), SendData 200 (int (length data)) (object_view e data) None])"
proof -
  obtain views P r1 agent1 where p: "prepare e (g_answers env) (g_tries env) (GetEcosReader key) (io_agent io) = Ret (r1, agent1, None)"
      "fetches e (g_answers env) (io_world io) meta views P" "reading meta views P (concat views) r1 agent1" "concat views = object_view e data"
    by (rule open_object [OF s ans ans o, where anss = "map o_answers (g_retries env)", folded g_tries_eq])
  obtain fuel where fuel: "g_fuel env = Suc fuel"
    using f by (cases "g_fuel env") auto
  have l: "0 < copy_buffer" "copy_buffer < 2 ^ 62" "length (concat views) < g_fuel env * copy_buffer"
    using f p(4) by (simp_all add: copy_buffer_def)
  obtain r2 agent2 where "copy_out (g_fuel env) e (g_answers env) (g_tries env) (io_world io) copy_buffer None r1 agent1 = Ret (r2, agent2, concat views, None)"
    using copy_out_all [OF p(2) l(1,2) p(3) l(3)] by blast
  then have "copy_out (g_fuel env) e (g_answers env) (g_tries env) (io_world io) copy_buffer None (GetEcosReader key) (io_agent io)
      = Ret (r2, agent2, object_view e data, None)"
    using copy_out_prepared [OF p(1,3)] p(4) unfolding fuel by metis
  then show ?thesis
    using o(1,3) by (auto simp: get_full_def object_stored_def format_time_def sint_size)
qed

lemma get_range_ok:
  assumes s: "storage_ok e c ps pool wd" and ans: "answers_ok (g_answers env) c"
    and o: "object_stored e c ps key data meta io" "\<And>server ctx. a_meta (g_answers env) server ctx (ObjId meta) = Inr meta" "length data < 2 ^ 62"
    and f: "length data + copy_buffer < g_fuel env * copy_buffer" and i: "0 < l" "i + l \<le> length data"
  shows "\<exists>agent. get_range env q b key e meta (io_world io) \<lparr>hr_start = int i, hr_length = int l\<rparr> (GetEcosReader key) (io_agent io)
    = Ret (agent, [SetStatus 206, SetTime ''Last-Modified'' (the (UpdateTime meta)),
        SetHeader ''Content-Range'' (contentRange (int (length data)) \<lparr>hr_start = int i, hr_length = int l\<rparr>),
        SendBytes (take l (drop i (object_view e data)))])"
proof -
  obtain views P r1 agent1 where p: "prepare e (g_answers env) (g_tries env) (GetEcosReader key) (io_agent io) = Ret (r1, agent1, None)"
      "fetches e (g_answers env) (io_world io) meta views P" "reading meta views P (concat views) r1 agent1" "concat views = object_view e data"
    by (rule open_object [OF s ans ans o, where anss = "map o_answers (g_retries env)", folded g_tries_eq])
  have v: "ObjSize meta = word_of_nat (length (concat views))" "length (concat views) < 2 ^ 62" "i < length (concat views)"
    using o(1,3) i p(4) by (simp_all add: object_stored_def)
  have "concat views \<noteq> []"
    using v(3) by (metis gr_implies_not0 list.size(3))
  then have "curBlockIndex r1 < length views"
    using p(3) by (auto simp: reading_def intro!: le_neq_implies_less)
  then obtain r2 where r2: "er_Seek e (g_answers env) (g_tries env) (int i) 0 (GetEcosReader key) (io_agent io) = Ret (r2, agent1, int i, None)"
      "reading meta views P (drop i (concat views)) r2 agent1"
    using er_Seek_ok [OF p(2,3) _ v] er_Seek_prepared [OF p(1,3)] by metis
  obtain fuel where fuel: "g_fuel env = Suc fuel" "l < fuel * copy_buffer"
    using f i by (cases "g_fuel env") auto
  have le: "l \<le> length (drop i (concat views))"
    using i(2) p(4) by simp
  obtain r3 agent3 where "CopyN_out (g_fuel env) e (g_answers env) (g_tries env) (io_world io) (int l) r2 agent1 = Ret (r3, agent3, take l (drop i (concat views)), None)"
    using CopyN_out_ok [OF p(2) r2(2) i(1) le fuel(2)] unfolding fuel(1) by blast
  then show ?thesis
    using r2(1) o(1,3) p(4) by (auto simp: get_range_def object_stored_def format_time_def sint_size)
qed

lemma getObject_held:
  assumes e: "opens (g_libs env) conf e" "storage_ok e c ps pool wd" and h: "holds (g_lru env) conf e c ps b key data meta cl"
    and s: "bucket_served (g_answers env) conf c b (c_bucket e)" "good_comp b"
    and m: "\<And>server ctx. a_meta (g_answers env) server ctx (ObjId meta) = Inr meta"
    and q: "get_request q b key" "key \<notin> {[], ''/''}"
    and body: "\<And>f. f_config f = conf \<Longrightarrow> f_bucketInfo f = Some (c_bucket e) \<Longrightarrow> object_stored e c ps key data meta (f_io f) \<Longrightarrow>
      \<exists>f'. get_body env q b key meta f = Ret (f', rs)"
  shows "\<exists>g. route GET ObjectRoute env q (start cl) = Ret g \<and> gw_replies g = greeting @ rs"
proof -
  obtain f where f: "factories cl = [f]" "f_config f = conf" "f_bucketInfo f = Some (c_bucket e)" "io_world (f_io f) = cl_world cl"
      "io_next (f_io f) = cl_next cl" "object_stored e c ps key data meta (f_io f)"
    using h by (auto simp: holds_def)
  let ?g = "(start cl)\<lparr>gw_replies := greeting\<rparr>"
  have g: "cl_config (gw_client ?g) = conf" "agent_near (g_answers env) c (cl_agent (gw_client ?g))" "GenObjectId (c_ring e) (c_bucket e) key = Ret (ObjId meta)"
    using h f(6) new_near [OF s(1)] by (simp_all add: holds_def start_def object_stored_def)
  obtain agent where a: "getObjectOperator env q b key ?g = Ret (?g\<lparr>gw_client := cl\<lparr>cl_agent := agent\<rparr>\<rparr>, Some meta)"
    using getObjectOperator_near [OF e g(1) s(1) g(2,3) m] by (auto simp: start_def)
  obtain f' where "get_body env q b key meta f = Ret (f', rs)"
    using body f(2,3,6) by blast
  moreover have "fold say rs g = g\<lparr>gw_replies := gw_replies g @ rs\<rparr>" for g :: "'a Gw"
    by (induction rs arbitrary: g) (simp_all add: say_def)
  moreover have "bucketName_q q = b" "key_q q = key" "b \<noteq> []" "key \<noteq> []" "start cl\<lparr>gw_replies := gw_replies (start cl) @ greeting\<rparr> = ?g"
    using q s(2) by (auto simp: get_request_def good_comp_def start_def)
  ultimately show ?thesis
    unfolding route_object(2) [OF q(2,1)]
    using a open_again [OF h f(1,3-5)]
    by (simp add: getObject_def parseBucketKey_def parseBucket_def open_factory_def with_factory_def start_def)
qed

text \<open>The replies to a \<^verbatim>\<open>GET\<close> of the whole object and of a range of it.\<close>

definition full_reply :: "IOEnv \<Rightarrow> ObjectMeta \<Rightarrow> bytes \<Rightarrow> reply list" where
  "full_reply e meta data =
     [SetHeader ''ETag'' (ObjId meta), SetTime ''Last-Modified'' (the (UpdateTime meta)),
      SendData 200 (int (length data)) (object_view e data) None]"

definition range_reply :: "IOEnv \<Rightarrow> ObjectMeta \<Rightarrow> bytes \<Rightarrow> nat \<Rightarrow> nat \<Rightarrow> reply list" where
  "range_reply e meta data i j =
     [SetHeader ''ETag'' (ObjId meta), SetStatus 206, SetTime ''Last-Modified'' (the (UpdateTime meta)),
      SetHeader ''Content-Range'' (''bytes '' @ Itoa (int i) @ ''-'' @ Itoa (int j) @ ''/'' @ Itoa (int (length data))),
      SendBytes (take (Suc j - i) (drop i (object_view e data)))]"

lemma get_body_held:
  assumes e: "opens (g_libs env) conf e" "storage_ok e c ps pool wd" and ans: "answers_ok (g_answers env) c"
    and m: "\<And>server ctx. a_meta (g_answers env) server ctx (ObjId meta) = Inr meta" and n: "length data < 2 ^ 62"
      "length data + copy_buffer < g_fuel env * copy_buffer"
    and f: "f_config f = conf" "f_bucketInfo f = Some (c_bucket e)" "object_stored e c ps key data meta (f_io f)"
  shows "GetHeader q ''Range'' = [] \<Longrightarrow> \<exists>f'. get_body env q b key meta f = Ret (f', full_reply e meta data)"
    and "i \<le> j \<Longrightarrow> j < length data \<Longrightarrow> GetHeader q ''Range'' = ''bytes='' @ Itoa (int i) @ ''-'' @ Itoa (int j) \<Longrightarrow>
      \<exists>f'. get_body env q b key meta f = Ret (f', range_reply e meta data i j)"
proof -
  have fe: "factory_env (g_libs env) f = Ret e" "sint (ObjSize meta) = int (length data)"
    using factory_env_opens [OF e(1) f(1,2)] f(3) n(1) by (simp_all add: object_stored_def sint_size)
  show "\<exists>f'. get_body env q b key meta f = Ret (f', full_reply e meta data)" if "GetHeader q ''Range'' = []"
    using get_full_ok [OF e(2) ans f(3) m n(1)] n(2) fe that by (auto simp: get_body_def full_reply_def)
  show "\<exists>f'. get_body env q b key meta f = Ret (f', range_reply e meta data i j)"
    if h: "i \<le> j" "j < length data" "GetHeader q ''Range'' = ''bytes='' @ Itoa (int i) @ ''-'' @ Itoa (int j)"
  proof -
    define l where "l = Suc j - i"
    have l: "int (j - i) + 1 = int l" "0 < l" "i + l \<le> length data" "int j < int (length data)" "int (length data) < 2 ^ 63"
      using h n(1) by (simp_all add: l_def)
    note p = parseRange_show [OF h(1) l(4,5), unfolded l(1)]
    obtain agent where "get_range env q b key e meta (io_world (f_io f)) \<lparr>hr_start = int i, hr_length = int l\<rparr> (GetEcosReader key) (io_agent (f_io f))
      = Ret (agent, [SetStatus 206, SetTime ''Last-Modified'' (the (UpdateTime meta)),
          SetHeader ''Content-Range'' (contentRange (int (length data)) \<lparr>hr_start = int i, hr_length = int l\<rparr>),
          SendBytes (take l (drop i (object_view e data)))])"
      using get_range_ok [OF e(2) ans f(3) m n l(2,3)] by blast
    then show ?thesis
      using p h(3) fe unfolding range_reply_def l_def [symmetric] by (auto simp: get_body_def)
  qed
qed

text \<open>
  C4: A gateway that was just started stores the object of a \<^verbatim>\<open>PUT\<close>, whose body is plain or made of signed
  chunks, in a cluster that answers and stores, and replies 200.  A \<^verbatim>\<open>GET\<close> of the same key, answered with
  the metadata recorded by the \<^verbatim>\<open>PUT\<close>, replies its size and its bytes; with a range it replies 206 and
  exactly the bytes of the range.  As for every reader, a last chunk of at most 4096 bytes is read as zeros.
\<close>

theorem gateway_put_get:
  assumes e: "opens (g_libs env) conf e" "storage_ok e c ps pool wd" "chunk_pool conf = Ret pool" and lru: "lru_ok (g_lru env) p0"
    and b: "bucket_served (g_answers env) conf c b (c_bucket e)" "good_comp b"
    and r: "\<forall>server ctx m. \<exists>r. a_record (g_answers env) server ctx m = Inr r"
    and q: "put_request q b key" "key \<notin> {[], ''/''}" "carries q data" "length data < 2 ^ 62"
  shows "\<exists>cl meta. route PUT_h ObjectRoute env q (start (NewClient conf p0 wd next))
      = Ret ((start cl)\<lparr>gw_replies := greeting @ [SetStatus 200], gw_recorded := [meta]\<rparr>)
    \<and> (\<forall>env' q'. g_libs env' = g_libs env \<longrightarrow> g_lru env' = g_lru env \<longrightarrow> bucket_served (g_answers env') conf c b (c_bucket e) \<longrightarrow>
         (\<forall>server ctx. a_meta (g_answers env') server ctx (ObjId meta) = Inr meta) \<longrightarrow>
         length data + copy_buffer < g_fuel env' * copy_buffer \<longrightarrow> get_request q' b key \<longrightarrow>
         (GetHeader q' ''Range'' = [] \<longrightarrow>
            (\<exists>g. route GET ObjectRoute env' q' (start cl) = Ret g \<and> gw_replies g = greeting @ full_reply e meta data))
       \<and> (\<forall>i j. i \<le> j \<longrightarrow> j < length data \<longrightarrow> GetHeader q' ''Range'' = ''bytes='' @ Itoa (int i) @ ''-'' @ Itoa (int j) \<longrightarrow>
            (\<exists>g. route GET ObjectRoute env' q' (start cl) = Ret g \<and> gw_replies g = greeting @ range_reply e meta data i j)))"
proof -
  obtain cl meta where p: "route PUT_h ObjectRoute env q (start (NewClient conf p0 wd next))
      = Ret ((start cl)\<lparr>gw_replies := greeting @ [SetStatus 200], gw_recorded := [meta]\<rparr>)" "holds (g_lru env) conf e c ps b key data meta cl"
    using put_ok [OF e lru b _ q(1-3)] r by blast
  show ?thesis
  proof (intro exI [of _ cl] exI [of _ meta] conjI p(1) allI impI)
    fix env' q'
    assume env': "g_libs env' = g_libs env" "g_lru env' = g_lru env" "bucket_served (g_answers env') conf c b (c_bucket e)"
      "\<forall>server ctx. a_meta (g_answers env') server ctx (ObjId meta) = Inr meta"
      "length data + copy_buffer < g_fuel env' * copy_buffer" "get_request q' b key"
    have o: "opens (g_libs env') conf e" "holds (g_lru env') conf e c ps b key data meta cl" "answers_ok (g_answers env') c"
      using e(1) p(2) env'(1-3) by (simp_all add: bucket_served_def)
    note held = getObject_held [OF o(1) e(2) o(2) env'(3) b(2) env'(4) [rule_format] env'(6) q(2)]
    note body = get_body_held [OF o(1) e(2) o(3) env'(4) [rule_format] q(4) env'(5)]
    show "\<exists>g. route GET ObjectRoute env' q' (start cl) = Ret g \<and> gw_replies g = greeting @ full_reply e meta data"
      if "GetHeader q' ''Range'' = []"
      using body(1) [of _ key q' b] that by (intro held) blast
    show "\<exists>g. route GET ObjectRoute env' q' (start cl) = Ret g \<and> gw_replies g = greeting @ range_reply e meta data i j"
      if "i \<le> j" "j < length data" "GetHeader q' ''Range'' = ''bytes='' @ Itoa (int i) @ ''-'' @ Itoa (int j)" for i j
      using body(2) [of _ key i j q' b] that by (intro held) blast
  qed
qed

section \<open>An object nobody stored\<close>

lemma missing_text: "\<not> mentions (rpc_error (Err MetaNotExist)) InfoNotFound" "\<not> term_refused (rpc_error (Err MetaNotExist))"
  unfolding mentions_def term_refused_def by (simp_all add: rpc_error_text del: Error.simps)

text \<open>
  C35: A \<^verbatim>\<open>GET\<close> or \<^verbatim>\<open>HEAD\<close> of a key that the metadata service does not know, in a bucket that exists, replies
  an internal error, not the \<^verbatim>\<open>NoSuchKey\<close> with status 404 that the interface documents: the handler looks for
  the text of \<^verbatim>\<open>InfoNotFound\<close>, and the service answers with \<^verbatim>\<open>MetaNotExist\<close>.
\<close>

theorem getObject_missing:
  assumes e: "opens (g_libs env) conf e" "storage_ok e c ps pool wd"
    and b: "bucket_served (g_answers env) conf c b (c_bucket e)" "good_comp b"
    and m: "\<forall>server ctx i. a_meta (g_answers env) server ctx i = Inl (rpc_error (Err MetaNotExist))"
    and q: "get_request q b key" "key \<notin> {[], ''/''}"
  shows "\<forall>meth \<in> {GET, HEAD}. \<exists>g. route meth ObjectRoute env q (start (NewClient conf p0 wd next)) = Ret g
    \<and> gw_replies g = greeting @ [SendXML 500 (ErrorDoc (InternalError_s3 (Error (rpc_error (Err MetaNotExist))) b (URLPath q) (Some key)))]"
proof -
  let ?g = "(start (NewClient conf p0 wd next))\<lparr>gw_replies := greeting\<rparr>"
  obtain objID where o: "GenObjectId (c_ring e) (c_bucket e) key = Ret objID"
    using GenObjectId_Ret [of "c_ring e" "c_bucket e" key] e(2) by (auto simp: storage_ok_def env_ok_def)
  have g: "cl_config (gw_client ?g) = conf" "agent_near (g_answers env) c (cl_agent (gw_client ?g))"
    using new_near [OF b(1)] by (simp_all add: start_def NewClient_def)
  obtain g' where "getObjectOperator env q b key ?g = Ret (g', None)" "gw_replies g' = greeting
      @ [SendXML 500 (ErrorDoc (InternalError_s3 (Error (rpc_error (Err MetaNotExist))) b (URLPath q) (Some key)))]"
    using getObjectOperator_near [OF e g(1) b(1) g(2) o, of "Inl (rpc_error (Err MetaNotExist))" q] m missing_text
    by (auto simp: Let_def say_error_def say_def)
  moreover have "bucketName_q q = b" "key_q q = key" "b \<noteq> []" "key \<noteq> []" "key \<noteq> ''/''" "\<not> GetQuery q ''uploadId''" "\<not> GetQuery q ''partNumber''"
    using q b(2) by (auto simp: get_request_def good_comp_def)
  moreover have "fold say [SetHeader ''Server'' ''ECOS'', SetHeader ''Accept-Ranges'' ''bytes''] (start (NewClient conf p0 wd next)) = ?g"
    by (simp add: say_def greeting_def start_def)
  ultimately show ?thesis
    by (simp add: route_def objectLevelGetHandler_def objectLevelHeadHandler_def getObject_def headObject_def parseBucketKey_def parseBucket_def
        del: fold_simps)
qed

section \<open>An example\<close>

text \<open>A cache that never drops an entry, and the cluster of the client's example, with a bucket.\<close>

definition example_lru :: "(string \<times> nat) list Lru" where
  "example_lru =
     \<lparr>lru_Get = (\<lambda>k p. (p, map_of p k)), lru_Add = (\<lambda>k v p. ((k, v) # p, [])),
      lru_Remove = (\<lambda>k p. (filter (\<lambda>x. fst x \<noteq> k) p, map snd (filter (\<lambda>x. fst x = k) p)))\<rparr>"

definition gateway_answers :: "ObjectMeta result \<Rightarrow> Answers" where
  "gateway_answers res =
     client_answers\<lparr>a_info := (\<lambda>m t i. if t = BUCKET_INFO then Inr (BaseInfo_BucketInfo example_bucket) else a_info client_answers m t i),
       a_meta := (\<lambda>server ctx i. res)\<rparr>"

definition gateway_env :: "ObjectMeta result \<Rightarrow> (string \<times> nat) list GwEnv" where
  "gateway_env res =
     \<lparr>g_libs = Libs.truncate client_env, g_lru = example_lru,
      g_op = example_ops\<lparr>o_answers := gateway_answers res\<rparr>, g_retries = [], g_time = (\<lambda>i. \<lparr>Seconds = 5, Nanos = 0\<rparr>), g_fuel = 2\<rparr>"

definition example_http :: "(string, string) smap \<Rightarrow> pieces \<Rightarrow> HttpReq" where
  "example_http headers body =
     \<lparr>bucketName_q = ''default'', key_q = ''/k'', URLPath = ''/default/k'', Query_q = [], Header_q = headers, ContentLength = - 1,
      Body = body, DeleteBody = Inl EOF, CompleteBody = Inl EOF, CreateBody = Inl EOF, FormBody = Inl EOF\<rparr>"

definition example_chunks :: "(string \<times> string \<times> bytes) list" where
  "example_chunks = [(''1388'', ''5ab1'', replicate 5000 7), (''3'', ''5ab2'', [1, 2, 3]), (''0'', ''5ab3'', [])]"

definition example_put :: HttpReq where
  "example_put = example_http [(''X-Amz-Content-Sha256'', ''STREAMING-AWS4-HMAC-SHA256-PAYLOAD'')]
     (body_of [concat (map signed_chunk example_chunks)] [])"

abbreviation "example_wd \<equiv> io_world client_io"
abbreviation "example_chunk_pool \<equiv> io_pool client_io"

lemma example_gateway:
  "opens (g_libs (gateway_env res)) DefaultConfig client_env"
  "storage_ok client_env client_cluster client_pipes example_chunk_pool example_wd"
  "chunk_pool DefaultConfig = Ret example_chunk_pool"
  "lru_ok (g_lru (gateway_env res)) []"
  "bucket_served (g_answers (gateway_env res)) DefaultConfig client_cluster ''default'' (c_bucket client_env)"
  "good_comp ''default''"
proof -
  show "opens (g_libs (gateway_env res)) DefaultConfig client_env"
    by (simp add: opens_def gateway_env_def client_env_def example_bucket_def)
  show "storage_ok client_env client_cluster client_pipes example_chunk_pool example_wd"
    using client_example_ok by (simp add: client_ok_parts)
  show "chunk_pool DefaultConfig = Ret example_chunk_pool"
    by (simp add: chunk_pool_def DefaultConfig_def NewPool_def client_io_def)
  show "lru_ok (g_lru (gateway_env res)) []"
    by (simp add: lru_ok_def gateway_env_def example_lru_def)
  have "answers_ok (gateway_answers res) client_cluster"
    using client_answers_ok by (simp add: gateway_answers_def answers_ok_def)
  then show "bucket_served (g_answers (gateway_env res)) DefaultConfig client_cluster ''default'' (c_bucket client_env)"
    by (simp add: bucket_served_def g_answers_def gateway_env_def DefaultConfig_def)
      (simp add: gateway_answers_def client_answers_def client_env_def configured_cluster_def client_cluster_def example_cluster_def example_node_def)
  show "good_comp ''default''"
    by (simp add: good_comp_def)
qed

theorem getObject_missing_witness:
  "\<exists>g. route GET ObjectRoute (gateway_env (Inl (rpc_error (Err MetaNotExist)))) (example_http [] (body_of [] []))
      (start (NewClient DefaultConfig [] example_wd 0)) = Ret g
    \<and> gw_replies g = greeting
        @ [SendXML 500 (ErrorDoc (InternalError_s3 (Error (rpc_error (Err MetaNotExist))) ''default'' ''/default/k'' (Some ''/k'')))]"
proof -
  have "\<forall>server ctx i. a_meta (g_answers (gateway_env (Inl (rpc_error (Err MetaNotExist))))) server ctx i = Inl (rpc_error (Err MetaNotExist))"
      "get_request (example_http [] (body_of [] [])) ''default'' ''/k''" "''/k'' \<notin> {[], ''/''}"
    by (simp_all add: g_answers_def gateway_env_def gateway_answers_def get_request_def example_http_def GetQuery_def sm_load_def)
  from getObject_missing [OF example_gateway(1,2,5,6) this, of "[]" 0] show ?thesis
    by (simp add: example_http_def)
qed

lemma example_carries: "carries example_put (replicate 5000 7 @ [1, 2, 3])"
proof -
  have "list_all chunk_valid example_chunks"
    by (simp add: chunk_valid_def example_chunks_def hex_value_def is_word_def del: replicate.simps)
  moreover have "replicate 5000 7 @ [1, 2, 3] = concat (map (\<lambda>ch. snd (snd ch)) example_chunks)"
    by (simp add: example_chunks_def del: replicate.simps)
  moreover have "GetHeader example_put ''X-Amz-Content-Sha256'' = ''STREAMING-AWS4-HMAC-SHA256-PAYLOAD''"
    "Body example_put = body_of [concat (map signed_chunk example_chunks)] []"
    by (simp_all add: example_put_def example_http_def GetHeader_def sm_load_def)
  ultimately show ?thesis
    unfolding carries_def by (intro exI [of _ "[concat (map signed_chunk example_chunks)]"] exI [of _ "[]"] conjI) auto
qed

lemma example_view:
  "object_view client_env (replicate 5000 7 @ [1, 2, 3]) = replicate 5000 7 @ [1, 2, 3]" "length (replicate 5000 7 @ [1, 2, 3 :: byte]) = 5003"
  "take 3 (drop 4999 (replicate 5000 7 @ [1, 2, 3 :: byte])) = [7, 1, 2]"
proof -
  show l: "length (replicate 5000 7 @ [1, 2, 3 :: byte]) = 5003"
    by (simp add: length_replicate)
  have "lost client_env (length (replicate 5000 7 @ [1, 2, 3 :: byte])) = 0"
    unfolding l by (simp add: lost_def client_env_def DefaultConfig_def bufio_size_def)
  then show "object_view client_env (replicate 5000 7 @ [1, 2, 3]) = replicate 5000 7 @ [1, 2, 3]"
    unfolding object_view_def by (simp del: replicate.simps)
  have "drop 4999 (replicate 5000 7 @ [1, 2, 3 :: byte]) = replicate (5000 - 4999) 7 @ [1, 2, 3]"
    by (simp only: drop_append drop_replicate length_replicate) simp
  then show "take 3 (drop 4999 (replicate 5000 7 @ [1, 2, 3 :: byte])) = [7, 1, 2]"
    by simp
qed

theorem gateway_put_get_witness:
  "\<exists>cl meta g. route PUT_h ObjectRoute (gateway_env (Inl EOF)) example_put (start (NewClient DefaultConfig [] example_wd 0))
      = Ret ((start cl)\<lparr>gw_replies := greeting @ [SetStatus 200], gw_recorded := [meta]\<rparr>)
    \<and> route GET ObjectRoute (gateway_env (Inr meta)) (example_http [(''Range'', ''bytes=4999-5001'')] (body_of [] [])) (start cl) = Ret g
    \<and> gw_replies g = greeting @ [SetHeader ''ETag'' (ObjId meta), SetStatus 206, SetTime ''Last-Modified'' (the (UpdateTime meta)),
        SetHeader ''Content-Range'' ''bytes 4999-5001/5003'', SendBytes [7, 1, 2]]"
proof -
  let ?data = "replicate 5000 7 @ [1, 2, 3 :: byte]" and ?q = "example_http [(''Range'', ''bytes=4999-5001'')] (body_of [] [])"
  have q: "\<forall>server ctx m. \<exists>r. a_record (g_answers (gateway_env (Inl EOF))) server ctx m = Inr r" "put_request example_put ''default'' ''/k''"
      "''/k'' \<notin> {[], ''/''}" "length ?data < 2 ^ 62"
    unfolding example_view(2)
    by (simp_all add: g_answers_def gateway_env_def gateway_answers_def client_answers_def put_request_def example_put_def example_http_def
        GetQuery_def GetHeader_def sm_load_def)
  note p = gateway_put_get [OF example_gateway(1-6) q(1-3) example_carries q(4), of 0]
  have r: "g_libs (gateway_env res) = g_libs (gateway_env (Inl EOF))" "g_lru (gateway_env res) = g_lru (gateway_env (Inl EOF))"
      "a_meta (g_answers (gateway_env res)) server ctx i = res" "length ?data + copy_buffer < g_fuel (gateway_env res) * copy_buffer" for res server ctx i
    unfolding example_view(2) by (simp_all add: g_answers_def gateway_env_def gateway_answers_def copy_buffer_def)
  have i: "Itoa (int 4999) = ''4999''" "Itoa (int 5001) = ''5001''" "Itoa (int 5003) = ''5003''"
    by (simp_all add: Itoa_def show_nat.simps digit_char_def char_of_def bit_0)
  have g: "get_request ?q ''default'' ''/k''" "GetHeader ?q ''Range'' = ''bytes='' @ Itoa (int 4999) @ ''-'' @ Itoa (int 5001)"
    unfolding i by (simp_all add: get_request_def example_http_def GetQuery_def GetHeader_def sm_load_def)
  have rr: "range_reply client_env meta ?data 4999 5001 = [SetHeader ''ETag'' (ObjId meta), SetStatus 206, SetTime ''Last-Modified'' (the (UpdateTime meta)),
        SetHeader ''Content-Range'' ''bytes 4999-5001/5003'', SendBytes [7, 1, 2]]" for meta
    unfolding range_reply_def example_view(1,2) i using example_view(3) by simp
  have n: "(4999 :: nat) \<le> 5001" "5001 < length ?data"
    unfolding example_view(2) by simp_all
  from p show ?thesis
  proof (elim exE conjE, goal_cases)
    case (1 cl meta)
    note get = 1(2) [THEN spec [of _ "gateway_env (Inr meta)"], THEN spec [of _ ?q], THEN mp [OF _ r(1)], THEN mp [OF _ r(2)], THEN mp [OF _ example_gateway(5)]]
    have "\<forall>server ctx. a_meta (g_answers (gateway_env (Inr meta))) server ctx (ObjId meta) = Inr meta"
      using r(3) by simp
    then have "\<exists>g. route GET ObjectRoute (gateway_env (Inr meta)) ?q (start cl) = Ret g
        \<and> gw_replies g = greeting @ range_reply client_env meta ?data 4999 5001"
      using get r(4) g n by blast
    then show ?case
      using 1(1) unfolding rr by blast
  qed
qed

end
