(* ===== verification/Spec2Isabelle.thy ===== *)
theory Spec2Isabelle
  imports Ecos_Prelude Go_Strings Errno Infos Objects Pipelines Meta_Storage Raft_Node Alaya_Raft
    Moon Monitor Sun Watcher Alaya Gaia Client_Agent Client_Block Ecos_Writer Ecos_Reader Ecos_Factory Ecos_Parts
    Auth Client_Operator Rainbow Outpost Cloud_Link Gateway_Http Gateway_Object Gateway_Router Gateway_Spec
begin

text \<open>
  A model of the edge-cloud object storage ECOS and theorems about it.

  \<^bold>\<open>The program.\<close>  An edge node runs a moon (a raft-replicated store of cluster, node and bucket
  information), a watcher with a monitor (membership and cluster terms), an alaya (object metadata, one
  raft group for each placement group), a gaia (blocks on disk, copied along a pipeline of nodes) and an
  outpost (a stream to the cloud).  In the cloud the sun gives edge nodes their identifiers and the
  rainbow relays requests to edge nodes and keeps metadata and blocks of its own.  A client finds out
  about the cluster, splits objects into blocks and chunks, stores them at the nodes of their pipelines
  and records the metadata.  The gateway serves the interface of S3 over a client.

  \<^bold>\<open>The theories.\<close>  Foundations and the edge node:
  \<^item> \<open>Ecos_Prelude\<close>: runs of Go code (return, panic, fatal exit, blocking), results with errors,
    the map type and its laws.
  \<^item> \<open>Go_Strings\<close>: the functions of the Go packages \<^verbatim>\<open>strings\<close>, \<^verbatim>\<open>strconv\<close> and \<^verbatim>\<open>path\<close> the code calls.
  \<^item> \<open>Errno\<close>: \<^verbatim>\<open>utils/errno\<close>; which errors a text search in a remote error finds.
  \<^item> \<open>Infos\<close>: \<^verbatim>\<open>edge-node/infos\<close>, the information types, the in-memory storage and the register, which
    satisfy the contract of a store.
  \<^item> \<open>Objects\<close>: \<^verbatim>\<open>edge-node/object\<close> and \<^verbatim>\<open>utils/common/mapper.go\<close>, identifiers and placement with
    their round trips and bounds.
  \<^item> \<open>Pipelines\<close>: \<^verbatim>\<open>edge-node/pipeline\<close>; which groups have a pipeline and of which nodes.
  \<^item> \<open>Meta_Storage\<close>: \<^verbatim>\<open>shared/alaya/meta_storage.go\<close>, a storage as the effect of a log.
  \<^item> \<open>Raft_Node\<close>: \<^verbatim>\<open>edge-node/raft-node\<close>, the driver of the raft library, which delivers every entry
    exactly once, except those an installed snapshot jumps over; snapshots and compaction.
  \<^item> \<open>Alaya_Raft\<close>: \<^verbatim>\<open>edge-node/alaya/alaya_raft.go\<close>, a metadata group; its storage refines the log a
    replica has read, and its steps as a transition system.  The in-memory storage restores nothing
    from a snapshot, so a replica that joins by one lacks what it stands for.
  \<^item> \<open>Moon\<close>, \<open>Monitor\<close>, \<open>Watcher\<close>: \<^verbatim>\<open>edge-node/moon\<close> and \<^verbatim>\<open>edge-node/watcher\<close>; the information service
    refines a partial map, and what is published becomes current.
  \<^item> \<open>Alaya\<close>: \<^verbatim>\<open>edge-node/alaya/alaya.go\<close>, \<^verbatim>\<open>shared/alaya/tags.go\<close> and \<^verbatim>\<open>edge-node/cleaner\<close>, the request
    handlers over the metadata groups, their guards and the groups a node starts.
  \<^item> \<open>Gaia\<close>: \<^verbatim>\<open>edge-node/gaia\<close>, \<^verbatim>\<open>shared/gaia\<close> and \<^verbatim>\<open>cloud/rainbow/cloud_gaia.go\<close>; an acknowledged block
    is the same at every node of its pipeline, up to the tail that stays in a write buffer.

  The client:
  \<^item> \<open>Client_Agent\<close>: \<^verbatim>\<open>client/info-agent\<close> and \<^verbatim>\<open>client/io/meta.go\<close>.
  \<^item> \<open>Client_Block\<close>: \<^verbatim>\<open>client/io/block.go\<close>, \<^verbatim>\<open>client/io/upload.go\<close> and \<^verbatim>\<open>utils/common/pool.go\<close>.
  \<^item> \<open>Ecos_Writer\<close>, \<open>Ecos_Reader\<close>, \<open>Ecos_Factory\<close>, \<open>Ecos_Parts\<close>: the rest of \<^verbatim>\<open>client/io\<close>.  The
    invariant of a writer says what is in which chunk and block; an object that was written and closed
    is read back, in one upload or in parts.
  \<^item> \<open>Auth\<close>: \<^verbatim>\<open>messenger\<close>, tokens and the interceptors of a call.
  \<^item> \<open>Client_Operator\<close>: \<^verbatim>\<open>client/client.go\<close>, \<^verbatim>\<open>client/operator.go\<close> and \<^verbatim>\<open>client/cloud_operator.go\<close>; the
    life of a bucket, against the model of the information service.

  The cloud:
  \<^item> \<open>Sun\<close>: \<^verbatim>\<open>cloud/sun\<close>.
  \<^item> \<open>Rainbow\<close>: \<^verbatim>\<open>cloud/rainbow\<close>, the router of responses, the streams and the services of the cloud.
  \<^item> \<open>Outpost\<close>: \<^verbatim>\<open>edge-node/outpost\<close>.
  \<^item> \<open>Cloud_Link\<close>: both ends of the stream of one node as one transition system, from the opening of
    the stream on; responses are delivered in order and exactly once.

  The gateway:
  \<^item> \<open>Gateway_Http\<close>: requests, replies, the error documents and the helpers (\<^verbatim>\<open>errors.go\<close>, \<^verbatim>\<open>utils.go\<close>,
    \<^verbatim>\<open>utils_object.go\<close>, \<^verbatim>\<open>utils_bucket.go\<close> of \<^verbatim>\<open>gateway/router\<close>).
  \<^item> \<open>Gateway_Object\<close>: the handlers of \<^verbatim>\<open>object.go\<close>.
  \<^item> \<open>Gateway_Router\<close>: the handlers of \<^verbatim>\<open>multipart.go\<close> and \<^verbatim>\<open>bucket.go\<close>, and the routes.
  \<^item> \<open>Gateway_Spec\<close>: what is put through the router is got through it, and what an unknown key gives.

  \<^bold>\<open>Conventions.\<close>  Structs are records with the fields of the source, integers keep their width,
  maps are association lists with distinct keys, a channel is the list of what was sent on it,
  and a call to another machine is represented by its reply.  The nodes a client talks to answer with
  functions (\<open>Answers\<close>, \<open>OpAnswers\<close>), one for each attempt of a request that is repeated; blocks go to
  the modelled servers themselves.  A handler of the gateway returns the list of replies it makes.  A
  proposal takes the list of requests the group commits ahead of it, and returns when the log has
  released its waiter.  A change of the members of a raft group takes the number of times the code repeats
  it, or the notifications sent to the channel it waits on with their receivers; a message that was
  decoded only in part is whatever decoding left of it.  Libraries outside the repository
  (hash ring, CRUSH, raft, message encoding, the cache of the client, hashes and unique identifiers) are
  parameters with named hypotheses, each with a concrete instance.  Goroutines that are started and
  awaited run where they are awaited, so uploads of blocks and parts do not overlap; loops over a stream are
  steps of a transition system.

  \<^bold>\<open>Bounds.\<close>  Loops over data recurse on the data.  The loop over signed chunks takes as many turns as the
  body has bytes, which is enough since every chunk has some; copying out of a reader takes the turns
  given by \<open>g_fuel\<close>, and the theorem asks for one more than the object has buffers of 32768 bytes.
  Retries end with the list of answers; a wait for an answer that never comes is the result \<open>Blocks\<close>.
  Lengths of objects are below \<open>2 ^ 62\<close> where the code computes with signed integers.

  \<^bold>\<open>Not modelled.\<close>  Network transport, logging, configuration, command lines, metrics, RocksDB and
  generated message codecs: they call libraries outside the repository or only do input and output.
  HTTP and XML encodings and the texts of times: a request arrives parsed and a reply is a document.
  The redistribution of blocks after a cluster change, which nothing registers; reading metadata and
  edge blocks through the cloud from the client, and the error documents nothing replies with, which
  nothing calls; the time limit of a request of the gateway.  A stream to the cloud that breaks and is
  opened again, and messages dropped after three failed attempts to send them.
\<close>

end
